(* ===== verification/Prelude.thy ===== *)
theory Prelude
  imports Main "HOL-Library.Word" "HOL-Library.Char_ord" "HOL-Library.List_Lexorder"
    "HOL-Library.Multiset"
begin

text \<open>
  Shared vocabulary of the development: the machine integers of the Rust sources, the
  \<open>Result\<close> values of fallible operations, byte strings, three-way comparison (the
  derived \<open>Ord\<close> of Rust) and the list lemmas the components rely on.
\<close>

section \<open>Collections of facts\<close>

named_theorems emits_intros \<open>one write step is undone by one read step\<close>
named_theorems advances_intros \<open>a reader never moves backwards\<close>
named_theorems codec_defs \<open>definitions of composite readers\<close>

section \<open>Machine integers\<close>

type_synonym u8 = "8 word"
type_synonym u16 = "16 word"
type_synonym u32 = "32 word"
type_synonym u64 = "64 word"

text \<open>
  \<open>usize\<close> values (lengths, offsets, instruction indices) are natural numbers; the
  platform bound is written out where the code checks it.
\<close>

definition usize_max :: nat where
  "usize_max = 2 ^ 64 - 1"

section \<open>Results\<close>

text \<open>\<open>Result<T, E>\<close> is \<open>'e + 'a\<close>, with \<open>Inl\<close> for \<open>Err\<close>; the \<open>?\<close> operator is \<open>try\<close>.\<close>

fun try_bind :: "'e + 'a \<Rightarrow> ('a \<Rightarrow> 'e + 'b) \<Rightarrow> 'e + 'b" where
  "try_bind (Inl e) f = Inl e"
| "try_bind (Inr x) f = f x"

fun try_for_each :: "('a \<Rightarrow> 'e + unit) \<Rightarrow> 'a list \<Rightarrow> 'e + unit" where
  "try_for_each f [] = Inr ()"
| "try_for_each f (x # xs) = try_bind (f x) (\<lambda>_. try_for_each f xs)"

lemma try_bind_Inr_iff [simp]: "try_bind m f = Inr y \<longleftrightarrow> (\<exists>x. m = Inr x \<and> f x = Inr y)"
  by (cases m) auto

lemma try_for_each_Inr_iff [simp]: "try_for_each f xs = Inr u \<longleftrightarrow> (\<forall>x \<in> set xs. f x = Inr ())"
  by (induction xs) auto

lemma try_bind_cong [fundef_cong]:
  "m = m' \<Longrightarrow> (\<And>x. m' = Inr x \<Longrightarrow> f x = g x) \<Longrightarrow> try_bind m f = try_bind m' g"
  by (cases m') auto

lemma try_for_each_cong [fundef_cong]:
  "xs = ys \<Longrightarrow> (\<And>x. x \<in> set ys \<Longrightarrow> f x = g x) \<Longrightarrow> try_for_each f xs = try_for_each g ys"
  by (induction ys arbitrary: xs) auto

text \<open>\<open>try_fold\<close> threads a state through a loop that may fail, \<open>traverse\<close> collects its values.\<close>

fun try_fold :: "('a \<Rightarrow> 's \<Rightarrow> 'e + 's) \<Rightarrow> 'a list \<Rightarrow> 's \<Rightarrow> 'e + 's" where
  "try_fold f [] s = Inr s"
| "try_fold f (x # xs) s = try_bind (f x s) (try_fold f xs)"

fun traverse :: "('a \<Rightarrow> 'e + 'b) \<Rightarrow> 'a list \<Rightarrow> 'e + 'b list" where
  "traverse f [] = Inr []"
| "traverse f (x # xs) = try_bind (f x) (\<lambda>y. try_bind (traverse f xs) (\<lambda>ys. Inr (y # ys)))"

lemma try_fold_append: "try_fold f (xs @ ys) s = try_bind (try_fold f xs s) (try_fold f ys)"
proof (induction xs arbitrary: s)
  case (Cons x xs)
  show ?case by (cases "f x s") (simp_all add: Cons)
qed simp

lemma try_fold_invariant:
  "try_fold f xs s = Inr t \<Longrightarrow> P s \<Longrightarrow> (\<And>x s t. x \<in> set xs \<Longrightarrow> P s \<Longrightarrow> f x s = Inr t \<Longrightarrow> P t) \<Longrightarrow> P t"
  by (induction xs arbitrary: s) auto

lemma traverse_Inr_iff: "traverse f xs = Inr ys \<longleftrightarrow> list_all2 (\<lambda>x y. f x = Inr y) xs ys"
  by (induction xs arbitrary: ys) (auto simp: list_all2_Cons1)

section \<open>Strings as bytes\<close>

text \<open>
  A Rust \<open>String\<close> is a sequence of UTF-8 bytes: \<open>string\<close>, whose characters are bytes.
  \<open>utf8_valid\<close> is the acceptance test of \<open>String::from_utf8\<close>: shortest-form sequences of
  one to four bytes that avoid the surrogates and stay below \<open>0x110000\<close>.
\<close>

definition byte_of_char :: "char \<Rightarrow> u8" where
  "byte_of_char c = word_of_nat (of_char c)"

definition char_of_byte :: "u8 \<Rightarrow> char" where
  "char_of_byte b = char_of (unat b)"

definition as_bytes :: "string \<Rightarrow> u8 list" where
  "as_bytes s = map byte_of_char s"

definition from_bytes :: "u8 list \<Rightarrow> string" where
  "from_bytes bs = map char_of_byte bs"

definition utf8_tail :: "u8 \<Rightarrow> bool" where
  "utf8_tail b \<longleftrightarrow> 0x80 \<le> b \<and> b \<le> 0xBF"

fun utf8_valid :: "u8 list \<Rightarrow> bool" where
  "utf8_valid [] = True"
| "utf8_valid (b # bs) =
     (if b \<le> 0x7F then utf8_valid bs
      else case bs of
        [] \<Rightarrow> False
      | c # cs \<Rightarrow>
          if 0xC2 \<le> b \<and> b \<le> 0xDF then utf8_tail c \<and> utf8_valid cs
          else (case cs of
            [] \<Rightarrow> False
          | d # ds \<Rightarrow>
              if 0xE0 \<le> b \<and> b \<le> 0xEF then
                (if b = 0xE0 then 0xA0 \<le> c \<and> c \<le> 0xBF
                 else if b = 0xED then 0x80 \<le> c \<and> c \<le> 0x9F
                 else utf8_tail c) \<and> utf8_tail d \<and> utf8_valid ds
              else (case ds of
                [] \<Rightarrow> False
              | e # es \<Rightarrow>
                  0xF0 \<le> b \<and> b \<le> 0xF4 \<and>
                  (if b = 0xF0 then 0x90 \<le> c \<and> c \<le> 0xBF
                   else if b = 0xF4 then 0x80 \<le> c \<and> c \<le> 0x8F
                   else utf8_tail c) \<and> utf8_tail d \<and> utf8_tail e \<and> utf8_valid es)))"

lemma char_of_byte_of_char [simp]: "char_of_byte (byte_of_char c) = c"
  by (simp add: char_of_byte_def byte_of_char_def unat_of_nat)

lemma byte_of_char_of_byte [simp]: "byte_of_char (char_of_byte b) = b"
proof -
  have "unat b < 256" using unsigned_less [of b, where 'a = nat] by simp
  then show ?thesis by (simp add: char_of_byte_def byte_of_char_def)
qed

lemma from_as_bytes [simp]: "from_bytes (as_bytes s) = s"
  by (simp add: from_bytes_def as_bytes_def o_def)

lemma as_from_bytes [simp]: "as_bytes (from_bytes bs) = bs"
  by (simp add: from_bytes_def as_bytes_def o_def)

lemma length_as_bytes [simp]: "length (as_bytes s) = length s"
  by (simp add: as_bytes_def)

section \<open>Lists\<close>

text \<open>\<open>slice::windows(2)\<close> and \<open>Vec::get\<close>.\<close>

definition windows2 :: "'a list \<Rightarrow> ('a \<times> 'a) list" where
  "windows2 xs = zip xs (tl xs)"

definition get :: "'a list \<Rightarrow> nat \<Rightarrow> 'a option" where
  "get xs i = (if i < length xs then Some (xs ! i) else None)"

lemma windows2_simps [simp]:
  "windows2 [] = []"
  "windows2 [x] = []"
  "windows2 (x # y # zs) = (x, y) # windows2 (y # zs)"
  by (simp_all add: windows2_def)

lemma windows2_strict_sorted:
  fixes xs :: "'a::linorder list"
  shows "list_all (\<lambda>(a, b). a < b) (windows2 xs) \<longleftrightarrow> sorted_wrt (<) xs"
  by (induction xs rule: induct_list012) (auto dest: less_trans)

lemma windows2_strict_sorted_key:
  fixes f :: "'b \<Rightarrow> 'a::linorder"
  shows "list_all (\<lambda>(a, b). f a < f b) (windows2 xs) \<longleftrightarrow> sorted_wrt (<) (map f xs)"
  by (induction xs rule: induct_list012) (auto dest: less_trans)

lemma strict_sorted_remdups_adj:
  fixes xs :: "'a::linorder list"
  shows "sorted xs \<Longrightarrow> sorted_wrt (<) (remdups_adj xs)"
  by (induction xs rule: remdups_adj.induct) (auto simp: order_less_le)

lemma strict_sorted_remdups_adj_sort [simp]:
  fixes xs :: "'a::linorder list"
  shows "sorted_wrt (<) (remdups_adj (sort xs))"
  by (simp add: strict_sorted_remdups_adj)

lemma strict_sorted_set_unique:
  fixes xs :: "'a::linorder list"
  assumes "sorted_wrt (<) xs" "sorted_wrt (<) ys" "set xs = set ys"
  shows "xs = ys"
  using assms by (simp add: strict_sorted_iff sorted_distinct_set_unique)

text \<open>\<open>iter().find\<close> on a column whose entries are distinct finds the row of the key.\<close>

lemma find_distinct_key:
  "distinct (map f xs) \<Longrightarrow> x \<in> set xs \<Longrightarrow> find (\<lambda>y. f y = f x) xs = Some x"
  by (induction xs) auto

lemma find_key_Some_iff:
  assumes "distinct (map f xs)"
  shows "find (\<lambda>y. f y = k) xs = Some x \<longleftrightarrow> x \<in> set xs \<and> f x = k"
  using assms find_distinct_key [OF assms, of x] by (auto simp: find_Some_iff)

text \<open>A sort by keys that are distinct does not depend on the order of its input.\<close>

lemma sort_key_mset_cong:
  assumes "mset xs = mset ys" "distinct (map k xs)"
  shows "sort_key k xs = sort_key k ys"
proof (rule properties_for_sort_key)
  show "mset (sort_key k ys) = mset xs" using assms(1) by simp
  show "sorted (map k (sort_key k ys))" by simp
next
  fix x
  assume "x \<in> set (sort_key k ys)"
  then have "x \<in> set xs" using mset_eq_setD [OF assms(1)] by simp
  have xs: "[y \<leftarrow> xs. k x = k y] = [x]"
    using assms(2) \<open>x \<in> set xs\<close> by (induction xs) (auto simp: filter_empty_conv image_iff)
  have "mset [y \<leftarrow> sort_key k ys. k x = k y] = mset [y \<leftarrow> xs. k x = k y]"
    using assms(1) by simp
  then show "[y \<leftarrow> sort_key k ys. k x = k y] = [y \<leftarrow> xs. k x = k y]"
    unfolding xs by (simp only: mset.simps mset_single_iff)
qed

end
