(* ===== verification/Comparison.thy ===== *)
theory Comparison
  imports Prelude
begin

text \<open>
  Three-way comparison, the model of Rust's \<open>#[derive(PartialOrd, Ord)]\<close>: the declared
  order of the constructors first, then the fields from left to right, sequences
  lexicographically. The locale \<open>comparator\<close> states what such a comparison promises;
  its interpretations give the linear orders of the model's types.
\<close>

datatype ord3 = Lt | Eq | Gt

fun swap_ord :: "ord3 \<Rightarrow> ord3" where
  "swap_ord Lt = Gt"
| "swap_ord Eq = Eq"
| "swap_ord Gt = Lt"

fun cmp_then :: "ord3 \<Rightarrow> ord3 \<Rightarrow> ord3" where
  "cmp_then Eq r = r"
| "cmp_then Lt r = Lt"
| "cmp_then Gt r = Gt"

definition cmp_lin :: "'a::linorder \<Rightarrow> 'a \<Rightarrow> ord3" where
  "cmp_lin x y = (if x < y then Lt else if x = y then Eq else Gt)"

fun cmp_list :: "('a \<Rightarrow> 'a \<Rightarrow> ord3) \<Rightarrow> 'a list \<Rightarrow> 'a list \<Rightarrow> ord3" where
  "cmp_list c [] [] = Eq"
| "cmp_list c [] (y # ys) = Lt"
| "cmp_list c (x # xs) [] = Gt"
| "cmp_list c (x # xs) (y # ys) = cmp_then (c x y) (cmp_list c xs ys)"

lemma cmp_list_cong [fundef_cong]:
  "xs = xs' \<Longrightarrow> ys = ys' \<Longrightarrow> (\<And>x y. x \<in> set xs' \<Longrightarrow> y \<in> set ys' \<Longrightarrow> c x y = c' x y) \<Longrightarrow>
   cmp_list c xs ys = cmp_list c' xs' ys'"
proof (induction xs arbitrary: xs' ys ys')
  case Nil
  then show ?case by (cases ys') auto
next
  case (Cons x xs)
  then show ?case by (cases ys') auto
qed

lemma cmp_then_cong [fundef_cong]:
  "a = a' \<Longrightarrow> (a' = Eq \<Longrightarrow> b = b') \<Longrightarrow> cmp_then a b = cmp_then a' b'"
  by (cases a') auto

lemma cmp_then_Eq_iff [simp]: "cmp_then a b = Eq \<longleftrightarrow> a = Eq \<and> b = Eq"
  by (cases a) auto

lemma cmp_then_Lt_iff: "cmp_then a b = Lt \<longleftrightarrow> a = Lt \<or> (a = Eq \<and> b = Lt)"
  by (cases a) auto

lemma swap_cmp_then: "swap_ord (cmp_then a b) = cmp_then (swap_ord a) (swap_ord b)"
  by (cases a) auto

lemma swap_ord_Eq_iff [simp]: "swap_ord a = Eq \<longleftrightarrow> a = Eq"
  by (cases a) auto

lemma swap_ord_swap_ord [simp]: "swap_ord (swap_ord a) = a"
  by (cases a) auto

lemma cmp_lin_Eq_iff [simp]: "cmp_lin x y = Eq \<longleftrightarrow> x = y"
  by (auto simp: cmp_lin_def)

lemma cmp_lin_Lt_iff: "cmp_lin x y = Lt \<longleftrightarrow> x < y"
  by (auto simp: cmp_lin_def)

lemma cmp_lin_swap: "cmp_lin y x = swap_ord (cmp_lin x y)"
  by (auto simp: cmp_lin_def)

section \<open>Laws of a comparison\<close>

text \<open>
  The laws for one left argument. A comparison of a recursive datatype is proved to
  satisfy them by induction on the left argument: first the equality law, then the
  other two with the equality law already known everywhere.
\<close>

definition cmp_eq_at :: "('a \<Rightarrow> 'a \<Rightarrow> ord3) \<Rightarrow> 'a \<Rightarrow> bool" where
  "cmp_eq_at c x \<longleftrightarrow> (\<forall>y. c x y = Eq \<longleftrightarrow> x = y)"

definition cmp_swap_at :: "('a \<Rightarrow> 'a \<Rightarrow> ord3) \<Rightarrow> 'a \<Rightarrow> bool" where
  "cmp_swap_at c x \<longleftrightarrow> (\<forall>y. c y x = swap_ord (c x y))"

definition cmp_trans_at :: "('a \<Rightarrow> 'a \<Rightarrow> ord3) \<Rightarrow> 'a \<Rightarrow> bool" where
  "cmp_trans_at c x \<longleftrightarrow> (\<forall>y z. c x y = Lt \<longrightarrow> c y z = Lt \<longrightarrow> c x z = Lt)"

lemma cmp_list_eq_at:
  "(\<And>x. x \<in> set xs \<Longrightarrow> cmp_eq_at c x) \<Longrightarrow> cmp_list c xs ys = Eq \<longleftrightarrow> xs = ys"
proof (induction xs arbitrary: ys)
  case Nil
  then show ?case by (cases ys) auto
next
  case (Cons x xs)
  then show ?case by (cases ys) (auto simp: cmp_eq_at_def)
qed

lemma cmp_list_swap_at:
  "(\<And>x. x \<in> set xs \<Longrightarrow> cmp_swap_at c x) \<Longrightarrow> cmp_list c ys xs = swap_ord (cmp_list c xs ys)"
proof (induction xs arbitrary: ys)
  case Nil
  then show ?case by (cases ys) auto
next
  case (Cons x xs)
  then show ?case by (cases ys) (auto simp: cmp_swap_at_def swap_cmp_then)
qed

lemma cmp_list_trans_at:
  assumes eq: "\<And>x. cmp_eq_at c x"
  shows "(\<And>x. x \<in> set xs \<Longrightarrow> cmp_trans_at c x) \<Longrightarrow> cmp_list c xs ys = Lt \<Longrightarrow>
    cmp_list c ys zs = Lt \<Longrightarrow> cmp_list c xs zs = Lt"
proof (induction xs arbitrary: ys zs)
  case Nil
  then show ?case by (cases ys; cases zs) auto
next
  case (Cons x xs)
  have eqs: "c a b = Eq \<longleftrightarrow> a = b" for a b using eq [of a] by (simp add: cmp_eq_at_def)
  have tr: "c x y = Lt \<Longrightarrow> c y z = Lt \<Longrightarrow> c x z = Lt" for y z
    using Cons.prems(1) [of x] by (auto simp: cmp_trans_at_def)
  from Cons.prems(2) obtain y ys' where ys: "ys = y # ys'" by (cases ys) auto
  from Cons.prems(3) ys obtain z zs' where zs: "zs = z # zs'" by (cases zs) auto
  have IH: "cmp_list c xs ys' = Lt \<Longrightarrow> cmp_list c ys' zs' = Lt \<Longrightarrow> cmp_list c xs zs' = Lt"
    by (rule Cons.IH) (auto intro: Cons.prems(1))
  from Cons.prems(2,3) show ?case
    unfolding ys zs cmp_list.simps cmp_then_Lt_iff eqs using tr IH by auto
qed

locale comparator =
  fixes cmp :: "'a \<Rightarrow> 'a \<Rightarrow> ord3"
  assumes eq_at: "cmp_eq_at cmp x"
    and swap_at: "cmp_swap_at cmp x"
    and trans_at: "cmp_trans_at cmp x"
begin

lemma cmp_Eq_iff: "cmp x y = Eq \<longleftrightarrow> x = y"
  using eq_at [of x] by (simp add: cmp_eq_at_def)

lemma cmp_swap: "cmp y x = swap_ord (cmp x y)"
  using swap_at [of x] by (simp add: cmp_swap_at_def)

lemma cmp_trans: "cmp x y = Lt \<Longrightarrow> cmp y z = Lt \<Longrightarrow> cmp x z = Lt"
  using trans_at [of x] by (auto simp: cmp_trans_at_def)

lemma cmp_refl: "cmp x x = Eq"
  by (simp add: cmp_Eq_iff)

lemma less_le_not_le: "cmp x y = Lt \<longleftrightarrow> cmp x y \<noteq> Gt \<and> \<not> cmp y x \<noteq> Gt"
  using cmp_swap [of x y] by (cases "cmp x y"; cases "cmp y x") auto

lemma le_refl: "cmp x x \<noteq> Gt"
  by (simp add: cmp_refl)

lemma le_trans: "cmp x y \<noteq> Gt \<Longrightarrow> cmp y z \<noteq> Gt \<Longrightarrow> cmp x z \<noteq> Gt"
  using cmp_trans [of x y z] cmp_Eq_iff [of x y] cmp_Eq_iff [of y z]
  by (cases "cmp x y"; cases "cmp y z") auto

lemma le_antisym: "cmp x y \<noteq> Gt \<Longrightarrow> cmp y x \<noteq> Gt \<Longrightarrow> x = y"
  using cmp_swap [of x y] cmp_Eq_iff [of x y] by (cases "cmp x y"; cases "cmp y x") auto

lemma le_total: "cmp x y \<noteq> Gt \<or> cmp y x \<noteq> Gt"
  using cmp_swap [of x y] by (cases "cmp x y"; cases "cmp y x") auto

lemmas linorder_laws = less_le_not_le le_refl le_trans le_antisym le_total

end

interpretation lin: comparator "cmp_lin :: 'a::linorder \<Rightarrow> 'a \<Rightarrow> ord3"
  by unfold_locales
    (auto simp: cmp_eq_at_def cmp_swap_at_def cmp_trans_at_def cmp_lin_def split: if_splits)

section \<open>Keys\<close>

text \<open>
  A derived order compares the discriminant first and then the fields from left to right,
  which is the lexicographic order of the list of discriminant and fields. For types with
  many constructors the order is therefore given by a key: numbers, strings and sequences
  of keys. The locale \<open>derived_ord\<close> turns an injective key into a comparator.
\<close>

datatype ord_key = Key_nat nat | Key_string string | Key_list "ord_key list"

fun cmp_key :: "ord_key \<Rightarrow> ord_key \<Rightarrow> ord3" where
  "cmp_key (Key_nat m) k = (case k of Key_nat n \<Rightarrow> cmp_lin m n | _ \<Rightarrow> Lt)"
| "cmp_key (Key_string s) k =
     (case k of Key_nat _ \<Rightarrow> Gt | Key_string t \<Rightarrow> cmp_lin s t | Key_list _ \<Rightarrow> Lt)"
| "cmp_key (Key_list ks) k = (case k of Key_list ls \<Rightarrow> cmp_list cmp_key ks ls | _ \<Rightarrow> Gt)"

lemma cmp_key_eq_at: "cmp_eq_at cmp_key k"
  by (induction k) (auto simp: cmp_eq_at_def [of cmp_key] cmp_list_eq_at split: ord_key.splits)

lemma cmp_key_swap_at: "cmp_swap_at cmp_key k"
proof (induction k)
  case (Key_list ks)
  have "cmp_list cmp_key ls ks = swap_ord (cmp_list cmp_key ks ls)" for ls
    by (rule cmp_list_swap_at) (rule Key_list)
  then show ?case by (auto simp: cmp_swap_at_def split: ord_key.splits)
qed (auto simp: cmp_swap_at_def split: ord_key.splits intro: cmp_lin_swap)

lemma cmp_key_trans_at: "cmp_trans_at cmp_key k"
proof (induction k)
  case (Key_list ks)
  then have "cmp_list cmp_key ks ls = Lt \<Longrightarrow> cmp_list cmp_key ls ms = Lt \<Longrightarrow> cmp_list cmp_key ks ms = Lt"
    for ls ms by (rule cmp_list_trans_at [OF cmp_key_eq_at])
  then show ?case by (auto simp: cmp_trans_at_def split: ord_key.splits)
qed (auto simp: cmp_trans_at_def cmp_lin_Lt_iff split: ord_key.splits)

interpretation key_cmp: comparator cmp_key
  by unfold_locales (rule cmp_key_eq_at cmp_key_swap_at cmp_key_trans_at)+

locale derived_ord =
  fixes key :: "'a \<Rightarrow> ord_key"
  assumes key_inject: "key x = key y \<Longrightarrow> x = y"

sublocale derived_ord \<subseteq> comparator "\<lambda>x y. cmp_key (key x) (key y)"
  by unfold_locales
    (auto simp: cmp_eq_at_def cmp_swap_at_def cmp_trans_at_def key_cmp.cmp_Eq_iff
      intro: key_inject key_cmp.cmp_swap key_cmp.cmp_trans)

definition key_bool :: "bool \<Rightarrow> ord_key" where
  "key_bool b = Key_nat (if b then 1 else 0)"

lemma key_bool_inject [simp]: "key_bool a = key_bool b \<longleftrightarrow> a = b"
  by (simp add: key_bool_def)

instantiation ord_key :: linorder
begin

definition less_eq_ord_key :: "ord_key \<Rightarrow> ord_key \<Rightarrow> bool" where
  "less_eq_ord_key k l \<longleftrightarrow> cmp_key k l \<noteq> Gt"

definition less_ord_key :: "ord_key \<Rightarrow> ord_key \<Rightarrow> bool" where
  "less_ord_key k l \<longleftrightarrow> cmp_key k l = Lt"

instance
  by standard (unfold less_eq_ord_key_def less_ord_key_def,
    (rule key_cmp.linorder_laws; assumption)+)

end

end
