(* ===== verification/Exec_Types.thy ===== *)
theory Exec_Types
  imports Comparison
begin

text \<open>
  The executable types of \<open>bytecode/src/codegen/types.rs\<close> with the callable parameters of
  \<open>bytecode/src/types.rs\<close> and the operators of \<open>bytecode/src/ast.rs\<close>: the type language,
  its derived order, canonical control-flow alternatives, specializations, substitution and
  the inference of specializations from operand shapes.
\<close>

section \<open>Data\<close>

text \<open>Arena indices (\<open>la_arena::Idx\<close>) are their raw \<open>u32\<close> values.\<close>

type_synonym function_id = u32
type_synonym record_id = u32
type_synonym variant_type_id = u32
type_synonym variant_id = u32
type_synonym local_id = u32

datatype unary_op = Negate | Not | BitNot

datatype binary_op = Add | Subtract | Multiply | Divide | BitAnd | BitOr | BitXor
  | ShiftLeft | ShiftRight | Equal | NotEqual | Less | LessEqual | Greater | GreaterEqual

datatype parameter_mode = Borrow | Consume

datatype 'a parameter = Parameter (ty: 'a) (mode: parameter_mode)

text \<open>\<open>Parameter::try_from_parts\<close> and \<open>from_parts\<close>; \<open>None\<close> is the panic of \<open>expect\<close>.\<close>

datatype parameter_count_mismatch = ParameterCountMismatch

definition parameter_try_from_parts ::
  "'a list \<Rightarrow> parameter_mode list \<Rightarrow> parameter_count_mismatch + 'a parameter list" where
  "parameter_try_from_parts types modes =
     (if length types \<noteq> length modes then Inl ParameterCountMismatch
      else Inr (map (\<lambda>(ty, mode). Parameter ty mode) (zip types modes)))"

definition parameter_from_parts ::
  "'a list \<Rightarrow> parameter_mode list \<Rightarrow> 'a parameter list option" where
  "parameter_from_parts types modes =
     (case parameter_try_from_parts types modes of Inl _ \<Rightarrow> None | Inr ps \<Rightarrow> Some ps)"

datatype executable_type =
    Never
  | Unknown
  | Generic string
  | Unit
  | Bool
  | Integer
  | Float
  | CodePoint
  | Byte
  | Bytes
  | ByteBuffer
  | List executable_type
  | Reference executable_type
  | Remote executable_type
  | Future executable_type
  | Function "executable_type parameter list" executable_type
  | Record record_id "executable_type list"
  | Variant variant_type_id "executable_type list"
  | Alternatives "executable_type list"
  | Intersection "executable_type list"
  | AliasArguments variant_type_id "executable_type list"

section \<open>The derived order\<close>

fun parameter_mode_rank :: "parameter_mode \<Rightarrow> nat" where
  "parameter_mode_rank Borrow = 0"
| "parameter_mode_rank Consume = 1"

fun type_rank :: "executable_type \<Rightarrow> nat" where
  "type_rank Never = 0"
| "type_rank Unknown = 1"
| "type_rank (Generic _) = 2"
| "type_rank Unit = 3"
| "type_rank Bool = 4"
| "type_rank Integer = 5"
| "type_rank Float = 6"
| "type_rank CodePoint = 7"
| "type_rank Byte = 8"
| "type_rank Bytes = 9"
| "type_rank ByteBuffer = 10"
| "type_rank (List _) = 11"
| "type_rank (Reference _) = 12"
| "type_rank (Remote _) = 13"
| "type_rank (Future _) = 14"
| "type_rank (Function _ _) = 15"
| "type_rank (Record _ _) = 16"
| "type_rank (Variant _ _) = 17"
| "type_rank (Alternatives _) = 18"
| "type_rank (Intersection _) = 19"
| "type_rank (AliasArguments _ _) = 20"

definition cmp_parameter :: "('a \<Rightarrow> 'a \<Rightarrow> ord3) \<Rightarrow> 'a parameter \<Rightarrow> 'a parameter \<Rightarrow> ord3" where
  "cmp_parameter c p q =
     cmp_then (c (ty p) (ty q)) (cmp_lin (parameter_mode_rank (mode p)) (parameter_mode_rank (mode q)))"

lemma cmp_parameter_cong [fundef_cong]:
  "p = p' \<Longrightarrow> q = q' \<Longrightarrow> (\<And>x y. x \<in> set_parameter p' \<Longrightarrow> y \<in> set_parameter q' \<Longrightarrow> c x y = c' x y) \<Longrightarrow>
   cmp_parameter c p q = cmp_parameter c' p' q'"
  by (cases p'; cases q') (simp add: cmp_parameter_def)

lemma size_parameter_lt [termination_simp]:
  "x \<in> set_parameter p \<Longrightarrow> p \<in> set ps \<Longrightarrow>
   size x < Suc (size_list (size_parameter size) ps + k)"
proof -
  assume x: "x \<in> set_parameter p" and p: "p \<in> set ps"
  have "size x < size_parameter size p" using x by (cases p) auto
  also have "\<dots> \<le> size_list (size_parameter size) ps" using p by (simp add: size_list_estimation')
  finally show ?thesis by simp
qed

fun cmp_type :: "executable_type \<Rightarrow> executable_type \<Rightarrow> ord3" where
  "cmp_type (Generic a) u =
     (case u of Generic b \<Rightarrow> cmp_lin a b | _ \<Rightarrow> cmp_lin 2 (type_rank u))"
| "cmp_type (List a) u =
     (case u of List b \<Rightarrow> cmp_type a b | _ \<Rightarrow> cmp_lin 11 (type_rank u))"
| "cmp_type (Reference a) u =
     (case u of Reference b \<Rightarrow> cmp_type a b | _ \<Rightarrow> cmp_lin 12 (type_rank u))"
| "cmp_type (Remote a) u =
     (case u of Remote b \<Rightarrow> cmp_type a b | _ \<Rightarrow> cmp_lin 13 (type_rank u))"
| "cmp_type (Future a) u =
     (case u of Future b \<Rightarrow> cmp_type a b | _ \<Rightarrow> cmp_lin 14 (type_rank u))"
| "cmp_type (Function ps r) u =
     (case u of Function qs s \<Rightarrow> cmp_then (cmp_list (cmp_parameter cmp_type) ps qs) (cmp_type r s)
      | _ \<Rightarrow> cmp_lin 15 (type_rank u))"
| "cmp_type (Record i as) u =
     (case u of Record j bs \<Rightarrow> cmp_then (cmp_lin i j) (cmp_list cmp_type as bs)
      | _ \<Rightarrow> cmp_lin 16 (type_rank u))"
| "cmp_type (Variant i as) u =
     (case u of Variant j bs \<Rightarrow> cmp_then (cmp_lin i j) (cmp_list cmp_type as bs)
      | _ \<Rightarrow> cmp_lin 17 (type_rank u))"
| "cmp_type (Alternatives as) u =
     (case u of Alternatives bs \<Rightarrow> cmp_list cmp_type as bs | _ \<Rightarrow> cmp_lin 18 (type_rank u))"
| "cmp_type (Intersection as) u =
     (case u of Intersection bs \<Rightarrow> cmp_list cmp_type as bs | _ \<Rightarrow> cmp_lin 19 (type_rank u))"
| "cmp_type (AliasArguments i as) u =
     (case u of AliasArguments j bs \<Rightarrow> cmp_then (cmp_lin i j) (cmp_list cmp_type as bs)
      | _ \<Rightarrow> cmp_lin 20 (type_rank u))"
| "cmp_type t u = cmp_lin (type_rank t) (type_rank u)"

lemma parameter_mode_rank_inj [simp]: "parameter_mode_rank m = parameter_mode_rank n \<longleftrightarrow> m = n"
  by (cases m; cases n) auto

lemma cmp_parameter_Parameter [simp]:
  "cmp_parameter c (Parameter t m) (Parameter u n) =
   cmp_then (c t u) (cmp_lin (parameter_mode_rank m) (parameter_mode_rank n))"
  by (simp add: cmp_parameter_def)

lemma cmp_parameter_eq_at:
  "(\<And>x. x \<in> set_parameter p \<Longrightarrow> cmp_eq_at c x) \<Longrightarrow> cmp_eq_at (cmp_parameter c) p"
  unfolding cmp_eq_at_def [of "cmp_parameter c"]
proof
  fix q
  assume "\<And>x. x \<in> set_parameter p \<Longrightarrow> cmp_eq_at c x"
  then show "cmp_parameter c p q = Eq \<longleftrightarrow> p = q" by (cases p; cases q) (simp add: cmp_eq_at_def)
qed

lemma cmp_parameter_swap_at:
  "(\<And>x. x \<in> set_parameter p \<Longrightarrow> cmp_swap_at c x) \<Longrightarrow> cmp_swap_at (cmp_parameter c) p"
  unfolding cmp_swap_at_def [of "cmp_parameter c"]
proof
  fix q
  assume "\<And>x. x \<in> set_parameter p \<Longrightarrow> cmp_swap_at c x"
  then show "cmp_parameter c q p = swap_ord (cmp_parameter c p q)"
    using cmp_lin_swap [of "parameter_mode_rank (mode q)" "parameter_mode_rank (mode p)"]
    by (cases p; cases q) (simp add: cmp_swap_at_def swap_cmp_then)
qed

lemma cmp_parameter_trans_at:
  "(\<And>x. cmp_eq_at c x) \<Longrightarrow> (\<And>x. x \<in> set_parameter p \<Longrightarrow> cmp_trans_at c x) \<Longrightarrow>
   cmp_trans_at (cmp_parameter c) p"
  by (cases p)
    (auto simp: cmp_trans_at_def cmp_eq_at_def cmp_parameter_def cmp_then_Lt_iff cmp_lin_Lt_iff
      dest: less_trans)

lemma type_rank_iff:
  "type_rank u = 0 \<longleftrightarrow> u = Never"
  "type_rank u = Suc 0 \<longleftrightarrow> u = Unknown"
  "type_rank u = 2 \<longleftrightarrow> (\<exists>s. u = Generic s)"
  "type_rank u = 3 \<longleftrightarrow> u = Unit"
  "type_rank u = 4 \<longleftrightarrow> u = Bool"
  "type_rank u = 5 \<longleftrightarrow> u = Integer"
  "type_rank u = 6 \<longleftrightarrow> u = Float"
  "type_rank u = 7 \<longleftrightarrow> u = CodePoint"
  "type_rank u = 8 \<longleftrightarrow> u = Byte"
  "type_rank u = 9 \<longleftrightarrow> u = Bytes"
  "type_rank u = 10 \<longleftrightarrow> u = ByteBuffer"
  "type_rank u = 11 \<longleftrightarrow> (\<exists>a. u = List a)"
  "type_rank u = 12 \<longleftrightarrow> (\<exists>a. u = Reference a)"
  "type_rank u = 13 \<longleftrightarrow> (\<exists>a. u = Remote a)"
  "type_rank u = 14 \<longleftrightarrow> (\<exists>a. u = Future a)"
  "type_rank u = 15 \<longleftrightarrow> (\<exists>ps r. u = Function ps r)"
  "type_rank u = 16 \<longleftrightarrow> (\<exists>i as. u = Record i as)"
  "type_rank u = 17 \<longleftrightarrow> (\<exists>i as. u = Variant i as)"
  "type_rank u = 18 \<longleftrightarrow> (\<exists>as. u = Alternatives as)"
  "type_rank u = 19 \<longleftrightarrow> (\<exists>as. u = Intersection as)"
  "type_rank u = 20 \<longleftrightarrow> (\<exists>i as. u = AliasArguments i as)"
  by (cases u; simp)+

lemma cmp_type_rank:
  "type_rank t \<noteq> type_rank u \<Longrightarrow> cmp_type t u = cmp_lin (type_rank t) (type_rank u)"
  by (cases t) (auto split: executable_type.split)

lemma cmp_type_eq_atI:
  assumes "\<And>u. type_rank u = type_rank t \<Longrightarrow> cmp_type t u = Eq \<longleftrightarrow> t = u"
  shows "cmp_eq_at cmp_type t"
  unfolding cmp_eq_at_def
proof
  fix u
  show "cmp_type t u = Eq \<longleftrightarrow> t = u"
  proof (cases "type_rank u = type_rank t")
    case False
    then show ?thesis using cmp_type_rank [of t u] by auto
  qed (rule assms)
qed

lemma cmp_type_swap_atI:
  assumes "\<And>u. type_rank u = type_rank t \<Longrightarrow> cmp_type u t = swap_ord (cmp_type t u)"
  shows "cmp_swap_at cmp_type t"
  unfolding cmp_swap_at_def
proof
  fix u
  show "cmp_type u t = swap_ord (cmp_type t u)"
  proof (cases "type_rank u = type_rank t")
    case False
    then show ?thesis
      using cmp_type_rank [of u t] cmp_type_rank [of t u] cmp_lin_swap [of "type_rank u"] by simp
  qed (rule assms)
qed

lemma cmp_type_Lt_rank: "cmp_type t u = Lt \<Longrightarrow> type_rank t \<le> type_rank u"
  using cmp_type_rank [of t u] by (cases "type_rank t = type_rank u") (auto simp: cmp_lin_Lt_iff)

lemma cmp_type_trans_atI:
  assumes "\<And>u v. type_rank u = type_rank t \<Longrightarrow> type_rank v = type_rank t \<Longrightarrow>
    cmp_type t u = Lt \<Longrightarrow> cmp_type u v = Lt \<Longrightarrow> cmp_type t v = Lt"
  shows "cmp_trans_at cmp_type t"
  unfolding cmp_trans_at_def
proof (intro allI impI)
  fix u v
  assume *: "cmp_type t u = Lt" "cmp_type u v = Lt"
  then have le: "type_rank t \<le> type_rank u" "type_rank u \<le> type_rank v"
    by (auto dest: cmp_type_Lt_rank)
  show "cmp_type t v = Lt"
  proof (cases "type_rank t = type_rank v")
    case True
    then show ?thesis by (intro assms [of u v]) (use le * in simp_all)
  next
    case False
    then show ?thesis using cmp_type_rank [of t v] le by (simp add: cmp_lin_Lt_iff)
  qed
qed

lemma cmp_type_eq_at: "cmp_eq_at cmp_type t"
proof (induction t)
  case (Function ps r)
  then have "cmp_eq_at (cmp_parameter cmp_type) p" if "p \<in> set ps" for p
    using that by (auto intro: cmp_parameter_eq_at)
  then show ?case using Function(2)
    by (intro cmp_type_eq_atI) (auto simp: type_rank_iff cmp_list_eq_at cmp_eq_at_def [of cmp_type])
qed (rule cmp_type_eq_atI, force simp: type_rank_iff cmp_list_eq_at cmp_eq_at_def [of cmp_type r for r])+

lemma cmp_type_swap_at: "cmp_swap_at cmp_type t"
proof (induction t)
  case (Function ps r)
  then have "cmp_swap_at (cmp_parameter cmp_type) p" if "p \<in> set ps" for p
    using that by (auto intro: cmp_parameter_swap_at)
  then show ?case using Function(2)
    by (intro cmp_type_swap_atI)
      (auto simp: type_rank_iff cmp_list_swap_at swap_cmp_then cmp_swap_at_def [of cmp_type])
next
  case (Generic s)
  show ?case
    by (rule cmp_type_swap_atI) (auto simp: type_rank_iff cmp_lin_def)
next
  case (Record i as)
  then show ?case using cmp_lin_swap [of i]
    by (intro cmp_type_swap_atI) (auto simp: type_rank_iff cmp_list_swap_at swap_cmp_then)
next
  case (Variant i as)
  then show ?case using cmp_lin_swap [of i]
    by (intro cmp_type_swap_atI) (auto simp: type_rank_iff cmp_list_swap_at swap_cmp_then)
next
  case (AliasArguments i as)
  then show ?case using cmp_lin_swap [of i]
    by (intro cmp_type_swap_atI) (auto simp: type_rank_iff cmp_list_swap_at swap_cmp_then)
qed (rule cmp_type_swap_atI, force simp: type_rank_iff cmp_list_swap_at
    cmp_swap_at_def [of cmp_type r for r] lin.cmp_refl)+

lemma cmp_type_list_trans:
  "(\<And>x. x \<in> set xs \<Longrightarrow> cmp_trans_at cmp_type x) \<Longrightarrow> cmp_list cmp_type xs ys = Lt \<Longrightarrow>
   cmp_list cmp_type ys zs = Lt \<Longrightarrow> cmp_list cmp_type xs zs = Lt"
  by (rule cmp_list_trans_at [OF cmp_type_eq_at])

lemma cmp_type_list_Eq: "cmp_list cmp_type xs ys = Eq \<longleftrightarrow> xs = ys"
  by (rule cmp_list_eq_at) (rule cmp_type_eq_at)

lemma cmp_type_id_list_trans:
  assumes "\<forall>x \<in> set xs. cmp_trans_at cmp_type x"
    and "cmp_then (cmp_lin i j) (cmp_list cmp_type xs ys) = Lt"
    and "cmp_then (cmp_lin j k) (cmp_list cmp_type ys zs) = Lt"
  shows "cmp_then (cmp_lin i k) (cmp_list cmp_type xs zs) = Lt"
proof -
  have "cmp_list cmp_type xs zs = Lt" if "cmp_list cmp_type xs ys = Lt" "cmp_list cmp_type ys zs = Lt"
    using that assms(1) by (auto intro: cmp_type_list_trans)
  then show ?thesis
    using assms(2,3) by (auto simp: cmp_then_Lt_iff cmp_lin_Lt_iff dest: less_trans)
qed

lemma cmp_type_trans_at: "cmp_trans_at cmp_type t"
proof (induction t)
  case (Function ps r)
  have eq: "cmp_eq_at (cmp_parameter cmp_type) p" for p
    by (rule cmp_parameter_eq_at) (rule cmp_type_eq_at)
  have "cmp_trans_at (cmp_parameter cmp_type) p" if "p \<in> set ps" for p
    using that Function(1) by (auto intro: cmp_parameter_trans_at cmp_type_eq_at)
  then have tr: "cmp_list (cmp_parameter cmp_type) ps qs = Lt \<Longrightarrow>
      cmp_list (cmp_parameter cmp_type) qs rs = Lt \<Longrightarrow>
      cmp_list (cmp_parameter cmp_type) ps rs = Lt" for qs rs
    by (rule cmp_list_trans_at [OF eq])
  show ?case using Function(2) cmp_type_eq_at
    by (intro cmp_type_trans_atI)
      (auto simp: type_rank_iff cmp_then_Lt_iff cmp_list_eq_at [OF eq] cmp_trans_at_def cmp_eq_at_def
        intro: tr)
next
  case (Record i as)
  then show ?case
    by (intro cmp_type_trans_atI) (fastforce simp: type_rank_iff elim: cmp_type_id_list_trans [rotated])
next
  case (Variant i as)
  then show ?case
    by (intro cmp_type_trans_atI) (fastforce simp: type_rank_iff elim: cmp_type_id_list_trans [rotated])
next
  case (AliasArguments i as)
  then show ?case
    by (intro cmp_type_trans_atI) (fastforce simp: type_rank_iff elim: cmp_type_id_list_trans [rotated])
qed (rule cmp_type_trans_atI, force simp: type_rank_iff cmp_lin_Lt_iff cmp_trans_at_def
    intro: cmp_type_list_trans)+

interpretation type_cmp: comparator cmp_type
  by unfold_locales (rule cmp_type_eq_at cmp_type_swap_at cmp_type_trans_at)+

instantiation executable_type :: linorder
begin

definition less_eq_executable_type :: "executable_type \<Rightarrow> executable_type \<Rightarrow> bool" where
  "less_eq_executable_type t u \<longleftrightarrow> cmp_type t u \<noteq> Gt"

definition less_executable_type :: "executable_type \<Rightarrow> executable_type \<Rightarrow> bool" where
  "less_executable_type t u \<longleftrightarrow> cmp_type t u = Lt"

instance
  by standard (unfold less_eq_executable_type_def less_executable_type_def,
    (rule type_cmp.linorder_laws; assumption)+)

end

end
