(* ===== verification/Type_Ops.thy ===== *)
theory Type_Ops
  imports Exec_Types
begin

text \<open>
  Operations of \<open>bytecode/src/codegen/types.rs\<close>: specializations, canonical alternatives
  and intersections, conformance witnesses, generic inference, depth and substitution.
\<close>

section \<open>Specializations\<close>

text \<open>
  \<open>Specialization\<close> is a vector of named types; \<open>specialization_ok\<close> is the invariant its
  constructors enforce: names strictly ascending.
\<close>

type_synonym specialization = "(string \<times> executable_type) list"

datatype invalid_specialization = InvalidSpecialization

definition specialization_ok :: "specialization \<Rightarrow> bool" where
  "specialization_ok sp \<longleftrightarrow> sorted_wrt (<) (map fst sp)"

definition specialization_try_from_sorted ::
  "(string \<times> executable_type) list \<Rightarrow> invalid_specialization + specialization" where
  "specialization_try_from_sorted entries =
     (if list_ex (\<lambda>(a, b). fst a \<ge> fst b) (windows2 entries) then Inl InvalidSpecialization
      else Inr entries)"

definition specialization_try_new ::
  "(string \<times> executable_type) list \<Rightarrow> invalid_specialization + specialization" where
  "specialization_try_new entries = specialization_try_from_sorted (sort_key fst entries)"

definition specialization_map_values ::
  "(executable_type \<Rightarrow> executable_type) \<Rightarrow> specialization \<Rightarrow> specialization" where
  "specialization_map_values f sp = map (\<lambda>(name, ty). (name, f ty)) sp"

text \<open>\<open>rename\<close> returns the state after the call and its result.\<close>

definition specialization_rename ::
  "(string \<Rightarrow> string) \<Rightarrow> specialization \<Rightarrow> specialization \<times> (invalid_specialization + unit)" where
  "specialization_rename name sp =
     (case specialization_try_new (map (\<lambda>(key, ty). (name key, ty)) sp) of
        Inl e \<Rightarrow> (sp, Inl e)
      | Inr renamed \<Rightarrow> (renamed, Inr ()))"

text \<open>
  The binary search of the standard library: \<open>base\<close> is the last position known not to be
  greater than the key, \<open>size\<close> the number of candidates from there.
\<close>

function binary_search_loop :: "(nat \<Rightarrow> ord3) \<Rightarrow> nat \<Rightarrow> nat \<Rightarrow> nat" where
  "binary_search_loop f base len =
     (if len \<le> 1 then base
      else let half = len div 2; mid = base + half
           in binary_search_loop f (if f mid = Gt then base else mid) (len - half))"
  by pat_completeness auto
termination
  by (relation "measure (\<lambda>(f, base, len). len)") auto

definition binary_search_by :: "('a \<Rightarrow> ord3) \<Rightarrow> 'a list \<Rightarrow> nat option" where
  "binary_search_by f xs =
     (if xs = [] then None
      else let base = binary_search_loop (\<lambda>i. f (xs ! i)) 0 (length xs)
           in if f (xs ! base) = Eq then Some base else None)"

section \<open>Canonical type sets\<close>

definition alternative_member :: "executable_type \<Rightarrow> bool" where
  "alternative_member member = (case member of Unknown \<Rightarrow> False | Alternatives _ \<Rightarrow> False | _ \<Rightarrow> True)"

definition canonical_alternatives :: "executable_type list \<Rightarrow> bool" where
  "canonical_alternatives members \<longleftrightarrow>
     length members \<ge> 2 \<and>
     list_all (\<lambda>(a, b). a < b) (windows2 members) \<and>
     list_all alternative_member members"

datatype invalid_alternatives = InvalidAlternatives

definition try_alternatives :: "executable_type list \<Rightarrow> invalid_alternatives + executable_type" where
  "try_alternatives members =
     (if \<not> canonical_alternatives members then Inl InvalidAlternatives
      else Inr (Alternatives members))"

text \<open>The collecting loop of \<open>alternatives\<close>; \<open>None\<close> is its early return of \<open>Unknown\<close>.\<close>

fun flatten_alternatives :: "executable_type list \<Rightarrow> executable_type list option" where
  "flatten_alternatives [] = Some []"
| "flatten_alternatives (member # members) =
     (case member of
        Unknown \<Rightarrow> None
      | Alternatives nested \<Rightarrow> map_option (\<lambda>fs. nested @ fs) (flatten_alternatives members)
      | other \<Rightarrow> map_option (\<lambda>fs. other # fs) (flatten_alternatives members))"

definition alternatives :: "executable_type list \<Rightarrow> executable_type" where
  "alternatives members =
     (case flatten_alternatives members of
        None \<Rightarrow> Unknown
      | Some flattened \<Rightarrow>
          (case remdups_adj (sort flattened) of
             [] \<Rightarrow> Unknown
           | [t] \<Rightarrow> t
           | ts \<Rightarrow> Alternatives ts))"

definition flatten_intersection :: "executable_type list \<Rightarrow> executable_type list" where
  "flatten_intersection members =
     concat (map (\<lambda>member. case member of Intersection nested \<Rightarrow> nested | other \<Rightarrow> [other]) members)"

definition intersection :: "executable_type list \<Rightarrow> executable_type" where
  "intersection members = Intersection (remdups_adj (sort (flatten_intersection members)))"

section \<open>Traversals\<close>

lemma size_zip_left [termination_simp]:
  "(a, b) \<in> set (zip as bs) \<Longrightarrow> size a < Suc (size_list size as)"
  using size_list_estimation' [of a as "size a" size] by (auto dest: set_zip_leftD)

lemma size_zip_parameter_left [termination_simp]:
  "(p, q) \<in> set (zip ps qs) \<Longrightarrow> size (ty p) < Suc (size_list (size_parameter size) ps + k)"
  by (rule size_parameter_lt [of _ p]) (auto dest: set_zip_leftD simp: parameter.set_sel)

lemma size_Parameter_lt [termination_simp]:
  "Parameter t m \<in> set ps \<Longrightarrow> size t < Suc (size_list (size_parameter size) ps + k)"
  by (rule size_parameter_lt [of _ "Parameter t m"]) auto

fun conformance_witness_matches :: "executable_type \<Rightarrow> executable_type \<Rightarrow> bool" where
  "conformance_witness_matches (Generic _) actual = True"
| "conformance_witness_matches (Record a aa) actual =
     (case actual of
        Record b ba \<Rightarrow> a = b \<and> length aa = length ba \<and>
          list_all (\<lambda>(a, b). conformance_witness_matches a b) (zip aa ba)
      | _ \<Rightarrow> False)"
| "conformance_witness_matches (Variant a aa) actual =
     (case actual of
        Variant b ba \<Rightarrow> a = b \<and> length aa = length ba \<and>
          list_all (\<lambda>(a, b). conformance_witness_matches a b) (zip aa ba)
      | _ \<Rightarrow> False)"
| "conformance_witness_matches (List a) actual =
     (case actual of List b \<Rightarrow> conformance_witness_matches a b | _ \<Rightarrow> False)"
| "conformance_witness_matches witness actual = (witness = actual)"

fun infer_specialization ::
  "executable_type \<Rightarrow> executable_type \<Rightarrow> (string \<rightharpoonup> executable_type) \<Rightarrow> (string \<rightharpoonup> executable_type)" where
  "infer_specialization (Generic name) actual m =
     (case m name of None \<Rightarrow> m(name \<mapsto> actual) | Some _ \<Rightarrow> m)"
| "infer_specialization (List schema) actual m =
     (case actual of List a \<Rightarrow> infer_specialization schema a m | _ \<Rightarrow> m)"
| "infer_specialization (Reference schema) actual m =
     (case actual of Reference a \<Rightarrow> infer_specialization schema a m | _ \<Rightarrow> m)"
| "infer_specialization (Remote schema) actual m =
     (case actual of Remote a \<Rightarrow> infer_specialization schema a m | _ \<Rightarrow> m)"
| "infer_specialization (Future schema) actual m =
     (case actual of Future a \<Rightarrow> infer_specialization schema a m | _ \<Rightarrow> m)"
| "infer_specialization (Record left schema) actual m =
     (case actual of
        Record right as \<Rightarrow>
          if left = right then fold (\<lambda>(s, a) m. infer_specialization s a m) (zip schema as) m else m
      | _ \<Rightarrow> m)"
| "infer_specialization (Variant left schema) actual m =
     (case actual of
        Variant right as \<Rightarrow>
          if left = right then fold (\<lambda>(s, a) m. infer_specialization s a m) (zip schema as) m else m
      | _ \<Rightarrow> m)"
| "infer_specialization (Function schema schema_result) actual m =
     (case actual of
        Function as actual_result \<Rightarrow>
          infer_specialization schema_result actual_result
            (fold (\<lambda>(s, a) m. infer_specialization (ty s) (ty a) m) (zip schema as) m)
      | _ \<Rightarrow> m)"
| "infer_specialization _ actual m = m"

fun indexed_element :: "executable_type \<Rightarrow> executable_type option" where
  "indexed_element (Reference pointee) = indexed_element pointee"
| "indexed_element (List element) = Some element"
| "indexed_element ByteBuffer = Some Byte"
| "indexed_element Unknown = Some Unknown"
| "indexed_element (Generic _) = Some Unknown"
| "indexed_element _ = None"

text \<open>\<open>iter().map(f).max().unwrap_or(0)\<close>.\<close>

definition max_of :: "nat list \<Rightarrow> nat" where
  "max_of ns = fold max ns 0"

fun depth :: "executable_type \<Rightarrow> nat" where
  "depth (List value) = 1 + depth value"
| "depth (Reference value) = 1 + depth value"
| "depth (Remote value) = 1 + depth value"
| "depth (Future value) = 1 + depth value"
| "depth (Function parameters result) =
     1 + max_of (map (\<lambda>p. case p of Parameter t _ \<Rightarrow> depth t) parameters @ [depth result])"
| "depth (Record _ arguments) = 1 + max_of (map depth arguments)"
| "depth (Variant _ arguments) = 1 + max_of (map depth arguments)"
| "depth (AliasArguments _ arguments) = 1 + max_of (map depth arguments)"
| "depth (Alternatives arguments) = 1 + max_of (map depth arguments)"
| "depth (Intersection arguments) = 1 + max_of (map depth arguments)"
| "depth _ = 1"

fun contains_generic :: "executable_type \<Rightarrow> bool" where
  "contains_generic (Generic _) = True"
| "contains_generic (List value) = contains_generic value"
| "contains_generic (Reference value) = contains_generic value"
| "contains_generic (Remote value) = contains_generic value"
| "contains_generic (Future value) = contains_generic value"
| "contains_generic (Function parameters result) =
     (list_ex (\<lambda>p. case p of Parameter t _ \<Rightarrow> contains_generic t) parameters \<or> contains_generic result)"
| "contains_generic (Record _ arguments) = list_ex contains_generic arguments"
| "contains_generic (Variant _ arguments) = list_ex contains_generic arguments"
| "contains_generic (AliasArguments _ arguments) = list_ex contains_generic arguments"
| "contains_generic (Alternatives arguments) = list_ex contains_generic arguments"
| "contains_generic (Intersection arguments) = list_ex contains_generic arguments"
| "contains_generic _ = False"

fun substitute_with :: "(string \<Rightarrow> executable_type option) \<Rightarrow> executable_type \<Rightarrow> executable_type" where
  "substitute_with lookup (Generic name) =
     (case lookup name of None \<Rightarrow> Generic name | Some t \<Rightarrow> t)"
| "substitute_with lookup (List value) = List (substitute_with lookup value)"
| "substitute_with lookup (Reference value) = Reference (substitute_with lookup value)"
| "substitute_with lookup (Remote value) = Remote (substitute_with lookup value)"
| "substitute_with lookup (Future value) = Future (substitute_with lookup value)"
| "substitute_with lookup (Function parameters result) =
     Function
       (map (\<lambda>p. case p of Parameter t m \<Rightarrow> Parameter (substitute_with lookup t) m) parameters)
       (substitute_with lookup result)"
| "substitute_with lookup (Record record arguments) =
     Record record (map (substitute_with lookup) arguments)"
| "substitute_with lookup (Variant variant arguments) =
     Variant variant (map (substitute_with lookup) arguments)"
| "substitute_with lookup (Alternatives members) =
     alternatives (map (substitute_with lookup) members)"
| "substitute_with lookup (Intersection members) =
     intersection (map (substitute_with lookup) members)"
| "substitute_with lookup (AliasArguments alias arguments) =
     AliasArguments alias (map (substitute_with lookup) arguments)"
| "substitute_with lookup other = other"

definition substitute :: "(string \<rightharpoonup> executable_type) \<Rightarrow> executable_type \<Rightarrow> executable_type" where
  "substitute substitutions t = substitute_with (\<lambda>name. substitutions name) t"

definition specialize :: "specialization \<Rightarrow> executable_type \<Rightarrow> executable_type" where
  "specialize substitutions t =
     substitute_with
       (\<lambda>name. map_option (\<lambda>index. snd (substitutions ! index))
          (binary_search_by (\<lambda>(candidate, _). cmp_lin candidate name) substitutions)) t"

end
