(* ===== verification/Type_Laws.thy ===== *)
theory Type_Laws
  imports Type_Ops
begin

text \<open>
  Laws of the executable types: the canonical-form invariant \<open>wf_type\<close> and its
  preservation, what canonical alternatives depend on, specializations as sorted tables,
  and substitution.
\<close>

section \<open>The canonical-form invariant\<close>

definition intersection_member :: "executable_type \<Rightarrow> bool" where
  "intersection_member t = (case t of Intersection _ \<Rightarrow> False | _ \<Rightarrow> True)"

lemma intersection_member_iff [simp]: "intersection_member t \<longleftrightarrow> (\<forall>us. t \<noteq> Intersection us)"
  by (cases t) (auto simp: intersection_member_def)

fun wf_type :: "executable_type \<Rightarrow> bool" where
  "wf_type (List value) = wf_type value"
| "wf_type (Reference value) = wf_type value"
| "wf_type (Remote value) = wf_type value"
| "wf_type (Future value) = wf_type value"
| "wf_type (Function parameters result) =
     (list_all (\<lambda>p. case p of Parameter t _ \<Rightarrow> wf_type t) parameters \<and> wf_type result)"
| "wf_type (Record _ arguments) = list_all wf_type arguments"
| "wf_type (Variant _ arguments) = list_all wf_type arguments"
| "wf_type (AliasArguments _ arguments) = list_all wf_type arguments"
| "wf_type (Alternatives members) = (canonical_alternatives members \<and> list_all wf_type members)"
| "wf_type (Intersection members) =
     (sorted_wrt (<) members \<and>
      list_all intersection_member members \<and> list_all wf_type members)"
| "wf_type _ = True"

lemma canonical_alternatives_iff:
  "canonical_alternatives ts \<longleftrightarrow> length ts \<ge> 2 \<and> sorted_wrt (<) ts \<and> list_all alternative_member ts"
  by (simp add: canonical_alternatives_def windows2_strict_sorted)

lemma alternative_member_simps [simp]:
  "alternative_member t \<longleftrightarrow> t \<noteq> Unknown \<and> (\<forall>ts. t \<noteq> Alternatives ts)"
  by (cases t) (auto simp: alternative_member_def)

text \<open>The members an alternatives set stands for.\<close>

definition members_of :: "executable_type \<Rightarrow> executable_type list" where
  "members_of t = (case t of Alternatives ts \<Rightarrow> ts | _ \<Rightarrow> [t])"

lemma members_of_cases:
  obtains ts where "t = Alternatives ts" "members_of t = ts"
  | "\<forall>ts. t \<noteq> Alternatives ts" "members_of t = [t]"
  by (cases t) (auto simp: members_of_def)

lemma members_of_simps [simp]:
  "members_of (Alternatives ts) = ts"
  "members_of Unknown = [Unknown]"
  "alternative_member t \<Longrightarrow> members_of t = [t]"
  by (simp_all add: members_of_def) (cases t; simp)

lemma flatten_alternatives_Cons:
  "flatten_alternatives (t # ts) =
     (if t = Unknown then None else map_option (\<lambda>fs. members_of t @ fs) (flatten_alternatives ts))"
  by (cases t; cases "flatten_alternatives ts") (simp_all add: members_of_def)

lemma flatten_alternatives_None: "flatten_alternatives ts = None \<longleftrightarrow> Unknown \<in> set ts"
  by (induction ts) (auto simp: flatten_alternatives_Cons simp del: flatten_alternatives.simps(2))

lemma flatten_alternatives_SomeE:
  assumes "Unknown \<notin> set ts"
  obtains fs where "flatten_alternatives ts = Some fs"
  using assms flatten_alternatives_None [of ts] by (cases "flatten_alternatives ts") auto

lemma flatten_alternatives_set:
  "flatten_alternatives ts = Some fs \<Longrightarrow> set fs = (\<Union>t \<in> set ts. set (members_of t))"
  by (induction ts arbitrary: fs)
    (auto simp: flatten_alternatives_Cons simp del: flatten_alternatives.simps(2) split: if_splits)

definition alternatives_of_set :: "executable_type list \<Rightarrow> executable_type" where
  "alternatives_of_set ts = (case ts of [] \<Rightarrow> Unknown | [t] \<Rightarrow> t | _ \<Rightarrow> Alternatives ts)"

lemma alternatives_alt:
  "alternatives ts = (case flatten_alternatives ts of None \<Rightarrow> Unknown
     | Some fs \<Rightarrow> alternatives_of_set (remdups_adj (sort fs)))"
  by (simp add: alternatives_def alternatives_of_set_def split: option.split list.split)

lemma alternatives_eq_Unknown_in: "Unknown \<in> set ts \<Longrightarrow> alternatives ts = Unknown"
  by (simp add: alternatives_alt flatten_alternatives_None [THEN iffD2])

lemma alternatives_cong_members:
  assumes "(\<Union>t \<in> set ts. set (members_of t)) = (\<Union>t \<in> set us. set (members_of t))"
    and "Unknown \<in> set ts \<longleftrightarrow> Unknown \<in> set us"
  shows "alternatives ts = alternatives us"
proof (cases "Unknown \<in> set ts")
  case True
  then show ?thesis using assms(2) by (simp add: alternatives_eq_Unknown_in)
next
  case False
  then obtain fs gs where fs: "flatten_alternatives ts = Some fs" and gs: "flatten_alternatives us = Some gs"
    using assms(2) by (metis flatten_alternatives_SomeE)
  have "set fs = set gs"
    using assms(1) fs gs by (simp add: flatten_alternatives_set)
  then have "remdups_adj (sort fs) = remdups_adj (sort gs)"
    by (intro strict_sorted_set_unique) auto
  then show ?thesis by (simp add: alternatives_alt fs gs)
qed

lemma wf_members_of:
  "wf_type t \<Longrightarrow> t \<noteq> Unknown \<Longrightarrow> u \<in> set (members_of t) \<Longrightarrow> wf_type u \<and> alternative_member u"
  by (cases t rule: members_of_cases) (auto simp: canonical_alternatives_iff list_all_iff)

lemma wf_members_of_nonempty: "wf_type t \<Longrightarrow> members_of t \<noteq> []"
  by (cases t rule: members_of_cases) (auto simp: canonical_alternatives_iff)

lemma flatten_alternatives_wf:
  assumes "flatten_alternatives ts = Some fs" "\<forall>t \<in> set ts. wf_type t" "u \<in> set fs"
  shows "wf_type u \<and> alternative_member u"
proof -
  have "Unknown \<notin> set ts" using assms(1) flatten_alternatives_None [of ts] by auto
  with assms show ?thesis
    by (auto simp: flatten_alternatives_set simp del: alternative_member_simps dest!: wf_members_of)
qed

lemma wf_alternatives_of_set:
  assumes "sorted_wrt (<) ts" "\<forall>t \<in> set ts. wf_type t \<and> alternative_member t"
  shows "wf_type (alternatives_of_set ts)"
  using assms
  by (auto simp: alternatives_of_set_def canonical_alternatives_iff list_all_iff split: list.split)

lemma wf_alternatives: "\<forall>t \<in> set ts. wf_type t \<Longrightarrow> wf_type (alternatives ts)"
  using flatten_alternatives_wf [of ts]
  by (auto simp: alternatives_alt simp del: alternative_member_simps split: option.split intro!: wf_alternatives_of_set)

lemma alternatives_of_set_members:
  "ts \<noteq> [] \<Longrightarrow> list_all alternative_member ts \<Longrightarrow>
   members_of (alternatives_of_set ts) = ts \<and> alternatives_of_set ts \<noteq> Unknown"
  by (cases ts rule: list.exhaust [case_product list.exhaust [of "tl ts"]])
    (auto simp: alternatives_of_set_def)

lemma members_of_alternatives:
  assumes "\<forall>t \<in> set ts. wf_type t" "ts \<noteq> []" "Unknown \<notin> set ts"
  shows "set (members_of (alternatives ts)) = (\<Union>t \<in> set ts. set (members_of t)) \<and> alternatives ts \<noteq> Unknown"
proof -
  from assms(3) obtain fs where fs: "flatten_alternatives ts = Some fs"
    by (rule flatten_alternatives_SomeE)
  define gs where "gs = remdups_adj (sort fs)"
  have set: "set gs = (\<Union>t \<in> set ts. set (members_of t))"
    using flatten_alternatives_set [OF fs] by (simp add: gs_def)
  obtain t where t: "t \<in> set ts" using assms(2) by (cases ts) auto
  have "gs \<noteq> []" using set t assms(1) wf_members_of_nonempty [of t] by auto
  moreover have "list_all alternative_member gs"
    using flatten_alternatives_wf [OF fs assms(1)] by (auto simp: gs_def list_all_iff)
  ultimately show ?thesis
    using set alternatives_of_set_members [of gs] by (simp add: alternatives_alt fs gs_def)
qed

lemma alternatives_of_canonical:
  assumes "canonical_alternatives ts"
  shows "alternatives ts = Alternatives ts"
proof -
  have "flatten_alternatives ts = Some ts" if "list_all alternative_member ts" for ts
    using that
    by (induction ts) (auto simp: flatten_alternatives_Cons simp del: flatten_alternatives.simps(2))
  moreover have "remdups_adj (sort ts) = ts"
    using assms by (intro strict_sorted_set_unique) (auto simp: canonical_alternatives_iff)
  ultimately show ?thesis
    using assms by (auto simp: alternatives_alt alternatives_of_set_def canonical_alternatives_iff split: list.split)
qed

section \<open>Specializations\<close>

lemma try_from_sorted_iff:
  "specialization_try_from_sorted entries =
     (if specialization_ok entries then Inr entries else Inl InvalidSpecialization)"
proof -
  have "list_ex (\<lambda>(a, b). fst a \<ge> fst b) (windows2 entries) \<longleftrightarrow>
      \<not> list_all (\<lambda>(a, b). fst a < fst b) (windows2 entries)"
    by (simp add: list_ex_iff list_all_iff case_prod_beta linorder_not_less)
  then show ?thesis
    by (simp add: specialization_try_from_sorted_def specialization_ok_def
        windows2_strict_sorted_key [symmetric])
qed

lemma try_new_iff:
  "specialization_try_new entries =
     (if distinct (map fst entries) then Inr (sort_key fst entries) else Inl InvalidSpecialization)"
proof -
  have "mset (map fst (sort_key fst entries)) = mset (map fst entries)" by simp
  then have "distinct (map fst (sort_key fst entries)) \<longleftrightarrow> distinct (map fst entries)"
    by (rule mset_eq_imp_distinct_iff)
  then have "specialization_ok (sort_key fst entries) \<longleftrightarrow> distinct (map fst entries)"
    by (simp add: specialization_ok_def strict_sorted_iff)
  then show ?thesis by (simp add: specialization_try_new_def try_from_sorted_iff)
qed

lemma specialization_ok_distinct: "specialization_ok sp \<Longrightarrow> distinct (map fst sp)"
  by (simp add: specialization_ok_def strict_sorted_iff)

lemma specialization_ok_map_values [simp]:
  "specialization_ok (specialization_map_values f sp) \<longleftrightarrow> specialization_ok sp"
proof -
  have "map fst (specialization_map_values f sp) = map fst sp"
    by (simp add: specialization_map_values_def case_prod_beta o_def)
  then show ?thesis by (simp add: specialization_ok_def)
qed

subsection \<open>Binary search\<close>

text \<open>
  The loop keeps the last position whose entry is not greater than the key, if there is
  one, between \<open>base\<close> and \<open>base + len\<close>.
\<close>

declare binary_search_loop.simps [simp del]

lemma binary_search_loop_correct:
  assumes "\<And>i j. i \<le> j \<Longrightarrow> j < base + len \<Longrightarrow> f j \<noteq> Gt \<Longrightarrow> f i \<noteq> Gt" "0 < len"
    and "base \<le> k" "k < base + len" "f k \<noteq> Gt" "\<And>j. k < j \<Longrightarrow> j < base + len \<Longrightarrow> f j = Gt"
  shows "binary_search_loop f base len = k"
  using assms
proof (induction f base len rule: binary_search_loop.induct)
  case (1 f base len)
  show ?case
  proof (cases "len \<le> 1")
    case True
    with "1.prems" show ?thesis by (simp add: binary_search_loop.simps [of f base len])
  next
    case False
    let ?half = "len div 2"
    let ?base = "if f (base + ?half) = Gt then base else base + ?half"
    from False have half: "0 < ?half" "?half < len" by auto
    have "binary_search_loop f ?base (len - ?half) = k"
    proof (rule "1.IH" [OF False refl refl])
      show "?base \<le> k"
      proof (cases "base + ?half \<le> k")
        case False
        then have "f (base + ?half) = Gt" using "1.prems"(6) half by simp
        then show ?thesis using "1.prems"(3) by simp
      qed (use "1.prems"(3) in simp)
      show "k < ?base + (len - ?half)"
      proof (cases "f (base + ?half) = Gt")
        case True
        then have "k < base + ?half" using "1.prems"(1) [of "base + ?half" k] "1.prems"(4,5)
          by (metis linorder_not_less)
        moreover have "?half \<le> len - ?half" by simp
        ultimately show ?thesis using True by simp
      qed (use "1.prems"(4) half in simp)
      show "f j = Gt" if "k < j" "j < ?base + (len - ?half)" for j
        using that half "1.prems"(6) [of j] by (auto split: if_splits)
      show "f i \<noteq> Gt" if "i \<le> j" "j < ?base + (len - ?half)" "f j \<noteq> Gt" for i j
        using that half "1.prems"(1) [of i j] by (auto split: if_splits)
    qed (use half "1.prems" in auto)
    then show ?thesis using False by (simp add: binary_search_loop.simps [of f base len] Let_def)
  qed
qed

lemma binary_search_loop_bounds:
  "0 < len \<Longrightarrow> base \<le> binary_search_loop f base len \<and> binary_search_loop f base len < base + len"
proof (induction f base len rule: binary_search_loop.induct)
  case (1 f base len)
  show ?case
  proof (cases "len \<le> 1")
    case True
    with "1.prems" show ?thesis by (simp add: binary_search_loop.simps [of f base len])
  next
    case False
    then show ?thesis using "1.IH" [OF False refl refl]
      by (auto simp: binary_search_loop.simps [of f base len] Let_def split: if_splits)
  qed
qed

lemma map_of_sorted_index:
  assumes "specialization_ok sp" "k < length sp" "fst (sp ! k) = name"
  shows "map_of sp name = Some (snd (sp ! k))"
  using assms specialization_ok_distinct [OF assms(1)]
  by (metis map_of_eq_Some_iff nth_mem prod.collapse)

lemma binary_search_lookup:
  assumes ok: "specialization_ok sp"
  shows "map_option (\<lambda>i. snd (sp ! i))
      (binary_search_by (\<lambda>(candidate, _). cmp_lin candidate name) sp) = map_of sp name"
proof (cases "\<exists>k < length sp. fst (sp ! k) \<le> name")
  case False
  define f where "f = (\<lambda>i. cmp_lin (fst (sp ! i)) name)"
  have gt: "f i = Gt" if "i < length sp" for i
    using False that by (auto simp: f_def cmp_lin_def)
  have "name \<notin> fst ` set sp" using False by (force simp: in_set_conv_nth)
  moreover have "binary_search_by (\<lambda>(candidate, _). cmp_lin candidate name) sp = None"
    using gt [of "binary_search_loop f 0 (length sp)"] binary_search_loop_bounds [of "length sp" 0 f]
    by (cases "sp = []") (auto simp: binary_search_by_def f_def case_prod_beta Let_def lin.cmp_refl)
  ultimately show ?thesis by (simp add: map_of_eq_None_iff [THEN iffD2])
next
  case True
  define f where "f = (\<lambda>i. cmp_lin (fst (sp ! i)) name)"
  have f_iff: "f i \<noteq> Gt \<longleftrightarrow> fst (sp ! i) \<le> name" for i
    by (auto simp: f_def cmp_lin_def)
  have lt: "fst (sp ! i) < fst (sp ! j)" if "i < j" "j < length sp" for i j
    using ok that by (auto simp: specialization_ok_def sorted_wrt_iff_nth_less)
  define k where "k = (GREATEST k. k < length sp \<and> fst (sp ! k) \<le> name)"
  have k: "k < length sp \<and> fst (sp ! k) \<le> name"
    unfolding k_def using True by (rule GreatestI_ex_nat [where b = "length sp"]) auto
  have above: "f j = Gt" if "k < j" "j < length sp" for j
    using that f_iff [of j] Greatest_le_nat [of "\<lambda>k. k < length sp \<and> fst (sp ! k) \<le> name" j "length sp"]
    by (force simp: k_def)
  have loop: "binary_search_loop f 0 (length sp) = k"
  proof (rule binary_search_loop_correct)
    show "f i \<noteq> Gt" if "i \<le> j" "j < 0 + length sp" "f j \<noteq> Gt" for i j
      using that lt [of i j] by (cases "i = j") (auto simp: f_iff)
  qed (use k above in \<open>auto simp: f_iff\<close>)
  have search: "binary_search_by (\<lambda>(candidate, _). cmp_lin candidate name) sp =
      (if fst (sp ! k) = name then Some k else None)"
    using k loop by (auto simp: binary_search_by_def f_def case_prod_beta Let_def)
  show ?thesis
  proof (cases "fst (sp ! k) = name")
    case True
    then show ?thesis using search k map_of_sorted_index [OF ok, of k] by simp
  next
    case False
    have "name \<noteq> fst (sp ! j)" if "j < length sp" for j
      using that False k above [of j] f_iff [of j] lt [of j k] by (cases j k rule: linorder_cases) auto
    then have "name \<notin> fst ` set sp" by (force simp: in_set_conv_nth)
    then show ?thesis using search False by (simp add: map_of_eq_None_iff [THEN iffD2])
  qed
qed

section \<open>Substitution\<close>

lemma specialize_eq_substitute_map_of:
  "specialization_ok sp \<Longrightarrow> specialize sp t = substitute (map_of sp) t"
  by (simp add: specialize_def substitute_def binary_search_lookup)

lemma contains_generic_alternatives:
  "contains_generic (alternatives ts) \<Longrightarrow> \<exists>t \<in> set ts. contains_generic t"
proof -
  assume a: "contains_generic (alternatives ts)"
  have mem: "\<exists>u \<in> set (members_of t). contains_generic u \<Longrightarrow> contains_generic t" for t
    by (cases t rule: members_of_cases) (auto simp: list_ex_iff)
  from a obtain fs where fs: "flatten_alternatives ts = Some fs"
    by (cases "flatten_alternatives ts") (auto simp: alternatives_def)
  have "contains_generic (alternatives_of_set gs) \<Longrightarrow> \<exists>u \<in> set gs. contains_generic u" for gs
    by (auto simp: alternatives_of_set_def list_ex_iff split: list.splits)
  from this [of "remdups_adj (sort fs)"] a fs have "\<exists>u \<in> set fs. contains_generic u"
    by (auto simp: alternatives_alt)
  then show ?thesis using flatten_alternatives_set [OF fs] mem by blast
qed

lemma set_flatten_intersection:
  "u \<in> set (flatten_intersection ts) \<Longrightarrow>
   (\<exists>us. Intersection us \<in> set ts \<and> u \<in> set us) \<or> (u \<in> set ts \<and> (\<forall>us. u \<noteq> Intersection us))"
proof -
  have "u \<in> set (case t of Intersection nested \<Rightarrow> nested | other \<Rightarrow> [other]) \<Longrightarrow>
      (\<exists>us. t = Intersection us \<and> u \<in> set us) \<or> (u = t \<and> (\<forall>us. u \<noteq> Intersection us))" for t
    by (cases t) auto
  then show "u \<in> set (flatten_intersection ts) \<Longrightarrow> ?thesis"
    by (fastforce simp: flatten_intersection_def)
qed

lemma wf_intersection: "\<forall>t \<in> set ts. wf_type t \<Longrightarrow> wf_type (intersection ts)"
proof -
  assume wf: "\<forall>t \<in> set ts. wf_type t"
  have "wf_type u \<and> intersection_member u" if "u \<in> set (flatten_intersection ts)" for u
    using set_flatten_intersection [OF that] wf by (fastforce simp: list_all_iff)
  then show ?thesis by (auto simp: intersection_def list_all_iff)
qed

lemma contains_generic_intersection:
  assumes "contains_generic (intersection ts)"
  shows "\<exists>t \<in> set ts. contains_generic t"
proof -
  from assms obtain u where u: "u \<in> set (flatten_intersection ts)" "contains_generic u"
    by (auto simp: intersection_def list_ex_iff)
  then show ?thesis
    using set_flatten_intersection [OF u(1)] by (metis contains_generic.simps(11) list_ex_iff)
qed

lemma intersection_of_canonical:
  assumes "wf_type (Intersection ts)"
  shows "intersection ts = Intersection ts"
proof -
  have "flatten_intersection ts = ts"
    if "list_all intersection_member ts" for ts
  proof -
    have "(case t of Intersection nested \<Rightarrow> nested | other \<Rightarrow> [other]) = [t]"
      if "intersection_member t" for t
      using that by (cases t) auto
    then show ?thesis using that by (induction ts) (auto simp: flatten_intersection_def)
  qed
  moreover have "remdups_adj (sort ts) = ts"
    using assms by (intro strict_sorted_set_unique) auto
  ultimately show ?thesis using assms by (simp add: intersection_def)
qed

lemma substitute_with_closed:
  "wf_type t \<Longrightarrow> \<not> contains_generic t \<Longrightarrow> substitute_with lookup t = t"
proof (induction t)
  case (Function ps r)
  have "(case p of Parameter t m \<Rightarrow> Parameter (substitute_with lookup t) m) = p" if "p \<in> set ps" for p
    using Function.IH(1) [OF that] Function.prems that
    by (cases p) (force simp: list_ex_iff list_all_iff)
  then show ?case using Function.IH(2) Function.prems by (auto intro: map_idI)
next
  case (Alternatives ts)
  then have "map (substitute_with lookup) ts = ts"
    by (auto simp: list_ex_iff list_all_iff intro: map_idI)
  then show ?case using Alternatives.prems by (simp add: alternatives_of_canonical)
next
  case (Intersection ts)
  then have "map (substitute_with lookup) ts = ts"
    by (auto simp: list_ex_iff list_all_iff intro: map_idI)
  then show ?case using Intersection.prems by (simp add: intersection_of_canonical)
qed (auto simp: list_ex_iff list_all_iff intro: map_idI)

lemma substitute_with_wf:
  "wf_type t \<Longrightarrow> (\<And>name u. lookup name = Some u \<Longrightarrow> wf_type u) \<Longrightarrow> wf_type (substitute_with lookup t)"
proof (induction t)
  case (Function ps r)
  have "case (case p of Parameter t m \<Rightarrow> Parameter (substitute_with lookup t) m) of Parameter t _ \<Rightarrow> wf_type t"
    if "p \<in> set ps" for p
    using Function.IH(1) [OF that] Function.prems that by (cases p) (force simp: list_all_iff)
  then show ?case using Function.IH(2) Function.prems by (auto simp: list_all_iff)
next
  case (Alternatives ts)
  then show ?case by (auto simp: list_all_iff intro!: wf_alternatives)
next
  case (Intersection ts)
  then show ?case by (auto simp: list_all_iff intro!: wf_intersection)
qed (auto simp: list_all_iff split: option.split)

lemma substitute_with_total_closed:
  "(\<And>name. \<exists>u. lookup name = Some u \<and> \<not> contains_generic u) \<Longrightarrow>
   \<not> contains_generic (substitute_with lookup t)"
proof (induction t)
  case (Generic name)
  then obtain u where "lookup name = Some u" "\<not> contains_generic u" by blast
  then show ?case by simp
next
  case (Function ps r)
  have "\<not> (case (case p of Parameter t m \<Rightarrow> Parameter (substitute_with lookup t) m) of
      Parameter t _ \<Rightarrow> contains_generic t)" if "p \<in> set ps" for p
    using Function.IH(1) [OF that] Function.prems by (cases p) auto
  then show ?case using Function.IH(2) Function.prems by (auto simp: list_ex_iff)
next
  case (Alternatives ts)
  then show ?case by (auto dest!: contains_generic_alternatives)
next
  case (Intersection ts)
  then show ?case by (auto dest!: contains_generic_intersection)
qed (auto simp: list_ex_iff)

section \<open>Inference of specializations\<close>

text \<open>
  \<open>first_order\<close> types are built without type sets and alias arguments, the shapes that
  inference walks through; \<open>generics\<close> are the generic names of a type.
\<close>

fun first_order :: "executable_type \<Rightarrow> bool" where
  "first_order (List value) = first_order value"
| "first_order (Reference value) = first_order value"
| "first_order (Remote value) = first_order value"
| "first_order (Future value) = first_order value"
| "first_order (Function parameters result) =
     (list_all (\<lambda>p. case p of Parameter t _ \<Rightarrow> first_order t) parameters \<and> first_order result)"
| "first_order (Record _ arguments) = list_all first_order arguments"
| "first_order (Variant _ arguments) = list_all first_order arguments"
| "first_order (Alternatives _) = False"
| "first_order (Intersection _) = False"
| "first_order (AliasArguments _ _) = False"
| "first_order _ = True"

fun generics :: "executable_type \<Rightarrow> string list" where
  "generics (Generic name) = [name]"
| "generics (List value) = generics value"
| "generics (Reference value) = generics value"
| "generics (Remote value) = generics value"
| "generics (Future value) = generics value"
| "generics (Function parameters result) =
     concat (map (\<lambda>p. case p of Parameter t _ \<Rightarrow> generics t) parameters) @ generics result"
| "generics (Record _ arguments) = concat (map generics arguments)"
| "generics (Variant _ arguments) = concat (map generics arguments)"
| "generics (AliasArguments _ arguments) = concat (map generics arguments)"
| "generics (Alternatives arguments) = concat (map generics arguments)"
| "generics (Intersection arguments) = concat (map generics arguments)"
| "generics _ = []"

text \<open>The table after inference: earlier bindings win, other generics get their instance.\<close>

definition bind_all ::
  "(string \<Rightarrow> executable_type option) \<Rightarrow> string list \<Rightarrow> (string \<rightharpoonup> executable_type) \<Rightarrow> (string \<rightharpoonup> executable_type)" where
  "bind_all lookup names m =
     (\<lambda>n. case m n of Some v \<Rightarrow> Some v
       | None \<Rightarrow> if n \<in> set names then Some (substitute_with lookup (Generic n)) else None)"

lemma bind_all_simps [simp]:
  "bind_all lookup [] m = m"
  "bind_all lookup ys (bind_all lookup xs m) = bind_all lookup (xs @ ys) m"
  by (auto simp: bind_all_def fun_eq_iff split: option.split)

lemma fold_bind_all:
  assumes "\<And>x m. x \<in> set xs \<Longrightarrow> step x m = bind_all lookup (names x) m"
  shows "fold step xs m = bind_all lookup (concat (map names xs)) m"
  using assms by (induction xs arbitrary: m) auto

lemma zip_map_self: "zip xs (map f xs) = map (\<lambda>x. (x, f x)) xs"
  by (induction xs) auto

lemma infer_substitute:
  "first_order schema \<Longrightarrow>
   infer_specialization schema (substitute_with lookup schema) m = bind_all lookup (generics schema) m"
proof (induction schema arbitrary: m)
  case (Generic name)
  then show ?case by (auto simp: bind_all_def fun_eq_iff split: option.split)
next
  case (Function ps r)
  let ?sub = "\<lambda>p. case p of Parameter t m \<Rightarrow> Parameter (substitute_with lookup t) m"
  have "fold (\<lambda>(s, a) m. infer_specialization (ty s) (ty a) m) (zip ps (map ?sub ps)) m =
      fold (\<lambda>p m. infer_specialization (ty p) (ty (?sub p)) m) ps m"
    by (simp add: zip_map_self fold_map o_def)
  also have "\<dots> = bind_all lookup (concat (map (\<lambda>p. case p of Parameter t _ \<Rightarrow> generics t) ps)) m"
  proof (rule fold_bind_all)
    show "infer_specialization (ty p) (ty (?sub p)) m =
        bind_all lookup (case p of Parameter t _ \<Rightarrow> generics t) m" if "p \<in> set ps" for p m
      using Function.IH(1) [OF that, of "ty p"] Function.prems that
      by (cases p) (force simp: list_all_iff)
  qed
  finally show ?case using Function.IH(2) Function.prems by simp
next
  case (Record i as)
  have "fold (\<lambda>s m. infer_specialization s (substitute_with lookup s) m) as m =
      bind_all lookup (concat (map generics as)) m"
    by (rule fold_bind_all) (use Record in \<open>auto simp: list_all_iff\<close>)
  then show ?case by (simp add: zip_map_self fold_map o_def)
next
  case (Variant i as)
  have "fold (\<lambda>s m. infer_specialization s (substitute_with lookup s) m) as m =
      bind_all lookup (concat (map generics as)) m"
    by (rule fold_bind_all) (use Variant in \<open>auto simp: list_all_iff\<close>)
  then show ?case by (simp add: zip_map_self fold_map o_def)
qed auto

lemma substitute_with_cong:
  "first_order t \<Longrightarrow> (\<And>n. n \<in> set (generics t) \<Longrightarrow>
     substitute_with l (Generic n) = substitute_with l' (Generic n)) \<Longrightarrow>
   substitute_with l t = substitute_with l' t"
proof (induction t)
  case (Function ps r)
  have "(case p of Parameter t m \<Rightarrow> Parameter (substitute_with l t) m) =
      (case p of Parameter t m \<Rightarrow> Parameter (substitute_with l' t) m)" if "p \<in> set ps" for p
    using Function.IH(1) [OF that, of "ty p"] Function.prems that
    by (cases p) (force simp: list_all_iff simp del: substitute_with.simps(1))
  then show ?case using Function.IH(2) Function.prems by (simp del: substitute_with.simps(1))
qed (auto simp: list_all_iff simp del: substitute_with.simps(1))

section \<open>Properties\<close>

text \<open>
  C22. Canonicalising control-flow alternatives (\<open>ExecutableType::alternatives\<close>) keeps the
  canonical-form invariant: from well-formed members it builds a well-formed type, and a
  set it produces is sorted, duplicate free, flattened, has at least two members and is
  accepted unchanged by the checked constructor \<open>try_alternatives\<close> the decoder uses.
\<close>

theorem alternatives_canonical:
  assumes "\<forall>t \<in> set ts. wf_type t"
  shows "wf_type (alternatives ts) \<and>
    (\<forall>ms. alternatives ts = Alternatives ms \<longrightarrow> try_alternatives ms = Inr (Alternatives ms))"
  using wf_alternatives [OF assms] by (auto simp: try_alternatives_def)

theorem alternatives_canonical_witness:
  "alternatives [Integer, List Bool, Alternatives [Bool, Integer]] = Alternatives [Bool, Integer, List Bool] \<and>
   wf_type (alternatives [Integer, List Bool, Alternatives [Bool, Integer]])"
proof -
  have "\<forall>t \<in> set [Integer, List Bool, Alternatives [Bool, Integer]]. wf_type t" by code_simp
  from alternatives_canonical [OF this]
  have "wf_type (alternatives [Integer, List Bool, Alternatives [Bool, Integer]])" by blast
  moreover have "alternatives [Integer, List Bool, Alternatives [Bool, Integer]] =
      Alternatives [Bool, Integer, List Bool]" by code_simp
  ultimately show ?thesis by blast
qed

text \<open>
  Alternatives are a set: collecting a non-empty group of well-formed types first and
  joining the result with further types is the same as joining all of them at once, so the
  outcome of a chain of control-flow joins does not depend on how the joins are grouped.
\<close>

theorem alternatives_flatten:
  assumes "\<forall>t \<in> set ts. wf_type t" "ts \<noteq> []"
  shows "alternatives (alternatives ts # us) = alternatives (ts @ us)"
proof (cases "Unknown \<in> set ts")
  case True
  then show ?thesis by (simp add: alternatives_eq_Unknown_in)
next
  case False
  show ?thesis
    by (rule alternatives_cong_members) (use members_of_alternatives [OF assms False] False in auto)
qed

theorem alternatives_flatten_witness:
  "alternatives (alternatives [Integer, Bool] # [Unit]) = Alternatives [Unit, Bool, Integer]"
proof -
  have "\<forall>t \<in> set [Integer, Bool]. wf_type t" by simp
  from alternatives_flatten [OF this, of "[Unit]"]
  have "alternatives (alternatives [Integer, Bool] # [Unit]) = alternatives [Integer, Bool, Unit]" by simp
  also have "\<dots> = Alternatives [Unit, Bool, Integer]" by code_simp
  finally show ?thesis .
qed

text \<open>
  C33. Substituting well-formed types into a well-formed type gives a well-formed type
  (sets are canonicalised again), and a substitution that binds every name to a closed
  type leaves no generic behind.
\<close>

theorem substitute_canonical:
  assumes "wf_type t" "\<forall>name u. substitutions name = Some u \<longrightarrow> wf_type u"
  shows "wf_type (substitute substitutions t) \<and>
    ((\<forall>name. \<exists>u. substitutions name = Some u \<and> \<not> contains_generic u) \<longrightarrow>
     \<not> contains_generic (substitute substitutions t))"
  using assms substitute_with_wf [of t substitutions] substitute_with_total_closed [of substitutions t]
  by (auto simp: substitute_def)

theorem substitute_canonical_witness:
  "wf_type (substitute (\<lambda>_. Some Bool) (Alternatives [Generic ''A'', Generic ''Z''])) \<and>
   substitute (\<lambda>_. Some Bool) (Alternatives [Generic ''A'', Generic ''Z'']) = Bool"
proof -
  have "wf_type (Alternatives [Generic ''A'', Generic ''Z''])" by code_simp
  from substitute_canonical [OF this, of "\<lambda>_. Some Bool"]
  have "wf_type (substitute (\<lambda>_. Some Bool) (Alternatives [Generic ''A'', Generic ''Z'']))" by auto
  moreover have "substitute (\<lambda>_. Some Bool) (Alternatives [Generic ''A'', Generic ''Z'']) = Bool"
    by code_simp
  ultimately show ?thesis by blast
qed

text \<open>
  C34. Specialisation through the binary search over a sorted \<open>Specialization\<close> is
  substitution with the finite map the table denotes: every bound name is found and no
  unbound name is.
\<close>

theorem specialize_refines_substitute:
  assumes "specialization_ok sp"
  shows "specialize sp t = substitute (map_of sp) t"
  using assms by (rule specialize_eq_substitute_map_of)

theorem specialize_refines_substitute_witness:
  "specialize [(''A'', Bool), (''B'', Unit), (''T'', Integer)] (List (Generic ''T'')) = List Integer"
proof -
  have "specialization_ok [(''A'', Bool), (''B'', Unit), (''T'', Integer)]" by code_simp
  from specialize_refines_substitute [OF this, of "List (Generic ''T'')"] show ?thesis
    by (simp add: substitute_def)
qed

text \<open>
  C35. \<open>Specialization::rename\<close> is atomic and keeps the sorted-names invariant: if the new
  names collide it reports the error and leaves the table as it was; otherwise the table
  holds exactly the renamed entries in ascending order.
\<close>

theorem specialization_rename_atomic:
  assumes "specialization_ok sp"
  shows "specialization_ok (fst (specialization_rename f sp)) \<and>
    (if inj_on f (set (map fst sp))
     then specialization_rename f sp = (sort_key fst (map (\<lambda>(k, t). (f k, t)) sp), Inr ())
     else specialization_rename f sp = (sp, Inl InvalidSpecialization))"
proof -
  have keys: "map fst (map (\<lambda>(k, t). (f k, t)) sp) = map f (map fst sp)"
    by (simp add: case_prod_beta o_def)
  have d: "distinct (map f (map fst sp)) \<longleftrightarrow> inj_on f (set (map fst sp))"
    using specialization_ok_distinct [OF assms] by (metis distinct_map)
  have "specialization_ok (sort_key fst entries)" if "distinct (map fst entries)"
    for entries :: specialization
    using that try_new_iff [of entries] try_from_sorted_iff [of "sort_key fst entries"]
    by (auto simp: specialization_try_new_def split: if_splits)
  from this [of "map (\<lambda>(k, t). (f k, t)) sp"] show ?thesis
    unfolding specialization_rename_def try_new_iff keys d using assms by auto
qed

theorem specialization_rename_atomic_witness:
  "specialization_rename (\<lambda>_. ''T'') [(''A'', Integer), (''B'', Bool)] =
     ([(''A'', Integer), (''B'', Bool)], Inl InvalidSpecialization)"
proof -
  have "specialization_ok [(''A'', Integer), (''B'', Bool)]" by code_simp
  from specialization_rename_atomic [OF this, of "\<lambda>_. ''T''"] show ?thesis by simp
qed

text \<open>
  C27. Inference recovers the instantiation of a schema: matching a type built without
  type sets against one of its own instances binds its generics so that substituting the
  inferred bindings into the schema gives that instance back.
\<close>

theorem infer_specialization_recovers:
  assumes "first_order schema"
  shows "substitute (infer_specialization schema (substitute substitutions schema) Map.empty) schema =
    substitute substitutions schema"
proof -
  have "infer_specialization schema (substitute_with substitutions schema) Map.empty =
      bind_all substitutions (generics schema) Map.empty"
    using assms by (rule infer_substitute)
  moreover have "substitute_with (bind_all substitutions (generics schema) Map.empty) schema =
      substitute_with substitutions schema"
    by (rule substitute_with_cong [OF assms]) (simp add: bind_all_def)
  ultimately show ?thesis by (simp add: substitute_def)
qed

theorem infer_specialization_recovers_witness:
  "substitute (infer_specialization (Function [Parameter (Generic ''A'') Borrow] (List (Generic ''B'')))
     (Function [Parameter Integer Borrow] (List Bool)) Map.empty)
     (Function [Parameter (Generic ''A'') Borrow] (List (Generic ''B''))) =
   Function [Parameter Integer Borrow] (List Bool)"
proof -
  have "first_order (Function [Parameter (Generic ''A'') Borrow] (List (Generic ''B'')))" by simp
  from infer_specialization_recovers [OF this, of "[''A'' \<mapsto> Integer, ''B'' \<mapsto> Bool]"] show ?thesis
    by (simp add: substitute_def)
qed

end
