(* ===== verification/Intrinsics.thy ===== *)
theory Intrinsics
  imports Prelude
begin

text \<open>
  The intrinsic registry of \<open>bytecode/src/intrinsics/registry.rs\<close>: argument modes and
  signatures, the table of builtins with its stable bytecode tags, source names, intrinsic
  keys, VM execution policy and native lowering, and the opcode intrinsics. The lookups
  search the tables exactly as the code does; the lemmas below show that tags and keys
  identify their rows, so every lookup is the inverse of the column it searches.
\<close>

section \<open>Signatures\<close>

datatype intrinsic_type = Any_ty | Unit_ty | Bool_ty | Integer_ty | Float_ty | CodePoint_ty
  | Byte_ty | Bytes_ty | ByteBuffer_ty | String_ty | ListByte_ty | ListInteger_ty | ListFloat_ty

datatype intrinsic_argument_mode = Read_arg | Consume_arg

text \<open>An \<open>IntrinsicParameter\<close> is the pair of its mode and type, as the table writes it.\<close>

type_synonym intrinsic_parameter = "intrinsic_argument_mode \<times> intrinsic_type"

datatype intrinsic_parameters = Fixed "intrinsic_parameter list" | Variadic intrinsic_parameter

record intrinsic_signature =
  sig_parameters :: intrinsic_parameters
  sig_result :: intrinsic_type

definition accepts_arity :: "intrinsic_signature \<Rightarrow> nat \<Rightarrow> bool" where
  "accepts_arity sig arity =
     (case sig_parameters sig of Fixed ps \<Rightarrow> length ps = arity | Variadic _ \<Rightarrow> True)"

definition signature_parameter :: "intrinsic_signature \<Rightarrow> nat \<Rightarrow> intrinsic_parameter option" where
  "signature_parameter sig index =
     (case sig_parameters sig of Fixed ps \<Rightarrow> get ps index | Variadic p \<Rightarrow> Some p)"

section \<open>Builtins\<close>

datatype builtin_execution = Direct | Host_exec | TransformFirst | ConsumeFirst

datatype native_inline_intrinsic =
    CArguments_inline | BufferFilled_inline | ListClear_inline | CCallbackNew_inline
    | IntegerToCodePoint_inline | ByteIsValid_inline | IntegerToByte_inline
    | BytesFromList_inline | BytesToList_inline

datatype native_intrinsic =
    Unavailable
  | Print_native bool
  | Inline native_inline_intrinsic
  | Runtime string
  | Host_native

datatype (plugins only: size) builtin =
    FloatTruncate | FloatRound | FloatCeil | FloatFloor | IntFromFloat | FloatFromInt
    | FloatSqrt | FloatSin | FloatCos | FloatAtan2 | FloatBits | Float32Bits | CCallbackNew
    | CCallbackRelease | CCallbackPoll | CCallbackError | ProcessReserve | ProcessExchange
    | ProcessRelease | ProcessWait | CExchange | CExchangeBuffer | CExchangeScalars
    | CArgumentsReserve | CArgumentsInteger | CArgumentsFloat | CArgumentsBytes
    | CArgumentsSnapshot | CClose | CRelease | CEncodeInt | CEncodeFloat | CDecodeInt
    | CDecodeFloat | Print | Println | FromCodePoint | ParseFloat | FormatFloat | ByteValid
    | ByteUnchecked | BytesEmpty | BytesFromList | BytesConcat | BytesSlice | BytesToList
    | BytesHex | BytesFromHex | StringBytes | BytesUtf8Valid | ByteBufferEmpty
    | ByteBufferWithCapacity | ByteBufferPush | ByteBufferExtend | ByteBufferClear
    | ByteBufferTruncate | ByteBufferReserve | ByteBufferFreeze | ByteBufferSnapshot
    | IoReadText | IoWriteText | IoReadBytes | IoWriteBytes | IoListDirectory | IoExists
    | IoIsFile | IoIsDirectory | IoCreateDirectory | IoCreateDirectoryAll | IoRemoveFile
    | IoRemoveDirectory | IoRename | IoCopyFile | IoJoin | IoParent | IoFileName | IoExtension
    | IoCanonicalize | IoCurrentDirectory | TcpListen | TcpConnect | TcpAccept | TcpRead
    | TcpWrite | TcpReadBytes | TcpWriteBytes | TcpSetTimeout | TcpCloseListener
    | TcpCloseConnection | IoReadRange | IoAppendBytes | IoFileLength | TimeWallNow
    | TimeMonotonicNow | RandomBytes | TcpWaitReadable | TcpWaitWritable | TcpWaitAccept
    | BufferIntegers | BufferFloats | BufferBytes | ListClear | IoStdinRead

record builtin_descriptor =
  bd_builtin :: builtin
  bd_bytecode_tag :: u8
  bd_source_name :: "string option"
  bd_intrinsic_key :: "string option"
  bd_module :: "string option"
  bd_signature :: intrinsic_signature
  bd_execution :: builtin_execution
  bd_native :: native_intrinsic

text \<open>The macro \<open>native_builtin!\<close>, with the symbols of \<open>bytecode/src/native/abi.rs\<close>.\<close>

definition native_builtin :: "builtin \<Rightarrow> native_intrinsic" where
  "native_builtin builtin = (case builtin of
       CCallbackNew \<Rightarrow> Inline CCallbackNew_inline
     | CCallbackRelease \<Rightarrow> Runtime ''foster_rt_v5_c_callback_release''
     | CCallbackPoll \<Rightarrow> Runtime ''foster_rt_v5_c_callback_poll''
     | CCallbackError \<Rightarrow> Runtime ''foster_rt_v5_c_callback_error''
     | ProcessReserve \<Rightarrow> Runtime ''foster_rt_v5_process_reserve''
     | ProcessExchange \<Rightarrow> Runtime ''foster_rt_v5_process_exchange''
     | ProcessRelease \<Rightarrow> Runtime ''foster_rt_v5_process_release''
     | ProcessWait \<Rightarrow> Runtime ''foster_rt_v5_process_wait''
     | CExchange \<Rightarrow> Runtime ''foster_rt_v5_c_exchange''
     | CExchangeScalars \<Rightarrow> Runtime ''foster_rt_v5_c_exchange_scalars''
     | CExchangeBuffer \<Rightarrow> Runtime ''foster_rt_v5_c_exchange_buffer''
     | CClose \<Rightarrow> Runtime ''foster_rt_v5_c_close''
     | CRelease \<Rightarrow> Runtime ''foster_rt_v5_c_release''
     | CEncodeInt \<Rightarrow> Runtime ''foster_rt_v5_c_encode_int''
     | CArgumentsReserve \<Rightarrow> Inline CArguments_inline
     | CArgumentsInteger \<Rightarrow> Inline CArguments_inline
     | CArgumentsFloat \<Rightarrow> Inline CArguments_inline
     | CArgumentsBytes \<Rightarrow> Inline CArguments_inline
     | CArgumentsSnapshot \<Rightarrow> Inline CArguments_inline
     | CEncodeFloat \<Rightarrow> Runtime ''foster_rt_v5_c_encode_float''
     | CDecodeInt \<Rightarrow> Runtime ''foster_rt_v5_c_decode_int''
     | CDecodeFloat \<Rightarrow> Runtime ''foster_rt_v5_c_decode_float''
     | Print \<Rightarrow> Print_native False
     | Println \<Rightarrow> Print_native True
     | FromCodePoint \<Rightarrow> Inline IntegerToCodePoint_inline
     | ByteValid \<Rightarrow> Inline ByteIsValid_inline
     | ByteUnchecked \<Rightarrow> Inline IntegerToByte_inline
     | ParseFloat \<Rightarrow> Runtime ''foster_rt_v5_parse_float''
     | FormatFloat \<Rightarrow> Runtime ''foster_rt_v5_format_float''
     | FloatFromInt \<Rightarrow> Runtime ''foster_rt_v5_float_from_int''
     | IntFromFloat \<Rightarrow> Runtime ''foster_rt_v5_int_from_float''
     | FloatFloor \<Rightarrow> Runtime ''foster_rt_v5_float_floor''
     | FloatCeil \<Rightarrow> Runtime ''foster_rt_v5_float_ceil''
     | FloatRound \<Rightarrow> Runtime ''foster_rt_v5_float_round''
     | FloatTruncate \<Rightarrow> Runtime ''foster_rt_v5_float_truncate''
     | FloatSqrt \<Rightarrow> Runtime ''foster_rt_v5_float_sqrt''
     | FloatSin \<Rightarrow> Runtime ''foster_rt_v5_float_sin''
     | FloatCos \<Rightarrow> Runtime ''foster_rt_v5_float_cos''
     | FloatAtan2 \<Rightarrow> Runtime ''foster_rt_v5_float_atan2''
     | FloatBits \<Rightarrow> Runtime ''foster_rt_v5_float_bits''
     | Float32Bits \<Rightarrow> Runtime ''foster_rt_v5_float32_bits''
     | BufferIntegers \<Rightarrow> Inline BufferFilled_inline
     | BufferFloats \<Rightarrow> Inline BufferFilled_inline
     | BufferBytes \<Rightarrow> Inline BufferFilled_inline
     | ListClear \<Rightarrow> Inline ListClear_inline
     | BytesFromList \<Rightarrow> Inline BytesFromList_inline
     | BytesToList \<Rightarrow> Inline BytesToList_inline
     | IoReadText \<Rightarrow> Host_native
     | IoWriteText \<Rightarrow> Host_native
     | IoReadBytes \<Rightarrow> Host_native
     | IoWriteBytes \<Rightarrow> Host_native
     | IoListDirectory \<Rightarrow> Host_native
     | IoExists \<Rightarrow> Host_native
     | IoIsFile \<Rightarrow> Host_native
     | IoIsDirectory \<Rightarrow> Host_native
     | IoCreateDirectory \<Rightarrow> Host_native
     | IoCreateDirectoryAll \<Rightarrow> Host_native
     | IoRemoveFile \<Rightarrow> Host_native
     | IoRemoveDirectory \<Rightarrow> Host_native
     | IoRename \<Rightarrow> Host_native
     | IoCopyFile \<Rightarrow> Host_native
     | IoJoin \<Rightarrow> Host_native
     | IoParent \<Rightarrow> Host_native
     | IoFileName \<Rightarrow> Host_native
     | IoExtension \<Rightarrow> Host_native
     | IoCanonicalize \<Rightarrow> Host_native
     | IoCurrentDirectory \<Rightarrow> Host_native
     | TcpListen \<Rightarrow> Host_native
     | TcpConnect \<Rightarrow> Host_native
     | TcpAccept \<Rightarrow> Host_native
     | TcpRead \<Rightarrow> Host_native
     | TcpWrite \<Rightarrow> Host_native
     | TcpReadBytes \<Rightarrow> Host_native
     | TcpWriteBytes \<Rightarrow> Host_native
     | TcpWaitReadable \<Rightarrow> Host_native
     | TcpWaitWritable \<Rightarrow> Host_native
     | TcpWaitAccept \<Rightarrow> Host_native
     | TcpSetTimeout \<Rightarrow> Host_native
     | TcpCloseListener \<Rightarrow> Host_native
     | TcpCloseConnection \<Rightarrow> Host_native
     | IoReadRange \<Rightarrow> Host_native
     | IoStdinRead \<Rightarrow> Host_native
     | IoAppendBytes \<Rightarrow> Host_native
     | IoFileLength \<Rightarrow> Host_native
     | TimeWallNow \<Rightarrow> Host_native
     | TimeMonotonicNow \<Rightarrow> Host_native
     | RandomBytes \<Rightarrow> Host_native
     | _ \<Rightarrow> Unavailable)"

text \<open>One row of the macro \<open>builtin_descriptors!\<close>.\<close>

definition builtin_row ::
  "builtin \<Rightarrow> u8 \<Rightarrow> string option \<Rightarrow> string option \<Rightarrow> string option \<Rightarrow>
   builtin_execution \<Rightarrow> intrinsic_parameters \<Rightarrow> intrinsic_type \<Rightarrow> builtin_descriptor" where
  "builtin_row builtin tag source key module execution ps res =
     \<lparr>bd_builtin = builtin, bd_bytecode_tag = tag, bd_source_name = source,
      bd_intrinsic_key = key, bd_module = module,
      bd_signature = \<lparr>sig_parameters = ps, sig_result = res\<rparr>,
      bd_execution = execution, bd_native = native_builtin builtin\<rparr>"

definition BUILTINS :: "builtin_descriptor list" where
  "BUILTINS = [
     builtin_row FloatTruncate 91 None (Some ''float.truncate'') (Some ''core.float'')
       Direct (Fixed [(Read_arg, Float_ty)]) Float_ty,
     builtin_row FloatRound 90 None (Some ''float.round'') (Some ''core.float'')
       Direct (Fixed [(Read_arg, Float_ty)]) Float_ty,
     builtin_row FloatCeil 89 None (Some ''float.ceil'') (Some ''core.float'')
       Direct (Fixed [(Read_arg, Float_ty)]) Float_ty,
     builtin_row FloatFloor 88 None (Some ''float.floor'') (Some ''core.float'')
       Direct (Fixed [(Read_arg, Float_ty)]) Float_ty,
     builtin_row IntFromFloat 87 None (Some ''int.from_float'') (Some ''core.int'')
       Direct (Fixed [(Read_arg, Float_ty)]) Integer_ty,
     builtin_row FloatFromInt 86 None (Some ''float.from_int'') (Some ''core.float'')
       Direct (Fixed [(Read_arg, Integer_ty)]) Float_ty,
     builtin_row FloatSqrt 82 None (Some ''float.sqrt'') (Some ''core.float'')
       Direct (Fixed [(Read_arg, Float_ty)]) Float_ty,
     builtin_row FloatSin 83 None (Some ''float.sin'') (Some ''core.float'')
       Direct (Fixed [(Read_arg, Float_ty)]) Float_ty,
     builtin_row FloatCos 84 None (Some ''float.cos'') (Some ''core.float'')
       Direct (Fixed [(Read_arg, Float_ty)]) Float_ty,
     builtin_row FloatAtan2 85 None (Some ''float.atan2'') (Some ''core.float'')
       Direct (Fixed [(Read_arg, Float_ty), (Read_arg, Float_ty)]) Float_ty,
     builtin_row FloatBits 80 None (Some ''float.bits'') (Some ''core.float'')
       Direct (Fixed [(Read_arg, Float_ty)]) Integer_ty,
     builtin_row Float32Bits 81 None (Some ''float.f32_bits'') (Some ''core.float'')
       Direct (Fixed [(Read_arg, Float_ty)]) Integer_ty,
     builtin_row CCallbackNew 76 None (Some ''c.callback_new'') (Some ''std.ffi'')
       ConsumeFirst (Fixed [(Consume_arg, Any_ty), (Read_arg, String_ty), (Read_arg, Integer_ty)]) Bytes_ty,
     builtin_row CCallbackRelease 77 None (Some ''c.callback_release'') (Some ''std.ffi'')
       Direct (Fixed [(Read_arg, Integer_ty)]) Unit_ty,
     builtin_row CCallbackPoll 78 None (Some ''c.callback_poll'') (Some ''std.ffi'')
       Direct (Fixed [(Read_arg, Integer_ty)]) Bytes_ty,
     builtin_row CCallbackError 79 None (Some ''c.callback_error'') (Some ''std.ffi'')
       Direct (Fixed [(Read_arg, Integer_ty)]) Bytes_ty,
     builtin_row ProcessReserve 75 None (Some ''process.reserve'') (Some ''std.process'')
       Direct (Fixed []) Integer_ty,
     builtin_row ProcessExchange 72 None (Some ''process.exchange'') (Some ''std.process'')
       Direct (Fixed [(Read_arg, Integer_ty), (Read_arg, Integer_ty), (Read_arg, String_ty), (Read_arg, String_ty), (Read_arg, String_ty), (Read_arg, Integer_ty)]) String_ty,
     builtin_row ProcessRelease 73 None (Some ''process.release'') (Some ''std.process'')
       Direct (Fixed [(Read_arg, Integer_ty)]) Unit_ty,
     builtin_row ProcessWait 74 None (Some ''process.wait'') (Some ''std.process'')
       Direct (Fixed [(Read_arg, Integer_ty)]) String_ty,
     builtin_row CExchange 65 None (Some ''c.exchange'') (Some ''std.ffi'')
       Direct (Fixed [(Read_arg, String_ty), (Read_arg, String_ty), (Read_arg, Integer_ty), (Read_arg, Integer_ty), (Read_arg, Bool_ty), (Read_arg, Bytes_ty)]) Bytes_ty,
     builtin_row CExchangeBuffer 97 None (Some ''c.exchange_buffer'') (Some ''std.ffi'')
       Direct (Fixed [(Read_arg, String_ty), (Read_arg, String_ty), (Read_arg, Integer_ty), (Read_arg, Bytes_ty), (Read_arg, Any_ty), (Read_arg, Integer_ty)]) Bytes_ty,
     builtin_row CExchangeScalars 103 None (Some ''c.exchange_scalars'') (Some ''std.ffi'')
       Direct (Fixed [(Read_arg, String_ty), (Read_arg, String_ty), (Read_arg, Integer_ty), (Read_arg, Any_ty)]) Bytes_ty,
     builtin_row CArgumentsReserve 98 None (Some ''c.arguments_reserve'') (Some ''std.ffi'')
       Direct (Fixed [(Read_arg, Any_ty), (Read_arg, Integer_ty)]) Unit_ty,
     builtin_row CArgumentsInteger 99 None (Some ''c.arguments_integer'') (Some ''std.ffi'')
       Direct (Fixed [(Read_arg, Any_ty), (Read_arg, Integer_ty)]) Unit_ty,
     builtin_row CArgumentsFloat 100 None (Some ''c.arguments_float'') (Some ''std.ffi'')
       Direct (Fixed [(Read_arg, Any_ty), (Read_arg, Float_ty)]) Unit_ty,
     builtin_row CArgumentsBytes 101 None (Some ''c.arguments_bytes'') (Some ''std.ffi'')
       Direct (Fixed [(Read_arg, Any_ty), (Read_arg, Bytes_ty)]) Unit_ty,
     builtin_row CArgumentsSnapshot 102 None (Some ''c.arguments_snapshot'') (Some ''std.ffi'')
       Direct (Fixed [(Read_arg, Any_ty)]) Bytes_ty,
     builtin_row CClose 66 None (Some ''c.close'') (Some ''std.ffi'')
       Direct (Fixed [(Read_arg, Integer_ty)]) Bytes_ty,
     builtin_row CRelease 67 None (Some ''c.release'') (Some ''std.ffi'')
       Direct (Fixed [(Read_arg, Integer_ty)]) Unit_ty,
     builtin_row CEncodeInt 68 None (Some ''c.encode_int'') (Some ''std.ffi'')
       Direct (Fixed [(Read_arg, Integer_ty)]) Bytes_ty,
     builtin_row CEncodeFloat 69 None (Some ''c.encode_float'') (Some ''std.ffi'')
       Direct (Fixed [(Read_arg, Float_ty)]) Bytes_ty,
     builtin_row CDecodeInt 70 None (Some ''c.decode_int'') (Some ''std.ffi'')
       Direct (Fixed [(Read_arg, Bytes_ty)]) Integer_ty,
     builtin_row CDecodeFloat 71 None (Some ''c.decode_float'') (Some ''std.ffi'')
       Direct (Fixed [(Read_arg, Bytes_ty)]) Float_ty,
     builtin_row Print 0 (Some ''print'') None None
       Direct (Variadic (Read_arg, Any_ty)) Unit_ty,
     builtin_row Println 1 (Some ''println'') None None
       Direct (Variadic (Read_arg, Any_ty)) Unit_ty,
     builtin_row FromCodePoint 2 (Some ''from_code_point'') None None
       Direct (Fixed [(Read_arg, Integer_ty)]) CodePoint_ty,
     builtin_row ParseFloat 3 (Some ''parse_float'') None None
       Direct (Fixed [(Read_arg, String_ty)]) Float_ty,
     builtin_row FormatFloat 4 None (Some ''float.format'') (Some ''core.float'')
       Direct (Fixed [(Read_arg, Float_ty)]) String_ty,
     builtin_row ByteValid 5 None None None
       Direct (Fixed [(Read_arg, Integer_ty)]) Bool_ty,
     builtin_row ByteUnchecked 6 None (Some ''byte.unchecked'') (Some ''core.byte'')
       Direct (Fixed [(Read_arg, Integer_ty)]) Byte_ty,
     builtin_row BytesEmpty 7 None None None
       Direct (Fixed []) Bytes_ty,
     builtin_row BytesFromList 8 None (Some ''bytes.from_list'') (Some ''core.bytes'')
       Direct (Fixed [(Read_arg, ListByte_ty)]) Bytes_ty,
     builtin_row BytesConcat 9 None None None
       Direct (Fixed [(Read_arg, Bytes_ty), (Read_arg, Bytes_ty)]) Bytes_ty,
     builtin_row BytesSlice 10 None None None
       Direct (Fixed [(Read_arg, Bytes_ty), (Read_arg, Integer_ty), (Read_arg, Integer_ty)]) Bytes_ty,
     builtin_row BytesToList 11 None (Some ''bytes.to_list'') (Some ''core.bytes'')
       Direct (Fixed [(Read_arg, Bytes_ty)]) ListByte_ty,
     builtin_row BytesHex 12 None None None
       Direct (Fixed [(Read_arg, Bytes_ty)]) String_ty,
     builtin_row BytesFromHex 13 None None None
       Direct (Fixed [(Read_arg, String_ty)]) Any_ty,
     builtin_row StringBytes 14 None None None
       Direct (Fixed [(Read_arg, String_ty)]) Bytes_ty,
     builtin_row BytesUtf8Valid 15 None None None
       Direct (Fixed [(Read_arg, Bytes_ty)]) Bool_ty,
     builtin_row ByteBufferEmpty 17 None None None
       Direct (Fixed []) ByteBuffer_ty,
     builtin_row ByteBufferWithCapacity 18 None None None
       Direct (Fixed [(Read_arg, Integer_ty)]) ByteBuffer_ty,
     builtin_row ByteBufferPush 19 None None None
       TransformFirst (Fixed [(Consume_arg, ByteBuffer_ty), (Read_arg, Byte_ty)]) ByteBuffer_ty,
     builtin_row ByteBufferExtend 20 None None None
       TransformFirst (Fixed [(Consume_arg, ByteBuffer_ty), (Read_arg, Bytes_ty)]) ByteBuffer_ty,
     builtin_row ByteBufferClear 21 None None None
       TransformFirst (Fixed [(Consume_arg, ByteBuffer_ty)]) ByteBuffer_ty,
     builtin_row ByteBufferTruncate 22 None None None
       TransformFirst (Fixed [(Consume_arg, ByteBuffer_ty), (Read_arg, Integer_ty)]) ByteBuffer_ty,
     builtin_row ByteBufferReserve 23 None None None
       TransformFirst (Fixed [(Consume_arg, ByteBuffer_ty), (Read_arg, Integer_ty)]) ByteBuffer_ty,
     builtin_row ByteBufferFreeze 24 None None None
       ConsumeFirst (Fixed [(Consume_arg, ByteBuffer_ty)]) Bytes_ty,
     builtin_row ByteBufferSnapshot 25 None None None
       Direct (Fixed [(Read_arg, ByteBuffer_ty)]) Bytes_ty,
     builtin_row IoReadText 26 None None None
       Host_exec (Fixed [(Read_arg, String_ty)]) Any_ty,
     builtin_row IoWriteText 27 None None None
       Host_exec (Fixed [(Read_arg, String_ty), (Read_arg, String_ty)]) Any_ty,
     builtin_row IoReadBytes 28 None (Some ''io.read_bytes'') (Some ''std.fs'')
       Host_exec (Fixed [(Read_arg, String_ty)]) Any_ty,
     builtin_row IoWriteBytes 29 None (Some ''io.write_bytes'') (Some ''std.fs'')
       Host_exec (Fixed [(Read_arg, String_ty), (Read_arg, Bytes_ty)]) Any_ty,
     builtin_row IoListDirectory 30 None (Some ''io.list_directory'') (Some ''std.fs'')
       Host_exec (Fixed [(Read_arg, String_ty)]) Any_ty,
     builtin_row IoExists 31 None (Some ''io.exists'') (Some ''std.fs'')
       Host_exec (Fixed [(Read_arg, String_ty)]) Any_ty,
     builtin_row IoIsFile 32 None (Some ''io.is_file'') (Some ''std.fs'')
       Host_exec (Fixed [(Read_arg, String_ty)]) Any_ty,
     builtin_row IoIsDirectory 33 None (Some ''io.is_directory'') (Some ''std.fs'')
       Host_exec (Fixed [(Read_arg, String_ty)]) Any_ty,
     builtin_row IoCreateDirectory 34 None (Some ''io.create_directory'') (Some ''std.fs'')
       Host_exec (Fixed [(Read_arg, String_ty)]) Any_ty,
     builtin_row IoCreateDirectoryAll 35 None (Some ''io.create_directory_all'') (Some ''std.fs'')
       Host_exec (Fixed [(Read_arg, String_ty)]) Any_ty,
     builtin_row IoRemoveFile 36 None (Some ''io.remove_file'') (Some ''std.fs'')
       Host_exec (Fixed [(Read_arg, String_ty)]) Any_ty,
     builtin_row IoRemoveDirectory 37 None (Some ''io.remove_directory'') (Some ''std.fs'')
       Host_exec (Fixed [(Read_arg, String_ty)]) Any_ty,
     builtin_row IoRename 38 None (Some ''io.rename'') (Some ''std.fs'')
       Host_exec (Fixed [(Read_arg, String_ty), (Read_arg, String_ty)]) Any_ty,
     builtin_row IoCopyFile 39 None (Some ''io.copy_file'') (Some ''std.fs'')
       Host_exec (Fixed [(Read_arg, String_ty), (Read_arg, String_ty)]) Any_ty,
     builtin_row IoJoin 40 None (Some ''io.join'') (Some ''std.path'')
       Host_exec (Fixed [(Read_arg, String_ty), (Read_arg, String_ty)]) Any_ty,
     builtin_row IoParent 41 None (Some ''io.parent'') (Some ''std.path'')
       Host_exec (Fixed [(Read_arg, String_ty)]) Any_ty,
     builtin_row IoFileName 42 None (Some ''io.file_name'') (Some ''std.path'')
       Host_exec (Fixed [(Read_arg, String_ty)]) Any_ty,
     builtin_row IoExtension 43 None (Some ''io.extension'') (Some ''std.path'')
       Host_exec (Fixed [(Read_arg, String_ty)]) Any_ty,
     builtin_row IoCanonicalize 44 None (Some ''io.canonicalize'') (Some ''std.path'')
       Host_exec (Fixed [(Read_arg, String_ty)]) Any_ty,
     builtin_row IoCurrentDirectory 45 None (Some ''io.current_directory'') (Some ''std.env'')
       Host_exec (Fixed []) Any_ty,
     builtin_row TcpListen 46 None (Some ''tcp.listen'') (Some ''std.net.tcp'')
       Host_exec (Fixed [(Read_arg, String_ty), (Read_arg, Integer_ty)]) Any_ty,
     builtin_row TcpConnect 47 None (Some ''tcp.connect'') (Some ''std.net.tcp'')
       Host_exec (Fixed [(Read_arg, String_ty), (Read_arg, Integer_ty)]) Any_ty,
     builtin_row TcpAccept 48 None (Some ''tcp.accept'') (Some ''std.net.tcp'')
       Host_exec (Fixed [(Read_arg, Integer_ty)]) Any_ty,
     builtin_row TcpRead 49 None None None
       Host_exec (Fixed [(Read_arg, Integer_ty), (Read_arg, Integer_ty)]) Any_ty,
     builtin_row TcpWrite 50 None None None
       Host_exec (Fixed [(Read_arg, Integer_ty), (Read_arg, String_ty)]) Any_ty,
     builtin_row TcpReadBytes 51 None (Some ''tcp.read_bytes'') (Some ''std.net.tcp'')
       Host_exec (Fixed [(Read_arg, Integer_ty), (Read_arg, Integer_ty)]) Any_ty,
     builtin_row TcpWriteBytes 52 None (Some ''tcp.write_bytes'') (Some ''std.net.tcp'')
       Host_exec (Fixed [(Read_arg, Integer_ty), (Read_arg, Bytes_ty)]) Any_ty,
     builtin_row TcpSetTimeout 53 None (Some ''tcp.set_timeout'') (Some ''std.net.tcp'')
       Host_exec (Fixed [(Read_arg, Integer_ty), (Read_arg, Integer_ty)]) Any_ty,
     builtin_row TcpCloseListener 54 None (Some ''tcp.close_listener'') (Some ''std.net.tcp'')
       Host_exec (Fixed [(Read_arg, Integer_ty)]) Any_ty,
     builtin_row TcpCloseConnection 55 None (Some ''tcp.close_connection'') (Some ''std.net.tcp'')
       Host_exec (Fixed [(Read_arg, Integer_ty)]) Any_ty,
     builtin_row IoReadRange 56 None (Some ''io.read_range'') (Some ''std.fs'')
       Host_exec (Fixed [(Read_arg, String_ty), (Read_arg, Integer_ty), (Read_arg, Integer_ty)]) Any_ty,
     builtin_row IoAppendBytes 57 None (Some ''io.append_bytes'') (Some ''std.fs'')
       Host_exec (Fixed [(Read_arg, String_ty), (Read_arg, Bytes_ty)]) Any_ty,
     builtin_row IoFileLength 58 None (Some ''io.file_length'') (Some ''std.fs'')
       Host_exec (Fixed [(Read_arg, String_ty)]) Any_ty,
     builtin_row TimeWallNow 59 None (Some ''time.wall_now'') (Some ''std.time'')
       Host_exec (Fixed []) Any_ty,
     builtin_row TimeMonotonicNow 60 None (Some ''time.monotonic_now'') (Some ''std.time'')
       Host_exec (Fixed []) Integer_ty,
     builtin_row RandomBytes 61 None (Some ''random.bytes'') (Some ''std.random'')
       Host_exec (Fixed [(Read_arg, Integer_ty)]) Any_ty,
     builtin_row TcpWaitReadable 62 None (Some ''tcp.wait_readable'') (Some ''std.net.tcp'')
       Host_exec (Fixed [(Read_arg, Integer_ty), (Read_arg, Integer_ty)]) Any_ty,
     builtin_row TcpWaitWritable 63 None (Some ''tcp.wait_writable'') (Some ''std.net.tcp'')
       Host_exec (Fixed [(Read_arg, Integer_ty), (Read_arg, Integer_ty)]) Any_ty,
     builtin_row TcpWaitAccept 64 None (Some ''tcp.wait_accept'') (Some ''std.net.tcp'')
       Host_exec (Fixed [(Read_arg, Integer_ty), (Read_arg, Integer_ty)]) Any_ty,
     builtin_row BufferIntegers 94 None (Some ''buffer.integers'') (Some ''core.buffer'')
       Direct (Fixed [(Read_arg, Integer_ty), (Read_arg, Integer_ty)]) ListInteger_ty,
     builtin_row BufferFloats 95 None (Some ''buffer.floats'') (Some ''core.buffer'')
       Direct (Fixed [(Read_arg, Integer_ty), (Read_arg, Float_ty)]) ListFloat_ty,
     builtin_row BufferBytes 96 None (Some ''buffer.bytes'') (Some ''core.buffer'')
       Direct (Fixed [(Read_arg, Integer_ty), (Read_arg, Byte_ty)]) ListByte_ty,
     builtin_row ListClear 93 None None None
       Direct (Fixed [(Read_arg, Any_ty)]) Unit_ty,
     builtin_row IoStdinRead 92 None (Some ''io.stdin_read'') (Some ''std.io'')
       Host_exec (Fixed [(Read_arg, Integer_ty)]) Any_ty]"

text \<open>\<open>None\<close> is the panic of \<open>expect("every Builtin has a registry descriptor")\<close>.\<close>

definition descriptor :: "builtin \<Rightarrow> builtin_descriptor option" where
  "descriptor b = find (\<lambda>d. bd_builtin d = b) BUILTINS"

definition from_bytecode_tag :: "u8 \<Rightarrow> builtin option" where
  "from_bytecode_tag tag = map_option bd_builtin (find (\<lambda>d. bd_bytecode_tag d = tag) BUILTINS)"

definition from_source_name :: "string \<Rightarrow> builtin option" where
  "from_source_name name = map_option bd_builtin (find (\<lambda>d. bd_source_name d = Some name) BUILTINS)"

definition from_intrinsic_key :: "string \<Rightarrow> builtin option" where
  "from_intrinsic_key key = map_option bd_builtin (find (\<lambda>d. bd_intrinsic_key d = Some key) BUILTINS)"

definition bytecode_tag :: "builtin \<Rightarrow> u8 option" where
  "bytecode_tag b = map_option bd_bytecode_tag (descriptor b)"

definition is_host :: "builtin \<Rightarrow> bool option" where
  "is_host b = map_option (\<lambda>d. bd_execution d = Host_exec) (descriptor b)"

datatype native_receiver_kind = String_receiver

fun native_member_runtime :: "native_receiver_kind \<Rightarrow> string \<Rightarrow> string option" where
  "native_member_runtime String_receiver member =
     (if member = ''empty?'' then Some ''foster_rt_v5_string_empty''
      else if member = ''whitespace?'' then Some ''foster_rt_v5_string_whitespace''
      else None)"

section \<open>Opcode intrinsics\<close>

datatype opcode_intrinsic = BufferRead_op | BufferWrite_op | ListClear_op | ValueCanCopy_op
  | ValueCopy_op | ListCanCopyAt_op | ListCopyAt_op | ListPush_op | ListAppend_op

datatype intrinsic_receiver_mode = Read_recv | Mutate_recv | Consume_recv

record opcode_intrinsic_descriptor =
  od_intrinsic :: opcode_intrinsic
  od_intrinsic_key :: string
  od_module :: string
  od_receiver :: intrinsic_receiver_mode
  od_signature :: intrinsic_signature

definition OPCODE_INTRINSICS :: "opcode_intrinsic_descriptor list" where
  "OPCODE_INTRINSICS = [
     \<lparr>od_intrinsic = BufferRead_op, od_intrinsic_key = ''buffer.read'', od_module = ''core.buffer'',
       od_receiver = Read_recv,
       od_signature = \<lparr>sig_parameters = Fixed [(Read_arg, Any_ty), (Read_arg, Integer_ty)], sig_result = Any_ty\<rparr>\<rparr>,
     \<lparr>od_intrinsic = BufferWrite_op, od_intrinsic_key = ''buffer.write'', od_module = ''core.buffer'',
       od_receiver = Mutate_recv,
       od_signature = \<lparr>sig_parameters = Fixed [(Read_arg, Any_ty), (Read_arg, Integer_ty), (Read_arg, Any_ty)], sig_result = Unit_ty\<rparr>\<rparr>,
     \<lparr>od_intrinsic = ListClear_op, od_intrinsic_key = ''list.clear'', od_module = ''core.list'',
       od_receiver = Mutate_recv,
       od_signature = \<lparr>sig_parameters = Fixed [(Read_arg, Any_ty)], sig_result = Unit_ty\<rparr>\<rparr>,
     \<lparr>od_intrinsic = ValueCanCopy_op, od_intrinsic_key = ''value.can_copy'', od_module = ''core.copy'',
       od_receiver = Read_recv,
       od_signature = \<lparr>sig_parameters = Fixed [(Read_arg, Any_ty)], sig_result = Bool_ty\<rparr>\<rparr>,
     \<lparr>od_intrinsic = ValueCopy_op, od_intrinsic_key = ''value.copy'', od_module = ''core.copy'',
       od_receiver = Read_recv,
       od_signature = \<lparr>sig_parameters = Fixed [(Read_arg, Any_ty)], sig_result = Any_ty\<rparr>\<rparr>,
     \<lparr>od_intrinsic = ListCanCopyAt_op, od_intrinsic_key = ''list.can_copy_at'', od_module = ''core.list'',
       od_receiver = Read_recv,
       od_signature = \<lparr>sig_parameters = Fixed [(Read_arg, Any_ty), (Read_arg, Integer_ty)], sig_result = Bool_ty\<rparr>\<rparr>,
     \<lparr>od_intrinsic = ListCopyAt_op, od_intrinsic_key = ''list.copy_at'', od_module = ''core.list'',
       od_receiver = Read_recv,
       od_signature = \<lparr>sig_parameters = Fixed [(Read_arg, Any_ty), (Read_arg, Integer_ty)], sig_result = Any_ty\<rparr>\<rparr>,
     \<lparr>od_intrinsic = ListPush_op, od_intrinsic_key = ''list.push'', od_module = ''core.list'',
       od_receiver = Mutate_recv,
       od_signature = \<lparr>sig_parameters = Fixed [(Read_arg, Any_ty), (Read_arg, Any_ty)], sig_result = Unit_ty\<rparr>\<rparr>,
     \<lparr>od_intrinsic = ListAppend_op, od_intrinsic_key = ''list.append'', od_module = ''core.list'',
       od_receiver = Consume_recv,
       od_signature = \<lparr>sig_parameters = Fixed [(Read_arg, Any_ty), (Read_arg, Any_ty)], sig_result = Any_ty\<rparr>\<rparr>]"

definition opcode_descriptor :: "opcode_intrinsic \<Rightarrow> opcode_intrinsic_descriptor option" where
  "opcode_descriptor i = find (\<lambda>d. od_intrinsic d = i) OPCODE_INTRINSICS"

section \<open>Source intrinsics\<close>

datatype intrinsic = Builtin_intrinsic builtin | Opcode_intrinsic opcode_intrinsic

definition from_key :: "string \<Rightarrow> intrinsic option" where
  "from_key key =
     (case map_option Builtin_intrinsic (from_intrinsic_key key) of
        Some i \<Rightarrow> Some i
      | None \<Rightarrow> map_option (\<lambda>d. Opcode_intrinsic (od_intrinsic d))
          (find (\<lambda>d. od_intrinsic_key d = key) OPCODE_INTRINSICS))"

text \<open>A missing descriptor is the panic of \<open>descriptor()\<close>, the outer \<open>None\<close>.\<close>

definition for_module :: "string \<Rightarrow> string \<Rightarrow> intrinsic option option" where
  "for_module module key =
     (case from_key key of
        None \<Rightarrow> Some None
      | Some i \<Rightarrow>
          (case (case i of
                   Builtin_intrinsic b \<Rightarrow> map_option bd_module (descriptor b)
                 | Opcode_intrinsic op \<Rightarrow> map_option (\<lambda>d. Some (od_module d)) (opcode_descriptor op)) of
             None \<Rightarrow> None
           | Some None \<Rightarrow> Some None
           | Some (Some expected) \<Rightarrow> Some (if module = expected then Some i else None)))"

fun intrinsic_builtin :: "intrinsic \<Rightarrow> builtin option" where
  "intrinsic_builtin (Builtin_intrinsic b) = Some b"
| "intrinsic_builtin (Opcode_intrinsic _) = None"

fun intrinsic_opcode :: "intrinsic \<Rightarrow> opcode_intrinsic option" where
  "intrinsic_opcode (Opcode_intrinsic i) = Some i"
| "intrinsic_opcode (Builtin_intrinsic _) = None"

definition is_list_operation :: "intrinsic \<Rightarrow> bool" where
  "is_list_operation i =
     (case intrinsic_opcode i of
        None \<Rightarrow> False
      | Some op \<Rightarrow> op \<notin> {ValueCopy_op, ValueCanCopy_op, BufferRead_op, BufferWrite_op})"

definition receiver_mode :: "intrinsic \<Rightarrow> intrinsic_receiver_mode option option" where
  "receiver_mode i =
     (case intrinsic_opcode i of
        None \<Rightarrow> Some None
      | Some op \<Rightarrow> map_option (\<lambda>d. Some (od_receiver d)) (opcode_descriptor op))"

section \<open>The tables identify their rows\<close>

lemma builtin_rows:
  "map bd_builtin BUILTINS = [
     FloatTruncate, FloatRound, FloatCeil, FloatFloor, IntFromFloat, FloatFromInt, FloatSqrt,
     FloatSin, FloatCos, FloatAtan2, FloatBits, Float32Bits, CCallbackNew, CCallbackRelease,
     CCallbackPoll, CCallbackError, ProcessReserve, ProcessExchange, ProcessRelease,
     ProcessWait, CExchange, CExchangeBuffer, CExchangeScalars, CArgumentsReserve,
     CArgumentsInteger, CArgumentsFloat, CArgumentsBytes, CArgumentsSnapshot, CClose, CRelease,
     CEncodeInt, CEncodeFloat, CDecodeInt, CDecodeFloat, Print, Println, FromCodePoint,
     ParseFloat, FormatFloat, ByteValid, ByteUnchecked, BytesEmpty, BytesFromList, BytesConcat,
     BytesSlice, BytesToList, BytesHex, BytesFromHex, StringBytes, BytesUtf8Valid,
     ByteBufferEmpty, ByteBufferWithCapacity, ByteBufferPush, ByteBufferExtend,
     ByteBufferClear, ByteBufferTruncate, ByteBufferReserve, ByteBufferFreeze,
     ByteBufferSnapshot, IoReadText, IoWriteText, IoReadBytes, IoWriteBytes, IoListDirectory,
     IoExists, IoIsFile, IoIsDirectory, IoCreateDirectory, IoCreateDirectoryAll, IoRemoveFile,
     IoRemoveDirectory, IoRename, IoCopyFile, IoJoin, IoParent, IoFileName, IoExtension,
     IoCanonicalize, IoCurrentDirectory, TcpListen, TcpConnect, TcpAccept, TcpRead, TcpWrite,
     TcpReadBytes, TcpWriteBytes, TcpSetTimeout, TcpCloseListener, TcpCloseConnection,
     IoReadRange, IoAppendBytes, IoFileLength, TimeWallNow, TimeMonotonicNow, RandomBytes,
     TcpWaitReadable, TcpWaitWritable, TcpWaitAccept, BufferIntegers, BufferFloats,
     BufferBytes, ListClear, IoStdinRead]"
  by (simp add: BUILTINS_def builtin_row_def)

lemma builtin_rows_cover [simp]: "b \<in> bd_builtin ` set BUILTINS"
proof -
  have "b \<in> set (map bd_builtin BUILTINS)"
    unfolding builtin_rows by (cases b) (simp_all only: list.set insert_iff simp_thms)
  then show ?thesis by simp
qed

lemma builtin_rows_distinct: "distinct (map bd_builtin BUILTINS)"
  unfolding builtin_rows by simp

lemma bytecode_tags_distinct: "distinct (map bd_bytecode_tag BUILTINS)"
  by (simp add: BUILTINS_def builtin_row_def)

lemma opcode_rows_cover [simp]: "i \<in> od_intrinsic ` set OPCODE_INTRINSICS"
  by (cases i) (simp_all add: OPCODE_INTRINSICS_def)

lemma opcode_rows_distinct: "distinct (map od_intrinsic OPCODE_INTRINSICS)"
  by (simp add: OPCODE_INTRINSICS_def)

lemma descriptor_Some_iff:
  "descriptor b = Some d \<longleftrightarrow> d \<in> set BUILTINS \<and> bd_builtin d = b"
  unfolding descriptor_def by (rule find_key_Some_iff) (rule builtin_rows_distinct)

lemma descriptor_bd_builtin [simp]: "d \<in> set BUILTINS \<Longrightarrow> descriptor (bd_builtin d) = Some d"
  by (simp add: descriptor_Some_iff)

lemma opcode_descriptor_od_intrinsic [simp]:
  "d \<in> set OPCODE_INTRINSICS \<Longrightarrow> opcode_descriptor (od_intrinsic d) = Some d"
  unfolding opcode_descriptor_def
  by (rule find_distinct_key [of od_intrinsic, OF opcode_rows_distinct])

lemma descriptor_total: "\<exists>d \<in> set BUILTINS. bd_builtin d = b \<and> descriptor b = Some d"
  using builtin_rows_cover [of b] by (auto simp: image_iff descriptor_Some_iff)

lemma from_bytecode_tag_Some_iff:
  "from_bytecode_tag t = Some b \<longleftrightarrow> (\<exists>d \<in> set BUILTINS. bd_bytecode_tag d = t \<and> bd_builtin d = b)"
  unfolding from_bytecode_tag_def
  by (auto simp: find_key_Some_iff [OF bytecode_tags_distinct])

lemma bytecode_tag_Some_iff:
  "bytecode_tag b = Some t \<longleftrightarrow> (\<exists>d \<in> set BUILTINS. bd_bytecode_tag d = t \<and> bd_builtin d = b)"
  unfolding bytecode_tag_def by (auto simp: descriptor_Some_iff)

text \<open>All source keys, builtin keys first, as \<open>from_key\<close> searches them.\<close>

definition keyed_builtins :: "builtin_descriptor list" where
  "keyed_builtins = [d \<leftarrow> BUILTINS. bd_intrinsic_key d \<noteq> None]"

lemma keyed_builtins_owned: "list_all (\<lambda>d. bd_module d \<noteq> None) keyed_builtins"
  by (simp add: keyed_builtins_def BUILTINS_def builtin_row_def)

lemma intrinsic_keys_distinct:
  "distinct (map (the \<circ> bd_intrinsic_key) keyed_builtins @ map od_intrinsic_key OPCODE_INTRINSICS)"
  by (simp add: keyed_builtins_def BUILTINS_def builtin_row_def OPCODE_INTRINSICS_def)

lemma from_intrinsic_key_Some_iff:
  "from_intrinsic_key k = Some b \<longleftrightarrow>
   (\<exists>d \<in> set BUILTINS. bd_intrinsic_key d = Some k \<and> bd_builtin d = b)" (is "?lhs \<longleftrightarrow> ?rhs")
proof -
  have "find (\<lambda>d. bd_intrinsic_key d = Some k) ds =
      find (\<lambda>d. (the \<circ> bd_intrinsic_key) d = k) [d \<leftarrow> ds. bd_intrinsic_key d \<noteq> None]" for ds
    by (induction ds) auto
  then have "find (\<lambda>d. bd_intrinsic_key d = Some k) BUILTINS =
      find (\<lambda>d. (the \<circ> bd_intrinsic_key) d = k) keyed_builtins"
    unfolding keyed_builtins_def .
  moreover have "distinct (map (the \<circ> bd_intrinsic_key) keyed_builtins)"
    using intrinsic_keys_distinct by simp
  ultimately have "find (\<lambda>d. bd_intrinsic_key d = Some k) BUILTINS = Some d \<longleftrightarrow>
      d \<in> set BUILTINS \<and> bd_intrinsic_key d = Some k" for d
    using find_key_Some_iff [of "the \<circ> bd_intrinsic_key" keyed_builtins k d]
    by (auto simp: keyed_builtins_def)
  then show ?thesis unfolding from_intrinsic_key_def by auto
qed

lemma opcode_key_find_iff:
  "find (\<lambda>d. od_intrinsic_key d = k) OPCODE_INTRINSICS = Some d \<longleftrightarrow>
   d \<in> set OPCODE_INTRINSICS \<and> od_intrinsic_key d = k"
  using intrinsic_keys_distinct by (intro find_key_Some_iff) simp

lemma opcode_key_not_builtin:
  "d \<in> set OPCODE_INTRINSICS \<Longrightarrow> from_intrinsic_key (od_intrinsic_key d) = None"
  using intrinsic_keys_distinct
  by (cases "from_intrinsic_key (od_intrinsic_key d)")
    (force simp: from_intrinsic_key_Some_iff keyed_builtins_def)+

lemma from_key_builtin:
  "d \<in> set BUILTINS \<Longrightarrow> bd_intrinsic_key d = Some k \<Longrightarrow> from_key k = Some (Builtin_intrinsic (bd_builtin d))"
  unfolding from_key_def
  by (subst from_intrinsic_key_Some_iff [of k "bd_builtin d", THEN iffD2]) auto

lemma from_key_opcode:
  "d \<in> set OPCODE_INTRINSICS \<Longrightarrow> from_key (od_intrinsic_key d) = Some (Opcode_intrinsic (od_intrinsic d))"
  using opcode_key_find_iff [of "od_intrinsic_key d" d]
  by (simp add: from_key_def opcode_key_not_builtin)

lemma builtin_key_module:
  "d \<in> set BUILTINS \<Longrightarrow> bd_intrinsic_key d = Some k \<Longrightarrow> \<exists>m. bd_module d = Some m"
  using keyed_builtins_owned by (auto simp: keyed_builtins_def list_all_iff)

lemma from_key_None:
  assumes "\<forall>d \<in> set BUILTINS. bd_intrinsic_key d \<noteq> Some k"
    and "\<forall>d \<in> set OPCODE_INTRINSICS. od_intrinsic_key d \<noteq> k"
  shows "from_key k = None"
proof -
  have "from_intrinsic_key k = None" using assms(1)
    by (cases "from_intrinsic_key k") (auto simp: from_intrinsic_key_Some_iff)
  then show ?thesis using assms(2) by (simp add: from_key_def find_None_iff)
qed

section \<open>Properties\<close>

text \<open>
  The bytecode tag of a builtin is stable in both directions: every builtin has a
  descriptor (\<open>descriptor()\<close> never panics) and a tag, and a tag decodes to a builtin
  exactly when it is that builtin's tag.
\<close>

theorem bytecode_tag_roundtrip:
  "(\<exists>tag. bytecode_tag b = Some tag) \<and>
   (from_bytecode_tag t = Some b \<longleftrightarrow> bytecode_tag b = Some t)"
  using descriptor_total [of b]
  by (auto simp: from_bytecode_tag_Some_iff bytecode_tag_Some_iff)

text \<open>
  C36. Every intrinsic key belongs to one module: a key of either table resolves to its own
  row from the owning module and to nothing from any other module, a key of neither table
  resolves nowhere, and no lookup panics.
\<close>

theorem intrinsic_keys_owned:
  "list_all (\<lambda>d. bd_intrinsic_key d = Some k \<longrightarrow>
      (\<exists>owner. bd_module d = Some owner \<and>
        for_module m k = Some (if m = owner then Some (Builtin_intrinsic (bd_builtin d)) else None)))
     BUILTINS \<and>
   list_all (\<lambda>d. od_intrinsic_key d = k \<longrightarrow>
        for_module m k = Some (if m = od_module d then Some (Opcode_intrinsic (od_intrinsic d)) else None))
     OPCODE_INTRINSICS \<and>
   (for_module m k = Some None \<or>
    list_ex (\<lambda>d. bd_intrinsic_key d = Some k) BUILTINS \<or>
    list_ex (\<lambda>d. od_intrinsic_key d = k) OPCODE_INTRINSICS)"
proof (intro conjI)
  show "list_all (\<lambda>d. bd_intrinsic_key d = Some k \<longrightarrow>
      (\<exists>owner. bd_module d = Some owner \<and>
        for_module m k = Some (if m = owner then Some (Builtin_intrinsic (bd_builtin d)) else None)))
     BUILTINS"
    unfolding list_all_iff
    using builtin_key_module from_key_builtin by (fastforce simp: for_module_def)
  show "list_all (\<lambda>d. od_intrinsic_key d = k \<longrightarrow>
        for_module m k = Some (if m = od_module d then Some (Opcode_intrinsic (od_intrinsic d)) else None))
     OPCODE_INTRINSICS"
    unfolding list_all_iff by (auto simp: for_module_def from_key_opcode)
  show "for_module m k = Some None \<or>
    list_ex (\<lambda>d. bd_intrinsic_key d = Some k) BUILTINS \<or>
    list_ex (\<lambda>d. od_intrinsic_key d = k) OPCODE_INTRINSICS"
    using from_key_None [of k] by (cases "from_key k") (auto simp: list_ex_iff for_module_def)
qed

theorem intrinsic_keys_owned_witness:
  "for_module ''core.list'' ''list.push'' = Some (Some (Opcode_intrinsic ListPush_op)) \<and>
   for_module ''main'' ''list.push'' = Some None"
  using intrinsic_keys_owned [of "''list.push''" "''core.list''"]
    intrinsic_keys_owned [of "''list.push''" "''main''"]
  by (simp add: OPCODE_INTRINSICS_def)

text \<open>Agreement of the columns of one row.\<close>

definition policies_agree :: "builtin_descriptor \<Rightarrow> bool" where
  "policies_agree d \<longleftrightarrow>
     (bd_execution d = Host_exec \<longleftrightarrow> bd_native d = Host_native) \<and>
     (bd_execution d \<in> {TransformFirst, ConsumeFirst} \<longleftrightarrow>
        map_option fst (signature_parameter (bd_signature d) 0) = Some Consume_arg) \<and>
     (case sig_parameters (bd_signature d) of
        Fixed ps \<Rightarrow> list_all (\<lambda>p. fst p = Read_arg) (tl ps)
      | Variadic p \<Rightarrow> fst p = Read_arg)"

text \<open>
  One registry, two back ends: the VM runs a builtin through the host exactly when the
  native back end calls the platform for it; an execution policy takes the first argument
  away from its register exactly when the signature consumes the first parameter, and no
  other parameter of a builtin is ever consumed.
\<close>

theorem builtin_policies_agree:
  "\<exists>d. descriptor b = Some d \<and> policies_agree d"
proof -
  have "list_all policies_agree BUILTINS"
    by (simp add: BUILTINS_def builtin_row_def native_builtin_def policies_agree_def
        signature_parameter_def get_def)
  then show ?thesis using descriptor_total [of b] by (auto simp: list_all_iff)
qed

end
