(* ===== verification/Symbols.thy ===== *)
theory Symbols
  imports Exec_Types
begin

text \<open>
  Symbolic linkage above program-local ids, \<open>bytecode/src/symbols.rs\<close>: module and symbol
  names, checked descriptors, their lookup identity (\<open>overload\<close>), descriptor
  compatibility (\<open>accepts\<close>) and the symbol table with its canonical order and external
  resolution (\<open>bytecode/src/symbols/linking.rs\<close>).
\<close>

section \<open>Data\<close>

datatype module_ident = ModuleName (mn_package: string) (mn_path: string)

datatype qualified_name = Name (nm_module: module_ident) (nm_name: string)

datatype symbol_mode = Borrow_mode | Consume_mode

fun mode_from :: "parameter_mode \<Rightarrow> symbol_mode" where
  "mode_from Borrow = Borrow_mode"
| "mode_from Consume = Consume_mode"

datatype 'a symbol_parameter = SymbolParameter (sp_ty: 'a) (sp_mode: symbol_mode)

datatype effect = Effect (ef_kind: string) (ef_root: string) (ef_path: "string list")

datatype symbol_type =
    Primitive string
  | Generic_sym u32
  | Nominal qualified_name "symbol_type list"
  | Reference_sym string symbol_type
  | Applied string "symbol_type list"
  | Function_sym symbol_descriptor
  | Intersection_sym "symbol_type list"
  | Module_sym module_ident
and symbol_descriptor =
  Descriptor (dc_generics: u32) (dc_constraints: "(u32 \<times> symbol_type) list") (dc_receiver: bool)
    (dc_parameters: "symbol_type symbol_parameter list") (dc_result: symbol_type)
    (dc_effects: "effect list") (dc_suspends: bool) (dc_result_dependencies: "u32 list")
    (dc_fresh_result: bool)

datatype symbol =
  Symbol (sy_name: qualified_name) (sy_receiver: bool) (sy_overload: "symbol_type symbol_parameter list")

record symbol_definition =
  df_symbol :: symbol
  df_descriptor :: symbol_descriptor
  df_function :: u32
  df_generic_names :: "string list"
  df_public :: bool

record symbol_import =
  im_symbol :: symbol
  im_required :: symbol_descriptor
  im_function :: u32
  im_generic_names :: "string list"

record type_binding =
  tb_name :: qualified_name
  tb_variant :: bool
  tb_id :: u32

record symbol_module =
  md_name :: module_ident
  md_types :: "type_binding list"
  md_definitions :: "symbol_definition list"
  md_imports :: "symbol_import list"

record symbol_table =
  st_version :: u16
  st_modules :: "symbol_module list"

definition SYMBOLS_FORMAT_VERSION :: u16 where
  "SYMBOLS_FORMAT_VERSION = 3"

definition default_table :: symbol_table where
  "default_table = \<lparr>st_version = SYMBOLS_FORMAT_VERSION, st_modules = []\<rparr>"

section \<open>Lookup identity\<close>

lemma size_symbol_parameter_lt [termination_simp]:
  "x \<in> set_symbol_parameter p \<Longrightarrow> p \<in> set ps \<Longrightarrow>
   size x < Suc (k + size_list (size_symbol_parameter size) ps + l)"
proof -
  assume x: "x \<in> set_symbol_parameter p" and p: "p \<in> set ps"
  have "size x < size_symbol_parameter size p" using x by (cases p) auto
  also have "\<dots> \<le> size_list (size_symbol_parameter size) ps" using p by (simp add: size_list_estimation')
  finally show ?thesis by simp
qed

lemma size_symbol_parameter_lt' [termination_simp]:
  "x \<in> set_symbol_parameter p \<Longrightarrow> p \<in> set ps \<Longrightarrow>
   size x < Suc (Suc (k + size_list (size_symbol_parameter size) ps + l))"
  using size_symbol_parameter_lt [of x p ps k l] by simp

lemma size_SymbolParameter_lt [termination_simp]:
  "SymbolParameter t m \<in> set ps \<Longrightarrow> size t < Suc (k + size_list (size_symbol_parameter size) ps + l)"
  by (rule size_symbol_parameter_lt [of _ "SymbolParameter t m"]) auto

lemma size_constraint_lt [termination_simp]:
  "(i, t) \<in> set cs \<Longrightarrow> size t < Suc (size_list (\<lambda>x. Suc (size (snd x))) cs + k + l)"
proof -
  assume "(i, t) \<in> set cs"
  then have "Suc (size t) \<le> size_list (\<lambda>x. Suc (size (snd x))) cs"
    using size_list_estimation' [of "(i, t)" cs "Suc (size t)" "\<lambda>x. Suc (size (snd x))"] by simp
  then show ?thesis by simp
qed

text \<open>
  \<open>lookup_type\<close> and \<open>overload\<close>: what identifies a symbol. Storage-group names, effects,
  suspension and result provenance are erased.
\<close>

fun lookup_type :: "symbol_type \<Rightarrow> symbol_type" where
  "lookup_type (Reference_sym _ value) = Reference_sym ''_'' (lookup_type value)"
| "lookup_type (Nominal name args) = Nominal name (map lookup_type args)"
| "lookup_type (Applied name args) = Applied name (map lookup_type args)"
| "lookup_type (Intersection_sym args) = Intersection_sym (map lookup_type args)"
| "lookup_type (Function_sym (Descriptor g cs rc ps res effs susp deps fresh)) =
     Function_sym (Descriptor g cs rc (map (map_symbol_parameter lookup_type) ps) (lookup_type res)
       [] False [] False)"
| "lookup_type other = other"

definition overload :: "symbol_descriptor \<Rightarrow> symbol_type symbol_parameter list" where
  "overload d = map (\<lambda>p. SymbolParameter (lookup_type (sp_ty p)) (sp_mode p)) (dc_parameters d)"

text \<open>\<open>slice::starts_with\<close>.\<close>

definition starts_with :: "'a list \<Rightarrow> 'a list \<Rightarrow> bool" where
  "starts_with xs ys \<longleftrightarrow> take (length ys) xs = ys"

definition accepts :: "symbol_descriptor \<Rightarrow> symbol_descriptor \<Rightarrow> bool" where
  "accepts self implementation \<longleftrightarrow>
     dc_generics self = dc_generics implementation \<and>
     dc_constraints self = dc_constraints implementation \<and>
     dc_receiver self = dc_receiver implementation \<and>
     dc_parameters self = dc_parameters implementation \<and>
     dc_result self = dc_result implementation \<and>
     (\<not> dc_suspends implementation \<or> dc_suspends self) \<and>
     list_all (\<lambda>e. list_ex (\<lambda>allowed. ef_kind allowed = ef_kind e \<and> ef_root allowed = ef_root e \<and>
        starts_with (ef_path e) (ef_path allowed)) (dc_effects self)) (dc_effects implementation) \<and>
     list_all (\<lambda>p. List.member (dc_result_dependencies self) p) (dc_result_dependencies implementation) \<and>
     (\<not> dc_fresh_result self \<or> dc_fresh_result implementation)"

section \<open>The derived orders\<close>

definition module_ident_key :: "module_ident \<Rightarrow> ord_key" where
  "module_ident_key m = Key_list [Key_string (mn_package m), Key_string (mn_path m)]"

definition name_key :: "qualified_name \<Rightarrow> ord_key" where
  "name_key n = Key_list [module_ident_key (nm_module n), Key_string (nm_name n)]"

definition symbol_mode_key :: "symbol_mode \<Rightarrow> ord_key" where
  "symbol_mode_key m = Key_nat (case m of Borrow_mode \<Rightarrow> 0 | Consume_mode \<Rightarrow> 1)"

definition effect_key :: "effect \<Rightarrow> ord_key" where
  "effect_key e = Key_list [Key_string (ef_kind e), Key_string (ef_root e),
     Key_list (map Key_string (ef_path e))]"

definition u32_key :: "u32 \<Rightarrow> ord_key" where
  "u32_key w = Key_nat (unat w)"

fun symbol_type_key :: "symbol_type \<Rightarrow> ord_key" and descriptor_key :: "symbol_descriptor \<Rightarrow> ord_key" where
  "symbol_type_key (Primitive s) = Key_list [Key_nat 0, Key_string s]"
| "symbol_type_key (Generic_sym i) = Key_list [Key_nat 1, u32_key i]"
| "symbol_type_key (Nominal n args) = Key_list [Key_nat 2, name_key n, Key_list (map symbol_type_key args)]"
| "symbol_type_key (Reference_sym g t) = Key_list [Key_nat 3, Key_string g, symbol_type_key t]"
| "symbol_type_key (Applied s args) = Key_list [Key_nat 4, Key_string s, Key_list (map symbol_type_key args)]"
| "symbol_type_key (Function_sym d) = Key_list [Key_nat 5, descriptor_key d]"
| "symbol_type_key (Intersection_sym args) = Key_list [Key_nat 6, Key_list (map symbol_type_key args)]"
| "symbol_type_key (Module_sym m) = Key_list [Key_nat 7, module_ident_key m]"
| "descriptor_key (Descriptor g cs rc ps res effs susp deps fresh) =
     Key_list [u32_key g,
       Key_list (map (\<lambda>(i, t). Key_list [u32_key i, symbol_type_key t]) cs),
       key_bool rc,
       Key_list (map (\<lambda>p. case p of SymbolParameter t m \<Rightarrow>
         Key_list [symbol_type_key t, symbol_mode_key m]) ps),
       symbol_type_key res,
       Key_list (map effect_key effs),
       key_bool susp,
       Key_list (map u32_key deps),
       key_bool fresh]"

definition symbol_parameter_key :: "symbol_type symbol_parameter \<Rightarrow> ord_key" where
  "symbol_parameter_key p = (case p of SymbolParameter t m \<Rightarrow>
     Key_list [symbol_type_key t, symbol_mode_key m])"

definition symbol_key :: "symbol \<Rightarrow> ord_key" where
  "symbol_key s = Key_list [name_key (sy_name s), key_bool (sy_receiver s),
     Key_list (map symbol_parameter_key (sy_overload s))]"

section \<open>The symbol table\<close>

text \<open>\<open>Table::canonical\<close>; the sorts are stable, as \<open>slice::sort_by\<close> is.\<close>

definition canonical_module :: "symbol_module \<Rightarrow> symbol_module" where
  "canonical_module m =
     m\<lparr>md_types := sort_key (\<lambda>t. name_key (tb_name t)) (md_types m),
       md_definitions := sort_key (\<lambda>d. symbol_key (df_symbol d)) (md_definitions m),
       md_imports := sort_key (\<lambda>i. symbol_key (im_symbol i)) (md_imports m)\<rparr>"

definition canonical :: "symbol_table \<Rightarrow> symbol_table" where
  "canonical t =
     t\<lparr>st_modules := map canonical_module (sort_key (\<lambda>m. module_ident_key (md_name m)) (st_modules t))\<rparr>"

datatype resolve_error = UnresolvedSymbol symbol | AmbiguousSymbol | NotExported
  | IncompatibleDescriptor string

definition table_definitions :: "symbol_table \<Rightarrow> symbol_definition list" where
  "table_definitions t = concat (map md_definitions (st_modules t))"

definition resolve :: "symbol_table \<Rightarrow> symbol \<Rightarrow> symbol_descriptor \<Rightarrow> resolve_error + function_id" where
  "resolve t sm required =
     (case [d \<leftarrow> table_definitions t. df_symbol d = sm] of
        [] \<Rightarrow> Inl (UnresolvedSymbol sm)
      | definition # rest \<Rightarrow>
          if rest \<noteq> [] then Inl AmbiguousSymbol
          else if \<not> df_public definition then Inl NotExported
          else if overload required \<noteq> sy_overload sm \<or> dc_receiver required \<noteq> sy_receiver sm \<or>
                  \<not> accepts required (df_descriptor definition)
          then Inl (IncompatibleDescriptor (nm_name (sy_name sm)))
          else Inr (df_function definition))"

section \<open>Laws of identity and compatibility\<close>

lemma lookup_type_idem [simp]: "lookup_type (lookup_type t) = lookup_type t"
proof (induction t rule: lookup_type.induct)
  case (5 g cs rc ps res effs susp deps fresh)
  have "map_symbol_parameter lookup_type (map_symbol_parameter lookup_type p) =
      map_symbol_parameter lookup_type p" if "p \<in> set ps" for p
    using 5(1) [OF that] by (cases p) auto
  then show ?case using 5(2) by simp
qed auto

lemma starts_with_refl [simp]: "starts_with xs xs"
  by (simp add: starts_with_def)

text \<open>
  What a caller may observe of a call: that it touches a place, given by the root of its storage
  group and a full path, that it suspends, that the result depends on an input or shares storage.
  An effect on a path covers every place below it.
\<close>

datatype call_behaviour =
    Touches string string "string list"
  | Suspends
  | Depends_on u32
  | Shares_result

fun admits :: "symbol_descriptor \<Rightarrow> call_behaviour \<Rightarrow> bool" where
  "admits d (Touches kind root path) \<longleftrightarrow> (\<exists>p q. Effect kind root p \<in> set (dc_effects d) \<and> path = p @ q)"
| "admits d Suspends \<longleftrightarrow> dc_suspends d"
| "admits d (Depends_on i) \<longleftrightarrow> i \<in> set (dc_result_dependencies d)"
| "admits d Shares_result \<longleftrightarrow> \<not> dc_fresh_result d"

definition call_interface where
  "call_interface d = (dc_generics d, dc_constraints d, dc_receiver d, dc_parameters d, dc_result d)"

lemma starts_with_iff: "starts_with xs ys \<longleftrightarrow> (\<exists>zs. xs = ys @ zs)"
  unfolding starts_with_def by (metis append_eq_conv_conj append_take_drop_id)

lemma effects_covered:
  "list_all (\<lambda>e. list_ex (\<lambda>allowed. ef_kind allowed = ef_kind e \<and> ef_root allowed = ef_root e \<and>
      starts_with (ef_path e) (ef_path allowed)) es) fs \<longleftrightarrow>
   (\<forall>kind root p q. Effect kind root p \<in> set fs \<longrightarrow> (\<exists>p' q'. Effect kind root p' \<in> set es \<and> p @ q = p' @ q'))"
  (is "?checked \<longleftrightarrow> ?covered")
proof
  assume ?checked
  show ?covered
  proof (intro allI impI)
    fix kind root p q
    assume "Effect kind root p \<in> set fs"
    then obtain a where a: "a \<in> set es" "ef_kind a = kind" "ef_root a = root" "starts_with p (ef_path a)"
      using \<open>?checked\<close> by (fastforce simp: list_all_iff list_ex_iff)
    then obtain r where "Effect kind root (ef_path a) \<in> set es" "p = ef_path a @ r"
      by (cases a) (auto simp: starts_with_iff)
    then show "\<exists>p' q'. Effect kind root p' \<in> set es \<and> p @ q = p' @ q'"
      by (metis append.assoc)
  qed
next
  assume covered: ?covered
  have "\<exists>a \<in> set es. ef_kind a = ef_kind e \<and> ef_root a = ef_root e \<and> starts_with (ef_path e) (ef_path a)"
    if e: "e \<in> set fs" for e
  proof (cases e)
    case (Effect kind root p)
    then obtain p' q' where "Effect kind root p' \<in> set es" "p @ [] = p' @ q'" using covered e by blast
    then show ?thesis using Effect by (auto simp: starts_with_iff intro!: bexI [of _ "Effect kind root p'"])
  qed
  then show ?checked by (simp add: list_all_iff list_ex_iff)
qed

lemma all_behaviours:
  "(\<forall>b. P b) \<longleftrightarrow> (\<forall>kind root path. P (Touches kind root path)) \<and> P Suspends \<and> (\<forall>i. P (Depends_on i)) \<and> P Shares_result"
  by (metis call_behaviour.exhaust)

lemma accepts_behaviours:
  "(\<forall>b. admits implementation b \<longrightarrow> admits required b) \<longleftrightarrow>
   (\<not> dc_suspends implementation \<or> dc_suspends required) \<and>
   list_all (\<lambda>e. list_ex (\<lambda>allowed. ef_kind allowed = ef_kind e \<and> ef_root allowed = ef_root e \<and>
      starts_with (ef_path e) (ef_path allowed)) (dc_effects required)) (dc_effects implementation) \<and>
   list_all (\<lambda>p. List.member (dc_result_dependencies required) p) (dc_result_dependencies implementation) \<and>
   (\<not> dc_fresh_result required \<or> dc_fresh_result implementation)"
  unfolding effects_covered all_behaviours by (fastforce simp: list_all_iff)

section \<open>Injective keys\<close>

lemma module_ident_key_inject [simp]: "module_ident_key a = module_ident_key b \<longleftrightarrow> a = b"
  by (cases a; cases b) (auto simp: module_ident_key_def)

lemma name_key_inject [simp]: "name_key a = name_key b \<longleftrightarrow> a = b"
  by (cases a; cases b) (auto simp: name_key_def)

lemma symbol_mode_key_inject [simp]: "symbol_mode_key a = symbol_mode_key b \<longleftrightarrow> a = b"
  by (cases a; cases b) (auto simp: symbol_mode_key_def)

lemma effect_key_inject [simp]: "effect_key a = effect_key b \<longleftrightarrow> a = b"
  by (cases a; cases b) (auto simp: effect_key_def inj_def)

lemma u32_key_inject [simp]: "u32_key a = u32_key b \<longleftrightarrow> a = b"
  by (simp add: u32_key_def word_unat_eq_iff)

lemma map_key_inject:
  "(\<And>x y. x \<in> set xs \<Longrightarrow> k x = k y \<longleftrightarrow> x = y) \<Longrightarrow> map k xs = map k ys \<longleftrightarrow> xs = ys"
proof (induction xs arbitrary: ys)
  case (Cons x xs)
  then show ?case by (cases ys) auto
qed auto

lemma effect_keys_inject [simp]: "map effect_key xs = map effect_key ys \<longleftrightarrow> xs = ys"
  by (rule map_key_inject) simp

lemma u32_keys_inject [simp]: "map u32_key xs = map u32_key ys \<longleftrightarrow> xs = ys"
  by (rule map_key_inject) simp

lemma symbol_type_key_inject_iff:
  "symbol_type_key t = symbol_type_key u \<longleftrightarrow> t = u"
  "descriptor_key d = descriptor_key e \<longleftrightarrow> d = e"
proof (induction t and d arbitrary: u and e)
  case (Nominal n args)
  then have "map symbol_type_key args = map symbol_type_key bs \<longleftrightarrow> args = bs" for bs
    by (intro map_key_inject)
  then show ?case by (cases u) auto
next
  case (Applied n args)
  then have "map symbol_type_key args = map symbol_type_key bs \<longleftrightarrow> args = bs" for bs
    by (intro map_key_inject)
  then show ?case by (cases u) auto
next
  case (Intersection_sym args)
  then have "map symbol_type_key args = map symbol_type_key bs \<longleftrightarrow> args = bs" for bs
    by (intro map_key_inject)
  then show ?case by (cases u) auto
next
  case (Descriptor g cs rc ps res effs susp deps fresh)
  have "map (\<lambda>(i, t). Key_list [u32_key i, symbol_type_key t]) cs =
      map (\<lambda>(i, t). Key_list [u32_key i, symbol_type_key t]) cs' \<longleftrightarrow> cs = cs'" for cs'
    by (rule map_key_inject) (auto dest: Descriptor.IH(1) [THEN iffD1, rotated 2])
  moreover have "map (\<lambda>p. case p of SymbolParameter t m \<Rightarrow> Key_list [symbol_type_key t, symbol_mode_key m]) ps =
      map (\<lambda>p. case p of SymbolParameter t m \<Rightarrow> Key_list [symbol_type_key t, symbol_mode_key m]) ps' \<longleftrightarrow>
      ps = ps'" for ps'
    by (rule map_key_inject)
      (auto split: symbol_parameter.splits dest: Descriptor.IH(2) [THEN iffD1, rotated 2])
  ultimately show ?case using Descriptor.IH(3) by (cases e) auto
qed (case_tac u, auto)+

lemma symbol_parameter_key_inject [simp]: "symbol_parameter_key p = symbol_parameter_key q \<longleftrightarrow> p = q"
  by (cases p; cases q) (auto simp: symbol_parameter_key_def symbol_type_key_inject_iff)

lemma symbol_key_inject [simp]: "symbol_key a = symbol_key b \<longleftrightarrow> a = b"
  using map_key_inject [of "sy_overload a" symbol_parameter_key "sy_overload b"]
  by (cases a; cases b) (auto simp: symbol_key_def)

interpretation module_ident_ord: derived_ord module_ident_key
  by unfold_locales simp

interpretation name_ord: derived_ord name_key
  by unfold_locales simp

interpretation symbol_ord: derived_ord symbol_key
  by unfold_locales simp

section \<open>Canonical tables\<close>

text \<open>
  Two tables with the same content: modules, and the containers of each module, may be
  listed in any order.
\<close>

definition same_module :: "symbol_module \<Rightarrow> symbol_module \<Rightarrow> bool" where
  "same_module m n \<longleftrightarrow>
     md_name m = md_name n \<and>
     mset (md_types m) = mset (md_types n) \<and>
     mset (md_definitions m) = mset (md_definitions n) \<and>
     mset (md_imports m) = mset (md_imports n)"

definition same_table :: "symbol_table \<Rightarrow> symbol_table \<Rightarrow> bool" where
  "same_table t u \<longleftrightarrow> st_version t = st_version u \<and>
     (\<exists>ms. mset ms = mset (st_modules u) \<and> list_all2 same_module (st_modules t) ms)"

definition unique_module :: "symbol_module \<Rightarrow> bool" where
  "unique_module m \<longleftrightarrow> distinct (map tb_name (md_types m)) \<and>
     distinct (map df_symbol (md_definitions m)) \<and> distinct (map im_symbol (md_imports m))"

definition unique_table :: "symbol_table \<Rightarrow> bool" where
  "unique_table t \<longleftrightarrow> distinct (map md_name (st_modules t)) \<and> list_all unique_module (st_modules t)"

lemma distinct_map_key:
  "(\<And>a b. k a = k b \<longleftrightarrow> a = b) \<Longrightarrow> distinct (map (\<lambda>x. k (f x)) xs) \<longleftrightarrow> distinct (map f xs)"
  by (simp add: distinct_map inj_on_def)

lemma canonical_module_cong:
  "same_module m n \<Longrightarrow> unique_module m \<Longrightarrow> canonical_module m = canonical_module n"
  unfolding canonical_module_def same_module_def unique_module_def
  by (intro symbol_module.equality)
    (auto intro!: sort_key_mset_cong simp: distinct_map_key)

lemma canonical_modules_cong:
  "list_all2 same_module ms ns \<Longrightarrow> list_all unique_module ms \<Longrightarrow>
   map canonical_module ms = map canonical_module ns \<and> map md_name ms = map md_name ns"
  by (induction rule: list_all2_induct) (auto intro: canonical_module_cong simp: same_module_def)

lemma canonical_module_name [simp]: "md_name (canonical_module m) = md_name m"
  by (simp add: canonical_module_def)

lemma map_canonical_sort:
  "map canonical_module (sort_key (\<lambda>m. module_ident_key (md_name m)) ms) =
   sort_key (\<lambda>m. module_ident_key (md_name m)) (map canonical_module ms)"
proof -
  have "map canonical_module (insort_key (\<lambda>m. module_ident_key (md_name m)) m ns) =
      insort_key (\<lambda>m. module_ident_key (md_name m)) (canonical_module m) (map canonical_module ns)" for m ns
    by (induction ns) auto
  then show ?thesis by (induction ms) (auto simp: sort_key_def)
qed

lemma sort_key_idem [simp]: "sort_key k (sort_key k xs) = sort_key k xs"
  by (rule sort_key_id_if_sorted) simp

lemma canonical_module_idem [simp]: "canonical_module (canonical_module m) = canonical_module m"
  by (simp add: canonical_module_def)

lemma canonical_definitions_mset: "mset (table_definitions (canonical t)) = mset (table_definitions t)"
proof -
  have "mset (concat (map (md_definitions \<circ> canonical_module) ms)) = mset (concat (map md_definitions ms))" for ms
    by (induction ms) (auto simp: canonical_module_def)
  moreover have "mset (concat (map md_definitions (sort_key k ms))) = mset (concat (map md_definitions ms))"
    for k :: "symbol_module \<Rightarrow> ord_key" and ms
  proof -
    have "mset (concat (map md_definitions (insort_key k m ns))) =
        mset (md_definitions m) + mset (concat (map md_definitions ns))" for m ns
      by (induction ns) auto
    then show ?thesis by (induction ms) (auto simp: sort_key_def)
  qed
  ultimately show ?thesis by (simp add: table_definitions_def canonical_def)
qed

lemma resolve_mset_cong:
  assumes "mset (table_definitions t) = mset (table_definitions u)"
  shows "resolve t sm req = resolve u sm req"
proof -
  have eq: "mset [d \<leftarrow> table_definitions t. df_symbol d = sm] = mset [d \<leftarrow> table_definitions u. df_symbol d = sm]"
    (is "mset ?xs = mset ?ys") using assms by simp
  then have len: "length ?xs = length ?ys" by (rule mset_eq_length)
  consider "?xs = []" | d where "?xs = [d]" | d e r where "?xs = d # e # r"
    by (cases ?xs rule: remdups_adj.cases) auto
  then show ?thesis
  proof cases
    case 1
    then show ?thesis using eq by (simp add: resolve_def)
  next
    case 2
    then have "?ys = [d]" using eq by (metis mset_single_iff_right mset.simps mset_single_iff)
    with 2 show ?thesis by (simp add: resolve_def)
  next
    case 3
    then obtain a b s where "?ys = a # b # s" using len
      by (cases ?ys rule: remdups_adj.cases) auto
    with 3 show ?thesis by (simp add: resolve_def)
  qed
qed

section \<open>Properties\<close>

text \<open>
  C28. The canonical form of a symbol table does not depend on the order in which modules,
  types, definitions and imports were inserted, and taking it twice changes nothing.
\<close>

theorem canonical_order_independent:
  assumes "same_table t u" "unique_table t"
  shows "canonical t = canonical u \<and> canonical (canonical u) = canonical u"
proof
  from assms(1) obtain ms where ms: "mset ms = mset (st_modules u)"
    "list_all2 same_module (st_modules t) ms" and version: "st_version t = st_version u"
    by (auto simp: same_table_def)
  from assms(2) ms(2) have eq: "map canonical_module (st_modules t) = map canonical_module ms"
    and names: "map md_name (st_modules t) = map md_name ms"
    using canonical_modules_cong by (auto simp: unique_table_def)
  have "distinct (map (\<lambda>m. module_ident_key (md_name m)) (map canonical_module ms))"
    using assms(2) names distinct_map_key [OF module_ident_key_inject, of md_name ms]
    by (simp add: unique_table_def o_def)
  then have "sort_key (\<lambda>m. module_ident_key (md_name m)) (map canonical_module ms) =
      sort_key (\<lambda>m. module_ident_key (md_name m)) (map canonical_module (st_modules u))"
    using ms(1) by (intro sort_key_mset_cong) simp_all
  then show "canonical t = canonical u"
    using eq version by (intro symbol_table.equality) (simp_all add: canonical_def map_canonical_sort)
  show "canonical (canonical u) = canonical u"
    by (simp add: canonical_def map_canonical_sort o_def)
qed

theorem canonical_order_independent_witness:
  "canonical \<lparr>st_version = 3, st_modules = [
      \<lparr>md_name = ModuleName ''p'' ''b'', md_types = [], md_definitions = [], md_imports = []\<rparr>,
      \<lparr>md_name = ModuleName ''p'' ''a'', md_types = [], md_definitions = [], md_imports = []\<rparr>]\<rparr> =
   canonical \<lparr>st_version = 3, st_modules = [
      \<lparr>md_name = ModuleName ''p'' ''a'', md_types = [], md_definitions = [], md_imports = []\<rparr>,
      \<lparr>md_name = ModuleName ''p'' ''b'', md_types = [], md_definitions = [], md_imports = []\<rparr>]\<rparr>"
  (is "canonical \<lparr>st_version = 3, st_modules = [?b, ?a]\<rparr> = canonical ?u")
proof -
  have "list_all2 same_module [?b, ?a] [?b, ?a] \<and> mset [?b, ?a] = mset (st_modules ?u)"
    by (simp add: same_module_def)
  then have "same_table \<lparr>st_version = 3, st_modules = [?b, ?a]\<rparr> ?u"
    by (auto simp: same_table_def simp del: mset.simps list_all2_Cons)
  moreover have "unique_table \<lparr>st_version = 3, st_modules = [?b, ?a]\<rparr>"
    by (simp add: unique_table_def unique_module_def)
  ultimately show ?thesis using canonical_order_independent by blast
qed

text \<open>
  C29. Resolution by an external caller does not depend on the order of the table, and it
  returns a function exactly when one definition carries the symbol, that definition is
  public, the request spells the symbol's identity and accepts its descriptor.
\<close>

theorem resolve_characterised:
  "resolve (canonical t) sm required = resolve t sm required \<and>
   (resolve t sm required = Inr f \<longleftrightarrow>
      (\<exists>d. [d \<leftarrow> table_definitions t. df_symbol d = sm] = [d] \<and> df_public d \<and> df_function d = f \<and>
         overload required = sy_overload sm \<and> dc_receiver required = sy_receiver sm \<and>
         accepts required (df_descriptor d)))"
proof
  show "resolve (canonical t) sm required = resolve t sm required"
    by (rule resolve_mset_cong) (rule canonical_definitions_mset)
qed (auto simp: resolve_def split: list.splits)

text \<open>
  C37. Descriptor compatibility is exactly safe substitution: a required descriptor accepts an
  implementation if and only if both have the same generics, constraints, receiver, parameters
  and result, and every behaviour of a call that the implementation admits (a place it touches
  below one of its effects, a suspension, a dependency or shared storage of its result) is one
  that the required descriptor admits.
\<close>

theorem accepts_iff_admits:
  "accepts required implementation \<longleftrightarrow>
     call_interface required = call_interface implementation \<and>
     (\<forall>b. admits implementation b \<longrightarrow> admits required b)"
  unfolding accepts_behaviours unfolding accepts_def call_interface_def prod.inject by argo

definition reading :: "bool \<Rightarrow> string list \<Rightarrow> symbol_descriptor" where
  "reading susp path = Descriptor 0 [] False [SymbolParameter (Primitive ''int'') Borrow_mode]
     (Primitive ''unit'') [Effect ''read'' ''p0'' path] susp [] False"

theorem accepts_iff_admits_witness:
  "accepts (reading True []) (reading False [''a'']) \<and> \<not> accepts (reading False [''a'']) (reading False [])"
proof
  have "\<forall>b. admits (reading False [''a'']) b \<longrightarrow> admits (reading True []) b"
    unfolding all_behaviours by (simp add: reading_def)
  then show "accepts (reading True []) (reading False [''a''])"
    unfolding accepts_iff_admits by (simp add: call_interface_def reading_def)
  have "admits (reading False []) (Touches ''read'' ''p0'' [''b''])"
    "\<not> admits (reading False [''a'']) (Touches ''read'' ''p0'' [''b''])"
    by (simp_all add: reading_def)
  then show "\<not> accepts (reading False [''a'']) (reading False [])"
    unfolding accepts_iff_admits by blast
qed

end
