(* ===== verification/Program.thy ===== *)
theory Program
  imports Type_Ops Intrinsics Symbols
begin

text \<open>
  Executable programs: patterns and capture modes (\<open>bytecode/src/hir.rs\<close>), the slot
  instructions, functions and programs of \<open>bytecode/src/codegen/storage.rs\<close>, and the
  backend-neutral metadata of \<open>bytecode/src/codegen/metadata.rs\<close>.

  Slots are their \<open>u16\<close> number, source ranges pairs of offsets, \<open>i64\<close> and \<open>f64\<close> values
  64-bit words (a float is its IEEE bit pattern), \<open>char\<close> its \<open>u32\<close> value. A \<open>HashMap\<close>
  is the list of its entries in one iteration order; keys are distinct.
\<close>

section \<open>Patterns and instructions\<close>

type_synonym slot = u16
type_synonym span = "nat \<times> nat"
type_synonym dispatch_slot = u32
type_synonym ('k, 'v) hash_map = "('k \<times> 'v) list"

datatype capture_mode = Pending | Copy_capture | Move_capture | Ref_capture

datatype pattern =
    Record_pat "(string \<times> pattern) list"
  | IsType (it_target: executable_type) (it_source: executable_type)
      (it_conforming: "executable_type list") (it_binding: "local_id option")
  | Spanned pattern span
  | Wildcard
  | Binding local_id
  | Bool_pat bool
  | Integer_pat u64
  | Float_pat u64
  | String_pat string
  | CodePoint_pat string
  | Symbol_pat string
  | Variant_pat variant_id "pattern list"

datatype instruction =
    Drop slot
  | LoadConstant slot u16
  | Move slot slot
  | Unary slot unary_op slot
  | Binary slot binary_op slot slot
  | MakeList slot executable_type "slot list"
  | Index slot slot slot
  | MakeRecord slot record_id "executable_type list" "(string \<times> slot) list"
  | MakeVariant slot variant_id "executable_type list" "slot list"
  | LoadField slot slot string bool
  | StoreField slot string slot
  | StoreIndex slot slot slot
  | MakeReference slot executable_type slot slot
  | MakeWholeReference slot executable_type slot
  | MakeFieldReference slot executable_type slot string
  | MoveOut bool slot slot
  | Push slot slot slot
  | Append slot slot slot
  | Contains slot slot "slot list"
  | Builtin slot builtin "slot list"
  | SpawnRemote slot slot
  | SpawnRemoteBorrow slot slot
  | RemoteCall slot slot function_id "(parameter_mode \<times> slot) list"
  | Await slot slot
  | MatchPattern slot slot pattern "slot list"
  | Jump nat
  | JumpIfFalse slot nat
  | Assert slot "slot option"
  | Call slot function_id specialization "slot list"
  | CallMethod slot slot function_id specialization "slot list"
  | CallContractMethod slot slot dispatch_slot string "slot list" executable_type
  | MakeClosure slot function_id specialization "(capture_mode \<times> slot) list"
  | CallValue slot slot "slot list"
  | CallClosure slot function_id specialization "(capture_mode \<times> slot) list" "slot list"
  | Return slot

fun unspanned :: "pattern \<Rightarrow> pattern" where
  "unspanned (Spanned p _) = unspanned p"
| "unspanned p = p"

fun pattern_span :: "pattern \<Rightarrow> span option" where
  "pattern_span (Spanned _ sp) = Some sp"
| "pattern_span _ = None"

lemma size_unspanned: "size (unspanned p) \<le> size p"
  by (induction p rule: unspanned.induct) auto

text \<open>The locals a pattern binds, appended to \<open>result\<close> in visiting order.\<close>

function binding_locals :: "pattern \<Rightarrow> local_id list \<Rightarrow> local_id list" where
  "binding_locals p acc =
     (case unspanned p of
        Binding local \<Rightarrow> acc @ [local]
      | IsType _ _ _ (Some local) \<Rightarrow> acc @ [local]
      | Record_pat fs \<Rightarrow> fold (\<lambda>(_, q) acc. binding_locals q acc) fs acc
      | Variant_pat _ fs \<Rightarrow> fold binding_locals fs acc
      | _ \<Rightarrow> acc)"
  by pat_completeness auto
termination
proof (relation "measure (\<lambda>(p, acc). size p)", goal_cases)
  case (2 p acc fs x y xa ya)
  then have "size (snd x) < size (unspanned p)"
    using size_list_estimation' [of x fs "size (snd x)" "size_prod (\<lambda>x. 0) size"]
    by (cases x) auto
  then show ?case using 2(3) [symmetric] size_unspanned [of p] by simp
next
  case (3 p acc v fs q)
  then have "size q < size (unspanned p)"
    using size_list_estimation' [of q fs "size q" size] by auto
  then show ?case using size_unspanned [of p] by simp
qed simp

section \<open>Register visitors\<close>

text \<open>
  \<open>visit_registers\<close> is the sequence of slots it passes to the visitor.
  \<open>visit_registers_mut\<close> threads the state of a mutable visitor.
\<close>

fun visit_registers :: "instruction \<Rightarrow> slot list" where
  "visit_registers (Drop register) = [register]"
| "visit_registers (LoadConstant destination _) = [destination]"
| "visit_registers (Move destination source) = [destination, source]"
| "visit_registers (Unary destination _ operand) = [destination, operand]"
| "visit_registers (Binary destination _ left right) = [destination, left, right]"
| "visit_registers (MakeList destination _ elements) = destination # elements"
| "visit_registers (Index destination obj index) = [destination, obj, index]"
| "visit_registers (MakeRecord destination _ _ fs) = destination # map snd fs"
| "visit_registers (MakeVariant destination _ _ payload) = destination # payload"
| "visit_registers (LoadField destination obj _ _) = [destination, obj]"
| "visit_registers (StoreField obj _ source) = [obj, source]"
| "visit_registers (StoreIndex obj index source) = [obj, index, source]"
| "visit_registers (MakeReference destination _ obj index) = [destination, obj, index]"
| "visit_registers (MakeWholeReference destination _ obj) = [destination, obj]"
| "visit_registers (MakeFieldReference destination _ obj _) = [destination, obj]"
| "visit_registers (MoveOut _ destination source) = [destination, source]"
| "visit_registers (Push destination obj val) = [destination, obj, val]"
| "visit_registers (Append destination obj val) = [destination, obj, val]"
| "visit_registers (Contains destination val candidates) = destination # val # candidates"
| "visit_registers (Builtin destination _ arguments) = destination # arguments"
| "visit_registers (SpawnRemote destination val) = [destination, val]"
| "visit_registers (SpawnRemoteBorrow destination source) = [destination, source]"
| "visit_registers (RemoteCall destination remote _ arguments) = destination # remote # map snd arguments"
| "visit_registers (Await destination future) = [destination, future]"
| "visit_registers (MatchPattern destination subject _ bindings) = destination # subject # bindings"
| "visit_registers (Jump _) = []"
| "visit_registers (JumpIfFalse condition _) = [condition]"
| "visit_registers (Assert condition message) =
     condition # (case message of None \<Rightarrow> [] | Some m \<Rightarrow> [m])"
| "visit_registers (Call destination _ _ arguments) = destination # arguments"
| "visit_registers (CallMethod destination receiver _ _ arguments) = destination # receiver # arguments"
| "visit_registers (CallContractMethod destination receiver _ _ arguments _) =
     destination # receiver # arguments"
| "visit_registers (MakeClosure destination _ _ captures) = destination # map snd captures"
| "visit_registers (CallValue destination callee arguments) = destination # callee # arguments"
| "visit_registers (CallClosure destination _ _ captures arguments) =
     destination # map snd captures @ arguments"
| "visit_registers (Return source) = [source]"

type_synonym 's visitor = "slot \<Rightarrow> 's \<Rightarrow> slot \<times> 's"

fun visit_list :: "('a \<Rightarrow> 's \<Rightarrow> 'a \<times> 's) \<Rightarrow> 'a list \<Rightarrow> 's \<Rightarrow> 'a list \<times> 's" where
  "visit_list visit [] s = ([], s)"
| "visit_list visit (x # xs) s =
     (let (x, s) = visit x s; (xs, s) = visit_list visit xs s in (x # xs, s))"

definition visit_snd :: "'s visitor \<Rightarrow> 'a \<times> slot \<Rightarrow> 's \<Rightarrow> ('a \<times> slot) \<times> 's" where
  "visit_snd visit p s = (let (r, s) = visit (snd p) s in ((fst p, r), s))"

definition visit1 :: "'s visitor \<Rightarrow> (slot \<Rightarrow> instruction) \<Rightarrow> slot \<Rightarrow> 's \<Rightarrow> instruction \<times> 's" where
  "visit1 visit c a s = (let (a, s) = visit a s in (c a, s))"

definition visit2 ::
  "'s visitor \<Rightarrow> (slot \<Rightarrow> slot \<Rightarrow> instruction) \<Rightarrow> slot \<Rightarrow> slot \<Rightarrow> 's \<Rightarrow> instruction \<times> 's" where
  "visit2 visit c a b s = (let (a, s) = visit a s; (b, s) = visit b s in (c a b, s))"

definition visit3 ::
  "'s visitor \<Rightarrow> (slot \<Rightarrow> slot \<Rightarrow> slot \<Rightarrow> instruction) \<Rightarrow> slot \<Rightarrow> slot \<Rightarrow> slot \<Rightarrow> 's \<Rightarrow>
   instruction \<times> 's" where
  "visit3 visit c a b d s =
     (let (a, s) = visit a s; (b, s) = visit b s; (d, s) = visit d s in (c a b d, s))"

fun visit_registers_mut :: "'s visitor \<Rightarrow> instruction \<Rightarrow> 's \<Rightarrow> instruction \<times> 's" where
  "visit_registers_mut visit (Drop register) s = visit1 visit Drop register s"
| "visit_registers_mut visit (LoadConstant destination constant) s =
     visit1 visit (\<lambda>d. LoadConstant d constant) destination s"
| "visit_registers_mut visit (Move destination source) s = visit2 visit Move destination source s"
| "visit_registers_mut visit (Unary destination operator operand) s =
     visit2 visit (\<lambda>d. Unary d operator) destination operand s"
| "visit_registers_mut visit (Binary destination operator left right) s =
     visit3 visit (\<lambda>d. Binary d operator) destination left right s"
| "visit_registers_mut visit (MakeList destination element_type elements) s =
     (let (d, s) = visit destination s; (es, s) = visit_list visit elements s
      in (MakeList d element_type es, s))"
| "visit_registers_mut visit (Index destination obj index) s = visit3 visit Index destination obj index s"
| "visit_registers_mut visit (MakeRecord destination rec type_arguments fs) s =
     (let (d, s) = visit destination s; (fs, s) = visit_list (visit_snd visit) fs s
      in (MakeRecord d rec type_arguments fs, s))"
| "visit_registers_mut visit (MakeVariant destination variant type_arguments payload) s =
     (let (d, s) = visit destination s; (ps, s) = visit_list visit payload s
      in (MakeVariant d variant type_arguments ps, s))"
| "visit_registers_mut visit (LoadField destination obj field by_reference) s =
     visit2 visit (\<lambda>d ob. LoadField d ob field by_reference) destination obj s"
| "visit_registers_mut visit (StoreField obj field source) s =
     visit2 visit (\<lambda>ob sr. StoreField ob field sr) obj source s"
| "visit_registers_mut visit (StoreIndex obj index source) s = visit3 visit StoreIndex obj index source s"
| "visit_registers_mut visit (MakeReference destination pointee_type obj index) s =
     visit3 visit (\<lambda>d. MakeReference d pointee_type) destination obj index s"
| "visit_registers_mut visit (MakeWholeReference destination pointee_type obj) s =
     visit2 visit (\<lambda>d. MakeWholeReference d pointee_type) destination obj s"
| "visit_registers_mut visit (MakeFieldReference destination pointee_type obj field) s =
     visit2 visit (\<lambda>d ob. MakeFieldReference d pointee_type ob field) destination obj s"
| "visit_registers_mut visit (MoveOut by_reference destination source) s =
     visit2 visit (MoveOut by_reference) destination source s"
| "visit_registers_mut visit (Push destination obj val) s = visit3 visit Push destination obj val s"
| "visit_registers_mut visit (Append destination obj val) s = visit3 visit Append destination obj val s"
| "visit_registers_mut visit (Contains destination val candidates) s =
     (let (d, s) = visit destination s; (v, s) = visit val s; (cs, s) = visit_list visit candidates s
      in (Contains d v cs, s))"
| "visit_registers_mut visit (Builtin destination builtin arguments) s =
     (let (d, s) = visit destination s; (as, s) = visit_list visit arguments s
      in (Builtin d builtin as, s))"
| "visit_registers_mut visit (SpawnRemote destination val) s = visit2 visit SpawnRemote destination val s"
| "visit_registers_mut visit (SpawnRemoteBorrow destination source) s =
     visit2 visit SpawnRemoteBorrow destination source s"
| "visit_registers_mut visit (RemoteCall destination remote f arguments) s =
     (let (d, s) = visit destination s; (r, s) = visit remote s;
          (as, s) = visit_list (visit_snd visit) arguments s
      in (RemoteCall d r f as, s))"
| "visit_registers_mut visit (Await destination future) s = visit2 visit Await destination future s"
| "visit_registers_mut visit (MatchPattern destination subject pattern bindings) s =
     (let (d, s) = visit destination s; (j, s) = visit subject s; (bs, s) = visit_list visit bindings s
      in (MatchPattern d j pattern bs, s))"
| "visit_registers_mut visit (Jump target) s = (Jump target, s)"
| "visit_registers_mut visit (JumpIfFalse condition target) s =
     visit1 visit (\<lambda>c. JumpIfFalse c target) condition s"
| "visit_registers_mut visit (Assert condition message) s =
     (let (c, s) = visit condition s
      in case message of
           None \<Rightarrow> (Assert c None, s)
         | Some m \<Rightarrow> (let (m, s) = visit m s in (Assert c (Some m), s)))"
| "visit_registers_mut visit (Call destination f specialization arguments) s =
     (let (d, s) = visit destination s; (as, s) = visit_list visit arguments s
      in (Call d f specialization as, s))"
| "visit_registers_mut visit (CallMethod destination receiver f specialization arguments) s =
     (let (d, s) = visit destination s; (r, s) = visit receiver s; (as, s) = visit_list visit arguments s
      in (CallMethod d r f specialization as, s))"
| "visit_registers_mut visit (CallContractMethod destination receiver slot name arguments result_type) s =
     (let (d, s) = visit destination s; (r, s) = visit receiver s; (as, s) = visit_list visit arguments s
      in (CallContractMethod d r slot name as result_type, s))"
| "visit_registers_mut visit (MakeClosure destination f specialization captures) s =
     (let (d, s) = visit destination s; (cs, s) = visit_list (visit_snd visit) captures s
      in (MakeClosure d f specialization cs, s))"
| "visit_registers_mut visit (CallValue destination callee arguments) s =
     (let (d, s) = visit destination s; (c, s) = visit callee s; (as, s) = visit_list visit arguments s
      in (CallValue d c as, s))"
| "visit_registers_mut visit (CallClosure destination f specialization captures arguments) s =
     (let (d, s) = visit destination s; (cs, s) = visit_list (visit_snd visit) captures s;
          (as, s) = visit_list visit arguments s
      in (CallClosure d f specialization cs as, s))"
| "visit_registers_mut visit (Return source) s = visit1 visit Return source s"

lemma visit_list_append:
  "visit_list f (xs @ ys) s =
   (let (xs, s) = visit_list f xs s; (ys, s) = visit_list f ys s in (xs @ ys, s))"
  by (induction xs arbitrary: s) (auto simp: Let_def split: prod.splits)

lemma visit_list_map_snd:
  "visit_list f (map snd ps) s =
   (let (ps, s) = visit_list (visit_snd f) ps s in (map snd ps, s))"
  by (induction ps arbitrary: s) (auto simp: Let_def visit_snd_def split: prod.splits)

lemma visit_list_trace: "visit_list (\<lambda>r s. (r, s @ [r])) rs s = (rs, s @ rs)"
  by (induction rs arbitrary: s) auto

lemma visit_list_trace_snd:
  "visit_list (visit_snd (\<lambda>r s. (r, s @ [r]))) ps s = (ps, s @ map snd ps)"
  by (induction ps arbitrary: s) (auto simp: visit_snd_def)

section \<open>Functions and instruction bodies\<close>

record executable_parameter =
  ep_ty :: executable_type
  ep_mode :: parameter_mode
  ep_mutable :: bool

record instruction_body =
  instructions :: "instruction list"
  instruction_spans :: "span list"

record bytecode_function =
  f_name :: string
  f_intrinsic_stub :: bool
  f_parameters :: "executable_parameter list"
  f_returns_reference :: bool
  f_captures :: u16
  f_capture_types :: "executable_type list"
  f_result_type :: executable_type
  f_registers :: u16
  f_body :: instruction_body

text \<open>\<open>Function::parameter_count\<close>; \<open>None\<close> is the panic of \<open>expect\<close>.\<close>

definition parameter_count :: "bytecode_function \<Rightarrow> u16 option" where
  "parameter_count f =
     (if length (f_parameters f) < 2 ^ 16 then Some (word_of_nat (length (f_parameters f))) else None)"

datatype body_error = MismatchedTables

definition body_try_from_parts ::
  "instruction list \<Rightarrow> span list \<Rightarrow> body_error + instruction_body" where
  "body_try_from_parts is spans =
     (if length is \<noteq> length spans then Inl MismatchedTables
      else Inr \<lparr>instructions = is, instruction_spans = spans\<rparr>)"

definition body_new :: "(instruction \<times> span) list \<Rightarrow> instruction_body" where
  "body_new entries = \<lparr>instructions = map fst entries, instruction_spans = map snd entries\<rparr>"

definition into_parts :: "instruction_body \<Rightarrow> instruction list \<times> span list" where
  "into_parts b = (instructions b, instruction_spans b)"

definition body_push :: "instruction \<Rightarrow> span \<Rightarrow> instruction_body \<Rightarrow> instruction_body" where
  "body_push i sp b =
     b\<lparr>instructions := instructions b @ [i], instruction_spans := instruction_spans b @ [sp]\<rparr>"

text \<open>\<open>Vec::insert\<close> panics beyond the end: \<open>None\<close>.\<close>

definition vec_insert :: "nat \<Rightarrow> 'a \<Rightarrow> 'a list \<Rightarrow> 'a list option" where
  "vec_insert n x xs = (if n \<le> length xs then Some (take n xs @ x # drop n xs) else None)"

definition body_insert :: "nat \<Rightarrow> instruction \<Rightarrow> span \<Rightarrow> instruction_body \<Rightarrow> instruction_body option" where
  "body_insert n i sp b =
     (case vec_insert n i (instructions b) of
        None \<Rightarrow> None
      | Some is \<Rightarrow>
          (case vec_insert n sp (instruction_spans b) of
             None \<Rightarrow> None
           | Some spans \<Rightarrow> Some \<lparr>instructions = is, instruction_spans = spans\<rparr>))"

definition body_retain :: "(instruction \<Rightarrow> bool) \<Rightarrow> instruction_body \<Rightarrow> instruction_body" where
  "body_retain keep b =
     (let (is, spans) = into_parts b
      in body_new [(i, sp) \<leftarrow> zip is spans. keep i])"

text \<open>The invariant of a body: one location per instruction.\<close>

definition body_ok :: "instruction_body \<Rightarrow> bool" where
  "body_ok b \<longleftrightarrow> length (instructions b) = length (instruction_spans b)"

section \<open>Metadata\<close>

datatype program_constant =
    Unit_const
  | Bool_const bool
  | Integer_const u64
  | Float_const u64
  | String_const string
  | CodePoint_const u32
  | Symbol_const string

datatype nominal_type_id = Record_nominal record_id | Variant_nominal variant_type_id

record record_field =
  rf_name :: string
  rf_ty :: executable_type

text \<open>The \<open>indices\<close> of a layout form a \<open>BTreeMap\<close>: a later equal name replaces an earlier one.\<close>

record record_layout =
  rl_names :: "string list"
  rl_indices :: "string \<rightharpoonup> nat"

definition record_layout_new :: "string list \<Rightarrow> record_layout" where
  "record_layout_new names =
     \<lparr>rl_names = names,
      rl_indices = fold (\<lambda>(index, name) m. m(name \<mapsto> index)) (enumerate 0 names) Map.empty\<rparr>"

definition record_layout_index :: "record_layout \<Rightarrow> string \<Rightarrow> nat option" where
  "record_layout_index l name = rl_indices l name"

record runtime_record =
  rr_name :: string
  rr_parameters :: "string list"
  rr_layout :: record_layout
  rr_fields :: "record_field list"

datatype record_error = DuplicateFieldNames string

definition runtime_record_new ::
  "string \<Rightarrow> string list \<Rightarrow> record_field list \<Rightarrow> record_error + runtime_record" where
  "runtime_record_new name ps fs =
     (let layout = record_layout_new (map rf_name fs)
      in if card (dom (rl_indices layout)) \<noteq> length fs then Inl (DuplicateFieldNames name)
         else Inr \<lparr>rr_name = name, rr_parameters = ps, rr_layout = layout, rr_fields = fs\<rparr>)"

definition map_field_types :: "(executable_type \<Rightarrow> executable_type) \<Rightarrow> runtime_record \<Rightarrow> runtime_record" where
  "map_field_types f r = r\<lparr>rr_fields := map (\<lambda>fd. fd\<lparr>rf_ty := f (rf_ty fd)\<rparr>) (rr_fields r)\<rparr>"

record runtime_variant =
  rv_parent :: variant_type_id
  rv_type_name :: string
  rv_parameters :: "string list"
  rv_alternative :: string
  rv_payload :: "executable_type list"

record program_metadata =
  symbols :: symbol_table
  constants :: "program_constant list"
  main :: "function_id option"
  main_arguments :: bool
  string_record :: "record_id option"
  symbol_record :: "record_id option"
  list_record :: "record_id option"
  bytes_record :: "record_id option"
  byte_buffer_record :: "record_id option"
  remote_result :: "variant_type_id option"
  remote_error :: "variant_type_id option"
  records :: "(record_id, runtime_record) hash_map"
  dispatch :: "(nominal_type_id \<times> dispatch_slot, function_id) hash_map"
  variants :: "(variant_id, runtime_variant) hash_map"

record program =
  metadata :: program_metadata
  drops_inserted :: bool
  pg_functions :: "(function_id, bytecode_function) hash_map"

record program_metrics =
  pm_functions :: nat
  pm_instructions :: nat
  pm_registers :: nat
  pm_constants :: nat

definition metrics :: "program \<Rightarrow> program_metrics" where
  "metrics p =
     \<lparr>pm_functions = length (pg_functions p),
      pm_instructions = sum_list (map (\<lambda>(_, f). length (instructions (f_body f))) (pg_functions p)),
      pm_registers = sum_list (map (\<lambda>(_, f). unat (f_registers f)) (pg_functions p)),
      pm_constants = length (constants (metadata p))\<rparr>"

definition is_c_resource :: "program_metadata \<Rightarrow> record_id \<Rightarrow> bool" where
  "is_c_resource md r \<longleftrightarrow>
     list_ex (\<lambda>module. mn_path (md_name module) = ''std.ffi'' \<and>
        list_ex (\<lambda>binding. \<not> tb_variant binding \<and>
          List.member [''CResource'', ''CCallbackLease''] (nm_name (tb_name binding)) \<and>
          tb_id binding = r) (md_types module))
      (st_modules (symbols md))"

text \<open>\<open>remote_outcome_type\<close>; \<open>None\<close> is the panic of \<open>expect\<close>.\<close>

definition remote_outcome_type :: "program_metadata \<Rightarrow> executable_type \<Rightarrow> executable_type option" where
  "remote_outcome_type md res =
     (case (remote_result md, remote_error md) of
        (Some rr, Some re) \<Rightarrow> Some (Variant rr [res, Variant re []])
      | _ \<Rightarrow> None)"

section \<open>Layouts\<close>

lemma layout_indices_dom:
  "dom (fold (\<lambda>(index, name) m. m(name \<mapsto> index)) (enumerate k names) m) = dom m \<union> set names"
  by (induction names arbitrary: k m) auto

lemma layout_indices_notin:
  "x \<notin> set names \<Longrightarrow> fold (\<lambda>(index, name) m. m(name \<mapsto> index)) (enumerate k names) m x = m x"
  by (induction names arbitrary: k m) auto

lemma layout_indices_nth:
  "distinct names \<Longrightarrow> i < length names \<Longrightarrow>
   fold (\<lambda>(index, name) m. m(name \<mapsto> index)) (enumerate k names) m (names ! i) = Some (k + i)"
  by (induction names arbitrary: k m i) (auto simp: nth_Cons layout_indices_notin split: nat.split)

lemma runtime_record_new_Inr_iff:
  "runtime_record_new name ps fs = Inr r \<longleftrightarrow>
   distinct (map rf_name fs) \<and>
   r = \<lparr>rr_name = name, rr_parameters = ps, rr_layout = record_layout_new (map rf_name fs), rr_fields = fs\<rparr>"
proof -
  have "card (dom (rl_indices (record_layout_new (map rf_name fs)))) = length fs \<longleftrightarrow> distinct (map rf_name fs)"
    using distinct_card [of "map rf_name fs"] card_distinct [of "map rf_name fs"]
    by (auto simp: record_layout_new_def layout_indices_dom simp del: set_map)
  then show ?thesis by (auto simp: runtime_record_new_def Let_def)
qed

section \<open>Properties\<close>

text \<open>
  The mutable register visitor visits the same registers in the same order as the
  read-only one, threads the visitor's state through them, and rewrites exactly those
  registers: a renaming with no effect on the state changes nothing else.
\<close>

theorem visit_registers_mut_agrees:
  "visit_list visit (visit_registers i) s =
   (visit_registers (fst (visit_registers_mut visit i s)), snd (visit_registers_mut visit i s)) \<and>
   visit_registers_mut (\<lambda>r s. (r, s @ [r])) i seen = (i, seen @ visit_registers i)"
proof
  show "visit_list visit (visit_registers i) s =
   (visit_registers (fst (visit_registers_mut visit i s)), snd (visit_registers_mut visit i s))"
    by (cases i) (auto simp: visit1_def visit2_def visit3_def Let_def visit_list_append
        visit_list_map_snd split: prod.splits option.splits)
  show "visit_registers_mut (\<lambda>r s. (r, s @ [r])) i seen = (i, seen @ visit_registers i)"
    by (cases i) (auto simp: visit1_def visit2_def visit3_def visit_list_trace visit_list_trace_snd split: option.splits)
qed

text \<open>The paired view of a body.\<close>

definition entries :: "instruction_body \<Rightarrow> (instruction \<times> span) list" where
  "entries b = zip (instructions b) (instruction_spans b)"

lemma entries_new [simp]: "entries (body_new es) = es" "body_ok (body_new es)"
  by (simp_all add: entries_def body_new_def body_ok_def zip_map_fst_snd)

lemma body_insert_paired:
  "body_ok b \<Longrightarrow>
   (case body_insert n i sp b of
       None \<Rightarrow> n > length (entries b)
     | Some b' \<Rightarrow> n \<le> length (entries b) \<and> body_ok b' \<and>
         entries b' = take n (entries b) @ (i, sp) # drop n (entries b))"
  by (auto simp: body_insert_def vec_insert_def body_ok_def entries_def take_zip drop_zip zip_append1
      split: option.splits)

text \<open>
  C38. Every edit of an instruction body keeps each instruction paired with its location:
  on the list of pairs, \<open>push\<close> appends, \<open>insert\<close> inserts (and panics exactly beyond the
  end), \<open>retain\<close> filters, and taking a body apart and rebuilding it is the identity.
\<close>

theorem body_edits_paired:
  assumes "body_ok b"
  shows "body_ok (body_push i sp b) \<and> entries (body_push i sp b) = entries b @ [(i, sp)] \<and>
    (case body_insert n i sp b of
       None \<Rightarrow> n > length (entries b)
     | Some b' \<Rightarrow> n \<le> length (entries b) \<and> body_ok b' \<and>
         entries b' = take n (entries b) @ (i, sp) # drop n (entries b)) \<and>
    body_ok (body_retain keep b) \<and> entries (body_retain keep b) = [e \<leftarrow> entries b. keep (fst e)] \<and>
    (case into_parts b of (is, spans) \<Rightarrow> body_try_from_parts is spans) = Inr b"
proof -
  have "body_retain keep b = body_new [e \<leftarrow> entries b. keep (fst e)]"
    by (simp add: body_retain_def into_parts_def entries_def case_prod_unfold)
  moreover have "entries (body_push i sp b) = entries b @ [(i, sp)]" "body_ok (body_push i sp b)"
    "(case into_parts b of (is, spans) \<Rightarrow> body_try_from_parts is spans) = Inr b"
    using assms by (simp_all add: body_ok_def entries_def body_push_def into_parts_def body_try_from_parts_def)
  ultimately show ?thesis using body_insert_paired [OF assms] by simp
qed

theorem body_edits_paired_witness:
  "entries (body_retain (\<lambda>i. i \<noteq> Drop 0) (body_new [(Drop 0, (3, 4)), (Return 0, (1, 2))])) =
   [(Return 0, (1, 2))]"
  using body_edits_paired [of "body_new [(Drop 0, (3, 4)), (Return 0, (1, 2))]" _ _ _ "\<lambda>i. i \<noteq> Drop 0"]
  by simp

text \<open>
  A runtime record is built exactly when its field names are distinct; its layout then
  maps every field name to the field's storage position and every other name to nothing,
  and remapping the field types keeps names, positions and layout.
\<close>

theorem runtime_record_layout:
  "((\<exists>r. runtime_record_new name ps fs = Inr r) \<longleftrightarrow> distinct (map rf_name fs)) \<and>
   (runtime_record_new name ps fs = Inr r \<longrightarrow>
      (record_layout_index (rr_layout r) key = Some i \<longleftrightarrow>
        i < length (rr_fields r) \<and> rf_name (rr_fields r ! i) = key) \<and>
      rr_layout (map_field_types f r) = rr_layout r \<and>
      map rf_name (rr_fields (map_field_types f r)) = map rf_name (rr_fields r))"
proof (intro conjI impI)
  assume "runtime_record_new name ps fs = Inr r"
  then have d: "distinct (map rf_name fs)" and r: "rr_fields r = fs" "rr_layout r = record_layout_new (map rf_name fs)"
    by (auto simp: runtime_record_new_Inr_iff)
  have look: "record_layout_index (rr_layout r) (rf_name (fs ! j)) = Some j" if "j < length fs" for j
    using layout_indices_nth [OF d, of j 0 Map.empty] that
    by (simp add: r record_layout_index_def record_layout_new_def)
  have "key \<in> set (map rf_name fs)" if "record_layout_index (rr_layout r) key \<noteq> None"
    using layout_indices_notin [of key "map rf_name fs" 0 Map.empty] that
    by (cases "key \<in> set (map rf_name fs)")
      (auto simp: r record_layout_index_def record_layout_new_def simp del: set_map)
  then show "record_layout_index (rr_layout r) key = Some i \<longleftrightarrow>
        i < length (rr_fields r) \<and> rf_name (rr_fields r ! i) = key"
    using look unfolding r(1) by (fastforce simp: in_set_conv_nth)
qed (auto simp: runtime_record_new_Inr_iff map_field_types_def)

theorem runtime_record_layout_witness:
  "\<exists>r. runtime_record_new ''Pair'' [] [\<lparr>rf_name = ''second'', rf_ty = Bool\<rparr>, \<lparr>rf_name = ''first'', rf_ty = Byte\<rparr>] = Inr r \<and>
     record_layout_index (rr_layout r) ''first'' = Some 1"
proof -
  let ?fs = "[\<lparr>rf_name = ''second'', rf_ty = Bool\<rparr>, \<lparr>rf_name = ''first'', rf_ty = Byte\<rparr>]"
  have "distinct (map rf_name ?fs)" by simp
  then obtain r where r: "runtime_record_new ''Pair'' [] ?fs = Inr r"
    using runtime_record_layout [of "''Pair''" "[]" ?fs] by blast
  then have "rr_fields r = ?fs" by (simp add: runtime_record_new_Inr_iff)
  with r show ?thesis using runtime_record_layout [of "''Pair''" "[]" ?fs r "''first''" 1] by auto
qed

end
