(* ===== verification/Liveness.thy ===== *)
theory Liveness
  imports Program "HOL-Library.While_Combinator"
begin

text \<open>
  The liveness analysis of \<open>bytecode/src/codegen/storage/analysis.rs\<close>: successors,
  definitions and uses of slot instructions, and the backward worklist in its two
  representations, dense bit rows and sparse register sets. A \<open>HashSet\<close> of slots is a set;
  the matrix rows are lists of 64-bit words.
\<close>

section \<open>Successors, definitions, uses\<close>

definition successors :: "instruction list \<Rightarrow> nat \<Rightarrow> nat list" where
  "successors is index =
     (case is ! index of
        Jump target \<Rightarrow> [target]
      | JumpIfFalse _ target \<Rightarrow> target # (if index + 1 < length is then [index + 1] else [])
      | Return _ \<Rightarrow> []
      | _ \<Rightarrow> if index + 1 < length is then [index + 1] else [])"

fun slot_definitions :: "instruction \<Rightarrow> slot list" where
  "slot_definitions (MatchPattern destination _ _ bindings) = destination # bindings"
| "slot_definitions (StoreField _ _ _) = []"
| "slot_definitions (StoreIndex _ _ _) = []"
| "slot_definitions (Jump _) = []"
| "slot_definitions (JumpIfFalse _ _) = []"
| "slot_definitions (Assert _ _) = []"
| "slot_definitions (Return _) = []"
| "slot_definitions (Drop destination) = [destination]"
| "slot_definitions (LoadConstant destination _) = [destination]"
| "slot_definitions (Move destination _) = [destination]"
| "slot_definitions (Unary destination _ _) = [destination]"
| "slot_definitions (Binary destination _ _ _) = [destination]"
| "slot_definitions (MakeList destination _ _) = [destination]"
| "slot_definitions (Index destination _ _) = [destination]"
| "slot_definitions (MakeRecord destination _ _ _) = [destination]"
| "slot_definitions (MakeVariant destination _ _ _) = [destination]"
| "slot_definitions (LoadField destination _ _ _) = [destination]"
| "slot_definitions (MakeReference destination _ _ _) = [destination]"
| "slot_definitions (MakeWholeReference destination _ _) = [destination]"
| "slot_definitions (MakeFieldReference destination _ _ _) = [destination]"
| "slot_definitions (MoveOut _ destination _) = [destination]"
| "slot_definitions (Push destination _ _) = [destination]"
| "slot_definitions (Append destination _ _) = [destination]"
| "slot_definitions (Contains destination _ _) = [destination]"
| "slot_definitions (Builtin destination _ _) = [destination]"
| "slot_definitions (SpawnRemote destination _) = [destination]"
| "slot_definitions (SpawnRemoteBorrow destination _) = [destination]"
| "slot_definitions (RemoteCall destination _ _ _) = [destination]"
| "slot_definitions (Await destination _) = [destination]"
| "slot_definitions (Call destination _ _ _) = [destination]"
| "slot_definitions (CallMethod destination _ _ _ _) = [destination]"
| "slot_definitions (CallContractMethod destination _ _ _ _ _) = [destination]"
| "slot_definitions (MakeClosure destination _ _ _) = [destination]"
| "slot_definitions (CallValue destination _ _) = [destination]"
| "slot_definitions (CallClosure destination _ _ _ _) = [destination]"

fun slot_uses :: "instruction \<Rightarrow> slot list" where
  "slot_uses (Drop register) = [register]"
| "slot_uses (Move _ source) = [source]"
| "slot_uses (Unary _ _ operand) = [operand]"
| "slot_uses (Binary _ _ left right) = [left, right]"
| "slot_uses (MakeList _ _ elements) = elements"
| "slot_uses (Index _ obj index) = [obj, index]"
| "slot_uses (MakeRecord _ _ _ fs) = map snd fs"
| "slot_uses (MakeVariant _ _ _ payload) = payload"
| "slot_uses (LoadField _ obj _ _) = [obj]"
| "slot_uses (StoreField obj _ source) = [obj, source]"
| "slot_uses (StoreIndex obj index source) = [obj, index, source]"
| "slot_uses (MakeReference _ _ obj index) = [obj, index]"
| "slot_uses (MakeWholeReference _ _ obj) = [obj]"
| "slot_uses (MakeFieldReference _ _ obj _) = [obj]"
| "slot_uses (MoveOut _ _ source) = [source]"
| "slot_uses (Push _ obj v) = [obj, v]"
| "slot_uses (Append _ obj v) = [obj, v]"
| "slot_uses (Contains _ v candidates) = v # candidates"
| "slot_uses (Builtin _ _ arguments) = arguments"
| "slot_uses (SpawnRemote _ v) = [v]"
| "slot_uses (SpawnRemoteBorrow _ source) = [source]"
| "slot_uses (RemoteCall _ remote _ arguments) = remote # map snd arguments"
| "slot_uses (Await _ future) = [future]"
| "slot_uses (MatchPattern _ subject _ _) = [subject]"
| "slot_uses (JumpIfFalse condition _) = [condition]"
| "slot_uses (Assert condition message) = condition # (case message of None \<Rightarrow> [] | Some m \<Rightarrow> [m])"
| "slot_uses (Call _ _ _ arguments) = arguments"
| "slot_uses (CallMethod _ receiver _ _ arguments) = receiver # arguments"
| "slot_uses (CallContractMethod _ receiver _ _ arguments _) = receiver # arguments"
| "slot_uses (MakeClosure _ _ _ captures) = map snd captures"
| "slot_uses (CallValue _ callee arguments) = callee # arguments"
| "slot_uses (CallClosure _ _ _ captures arguments) = map snd captures @ arguments"
| "slot_uses (Return source) = [source]"
| "slot_uses (LoadConstant _ _) = []"
| "slot_uses (Jump _) = []"

section \<open>The worklist over register sets\<close>

text \<open>The state of \<open>sparse_liveness\<close>: the rows, the queue and the marks of queued indices.\<close>

record sparse_state =
  sp_in :: "slot set list"
  sp_out :: "slot set list"
  sp_pending :: "nat list"
  sp_queued :: "bool list"

definition enqueue :: "nat list \<Rightarrow> nat list \<times> bool list \<Rightarrow> nat list \<times> bool list" where
  "enqueue previous =
     fold (\<lambda>p (pending, queued).
       if queued ! p then (pending, queued) else (pending @ [p], queued[p := True])) previous"

definition sparse_step ::
  "nat list list \<Rightarrow> nat list list \<Rightarrow> slot set list \<Rightarrow> slot set list \<Rightarrow> sparse_state \<Rightarrow> sparse_state" where
  "sparse_step succs preds us ds s =
     (case sp_pending s of
        [] \<Rightarrow> s
      | index # pending \<Rightarrow>
          let queued = (sp_queued s)[index := False];
              outgoing = \<Union> (set (map (\<lambda>n. sp_in s ! n) (succs ! index)));
              incoming = us ! index \<union> (outgoing - ds ! index);
              out = (sp_out s)[index := outgoing]
          in if incoming \<noteq> sp_in s ! index
             then (let (pending, queued) = enqueue (preds ! index) (pending, queued)
                   in \<lparr>sp_in = (sp_in s)[index := incoming], sp_out = out,
                       sp_pending = pending, sp_queued = queued\<rparr>)
             else \<lparr>sp_in = sp_in s, sp_out = out, sp_pending = pending, sp_queued = queued\<rparr>)"

definition sparse_init :: "nat \<Rightarrow> sparse_state" where
  "sparse_init cnt = \<lparr>sp_in = replicate cnt {}, sp_out = replicate cnt {},
     sp_pending = rev [0..<cnt], sp_queued = replicate cnt True\<rparr>"

record liveness_sets =
  live_in :: "slot set list"
  live_out :: "slot set list"

text \<open>\<open>None\<close> is a loop that does not end; it is shown never to happen.\<close>

definition sparse_liveness ::
  "nat list list \<Rightarrow> nat list list \<Rightarrow> slot list list \<Rightarrow> slot list list \<Rightarrow> liveness_sets option" where
  "sparse_liveness succs preds us ds =
     map_option (\<lambda>s. \<lparr>live_in = sp_in s, live_out = sp_out s\<rparr>)
       (while_option (\<lambda>s. sp_pending s \<noteq> [])
         (sparse_step succs preds (map set us) (map set ds))
         (sparse_init (length succs)))"

section \<open>The worklist over bit rows\<close>

record dense_state =
  dn_in :: "u64 list"
  dn_out :: "u64 list"
  dn_pending :: "nat list"
  dn_queued :: "bool list"

text \<open>The loop over the words of one row; the flag says whether the row of \<open>live_in\<close> changed.\<close>

definition dense_row ::
  "nat \<Rightarrow> nat list \<Rightarrow> u64 list \<Rightarrow> u64 list \<Rightarrow> nat \<Rightarrow> u64 list \<times> u64 list \<times> bool \<Rightarrow> nat list \<Rightarrow>
   u64 list \<times> u64 list \<times> bool" where
  "dense_row nwords succ use_bits def_bits index init ws =
     fold (\<lambda>w (ins, outs, changed).
       let row = index * nwords + w;
           outgoing = fold (\<lambda>successor bits. or bits (ins ! (successor * nwords + w))) succ 0;
           incoming = or (use_bits ! row) (and outgoing (not (def_bits ! row)))
       in (ins[row := incoming], outs[row := outgoing], changed \<or> ins ! row \<noteq> incoming)) ws init"

definition dense_step ::
  "nat \<Rightarrow> nat list list \<Rightarrow> nat list list \<Rightarrow> u64 list \<Rightarrow> u64 list \<Rightarrow> dense_state \<Rightarrow> dense_state" where
  "dense_step nwords succs preds use_bits def_bits s =
     (case dn_pending s of
        [] \<Rightarrow> s
      | index # pending \<Rightarrow>
          let queued = (dn_queued s)[index := False];
              (ins, outs, changed) =
                dense_row nwords (succs ! index) use_bits def_bits index (dn_in s, dn_out s, False) [0..<nwords];
              (pending, queued) =
                (if changed then enqueue (preds ! index) (pending, queued) else (pending, queued))
          in \<lparr>dn_in = ins, dn_out = outs, dn_pending = pending, dn_queued = queued\<rparr>)"

definition dense_init :: "nat \<Rightarrow> nat \<Rightarrow> dense_state" where
  "dense_init cnt nwords = \<lparr>dn_in = replicate (cnt * nwords) 0, dn_out = replicate (cnt * nwords) 0,
     dn_pending = rev [0..<cnt], dn_queued = replicate cnt True\<rparr>"

text \<open>\<open>bits[index * words + r / 64] |= 1 << (r % 64)\<close> for every register of every row.\<close>

definition set_register :: "nat \<Rightarrow> nat \<Rightarrow> slot \<Rightarrow> u64 list \<Rightarrow> u64 list" where
  "set_register nwords index r bits =
     (let i = index * nwords + unat r div 64 in bits[i := or (bits ! i) (push_bit (unat r mod 64) 1)])"

definition register_bits :: "nat \<Rightarrow> nat \<Rightarrow> slot list list \<Rightarrow> u64 list" where
  "register_bits cnt nwords rs =
     fold (\<lambda>index bits. fold (set_register nwords index) (rs ! index) bits) [0..<cnt]
       (replicate (cnt * nwords) 0)"

text \<open>\<open>u64::trailing_zeros\<close> of a non-zero word, and the loop that clears the lowest bit.\<close>

definition trailing_zeros :: "u64 \<Rightarrow> nat" where
  "trailing_zeros w = (case find (bit w) [0..<64] of Some k \<Rightarrow> k | None \<Rightarrow> 64)"

text \<open>\<open>chunks_exact\<close>: a final shorter chunk is dropped.\<close>

fun chunks_exact :: "nat \<Rightarrow> 'a list \<Rightarrow> 'a list list" where
  "chunks_exact n xs =
     (if n = 0 \<or> length xs < n then [] else take n xs # chunks_exact n (drop n xs))"

declare chunks_exact.simps [simp del]

function word_registers :: "nat \<Rightarrow> u64 \<Rightarrow> slot set \<Rightarrow> slot set" where
  "word_registers index remaining registers =
     (if remaining = 0 then registers
      else word_registers index (and remaining (remaining - 1))
        (insert (word_of_nat (index * 64 + trailing_zeros remaining)) registers))"
  by pat_completeness auto
termination
proof (relation "measure (\<lambda>(index, remaining, registers). unat remaining)", goal_cases)
  case (2 index remaining registers)
  then have "unat (remaining - 1) < unat remaining"
    by (simp add: unat_minus_one word_greater_zero_iff unat_gt_0)
  moreover have "and remaining (remaining - 1) \<le> remaining - 1" by (rule word_and_le1)
  ultimately show ?case by (simp add: word_le_nat_alt)
qed simp

declare word_registers.simps [simp del]

definition register_sets :: "u64 list \<Rightarrow> nat \<Rightarrow> slot set list" where
  "register_sets rows nwords =
     map (\<lambda>row. fold (\<lambda>(index, word) registers. word_registers index word registers) (enumerate 0 row) {})
       (chunks_exact nwords rows)"

definition dense_liveness ::
  "nat \<Rightarrow> nat list list \<Rightarrow> nat list list \<Rightarrow> slot list list \<Rightarrow> slot list list \<Rightarrow> liveness_sets option" where
  "dense_liveness nwords succs preds us ds =
     (let cnt = length succs
      in map_option (\<lambda>s. \<lparr>live_in = register_sets (dn_in s) nwords, live_out = register_sets (dn_out s) nwords\<rparr>)
           (while_option (\<lambda>s. dn_pending s \<noteq> [])
             (dense_step nwords succs preds (register_bits cnt nwords us) (register_bits cnt nwords ds))
             (dense_init cnt nwords)))"

section \<open>The analysis\<close>

definition predecessors :: "nat list list \<Rightarrow> nat list list" where
  "predecessors succs =
     fold (\<lambda>index preds. fold (\<lambda>s preds. preds[s := preds ! s @ [index]]) (succs ! index) preds)
       [0..<length succs] (replicate (length succs) [])"

definition instruction_reads :: "slot list \<Rightarrow> slot set \<Rightarrow> instruction \<Rightarrow> slot list" where
  "instruction_reads exit_uses reference_homes i =
     slot_uses i @
     (case i of Return _ \<Rightarrow> exit_uses | _ \<Rightarrow> []) @
     (case i of
        Drop _ \<Rightarrow> []
      | MatchPattern _ _ _ _ \<Rightarrow> []
      | _ \<Rightarrow> [r \<leftarrow> slot_definitions i. r \<in> reference_homes])"

definition register_words :: "slot list list \<Rightarrow> nat" where
  "register_words rs = fold (\<lambda>r n. max n (unat r div 64 + 1)) (concat rs) 0"

text \<open>
  A jump target outside the body indexes \<open>predecessors\<close> out of bounds: a panic, \<open>None\<close>.
\<close>

definition liveness_with_write_bindings ::
  "bytecode_function \<Rightarrow> slot list \<Rightarrow> slot set \<Rightarrow> liveness_sets option" where
  "liveness_with_write_bindings f exit_uses reference_homes =
     (let is = instructions (f_body f);
          cnt = length is;
          succs = map (successors is) [0..<cnt];
          us = map (instruction_reads exit_uses reference_homes) is;
          ds = map slot_definitions is;
          nwords = register_words (map2 (@) us ds)
      in if \<not> list_all (list_all (\<lambda>s. s < cnt)) succs then None
         else if nwords = 0 then Some \<lparr>live_in = replicate cnt {}, live_out = replicate cnt {}\<rparr>
         else if min (cnt * nwords) usize_max > 2 ^ 20
         then sparse_liveness succs (predecessors succs) us ds
         else dense_liveness nwords succs (predecessors succs) us ds)"

definition liveness_with_exit_uses :: "bytecode_function \<Rightarrow> slot list \<Rightarrow> liveness_sets option" where
  "liveness_with_exit_uses f exit_uses = liveness_with_write_bindings f exit_uses {}"

definition liveness :: "bytecode_function \<Rightarrow> liveness_sets option" where
  "liveness f = liveness_with_exit_uses f []"

end
