(* ===== verification/Liveness_Laws.thy ===== *)
theory Liveness_Laws
  imports Liveness
begin

text \<open>
  Correctness of the liveness analysis. A register is live where some path reads it before
  writing it (\<open>live\<close>); the worklist over register sets ends and computes exactly these
  sets, for every flow graph with its predecessors (\<open>flow_ok\<close>).
\<close>

section \<open>Liveness as paths\<close>

inductive live :: "nat list list \<Rightarrow> slot set list \<Rightarrow> slot set list \<Rightarrow> nat \<Rightarrow> slot \<Rightarrow> bool"
  for succs us ds where
  live_use: "r \<in> us ! i \<Longrightarrow> live succs us ds i r"
| live_step: "j \<in> set (succs ! i) \<Longrightarrow> live succs us ds j r \<Longrightarrow> r \<notin> ds ! i \<Longrightarrow> live succs us ds i r"

definition flow_ok :: "nat list list \<Rightarrow> nat list list \<Rightarrow> bool" where
  "flow_ok succs preds \<longleftrightarrow> length preds = length succs \<and>
     (\<forall>i < length succs. \<forall>j \<in> set (succs ! i). j < length succs) \<and>
     (\<forall>j < length succs. set (preds ! j) = {i. i < length succs \<and> j \<in> set (succs ! i)})"

section \<open>The queue\<close>

definition queue_ok :: "nat \<Rightarrow> nat list \<times> bool list \<Rightarrow> bool" where
  "queue_ok n q \<longleftrightarrow> length (snd q) = n \<and> distinct (fst q) \<and> (\<forall>i. i \<in> set (fst q) \<longleftrightarrow> i < n \<and> snd q ! i)"

lemma queue_ok_length: "queue_ok n (pending, queued) \<Longrightarrow> length pending \<le> n"
proof -
  assume "queue_ok n (pending, queued)"
  then have "distinct pending" "set pending \<subseteq> {..<n}" by (auto simp: queue_ok_def)
  then show ?thesis using card_mono [of "{..<n}" "set pending"] distinct_card [of pending] by simp
qed

lemma enqueue_ok:
  "queue_ok n q \<Longrightarrow> (\<And>p. p \<in> set ps \<Longrightarrow> p < n) \<Longrightarrow>
   queue_ok n (enqueue ps q) \<and> (\<forall>i < n. snd (enqueue ps q) ! i \<longleftrightarrow> snd q ! i \<or> i \<in> set ps)"
proof (induction ps arbitrary: q)
  case Nil
  then show ?case by (simp add: enqueue_def)
next
  case (Cons p ps)
  obtain pending queued where q: "q = (pending, queued)" by (cases q)
  define q' where "q' = (if queued ! p then (pending, queued) else (pending @ [p], queued[p := True]))"
  have p: "p < n" using Cons.prems(2) by simp
  have "queue_ok n q'"
    using Cons.prems(1) p unfolding q q'_def
    by (auto simp: queue_ok_def nth_list_update)
  moreover have "snd q' ! i \<longleftrightarrow> queued ! i \<or> i = p" if "i < n" for i
    using Cons.prems(1) p that unfolding q q'_def by (auto simp: queue_ok_def nth_list_update)
  moreover have "enqueue (p # ps) q = enqueue ps q'"
    by (simp add: enqueue_def q q'_def)
  ultimately show ?case
    using Cons.IH [of q'] Cons.prems(2) q by auto
qed

lemma dequeue_ok:
  assumes "queue_ok n (index # pending, queued)"
  shows "queue_ok n (pending, queued[index := False])"
proof -
  from assms have len: "length queued = n" and d: "distinct (index # pending)"
    and iff: "i \<in> set (index # pending) \<longleftrightarrow> i < n \<and> queued ! i" for i
    unfolding queue_ok_def by simp_all
  have "index < n" using iff [of index] by simp
  then have "i \<in> set pending \<longleftrightarrow> i < n \<and> queued[index := False] ! i" for i
    using iff [of i] d len by (cases "i = index") auto
  then show ?thesis using len d by (simp add: queue_ok_def)
qed

section \<open>The sparse worklist\<close>

definition out_of :: "nat list list \<Rightarrow> slot set list \<Rightarrow> nat \<Rightarrow> slot set" where
  "out_of succs ins i = (\<Union>n \<in> set (succs ! i). ins ! n)"

definition transfer_of :: "nat list list \<Rightarrow> slot set list \<Rightarrow> slot set list \<Rightarrow> slot set list \<Rightarrow> nat \<Rightarrow> slot set" where
  "transfer_of succs us ds ins i = us ! i \<union> (out_of succs ins i - ds ! i)"

definition sparse_inv :: "nat list list \<Rightarrow> slot set list \<Rightarrow> slot set list \<Rightarrow> sparse_state \<Rightarrow> bool" where
  "sparse_inv succs us ds s \<longleftrightarrow>
     length (sp_in s) = length succs \<and> length (sp_out s) = length succs \<and>
     queue_ok (length succs) (sp_pending s, sp_queued s) \<and>
     (\<forall>i < length succs. sp_in s ! i \<subseteq> {r. live succs us ds i r}) \<and>
     (\<forall>i < length succs. sp_in s ! i \<subseteq> transfer_of succs us ds (sp_in s) i) \<and>
     (\<forall>i < length succs. \<not> sp_queued s ! i \<longrightarrow>
        sp_out s ! i = out_of succs (sp_in s) i \<and> sp_in s ! i = transfer_of succs us ds (sp_in s) i)"

lemma out_of_mono:
  "(\<And>n. n \<in> set (succs ! i) \<Longrightarrow> ins ! n \<subseteq> ins' ! n) \<Longrightarrow> out_of succs ins i \<subseteq> out_of succs ins' i"
  by (auto simp: out_of_def)

lemma out_of_cong:
  "(\<And>n. n \<in> set (succs ! i) \<Longrightarrow> ins ! n = ins' ! n) \<Longrightarrow> out_of succs ins i = out_of succs ins' i"
  by (auto simp: out_of_def)

lemma transfer_live:
  assumes "flow_ok succs preds" "i < length succs"
    and "\<forall>i < length succs. ins ! i \<subseteq> {r. live succs us ds i r}"
  shows "transfer_of succs us ds ins i \<subseteq> {r. live succs us ds i r}"
proof
  fix r
  assume "r \<in> transfer_of succs us ds ins i"
  then consider "r \<in> us ! i" | j where "j \<in> set (succs ! i)" "r \<in> ins ! j" "r \<notin> ds ! i"
    by (auto simp: transfer_of_def out_of_def)
  then show "r \<in> {r. live succs us ds i r}"
  proof cases
    case 2
    then have "j < length succs" using assms(1,2) by (auto simp: flow_ok_def)
    then have "live succs us ds j r" using 2 assms(3) by blast
    then show ?thesis using 2 by (auto intro: live_step)
  qed (auto intro: live_use)
qed

text \<open>The step with its results named: the case of a row that changed and of one that did not.\<close>

lemma sparse_step_eq:
  fixes s :: sparse_state and succs preds :: "nat list list" and us ds :: "slot set list"
  assumes "sp_pending s = index # pending"
  defines "incoming \<equiv> transfer_of succs us ds (sp_in s) index"
  defines "q \<equiv> (pending, (sp_queued s)[index := False])"
  defines "q' \<equiv> (if incoming \<noteq> sp_in s ! index then enqueue (preds ! index) q else q)"
  shows "sparse_step succs preds us ds s =
    \<lparr>sp_in = (sp_in s)[index := incoming], sp_out = (sp_out s)[index := out_of succs (sp_in s) index],
     sp_pending = fst q', sp_queued = snd q'\<rparr>"
  unfolding sparse_step_def assms(1) list.case Let_def incoming_def q_def q'_def
  by (auto simp: transfer_of_def out_of_def split: prod.splits)

lemma sparse_step_inv:
  assumes flow: "flow_ok succs preds" and inv: "sparse_inv succs us ds s"
    and pend: "sp_pending s = index # pending"
  shows "sparse_inv succs us ds (sparse_step succs preds us ds s)"
proof -
  let ?n = "length succs" and ?ins = "sp_in s"
  define incoming where "incoming = transfer_of succs us ds ?ins index"
  define q where "q = (pending, (sp_queued s)[index := False])"
  define q' where "q' = (if incoming \<noteq> ?ins ! index then enqueue (preds ! index) q else q)"
  let ?ins' = "?ins[index := incoming]"
  have qok: "queue_ok ?n (sp_pending s, sp_queued s)" using inv by (simp add: sparse_inv_def)
  then have index: "index < ?n" using pend by (auto simp: queue_ok_def)
  have len: "length ?ins = ?n" "length (sp_out s) = ?n" using inv by (auto simp: sparse_inv_def)
  have preds: "p < ?n" "index \<in> set (succs ! p)" if "p \<in> set (preds ! index)" for p
    using flow index that by (auto simp: flow_ok_def)
  have q: "queue_ok ?n q" using dequeue_ok qok pend by (simp add: q_def)
  have q': "queue_ok ?n q'" using enqueue_ok [OF q, of "preds ! index"] q preds by (auto simp: q'_def)
  have queued: "snd q' ! i \<longleftrightarrow> (i \<noteq> index \<and> sp_queued s ! i) \<or>
      (incoming \<noteq> ?ins ! index \<and> i \<in> set (preds ! index))" if "i < ?n" for i
    using enqueue_ok [OF q, of "preds ! index"] preds that index qok
    by (auto simp: q'_def q_def queue_ok_def nth_list_update)
  have grow: "?ins ! i \<subseteq> ?ins' ! i" for i
    using inv index len by (cases "i = index") (auto simp: sparse_inv_def incoming_def)
  have out_grow: "out_of succs ?ins i \<subseteq> out_of succs ?ins' i" for i
    by (rule out_of_mono) (rule grow)
  have same_out: "out_of succs ?ins' i = out_of succs ?ins i"
    if "incoming = ?ins ! index \<or> index \<notin> set (succs ! i)" for i
    using that index len by (intro out_of_cong) (auto simp: nth_list_update)
  have live: "?ins' ! i \<subseteq> {r. live succs us ds i r}" if "i < ?n" for i
    using inv that index len transfer_live [OF flow index, of ?ins us ds]
    by (cases "i = index") (auto simp: sparse_inv_def incoming_def)
  have below: "?ins' ! i \<subseteq> transfer_of succs us ds ?ins' i" if "i < ?n" for i
  proof -
    have "?ins' ! i \<subseteq> transfer_of succs us ds ?ins i"
      using inv that index len by (cases "i = index") (auto simp: sparse_inv_def incoming_def)
    also have "\<dots> \<subseteq> transfer_of succs us ds ?ins' i"
      using out_grow [of i] by (auto simp: transfer_of_def)
    finally show ?thesis .
  qed
  have done_rows: "(sp_out s)[index := out_of succs ?ins index] ! i = out_of succs ?ins' i \<and>
      ?ins' ! i = transfer_of succs us ds ?ins' i" if i: "i < ?n" and nq: "\<not> snd q' ! i" for i
  proof -
    have same: "out_of succs ?ins' i = out_of succs ?ins i"
    proof (rule same_out)
      show "incoming = ?ins ! index \<or> index \<notin> set (succs ! i)"
        using nq queued [OF i] flow index i by (auto simp: flow_ok_def)
    qed
    show ?thesis
    proof (cases "i = index")
      case True
      then show ?thesis using same index len by (simp add: incoming_def transfer_of_def)
    next
      case False
      then have "\<not> sp_queued s ! i" using nq queued [OF i] by auto
      then show ?thesis using False same inv i by (auto simp: sparse_inv_def transfer_of_def)
    qed
  qed
  have "sparse_step succs preds us ds s =
      \<lparr>sp_in = ?ins', sp_out = (sp_out s)[index := out_of succs ?ins index],
       sp_pending = fst q', sp_queued = snd q'\<rparr>"
    unfolding sparse_step_eq [where s = s, OF pend] incoming_def q_def q'_def ..
  then show ?thesis
    using q' live below done_rows len by (simp add: sparse_inv_def)
qed

lemma sparse_init_inv:
  "sparse_inv succs us ds (sparse_init (length succs))"
  by (auto simp: sparse_inv_def sparse_init_def queue_ok_def transfer_of_def)

definition sparse_measure :: "nat \<Rightarrow> sparse_state \<Rightarrow> nat" where
  "sparse_measure n s = sum_list (map (\<lambda>row. card (- row)) (sp_in s)) * (n + 1) + length (sp_pending s)"

lemma sum_list_update_less:
  fixes xs :: "nat list"
  assumes "i < length xs" "x < xs ! i"
  shows "sum_list (xs[i := x]) < sum_list xs"
  using assms by (simp add: sum_list_update) (metis add_diff_cancel_right' add_less_cancel_left
      elem_le_sum_list le_add_diff_inverse add.commute less_diff_conv2 trans_le_add2)

lemma sparse_step_measure:
  assumes inv: "sparse_inv succs us ds s" and flow: "flow_ok succs preds"
    and pend: "sp_pending s = index # pending"
  shows "sparse_measure (length succs) (sparse_step succs preds us ds s) < sparse_measure (length succs) s"
proof -
  let ?n = "length succs" and ?ins = "sp_in s"
  let ?incoming = "transfer_of succs us ds ?ins index"
  let ?sum = "\<lambda>ins. sum_list (map (\<lambda>row. card (- row)) ins)"
  have qok: "queue_ok ?n (index # pending, sp_queued s)" and len: "length ?ins = ?n"
    and sub: "\<forall>i < ?n. ?ins ! i \<subseteq> transfer_of succs us ds ?ins i"
    using inv pend by (simp_all add: sparse_inv_def)
  from qok have index: "index < ?n" by (auto simp: queue_ok_def)
  note step = sparse_step_eq [where s = s, OF pend, of succs preds us ds]
  show ?thesis
  proof (cases "?incoming = ?ins ! index")
    case True
    then show ?thesis by (simp add: step sparse_measure_def pend)
  next
    case False
    let ?q = "enqueue (preds ! index) (pending, (sp_queued s)[index := False])"
    have "length (fst ?q) \<le> ?n"
      using enqueue_ok [OF dequeue_ok [OF qok], of "preds ! index"] flow index
      by (intro queue_ok_length [of _ _ "snd ?q"]) (auto simp: flow_ok_def)
    moreover have "?sum (?ins[index := ?incoming]) < ?sum ?ins"
    proof -
      have "- ?incoming \<subset> - (?ins ! index)" using False sub index by blast
      then have "card (- ?incoming) < card (- (?ins ! index))" by (intro psubset_card_mono) auto
      then show ?thesis using sum_list_update_less [of index "map (\<lambda>row. card (- row)) ?ins"] index len
        by (simp add: map_update)
    qed
    then have "Suc (?sum (?ins[index := ?incoming])) * (?n + 1) \<le> ?sum ?ins * (?n + 1)"
      by (intro mult_right_mono) simp_all
    ultimately show ?thesis using False by (simp add: step sparse_measure_def pend)
  qed
qed

lemma live_in_row:
  assumes "live succs us ds i r" "i < length succs"
    and "flow_ok succs preds" "\<forall>i < length succs. ins ! i = transfer_of succs us ds ins i"
  shows "r \<in> ins ! i"
  using assms
proof (induction rule: live.induct)
  case (live_use r i)
  then show ?case by (auto simp: transfer_of_def)
next
  case (live_step j i r)
  then have "j < length succs" by (auto simp: flow_ok_def)
  then have "r \<in> ins ! j" using live_step by blast
  then have "r \<in> transfer_of succs us ds ins i"
    using live_step.hyps by (auto simp: transfer_of_def out_of_def)
  then show ?case using live_step.prems by blast
qed

definition live_sets :: "nat list list \<Rightarrow> slot set list \<Rightarrow> slot set list \<Rightarrow> slot set list" where
  "live_sets succs us ds = map (\<lambda>i. {r. live succs us ds i r}) [0..<length succs]"

definition solution :: "nat list list \<Rightarrow> slot set list \<Rightarrow> slot set list \<Rightarrow> liveness_sets" where
  "solution succs us ds = \<lparr>live_in = live_sets succs us ds,
     live_out = map (out_of succs (live_sets succs us ds)) [0..<length succs]\<rparr>"

lemma sparse_loop:
  assumes flow: "flow_ok succs preds"
  shows "\<exists>s. while_option (\<lambda>s. sp_pending s \<noteq> []) (sparse_step succs preds us ds) (sparse_init (length succs)) = Some s \<and>
    sp_in s = live_sets succs us ds \<and> sp_out s = map (out_of succs (live_sets succs us ds)) [0..<length succs]"
proof -
  let ?b = "\<lambda>s. sp_pending s \<noteq> []" and ?c = "sparse_step succs preds us ds"
  let ?P = "sparse_inv succs us ds" and ?n = "length succs"
  have step: "?P (?c s) \<and> sparse_measure ?n (?c s) < sparse_measure ?n s" if "?P s" "?b s" for s
    using that sparse_step_inv [OF flow, of us ds s] sparse_step_measure [OF _ flow, of us ds s]
    by (cases "sp_pending s") auto
  obtain s where s: "while_option ?b ?c (sparse_init ?n) = Some s"
    using measure_while_option_Some [of ?P ?b ?c "sparse_measure ?n", OF step sparse_init_inv] by auto
  have inv: "?P s" using while_option_rule [OF _ s, of ?P] step sparse_init_inv by blast
  have "sp_pending s = []" using while_option_stop [OF s] by simp
  with inv have len: "length (sp_in s) = ?n" "length (sp_out s) = ?n"
    and rows: "\<forall>i < ?n. sp_out s ! i = out_of succs (sp_in s) i \<and> sp_in s ! i = transfer_of succs us ds (sp_in s) i"
    by (auto simp: sparse_inv_def queue_ok_def)
  have below: "\<forall>i < ?n. sp_in s ! i \<subseteq> {r. live succs us ds i r}"
    using inv unfolding sparse_inv_def by blast
  have "sp_in s ! i = {r. live succs us ds i r}" if "i < ?n" for i
  proof
    show "{r. live succs us ds i r} \<subseteq> sp_in s ! i"
      using live_in_row [OF _ that flow, of us ds _ "sp_in s"] rows by blast
  qed (use below that in blast)
  then have "sp_in s = live_sets succs us ds"
    using len by (intro nth_equalityI) (simp_all add: live_sets_def)
  moreover have "sp_out s = map (out_of succs (sp_in s)) [0..<?n]"
    using rows len by (intro nth_equalityI) auto
  ultimately show ?thesis using s by auto
qed

section \<open>Predecessors\<close>

lemma predecessors_row:
  fixes preds :: "nat list list"
  assumes "\<forall>s \<in> set ss. s < length preds"
  shows "length (fold (\<lambda>s preds. preds[s := preds ! s @ [index]]) ss preds) = length preds \<and>
    (\<forall>j < length preds. set (fold (\<lambda>s preds. preds[s := preds ! s @ [index]]) ss preds ! j) =
       set (preds ! j) \<union> {i. i = index \<and> j \<in> set ss})"
  using assms
proof (induction ss arbitrary: preds)
  case (Cons s ss)
  have "set (preds[s := preds ! s @ [index]] ! j) = set (preds ! j) \<union> {i. i = index \<and> j = s}"
    if "j < length preds" for j
    using that by (cases "j = s") auto
  then show ?case using Cons.IH [of "preds[s := preds ! s @ [index]]"] Cons.prems by auto
qed simp

lemma predecessors_rows:
  fixes preds :: "nat list list" and succs :: "nat list list"
  assumes "\<forall>i \<in> set is. \<forall>s \<in> set (succs ! i). s < length preds"
  defines "step \<equiv> \<lambda>index preds. fold (\<lambda>s preds. preds[s := preds ! s @ [index]]) (succs ! index) preds"
  shows "length (fold step is preds) = length preds \<and>
    (\<forall>j < length preds. set (fold step is preds ! j) = set (preds ! j) \<union> {i \<in> set is. j \<in> set (succs ! i)})"
  using assms(1)
proof (induction "is" arbitrary: preds)
  case (Cons index "is")
  have "length (step index preds) = length preds" "\<forall>j < length preds. set (step index preds ! j) =
       set (preds ! j) \<union> {i. i = index \<and> j \<in> set (succs ! index)}"
    using predecessors_row [of "succs ! index" preds index] Cons.prems by (simp_all add: step_def)
  then show ?case using Cons.IH [of "step index preds"] Cons.prems by auto
qed simp

lemma predecessors_flow:
  assumes "list_all (list_all (\<lambda>s. s < length succs)) succs"
  shows "flow_ok succs (predecessors succs)"
proof -
  have "\<forall>i < length succs. \<forall>s \<in> set (succs ! i). s < length succs"
    using assms by (auto simp: list_all_iff)
  then show ?thesis
    using predecessors_rows [of "[0..<length succs]" succs "replicate (length succs) []"]
    by (auto simp: flow_ok_def predecessors_def)
qed

end
