(* ===== verification/Bit_Rows.thy ===== *)
theory Bit_Rows
  imports Liveness_Laws
begin

text \<open>
  The matrix of 64-bit words behind the dense worklist: the registers of a row (\<open>row_set\<close>), the
  simulation of the sparse worklist by the dense one, and the conversions between registers and
  bits at both ends of the analysis.
\<close>

section \<open>Bit rows\<close>

text \<open>The registers of one row of the matrix.\<close>

definition row_set :: "nat \<Rightarrow> u64 list \<Rightarrow> nat \<Rightarrow> slot set" where
  "row_set nwords bits i =
     {r. unat r div 64 < nwords \<and> bit (bits ! (i * nwords + unat r div 64)) (unat r mod 64)}"

definition rows :: "nat \<Rightarrow> nat \<Rightarrow> u64 list \<Rightarrow> slot set list" where
  "rows cnt nwords bits = map (row_set nwords bits) [0..<cnt]"

lemma rows_nth [simp]: "i < cnt \<Longrightarrow> rows cnt nwords bits ! i = row_set nwords bits i"
  and rows_length [simp]: "length (rows cnt nwords bits) = cnt"
  by (simp_all add: rows_def)

lemma cell_eq_iff:
  "v < nwords \<Longrightarrow> w < nwords \<Longrightarrow> i * nwords + v = j * nwords + w \<longleftrightarrow> i = j \<and> v = w" for i :: nat
  by (metis add.commute add_right_imp_eq div_mult_self3 div_less less_nat_zero_code add_cancel_left_left)

lemma cell_less: "i < cnt \<Longrightarrow> w < nwords \<Longrightarrow> i * nwords + w < cnt * nwords" for i :: nat
proof -
  assume "i < cnt" "w < nwords"
  then have "i * nwords + w < Suc i * nwords" by simp
  also have "\<dots> \<le> cnt * nwords" using \<open>i < cnt\<close> by (intro mult_right_mono) auto
  finally show ?thesis .
qed

lemma bit_fold_or:
  "bit (fold (\<lambda>x bits. or bits (f x)) xs b) k \<longleftrightarrow> bit b k \<or> (\<exists>x \<in> set xs. bit (f x) k)" for b :: u64
  by (induction xs arbitrary: b) (auto simp: bit_or_iff)

abbreviation row_outgoing :: "nat \<Rightarrow> nat list \<Rightarrow> u64 list \<Rightarrow> nat \<Rightarrow> u64" where
  "row_outgoing nwords succ ins w \<equiv> fold (\<lambda>successor bits. or bits (ins ! (successor * nwords + w))) succ 0"

abbreviation row_incoming :: "nat \<Rightarrow> nat list \<Rightarrow> u64 list \<Rightarrow> u64 list \<Rightarrow> nat \<Rightarrow> u64 list \<Rightarrow> nat \<Rightarrow> u64" where
  "row_incoming nwords succ use_bits def_bits index ins w \<equiv>
     or (use_bits ! (index * nwords + w))
        (and (row_outgoing nwords succ ins w) (not (def_bits ! (index * nwords + w))))"

lemma dense_row_cells:
  assumes "distinct ws" "\<forall>w \<in> set ws. w < nwords" "index < cnt"
    and "length ins = cnt * nwords" "length outs = cnt * nwords"
    and "dense_row nwords succ use_bits def_bits index (ins, outs, changed) ws = (ins', outs', changed')"
  shows "length ins' = cnt * nwords \<and> length outs' = cnt * nwords \<and>
    (\<forall>i w. w < nwords \<longrightarrow> ins' ! (i * nwords + w) =
       (if i = index \<and> w \<in> set ws then row_incoming nwords succ use_bits def_bits index ins w
        else ins ! (i * nwords + w))) \<and>
    (\<forall>i w. w < nwords \<longrightarrow> outs' ! (i * nwords + w) =
       (if i = index \<and> w \<in> set ws then row_outgoing nwords succ ins w else outs ! (i * nwords + w))) \<and>
    (changed' \<longleftrightarrow> changed \<or> (\<exists>w \<in> set ws. ins ! (index * nwords + w) \<noteq>
       row_incoming nwords succ use_bits def_bits index ins w))"
  using assms
proof (induction ws arbitrary: ins outs changed)
  case Nil
  then show ?case by (simp add: dense_row_def)
next
  case (Cons v ws)
  let ?cell = "index * nwords + v"
  define ins2 where "ins2 = ins[?cell := row_incoming nwords succ use_bits def_bits index ins v]"
  define outs2 where "outs2 = outs[?cell := row_outgoing nwords succ ins v]"
  define changed2 where "changed2 \<longleftrightarrow> changed \<or> ins ! ?cell \<noteq> row_incoming nwords succ use_bits def_bits index ins v"
  have v: "v < nwords" using Cons.prems(2) by simp
  have cell: "?cell < cnt * nwords" using cell_less [OF Cons.prems(3) v] .
  have other: "ins2 ! (i * nwords + w) = ins ! (i * nwords + w)" if "w < nwords" "w \<noteq> v" for i w
    using that cell_eq_iff [OF v that(1)] by (simp add: ins2_def)
  have out: "row_outgoing nwords succ ins2 w = row_outgoing nwords succ ins w" if "w < nwords" "w \<noteq> v" for w
    using other [OF that] by simp
  have step: "dense_row nwords succ use_bits def_bits index (ins2, outs2, changed2) ws = (ins', outs', changed')"
    using Cons.prems(6) by (simp add: dense_row_def Let_def ins2_def outs2_def changed2_def)
  have ws: "w < nwords" "w \<noteq> v" if "w \<in> set ws" for w using Cons.prems(1,2) that by auto
  note IH = Cons.IH [OF _ _ Cons.prems(3) _ _ step]
  have ih: "length ins' = cnt * nwords \<and> length outs' = cnt * nwords \<and>
    (\<forall>i w. w < nwords \<longrightarrow> ins' ! (i * nwords + w) =
       (if i = index \<and> w \<in> set ws then row_incoming nwords succ use_bits def_bits index ins2 w
        else ins2 ! (i * nwords + w))) \<and>
    (\<forall>i w. w < nwords \<longrightarrow> outs' ! (i * nwords + w) =
       (if i = index \<and> w \<in> set ws then row_outgoing nwords succ ins2 w else outs2 ! (i * nwords + w))) \<and>
    (changed' \<longleftrightarrow> changed2 \<or> (\<exists>w \<in> set ws. ins2 ! (index * nwords + w) \<noteq>
       row_incoming nwords succ use_bits def_bits index ins2 w))"
    by (rule IH) (use Cons.prems in \<open>auto simp: ins2_def outs2_def\<close>)
  have nv: "v \<notin> set ws" using Cons.prems(1) by simp
  have cell_v: "ins2 ! (i * nwords + w) = (if i = index \<and> w = v
      then row_incoming nwords succ use_bits def_bits index ins v else ins ! (i * nwords + w))"
    "outs2 ! (i * nwords + w) = (if i = index \<and> w = v then row_outgoing nwords succ ins v else outs ! (i * nwords + w))"
    if "w < nwords" for i w
    using cell_eq_iff [OF v that, of index i] cell Cons.prems(4,5)
    by (auto simp: ins2_def outs2_def)
  have "ins' ! (i * nwords + w) =
       (if i = index \<and> w \<in> set (v # ws) then row_incoming nwords succ use_bits def_bits index ins w
        else ins ! (i * nwords + w))" if "w < nwords" for i w
    using ih that nv ws out [of w] cell_v(1) [OF that, of i] by (cases "w = v") auto
  moreover have "outs' ! (i * nwords + w) =
       (if i = index \<and> w \<in> set (v # ws) then row_outgoing nwords succ ins w else outs ! (i * nwords + w))"
    if "w < nwords" for i w
    using ih that nv ws out [of w] cell_v(2) [OF that, of i] by (cases "w = v") auto
  moreover have "changed' \<longleftrightarrow> changed \<or> (\<exists>w \<in> set (v # ws). ins ! (index * nwords + w) \<noteq>
       row_incoming nwords succ use_bits def_bits index ins w)"
    using ih ws out other by (auto simp: changed2_def)
  ultimately show ?case using ih by blast
qed

lemma row_set_cell:
  "unat r div 64 < nwords \<Longrightarrow>
   r \<in> row_set nwords bits i \<longleftrightarrow> bit (bits ! (i * nwords + unat r div 64)) (unat r mod 64)" for r :: slot
  by (simp add: row_set_def)

lemma row_set_below: "r \<in> row_set nwords bits i \<Longrightarrow> unat r div 64 < nwords"
  by (simp add: row_set_def)

text \<open>Up to 1024 words every bit of a row is a register, so two rows with the same registers are equal.\<close>

lemma row_set_eqD:
  assumes "row_set nwords bits i = row_set nwords bits' j" "nwords \<le> 1024" "w < nwords"
  shows "bits ! (i * nwords + w) = bits' ! (j * nwords + w)"
proof (rule bit_word_eqI)
  fix k
  assume "k < LENGTH(64)"
  then have k: "k < 64" by simp
  define r :: slot where "r = word_of_nat (w * 64 + k)"
  have "w * 64 + k < 2 ^ 16" using assms(2,3) k by simp
  then have "unat r = w * 64 + k" by (intro of_nat_inverse) (simp_all add: r_def)
  then have "unat r div 64 = w" "unat r mod 64 = k" using k by simp_all
  then show "bit (bits ! (i * nwords + w)) k \<longleftrightarrow> bit (bits' ! (j * nwords + w)) k"
    using assms(1,3) row_set_cell [of r nwords bits i] row_set_cell [of r nwords bits' j] by auto
qed

lemma row_set_cong:
  "(\<And>w. w < nwords \<Longrightarrow> bits ! (i * nwords + w) = bits' ! (j * nwords + w)) \<Longrightarrow>
   row_set nwords bits i = row_set nwords bits' j"
  by (auto simp: row_set_def)

lemma row_outgoing_set:
  assumes "\<And>w. w < nwords \<Longrightarrow> bits ! (i * nwords + w) = row_outgoing nwords succ ins w"
  shows "row_set nwords bits i = (\<Union>n \<in> set succ. row_set nwords ins n)"
  using assms by (auto simp: row_set_def bit_fold_or)

lemma row_incoming_set:
  assumes "\<And>w. w < nwords \<Longrightarrow> bits ! (i * nwords + w) = row_incoming nwords succ use_bits def_bits index ins w"
  shows "row_set nwords bits i =
    row_set nwords use_bits index \<union> ((\<Union>n \<in> set succ. row_set nwords ins n) - row_set nwords def_bits index)"
  using assms by (auto simp: row_set_def bit_fold_or bit_simps)

lemma rows_updateI:
  assumes "\<And>i. i \<noteq> index \<Longrightarrow> row_set nwords bits' i = row_set nwords bits i"
    and "row_set nwords bits' index = x"
  shows "rows cnt nwords bits' = (rows cnt nwords bits)[index := x]"
proof (rule nth_equalityI)
  fix i
  assume "i < length (rows cnt nwords bits')"
  then show "rows cnt nwords bits' ! i = (rows cnt nwords bits)[index := x] ! i"
    using assms by (cases "i = index") simp_all
qed simp

lemma dense_row_sets:
  assumes "nwords \<le> 1024" "index < cnt" "\<forall>n \<in> set succ. n < cnt"
    and "length ins = cnt * nwords" "length outs = cnt * nwords"
    and "dense_row nwords succ use_bits def_bits index (ins, outs, False) [0..<nwords] = (ins', outs', changed)"
  defines "incoming \<equiv> row_set nwords use_bits index \<union>
    ((\<Union>n \<in> set succ. row_set nwords ins n) - row_set nwords def_bits index)"
  shows "length ins' = cnt * nwords" "length outs' = cnt * nwords"
    and "rows cnt nwords ins' = (rows cnt nwords ins)[index := incoming]"
    and "rows cnt nwords outs' = (rows cnt nwords outs)[index := \<Union>n \<in> set succ. row_set nwords ins n]"
    and "changed \<longleftrightarrow> incoming \<noteq> row_set nwords ins index"
proof -
  have cells: "length ins' = cnt * nwords \<and> length outs' = cnt * nwords \<and>
    (\<forall>i w. w < nwords \<longrightarrow> ins' ! (i * nwords + w) =
       (if i = index \<and> w \<in> set [0..<nwords] then row_incoming nwords succ use_bits def_bits index ins w
        else ins ! (i * nwords + w))) \<and>
    (\<forall>i w. w < nwords \<longrightarrow> outs' ! (i * nwords + w) =
       (if i = index \<and> w \<in> set [0..<nwords] then row_outgoing nwords succ ins w else outs ! (i * nwords + w))) \<and>
    (changed \<longleftrightarrow> False \<or> (\<exists>w \<in> set [0..<nwords]. ins ! (index * nwords + w) \<noteq>
       row_incoming nwords succ use_bits def_bits index ins w))"
    by (rule dense_row_cells [OF _ _ assms(2,4,5,6)]) auto
  have inc: "row_set nwords ins' index = incoming" unfolding incoming_def
    by (rule row_incoming_set) (use cells in simp)
  have outg: "row_set nwords outs' index = (\<Union>n \<in> set succ. row_set nwords ins n)"
    by (rule row_outgoing_set) (use cells in simp)
  have keep: "row_set nwords ins' i = row_set nwords ins i" "row_set nwords outs' i = row_set nwords outs i"
    if "i \<noteq> index" for i
    by (intro row_set_cong; use cells that in simp)+
  show "length ins' = cnt * nwords" "length outs' = cnt * nwords" using cells by auto
  show "rows cnt nwords ins' = (rows cnt nwords ins)[index := incoming]"
    using keep(1) inc by (rule rows_updateI)
  show "rows cnt nwords outs' = (rows cnt nwords outs)[index := \<Union>n \<in> set succ. row_set nwords ins n]"
    using keep(2) outg by (rule rows_updateI)
  have "\<not> changed \<Longrightarrow> row_set nwords ins' index = row_set nwords ins index"
    by (rule row_set_cong) (use cells in auto)
  moreover have "row_set nwords ins' index = row_set nwords ins index \<Longrightarrow> \<not> changed"
    using row_set_eqD [OF _ assms(1), of ins' index ins index] cells by auto
  ultimately show "changed \<longleftrightarrow> incoming \<noteq> row_set nwords ins index" using inc by auto
qed

definition dense_abs :: "nat \<Rightarrow> nat \<Rightarrow> dense_state \<Rightarrow> sparse_state" where
  "dense_abs cnt nwords s = \<lparr>sp_in = rows cnt nwords (dn_in s), sp_out = rows cnt nwords (dn_out s),
     sp_pending = dn_pending s, sp_queued = dn_queued s\<rparr>"

definition dense_inv :: "nat \<Rightarrow> nat \<Rightarrow> dense_state \<Rightarrow> bool" where
  "dense_inv cnt nwords s \<longleftrightarrow> length (dn_in s) = cnt * nwords \<and> length (dn_out s) = cnt * nwords \<and>
     queue_ok cnt (dn_pending s, dn_queued s)"

lemma dense_step_simulates:
  fixes s :: dense_state and use_bits def_bits :: "u64 list"
  assumes "nwords \<le> 1024" "flow_ok succs preds" and inv: "dense_inv (length succs) nwords s"
    and pend: "dn_pending s \<noteq> []"
  defines "s' \<equiv> dense_step nwords succs preds use_bits def_bits s"
  shows "dense_inv (length succs) nwords s' \<and>
    dense_abs (length succs) nwords s' =
      sparse_step succs preds (rows (length succs) nwords use_bits) (rows (length succs) nwords def_bits)
        (dense_abs (length succs) nwords s)"
proof -
  let ?n = "length succs"
  obtain index pending where p: "dn_pending s = index # pending" using pend by (cases "dn_pending s") auto
  have q: "queue_ok ?n (index # pending, dn_queued s)" using inv p by (simp add: dense_inv_def)
  then have index: "index < ?n" by (auto simp: queue_ok_def)
  obtain ins outs changed where row: "dense_row nwords (succs ! index) use_bits def_bits index
      (dn_in s, dn_out s, False) [0..<nwords] = (ins, outs, changed)" by (metis prod_cases3)
  have succ: "\<forall>n \<in> set (succs ! index). n < ?n" using assms(2) index by (auto simp: flow_ok_def)
  have "length (dn_in s) = ?n * nwords" "length (dn_out s) = ?n * nwords"
    using inv by (simp_all add: dense_inv_def)
  note sets = dense_row_sets [OF assms(1) index succ this row]
  have out: "(\<Union>n \<in> set (succs ! index). rows ?n nwords (dn_in s) ! n) =
      (\<Union>n \<in> set (succs ! index). row_set nwords (dn_in s) n)" using succ by auto
  define q' where "q' = (if changed then enqueue (preds ! index) (pending, (dn_queued s)[index := False])
      else (pending, (dn_queued s)[index := False]))"
  have s': "s' = \<lparr>dn_in = ins, dn_out = outs, dn_pending = fst q', dn_queued = snd q'\<rparr>"
    by (simp add: s'_def dense_step_def p row q'_def split: prod.splits)
  have "queue_ok ?n q'"
    using enqueue_ok [OF dequeue_ok [OF q], of "preds ! index"] dequeue_ok [OF q] assms(2) index
    by (auto simp: q'_def flow_ok_def)
  then have "dense_inv ?n nwords s'" using sets by (simp add: dense_inv_def s')
  moreover have "dense_abs ?n nwords s' =
      sparse_step succs preds (rows ?n nwords use_bits) (rows ?n nwords def_bits) (dense_abs ?n nwords s)"
    using sparse_step_eq [of "dense_abs ?n nwords s" index pending succs preds "rows ?n nwords use_bits" "rows ?n nwords def_bits"]
      sets index out
    by (simp add: dense_abs_def p s' q'_def transfer_of_def out_of_def)
  ultimately show ?thesis by simp
qed

lemma dense_init_abs:
  "dense_inv cnt nwords (dense_init cnt nwords)"
  "dense_abs cnt nwords (dense_init cnt nwords) = sparse_init cnt"
proof -
  have "i * nwords + w < cnt * nwords" if "i < cnt" "w < nwords" for i w using cell_less that .
  then have "rows cnt nwords (replicate (cnt * nwords) 0) = replicate cnt {}"
    by (intro nth_equalityI) (auto simp: row_set_def)
  then show "dense_abs cnt nwords (dense_init cnt nwords) = sparse_init cnt"
    by (simp add: dense_abs_def dense_init_def sparse_init_def)
qed (auto simp: dense_inv_def dense_init_def queue_ok_def)

lemma dense_loop:
  assumes "nwords \<le> 1024" "flow_ok succs preds"
  shows "map_option (dense_abs (length succs) nwords)
      (while_option (\<lambda>s. dn_pending s \<noteq> []) (dense_step nwords succs preds use_bits def_bits)
        (dense_init (length succs) nwords)) =
    while_option (\<lambda>s. sp_pending s \<noteq> [])
      (sparse_step succs preds (rows (length succs) nwords use_bits) (rows (length succs) nwords def_bits))
      (sparse_init (length succs))"
  unfolding dense_init_abs(2) [symmetric, of "length succs" nwords]
  by (rule while_option_commute_invariant [where P = "dense_inv (length succs) nwords"])
    (use dense_step_simulates [OF assms] dense_init_abs in \<open>auto simp: dense_abs_def\<close>)

section \<open>Reading and writing bit rows\<close>

lemma set_register_rows:
  assumes "length bits = cnt * nwords" "index < cnt" "unat r div 64 < nwords"
  shows "length (set_register nwords index r bits) = cnt * nwords"
    and "rows cnt nwords (set_register nwords index r bits) =
      (rows cnt nwords bits)[index := insert r (row_set nwords bits index)]"
proof -
  let ?cell = "index * nwords + unat r div 64"
  have cell: "?cell < length bits" using assms cell_less by simp
  have reg: "unat x div 64 = unat r div 64 \<and> unat x mod 64 = unat r mod 64 \<longleftrightarrow> x = r" for x :: slot
    by (metis div_mult_mod_eq word_unat_eq_iff)
  have bit1: "bit (push_bit m 1 :: u64) n \<longleftrightarrow> n = m" if "n < 64" for m n
    using that by (auto simp: bit_simps)
  have nth: "set_register nwords index r bits ! (i * nwords + w) =
      (if i = index \<and> w = unat r div 64 then or (bits ! ?cell) (push_bit (unat r mod 64) 1)
       else bits ! (i * nwords + w))" if "w < nwords" for i w
    using cell cell_eq_iff [OF that assms(3), of i index]
    by (auto simp: set_register_def Let_def nth_list_update)
  show "rows cnt nwords (set_register nwords index r bits) =
      (rows cnt nwords bits)[index := insert r (row_set nwords bits index)]"
  proof (rule rows_updateI)
    show "row_set nwords (set_register nwords index r bits) index = insert r (row_set nwords bits index)"
    proof (rule set_eqI)
      fix x :: slot
      show "x \<in> row_set nwords (set_register nwords index r bits) index \<longleftrightarrow>
          x \<in> insert r (row_set nwords bits index)"
        using reg [of x] assms(3) nth [of "unat x div 64" index] bit1 [of "unat x mod 64" "unat r mod 64"]
        by (cases "unat x div 64 = unat r div 64") (auto simp: row_set_def bit_or_iff)
    qed
    show "row_set nwords (set_register nwords index r bits) i = row_set nwords bits i" if "i \<noteq> index" for i
      by (rule row_set_cong) (use nth that in simp)
  qed
qed (simp add: set_register_def assms Let_def)

lemma set_registers_rows:
  assumes "length bits = cnt * nwords" "index < cnt" "\<forall>r \<in> set regs. unat r div 64 < nwords"
  shows "length (fold (set_register nwords index) regs bits) = cnt * nwords \<and>
    rows cnt nwords (fold (set_register nwords index) regs bits) =
      (rows cnt nwords bits)[index := set regs \<union> row_set nwords bits index]"
  using assms
proof (induction regs arbitrary: bits)
  case Nil
  then show ?case using list_update_id [of "rows cnt nwords bits" index] by simp
next
  case (Cons r regs)
  note one = set_register_rows [OF Cons.prems(1,2), of r]
  have len: "length (set_register nwords index r bits) = cnt * nwords"
    and rows: "rows cnt nwords (set_register nwords index r bits) =
      (rows cnt nwords bits)[index := insert r (row_set nwords bits index)]"
    using one Cons.prems(3) by simp_all
  have "row_set nwords (set_register nwords index r bits) index = insert r (row_set nwords bits index)"
    using arg_cong [OF rows, of "\<lambda>xs. xs ! index"] Cons.prems(2) by simp
  then show ?case using Cons.IH [OF len Cons.prems(2)] Cons.prems(3) rows by simp
qed

lemma register_bits_rows:
  assumes "length rs = cnt" "\<forall>regs \<in> set rs. \<forall>r \<in> set regs. unat r div 64 < nwords"
  shows "rows cnt nwords (register_bits cnt nwords rs) = map set rs"
proof -
  let ?step = "\<lambda>index bits. fold (set_register nwords index) (rs ! index) bits"
  have "length (fold ?step [0..<k] (replicate (cnt * nwords) 0)) = cnt * nwords \<and>
      rows cnt nwords (fold ?step [0..<k] (replicate (cnt * nwords) 0)) =
        map set (take k rs) @ replicate (cnt - k) {}" if "k \<le> cnt" for k
    using that
  proof (induction k)
    case 0
    then show ?case using arg_cong [OF dense_init_abs(2) [of cnt nwords], of sp_in]
      by (simp add: dense_abs_def dense_init_def sparse_init_def)
  next
    case (Suc k)
    let ?bits = "fold ?step [0..<k] (replicate (cnt * nwords) 0)"
    have len: "length ?bits = cnt * nwords"
      and rows: "rows cnt nwords ?bits = map set (take k rs) @ replicate (cnt - k) {}"
      using Suc by simp_all
    have "\<forall>r \<in> set (rs ! k). unat r div 64 < nwords"
      using bspec [OF assms(2), of "rs ! k"] assms(1) Suc.prems by simp
    from set_registers_rows [OF len _ this] Suc.prems
    have "length (?step k ?bits) = cnt * nwords \<and> rows cnt nwords (?step k ?bits) =
        (rows cnt nwords ?bits)[k := set (rs ! k) \<union> row_set nwords ?bits k]" by simp
    moreover have "row_set nwords ?bits k = {}"
      using arg_cong [OF rows, of "\<lambda>xs. xs ! k"] Suc.prems assms(1) by (simp add: nth_append)
    moreover have "(map set (take k rs) @ replicate (cnt - k) {})[k := set (rs ! k)] =
        map set (take (Suc k) rs) @ replicate (cnt - Suc k) {}"
      using Suc.prems assms(1)
      by (simp add: list_update_append take_Suc_conv_app_nth Suc_diff_Suc [symmetric])
    ultimately show ?case using rows by simp
  qed
  from this [of cnt] show ?thesis using assms(1) by (simp add: register_bits_def)
qed

lemma trailing_zeros_bit:
  assumes "w \<noteq> 0"
  shows "trailing_zeros w < 64" "bit w (trailing_zeros w)" "k < trailing_zeros w \<Longrightarrow> \<not> bit w k"
proof -
  have "\<exists>j < 64. bit w j"
  proof -
    have "\<not> (\<forall>j < 64. \<not> bit w j)"
    proof
      assume "\<forall>j < 64. \<not> bit w j"
      then have "w = 0" by (intro bit_word_eqI) simp
      then show False using assms by simp
    qed
    then show ?thesis by blast
  qed
  then obtain j where j: "j < 64" "bit w j" by blast
  then obtain t where t: "find (bit w) [0..<64] = Some t"
    by (metis find_None_iff not_None_eq atLeastLessThan_iff set_upt zero_le)
  then have tz: "trailing_zeros w = t" by (simp add: trailing_zeros_def)
  from t obtain i where i: "i < 64" "bit w ([0..<64] ! i)" "t = [0..<64] ! i" "\<forall>j < i. \<not> bit w ([0..<64] ! j)"
    by (auto simp: find_Some_iff)
  then show "trailing_zeros w < 64" "bit w (trailing_zeros w)" "k < trailing_zeros w \<Longrightarrow> \<not> bit w k"
    by (auto simp: tz)
qed

lemma clear_lowest_bit:
  assumes "w \<noteq> 0"
  shows "and w (w - 1) = unset_bit (trailing_zeros w) w"
proof -
  let ?t = "trailing_zeros w"
  let ?hi = "unset_bit ?t w"
  note t = trailing_zeros_bit [OF assms]
  have low: "k < ?t \<Longrightarrow> \<not> bit ?hi k" for k using t(3) by (simp add: bit_simps)
  have "?hi + push_bit ?t 1 = or ?hi (push_bit ?t 1)"
    by (rule disjunctive_add_eq_or) (auto simp: bit_eq_iff bit_simps)
  also have "\<dots> = w" using t by (intro bit_word_eqI) (auto simp: bit_simps)
  finally have "w - 1 = ?hi + (push_bit ?t 1 - 1)" by (metis add_diff_eq)
  also have "push_bit ?t 1 - 1 = (mask ?t :: u64)" by (simp add: mask_eq_exp_minus_1 push_bit_eq_mult)
  also have "?hi + mask ?t = or ?hi (mask ?t)"
    by (rule disjunctive_add_eq_or) (use low in \<open>auto simp: bit_eq_iff bit_simps\<close>)
  finally have eq: "w - 1 = or ?hi (mask ?t)" .
  show ?thesis unfolding eq
    by (intro bit_word_eqI) (use t(3) in \<open>auto simp: bit_simps\<close>)
qed

lemma register_index:
  fixes r :: slot
  assumes "index < 1024" "k < 64"
  shows "word_of_nat (index * 64 + k) = r \<longleftrightarrow> unat r div 64 = index \<and> unat r mod 64 = k"
proof
  have "index * 64 + k < 2 ^ 16" using assms by simp
  then have eq: "unat (word_of_nat (index * 64 + k) :: slot) = index * 64 + k"
    by (intro of_nat_inverse) simp_all
  then show "word_of_nat (index * 64 + k) = r \<Longrightarrow> unat r div 64 = index \<and> unat r mod 64 = k"
    using eq assms by auto
  show "unat r div 64 = index \<and> unat r mod 64 = k \<Longrightarrow> word_of_nat (index * 64 + k) = r"
    by (metis eq div_mult_mod_eq word_unat_eq_iff)
qed

lemma word_registers_set:
  assumes "index < 1024"
  shows "word_registers index w registers =
    registers \<union> {r. unat r div 64 = index \<and> bit w (unat r mod 64)}"
  using assms
proof (induction index w registers rule: word_registers.induct)
  case (1 index w registers)
  show ?case
  proof (cases "w = 0")
    case False
    let ?t = "trailing_zeros w"
    note t = trailing_zeros_bit [OF False]
    have "word_registers index w registers =
        word_registers index (and w (w - 1)) (insert (word_of_nat (index * 64 + ?t)) registers)"
      using False by (simp add: word_registers.simps [of index w])
    also have "\<dots> = insert (word_of_nat (index * 64 + ?t)) registers \<union>
        {r. unat r div 64 = index \<and> bit (unset_bit ?t w) (unat r mod 64)}"
      using 1 False clear_lowest_bit [OF False] by simp
    also have "\<dots> = registers \<union> {r. unat r div 64 = index \<and> bit w (unat r mod 64)}"
    proof (rule set_eqI)
      fix r :: slot
      show "r \<in> insert (word_of_nat (index * 64 + ?t)) registers \<union>
          {r. unat r div 64 = index \<and> bit (unset_bit ?t w) (unat r mod 64)} \<longleftrightarrow>
        r \<in> registers \<union> {r. unat r div 64 = index \<and> bit w (unat r mod 64)}"
        using t(2) register_index [OF 1(2) t(1), of r] by (auto simp: bit_simps simp del: of_nat_add)
    qed
    finally show ?thesis .
  qed (simp add: word_registers.simps [of index 0])
qed

lemma row_registers_set:
  "k + length row \<le> 1024 \<Longrightarrow>
   fold (\<lambda>(index, word) registers. word_registers index word registers) (enumerate k row) registers =
   registers \<union> {r. \<exists>w < length row. unat r div 64 = k + w \<and> bit (row ! w) (unat r mod 64)}"
proof (induction row arbitrary: k registers)
  case (Cons w row)
  have "{r :: slot. \<exists>v < length (w # row). unat r div 64 = k + v \<and> bit ((w # row) ! v) (unat r mod 64)} =
      {r. unat r div 64 = k \<and> bit w (unat r mod 64)} \<union>
      {r. \<exists>v < length row. unat r div 64 = Suc k + v \<and> bit (row ! v) (unat r mod 64)}"
    by (auto simp: less_Suc_eq_0_disj)
  then show ?case using Cons.IH [of "Suc k"] Cons.prems word_registers_set [of k w registers]
    by (simp add: Un_assoc)
qed simp

lemma chunks_exact_rows:
  "0 < n \<Longrightarrow> length xs = cnt * n \<Longrightarrow>
   chunks_exact n xs = map (\<lambda>i. take n (drop (i * n) xs)) [0..<cnt]"
proof (induction cnt arbitrary: xs)
  case 0
  then show ?case by (simp add: chunks_exact.simps [of n "[]"])
next
  case (Suc cnt)
  then have "chunks_exact n xs = take n xs # chunks_exact n (drop n xs)"
    by (simp add: chunks_exact.simps [of n xs])
  also have "chunks_exact n (drop n xs) = map (\<lambda>i. take n (drop (i * n) (drop n xs))) [0..<cnt]"
    using Suc by simp
  finally show ?case by (simp add: upt_conv_Cons map_Suc_upt [symmetric] add.commute comp_def del: upt_Suc)
qed

lemma register_sets_rows:
  assumes "length bits = cnt * nwords" "0 < nwords" "nwords \<le> 1024"
  shows "register_sets bits nwords = rows cnt nwords bits"
proof -
  have "fold (\<lambda>(index, word) registers. word_registers index word registers)
      (enumerate 0 (take nwords (drop (i * nwords) bits))) {} = row_set nwords bits i" if "i < cnt" for i
  proof -
    have "i * nwords + nwords \<le> cnt * nwords" using that by (metis Suc_leI mult_Suc mult_le_mono1 add.commute)
    then have len: "length (take nwords (drop (i * nwords) bits)) = nwords" using assms(1) by simp
    have cell: "take nwords (drop (i * nwords) bits) ! w = bits ! (i * nwords + w)" if "w < nwords" for w
    proof -
      have "i * nwords \<le> length bits" using assms(1) \<open>i * nwords + nwords \<le> cnt * nwords\<close> by linarith
      then show ?thesis using that by (simp only: nth_take nth_drop)
    qed
    have "fold (\<lambda>(index, word) registers. word_registers index word registers)
        (enumerate 0 (take nwords (drop (i * nwords) bits))) {} =
      {} \<union> {r. \<exists>w < nwords. unat r div 64 = 0 + w \<and>
        bit (take nwords (drop (i * nwords) bits) ! w) (unat r mod 64)}"
      using row_registers_set [of 0 "take nwords (drop (i * nwords) bits)" "{}"] assms(3) unfolding len
      by (simp only: add_0)
    also have "\<dots> = row_set nwords bits i" using cell by (auto simp only: row_set_def add_0 Un_empty_left)
    finally show ?thesis .
  qed
  then show ?thesis
    by (simp add: register_sets_def chunks_exact_rows [OF assms(2,1)] rows_def)
qed

end
