(* ===== verification/Liveness_Correct.thy ===== *)
theory Liveness_Correct
  imports Bit_Rows
begin

text \<open>
  The properties of the liveness analysis: both worklists give the same sets, and those sets are
  the slots some path reads before writing them.
\<close>

section \<open>The two worklists agree\<close>

lemma fold_max_bounds:
  fixes f :: "'a \<Rightarrow> nat"
  shows "n \<le> fold (\<lambda>x n. max n (f x)) xs n"
    and "x \<in> set xs \<Longrightarrow> f x \<le> fold (\<lambda>x n. max n (f x)) xs n"
    and "n \<le> m \<Longrightarrow> (\<And>x. x \<in> set xs \<Longrightarrow> f x \<le> m) \<Longrightarrow> fold (\<lambda>x n. max n (f x)) xs n \<le> m"
proof (induction xs arbitrary: n)
  case (Cons y ys)
  { case 1 show ?case using Cons.IH(1) [of "max n (f y)"] by simp }
  { case 2 then show ?case using Cons.IH(1) [of "max n (f y)"] Cons.IH(2) [of "max n (f y)"] by auto }
  { case 3 then show ?case using Cons.IH(3) [of "max n (f y)"] by simp }
qed simp_all

lemma register_words_bounds:
  shows "r \<in> set (concat rs) \<Longrightarrow> unat r div 64 < register_words rs"
    and "register_words rs \<le> 1024"
proof -
  have "unat r div 64 + 1 \<le> register_words rs" if "r \<in> set (concat rs)" for r
    unfolding register_words_def using fold_max_bounds(2) [OF that, of "\<lambda>r. unat r div 64 + 1" 0] .
  then show "unat r div 64 < register_words rs" if "r \<in> set (concat rs)"
    using that Suc_le_eq by (metis Suc_eq_plus1)
  have "unat r div 64 + 1 \<le> 1024" for r :: slot using unsigned_less [of r, where 'a = nat] by simp
  then show "register_words rs \<le> 1024" unfolding register_words_def
    by (intro fold_max_bounds(3)) auto
qed

lemma set_concat_map2:
  "length xs = length ys \<Longrightarrow> set (concat (map2 (@) xs ys)) = set (concat xs) \<union> set (concat ys)"
  by (induction xs ys rule: list_induct2) auto

lemma sparse_liveness_solution:
  "flow_ok succs preds \<Longrightarrow>
   sparse_liveness succs preds us ds = Some (solution succs (map set us) (map set ds))"
  using sparse_loop [of succs preds "map set us" "map set ds"]
  by (auto simp: sparse_liveness_def solution_def)

lemma dense_liveness_solution:
  assumes "flow_ok succs preds" "length us = length succs" "length ds = length succs"
    and "0 < nwords" "nwords \<le> 1024"
    and below: "\<And>r. r \<in> set (concat us) \<union> set (concat ds) \<Longrightarrow> unat r div 64 < nwords"
  shows "dense_liveness nwords succs preds us ds = Some (solution succs (map set us) (map set ds))"
proof -
  let ?n = "length succs"
  let ?step = "dense_step nwords succs preds (register_bits ?n nwords us) (register_bits ?n nwords ds)"
  let ?test = "\<lambda>s. dn_pending s \<noteq> []"
  have "rows ?n nwords (register_bits ?n nwords us) = map set us"
    "rows ?n nwords (register_bits ?n nwords ds) = map set ds"
    using assms(2,3) below by (auto intro!: register_bits_rows)
  with dense_loop [OF assms(5,1), of "register_bits ?n nwords us" "register_bits ?n nwords ds"]
  have loop: "map_option (dense_abs ?n nwords) (while_option ?test ?step (dense_init ?n nwords)) =
      while_option (\<lambda>s. sp_pending s \<noteq> []) (sparse_step succs preds (map set us) (map set ds)) (sparse_init ?n)"
    by simp
  from sparse_loop [OF assms(1), of "map set us" "map set ds"] obtain s where
    s: "while_option ?test ?step (dense_init ?n nwords) = Some s"
    and ins: "rows ?n nwords (dn_in s) = live_sets succs (map set us) (map set ds)"
    and outs: "rows ?n nwords (dn_out s) =
      map (out_of succs (live_sets succs (map set us) (map set ds))) [0..<?n]"
    unfolding loop [symmetric] by (auto simp: dense_abs_def)
  have "dense_inv ?n nwords s"
    by (rule while_option_rule [OF _ s])
      (use dense_step_simulates [OF assms(5,1)] dense_init_abs(1) in auto)
  then have "register_sets (dn_in s) nwords = rows ?n nwords (dn_in s)"
    "register_sets (dn_out s) nwords = rows ?n nwords (dn_out s)"
    using assms(4,5) by (auto simp: dense_inv_def intro!: register_sets_rows)
  then show ?thesis by (simp add: dense_liveness_def s ins outs solution_def)
qed

text \<open>
  C23. The dense worklist over 64-bit words and the sparse worklist over register sets return
  the same sets, for every flow graph and every use and definition table whose registers fit
  the words of a row, so the switch between them by size is invisible.
\<close>

theorem dense_equals_sparse:
  assumes "list_all (list_all (\<lambda>s. s < length succs)) succs"
    and "length us = length succs" "length ds = length succs"
    and "nwords = register_words (map2 (@) us ds)" "nwords \<noteq> 0"
  shows "dense_liveness nwords succs (predecessors succs) us ds =
    sparse_liveness succs (predecessors succs) us ds"
proof -
  have "r \<in> set (concat (map2 (@) us ds))" if "r \<in> set (concat us) \<union> set (concat ds)" for r
    using that assms(2,3) set_concat_map2 [of us ds] by simp
  then show ?thesis
    using dense_liveness_solution [OF predecessors_flow [OF assms(1)] assms(2,3), of nwords]
      sparse_liveness_solution [OF predecessors_flow [OF assms(1)]] assms(4,5)
      register_words_bounds(1) [of _ "map2 (@) us ds"] register_words_bounds(2) [of "map2 (@) us ds"] by auto
qed

lemma dense_equals_sparse_witness:
  "dense_liveness 2 [[1, 3], [2], [0], []] (predecessors [[1, 3], [2], [0], []])
     [[1], [], [70], [2]] [[], [70], [1], []] =
   sparse_liveness [[1, 3], [2], [0], []] (predecessors [[1, 3], [2], [0], []])
     [[1], [], [70], [2]] [[], [70], [1], []]"
  by (rule dense_equals_sparse) (simp_all add: register_words_def)

section \<open>Liveness of a function\<close>

inductive live_at :: "instruction list \<Rightarrow> slot list \<Rightarrow> slot set \<Rightarrow> nat \<Rightarrow> slot \<Rightarrow> bool"
  for "is" exit_uses homes where
  reads: "r \<in> set (instruction_reads exit_uses homes (is ! i)) \<Longrightarrow> live_at is exit_uses homes i r"
| flows: "j \<in> set (successors is i) \<Longrightarrow> live_at is exit_uses homes j r \<Longrightarrow>
    r \<notin> set (slot_definitions (is ! i)) \<Longrightarrow> live_at is exit_uses homes i r"

definition jumps_closed :: "instruction list \<Rightarrow> bool" where
  "jumps_closed is \<longleftrightarrow> list_all (\<lambda>i. list_all (\<lambda>j. j < length is) (successors is i)) [0..<length is]"

lemma live_at_live:
  assumes "jumps_closed is" "i < length is"
  shows "live (map (successors is) [0..<length is])
      (map set (map (instruction_reads exit_uses homes) is)) (map set (map slot_definitions is)) i r \<longleftrightarrow>
    live_at is exit_uses homes i r" (is "live ?succs ?us ?ds i r \<longleftrightarrow> _")
proof -
  have closed: "j < length is" if "j \<in> set (successors is i)" "i < length is" for i j
    using assms(1) that by (auto simp: jumps_closed_def list_all_iff)
  have "live ?succs ?us ?ds i r \<Longrightarrow> i < length is \<Longrightarrow> live_at is exit_uses homes i r" for i
  proof (induction rule: live.induct)
    case (live_step j i r)
    then show ?case using closed [of j i] by (auto intro: flows)
  qed (auto intro: reads)
  moreover have "live_at is exit_uses homes i r \<Longrightarrow> i < length is \<Longrightarrow> live ?succs ?us ?ds i r" for i
  proof (induction rule: live_at.induct)
    case (flows j i r)
    then have "live ?succs ?us ?ds j r" using closed [of j i] by blast
    moreover have "j \<in> set (?succs ! i)" "r \<notin> ?ds ! i" using flows by simp_all
    ultimately show ?case by (blast intro: live_step)
  qed (simp add: live_use)
  ultimately show ?thesis using assms(2) by blast
qed

lemma liveness_path_sets:
  assumes "jumps_closed (instructions (f_body f))"
  shows "\<exists>l. liveness_with_write_bindings f exit_uses homes = Some l \<and>
    live_in l = map (\<lambda>i. {r. live_at (instructions (f_body f)) exit_uses homes i r}) [0..<length (instructions (f_body f))] \<and>
    live_out l = map (\<lambda>i. {r. \<exists>j \<in> set (successors (instructions (f_body f)) i).
      live_at (instructions (f_body f)) exit_uses homes j r}) [0..<length (instructions (f_body f))]"
proof -
  define xs where "xs = instructions (f_body f)"
  let ?n = "length xs"
  define succs where "succs = map (successors xs) [0..<?n]"
  define us where "us = map (instruction_reads exit_uses homes) xs"
  define ds where "ds = map slot_definitions xs"
  define nwords where "nwords = register_words (map2 (@) us ds)"
  have len: "length succs = ?n" "length us = ?n" "length ds = ?n" by (simp_all add: succs_def us_def ds_def)
  have closed: "list_all (list_all (\<lambda>s. s < length succs)) succs"
    using assms by (auto simp: jumps_closed_def list_all_iff succs_def xs_def)
  then have flow: "flow_ok succs (predecessors succs)" by (rule predecessors_flow)
  have regs: "r \<in> set (concat (map2 (@) us ds))" if "r \<in> set (concat us) \<union> set (concat ds)" for r
    using that len set_concat_map2 [of us ds] by simp
  have at: "live succs (map set us) (map set ds) i r \<longleftrightarrow> live_at xs exit_uses homes i r" if "i < ?n" for i r
    using live_at_live [OF _ that] assms unfolding succs_def us_def ds_def xs_def by blast
  have succ: "j < ?n" if "j \<in> set (succs ! i)" "i < ?n" for i j
    using flow that len by (auto simp: flow_ok_def)
  have ins: "live_sets succs (map set us) (map set ds) = map (\<lambda>i. {r. live_at xs exit_uses homes i r}) [0..<?n]"
    using at len unfolding live_sets_def by (intro map_cong Collect_cong) simp_all
  have outs: "map (out_of succs (live_sets succs (map set us) (map set ds))) [0..<length succs] =
      map (\<lambda>i. {r. \<exists>j \<in> set (successors xs i). live_at xs exit_uses homes j r}) [0..<?n]"
  proof (rule nth_equalityI)
    fix i
    assume "i < length (map (out_of succs (live_sets succs (map set us) (map set ds))) [0..<length succs])"
    then have i: "i < ?n" using len by simp
    then show "map (out_of succs (live_sets succs (map set us) (map set ds))) [0..<length succs] ! i =
      map (\<lambda>i. {r. \<exists>j \<in> set (successors xs i). live_at xs exit_uses homes j r}) [0..<?n] ! i"
      using succ [OF _ i] len by (auto simp: out_of_def ins) (auto simp: succs_def)
  qed (simp add: len)
  have main: "liveness_with_write_bindings f exit_uses homes = Some (solution succs (map set us) (map set ds))"
  proof (cases "nwords = 0")
    case True
    then have "r \<notin> set (concat (map2 (@) us ds))" for r
      using register_words_bounds(1) [of r "map2 (@) us ds"] unfolding nwords_def by (metis less_nat_zero_code)
    then have none: "set (concat us) = {}" using regs by (metis UnI1 ex_in_conv)
    have "\<not> live_at xs exit_uses homes i r" if "i < ?n" for i r
    proof -
      have "live succs (map set us) (map set ds) i r \<Longrightarrow> i < ?n \<Longrightarrow> False"
      proof (induction rule: live.induct)
        case (live_use r i)
        then have "us ! i \<in> set us" "r \<in> set (us ! i)" using len by simp_all
        then show ?case using none by (metis UN_I empty_iff set_concat)
      next
        case (live_step j i r)
        then show ?case using succ by blast
      qed
      then show ?thesis using at that by blast
    qed
    then have "live_sets succs (map set us) (map set ds) = replicate ?n {}"
      "map (out_of succs (live_sets succs (map set us) (map set ds))) [0..<length succs] = replicate ?n {}"
      using succ unfolding outs unfolding ins by (auto intro!: nth_equalityI simp: succs_def)
    then show ?thesis using True closed len
      by (simp add: liveness_with_write_bindings_def Let_def solution_def xs_def [symmetric]
          succs_def [symmetric] us_def [symmetric] ds_def [symmetric] nwords_def [symmetric])
  next
    case False
    have "dense_liveness nwords succs (predecessors succs) us ds = Some (solution succs (map set us) (map set ds))"
      using False len regs register_words_bounds(1) [of _ "map2 (@) us ds"] register_words_bounds(2) [of "map2 (@) us ds"]
      by (intro dense_liveness_solution [OF flow]) (auto simp: nwords_def)
    then show ?thesis using False closed len sparse_liveness_solution [OF flow]
      by (simp add: liveness_with_write_bindings_def Let_def xs_def [symmetric]
          succs_def [symmetric] us_def [symmetric] ds_def [symmetric] nwords_def [symmetric])
  qed
  show ?thesis unfolding main xs_def [symmetric] using ins outs by (simp add: solution_def)
qed

text \<open>
  C11. The analysis ends for every function whose jumps stay inside the body, and its result
  is path liveness: a slot is in the live-in set of an instruction exactly when some path from
  there reads it before any instruction of the path writes it, and in the live-out set exactly
  when it is live into some successor.
\<close>

theorem liveness_is_path_liveness:
  assumes "jumps_closed (instructions (f_body f))"
  shows "\<exists>l. liveness_with_write_bindings f exit_uses homes = Some l \<and>
    live_in l = map (\<lambda>i. {r. live_at (instructions (f_body f)) exit_uses homes i r}) [0..<length (instructions (f_body f))] \<and>
    live_out l = map (\<lambda>i. {r. \<exists>j \<in> set (successors (instructions (f_body f)) i).
      live_at (instructions (f_body f)) exit_uses homes j r}) [0..<length (instructions (f_body f))]"
  using assms by (rule liveness_path_sets)

definition sample_loop :: bytecode_function where
  "sample_loop = \<lparr>f_name = ''f'', f_intrinsic_stub = False, f_parameters = [],
     f_returns_reference = False, f_captures = 0, f_capture_types = [], f_result_type = Bool,
     f_registers = 1,
     f_body = body_new [(LoadConstant 0 0, (0, 1)), (JumpIfFalse 0 3, (1, 2)), (Jump 0, (2, 3)), (Return 0, (3, 4))]\<rparr>"

lemma sample_loop_body:
  "instructions (f_body sample_loop) = [LoadConstant 0 0, JumpIfFalse 0 3, Jump 0, Return 0]"
  by (simp add: sample_loop_def body_new_def)

lemma liveness_is_path_liveness_witness:
  "\<exists>l. liveness_with_write_bindings sample_loop [] {} = Some l \<and> 0 \<in> live_in l ! 1 \<and> 0 \<in> live_out l ! 0"
proof -
  have "jumps_closed (instructions (f_body sample_loop))"
    by (simp add: jumps_closed_def sample_loop_body successors_def upt_rec)
  then obtain l where l: "liveness_with_write_bindings sample_loop [] {} = Some l"
    and ins: "live_in l = map (\<lambda>i. {r. live_at (instructions (f_body sample_loop)) [] {} i r})
      [0..<length (instructions (f_body sample_loop))]"
    and outs: "live_out l = map (\<lambda>i. {r. \<exists>j \<in> set (successors (instructions (f_body sample_loop)) i).
      live_at (instructions (f_body sample_loop)) [] {} j r}) [0..<length (instructions (f_body sample_loop))]"
    using liveness_is_path_liveness [of sample_loop "[]" "{}"] by blast
  have "live_at (instructions (f_body sample_loop)) [] {} 1 0"
    by (rule reads) (simp add: sample_loop_body instruction_reads_def)
  then have "0 \<in> live_in l ! 1" "0 \<in> live_out l ! 0"
    unfolding ins outs by (simp_all add: sample_loop_body successors_def)
  with l show ?thesis by blast
qed

end
