(* ===== verification/Lifetimes.thy ===== *)
theory Lifetimes
  imports Liveness_Correct
begin

text \<open>
  Lifetime lowering, \<open>bytecode/src/codegen/storage/lifetimes.rs\<close>: the slots a frame must keep,
  and the rewriting of a body that releases every slot where it dies, on the instruction itself or
  on the edges of a branch. \<open>None\<close> is a panic (a missing function, a broken jump patch).
\<close>

section \<open>Protected slots\<close>

definition saturating_add :: "u16 \<Rightarrow> u16 \<Rightarrow> u16" where
  "saturating_add a b = (if unat a + unat b > 65535 then 65535 else a + b)"

type_synonym protected = "function_id \<Rightarrow> slot set"

definition protect :: "function_id \<Rightarrow> slot \<Rightarrow> protected \<Rightarrow> protected" where
  "protect fid r p = p(fid := insert r (p fid))"

definition reference_origin :: "instruction \<Rightarrow> slot option" where
  "reference_origin i =
     (case i of
        MakeReference _ _ obj _ \<Rightarrow> Some obj
      | MakeWholeReference _ _ obj \<Rightarrow> Some obj
      | MakeFieldReference _ _ obj _ \<Rightarrow> Some obj
      | LoadField _ obj _ True \<Rightarrow> Some obj
      | _ \<Rightarrow> None)"

definition protect_reference_origins :: "bytecode_function \<Rightarrow> slot set \<Rightarrow> slot set" where
  "protect_reference_origins f p =
     fold (\<lambda>i p. case reference_origin i of Some obj \<Rightarrow> insert obj p | None \<Rightarrow> p) (instructions (f_body f)) p"

text \<open>The slots captured by reference are kept in the caller and in the callee.\<close>

definition protect_captures ::
  "function_id \<Rightarrow> function_id \<Rightarrow> (capture_mode \<times> slot) list \<Rightarrow> protected \<Rightarrow> protected" where
  "protect_captures caller target captures p =
     fold (\<lambda>(index, mode, source) p.
         if mode = Ref_capture then protect target (word_of_nat index) (protect caller source p) else p)
       (enumerate 0 captures) p"

definition protect_receiver ::
  "(function_id, bytecode_function) hash_map \<Rightarrow> function_id \<Rightarrow> protected \<Rightarrow> protected option" where
  "protect_receiver fs target p =
     (case map_of fs target of None \<Rightarrow> None | Some g \<Rightarrow> Some (protect target (f_captures g) p))"

definition protect_instruction ::
  "(function_id, bytecode_function) hash_map \<Rightarrow> function_id \<Rightarrow> instruction \<Rightarrow> protected \<Rightarrow> protected option" where
  "protect_instruction fs caller i p =
     (case i of
        MakeClosure _ target _ captures \<Rightarrow> Some (protect_captures caller target captures p)
      | CallClosure _ target _ captures _ \<Rightarrow> Some (protect_captures caller target captures p)
      | CallMethod _ _ target _ _ \<Rightarrow> protect_receiver fs target p
      | RemoteCall _ _ target _ \<Rightarrow> protect_receiver fs target p
      | _ \<Rightarrow> Some p)"

definition protect_prefix :: "u16 \<Rightarrow> instruction list \<Rightarrow> function_id \<Rightarrow> protected \<Rightarrow> protected" where
  "protect_prefix prefix is caller p =
     fold (\<lambda>i. fold (\<lambda>r p. if r < prefix then protect caller r p else p) (slot_definitions i)) is p"

fun fold_option :: "('a \<Rightarrow> 's \<Rightarrow> 's option) \<Rightarrow> 'a list \<Rightarrow> 's \<Rightarrow> 's option" where
  "fold_option f [] s = Some s"
| "fold_option f (x # xs) s = (case f x s of None \<Rightarrow> None | Some s' \<Rightarrow> fold_option f xs s')"

definition protect_function ::
  "(function_id, bytecode_function) hash_map \<Rightarrow> function_id \<times> bytecode_function \<Rightarrow> protected \<Rightarrow> protected option" where
  "protect_function fs entry p =
     (case entry of (caller, f) \<Rightarrow>
        case parameter_count f of
          None \<Rightarrow> None
        | Some cnt \<Rightarrow>
            let is = instructions (f_body f);
                p = protect_prefix (saturating_add (f_captures f) cnt) is caller p;
                p = p(caller := protect_reference_origins f (p caller))
            in fold_option (protect_instruction fs caller) is p)"

definition protected_slots :: "program \<Rightarrow> protected option" where
  "protected_slots prog = fold_option (protect_function (pg_functions prog)) (pg_functions prog) (\<lambda>_. {})"

section \<open>Releases\<close>

definition dying_registers :: "instruction \<Rightarrow> slot set \<Rightarrow> slot set \<Rightarrow> slot list" where
  "dying_registers i outs protected =
     [r \<leftarrow> remdups_adj (sort (slot_uses i @ slot_definitions i)). r \<notin> protected \<and> r \<notin> outs]"

definition edge_drops :: "slot set \<Rightarrow> slot set \<Rightarrow> slot set \<Rightarrow> slot list" where
  "edge_drops current successor protected = sorted_list_of_set {r \<in> current - successor. r \<notin> protected}"

text \<open>The vectors the loops of \<open>insert_function\<close> fill.\<close>

record emission =
  em_instructions :: "instruction list"
  em_spans :: "span list"
  em_targets :: "nat list"
  em_patches :: "(nat \<times> nat) list"
  em_cleanups :: "(nat \<times> nat \<times> slot list \<times> span) list"

definition emit :: "instruction \<Rightarrow> span \<Rightarrow> emission \<Rightarrow> emission" where
  "emit i sp e = e\<lparr>em_instructions := em_instructions e @ [i], em_spans := em_spans e @ [sp]\<rparr>"

definition emit_drops :: "slot list \<Rightarrow> span \<Rightarrow> emission \<Rightarrow> emission" where
  "emit_drops rs sp = fold (\<lambda>r. emit (Drop r) sp) rs"

definition emit_step ::
  "liveness_sets \<Rightarrow> slot set \<Rightarrow> slot list \<Rightarrow> span \<Rightarrow> nat \<times> instruction \<times> span \<Rightarrow> emission \<Rightarrow> emission" where
  "emit_step l protected unused_prefix entry_span item e =
     (case item of (index, i, sp) \<Rightarrow>
        let e = e\<lparr>em_targets := (em_targets e)[index := length (em_instructions e)]\<rparr>;
            e = (if index = 0 then emit_drops unused_prefix entry_span e else e);
            dying = dying_registers i (live_out l ! index) protected;
            emitted = length (em_instructions e)
        in case i of
             Drop r \<Rightarrow> emit (Drop r) sp e
           | Jump target \<Rightarrow>
               (emit (Jump usize_max) sp e)\<lparr>em_patches := em_patches e @ [(emitted, target)]\<rparr>
           | JumpIfFalse condition target \<Rightarrow>
               (let false_drops = edge_drops (live_in l ! index) (live_in l ! target) protected;
                    fallthrough_drops =
                      (if index + 1 < length (live_in l)
                       then edge_drops (live_in l ! index) (live_in l ! (index + 1)) protected else []);
                    e = emit_drops fallthrough_drops sp (emit (JumpIfFalse condition usize_max) sp e)
                in if false_drops = [] then e\<lparr>em_patches := em_patches e @ [(emitted, target)]\<rparr>
                   else e\<lparr>em_cleanups := em_cleanups e @ [(emitted, target, false_drops, sp)]\<rparr>)
           | Return source \<Rightarrow> emit (Return source) sp e
           | _ \<Rightarrow> emit_drops dying sp (emit i sp e))"

definition cleanup_step :: "nat \<times> nat \<times> slot list \<times> span \<Rightarrow> emission \<Rightarrow> emission option" where
  "cleanup_step c e =
     (case c of (branch, target, dying, sp) \<Rightarrow>
        case get (em_instructions e) branch of
          Some (JumpIfFalse condition _) \<Rightarrow>
            (let cleanup = length (em_instructions e);
                 e = e\<lparr>em_instructions := (em_instructions e)[branch := JumpIfFalse condition cleanup]\<rparr>;
                 e = emit_drops dying sp e;
                 jump = length (em_instructions e)
             in Some ((emit (Jump usize_max) sp e)\<lparr>em_patches := em_patches e @ [(jump, target)]\<rparr>))
        | _ \<Rightarrow> None)"

definition patch_step :: "nat list \<Rightarrow> nat \<times> nat \<Rightarrow> instruction list \<Rightarrow> instruction list option" where
  "patch_step targets patch is =
     (case patch of (index, old_target) \<Rightarrow>
        case get targets old_target of
          None \<Rightarrow> None
        | Some target \<Rightarrow>
            (case get is index of
               Some (Jump _) \<Rightarrow> Some (is[index := Jump target])
             | Some (JumpIfFalse condition _) \<Rightarrow> Some (is[index := JumpIfFalse condition target])
             | _ \<Rightarrow> None))"

definition pattern_binding_slots :: "instruction list \<Rightarrow> slot set" where
  "pattern_binding_slots is =
     set (concat (map (\<lambda>i. case i of MatchPattern _ _ _ bindings \<Rightarrow> bindings | _ \<Rightarrow> []) is))"

definition unused_prefix :: "u16 \<Rightarrow> slot set \<Rightarrow> slot set \<Rightarrow> slot list" where
  "unused_prefix prefix protected ins =
     [r \<leftarrow> map word_of_nat [0..<unat prefix]. r \<notin> protected \<and> r \<notin> ins]"

definition insert_function :: "slot set \<Rightarrow> bytecode_function \<Rightarrow> bytecode_function option" where
  "insert_function protected f =
     (let (original, original_spans) = into_parts (f_body f)
      in if original = [] then Some f
         else case liveness_with_write_bindings f [] (pattern_binding_slots original) of
             None \<Rightarrow> None
           | Some l \<Rightarrow>
               (case parameter_count f of
                  None \<Rightarrow> None
                | Some cnt \<Rightarrow>
                    let entry_span = (case original_spans of [] \<Rightarrow> (0, 0) | sp # _ \<Rightarrow> sp);
                        unused = unused_prefix (saturating_add (f_captures f) cnt) protected (live_in l ! 0);
                        e = fold (emit_step l protected unused entry_span)
                              (enumerate 0 (zip original original_spans))
                              \<lparr>em_instructions = [], em_spans = [], em_targets = replicate (length original) 0,
                               em_patches = [], em_cleanups = []\<rparr>
                    in case fold_option cleanup_step (em_cleanups e) e of
                         None \<Rightarrow> None
                       | Some e \<Rightarrow>
                           (case fold_option (patch_step (em_targets e)) (em_patches e) (em_instructions e) of
                              None \<Rightarrow> None
                            | Some is \<Rightarrow>
                                (case body_try_from_parts is (em_spans e) of
                                   Inl _ \<Rightarrow> None
                                 | Inr body \<Rightarrow> Some (f\<lparr>f_body := body\<rparr>)))))"

fun map_option_list :: "('a \<Rightarrow> 'b option) \<Rightarrow> 'a list \<Rightarrow> 'b list option" where
  "map_option_list f [] = Some []"
| "map_option_list f (x # xs) =
     (case f x of None \<Rightarrow> None | Some y \<Rightarrow> map_option ((#) y) (map_option_list f xs))"

lemma map_option_list_Some:
  "map_option_list f xs = Some ys \<longleftrightarrow> list_all2 (\<lambda>x y. f x = Some y) xs ys"
  by (induction xs arbitrary: ys) (auto simp: list_all2_Cons1 split: option.splits)

definition insert_drops :: "program \<Rightarrow> program option" where
  "insert_drops prog =
     (if drops_inserted prog then Some prog
      else case protected_slots prog of
          None \<Rightarrow> None
        | Some protected \<Rightarrow>
            map_option (\<lambda>fs. prog\<lparr>pg_functions := fs, drops_inserted := True\<rparr>)
              (map_option_list (\<lambda>(id, f). map_option (Pair id) (insert_function (protected id) f))
                (pg_functions prog)))"

end
