(* ===== verification/Lowered_Code.thy ===== *)
theory Lowered_Code
  imports Lifetimes
begin

text \<open>
  The code that lifetime lowering emits, position by position: the main loop in closed form, the
  cleanup blocks of conditional branches and the final patching of jump targets. \<open>lowered\<close>
  says where the copy of one instruction stands and what surrounds it.
\<close>

section \<open>Code at a position\<close>

definition drops_at :: "instruction list \<Rightarrow> nat \<Rightarrow> slot list \<Rightarrow> bool" where
  "drops_at ns p rs \<longleftrightarrow> p + length rs \<le> length ns \<and> (\<forall>j < length rs. ns ! (p + j) = Drop (rs ! j))"

fun retarget :: "nat \<Rightarrow> instruction \<Rightarrow> instruction" where
  "retarget t (Jump _) = Jump t"
| "retarget t (JumpIfFalse c _) = JumpIfFalse c t"
| "retarget t i = i"

fun is_jump :: "instruction \<Rightarrow> bool" where
  "is_jump (Jump _) = True"
| "is_jump (JumpIfFalse _ _) = True"
| "is_jump _ = False"

lemma drops_at_Nil [simp]: "drops_at ns p [] \<longleftrightarrow> p \<le> length ns"
  by (simp add: drops_at_def)

lemma drops_at_append:
  "drops_at (is @ map Drop rs @ rest) (length is) rs"
  by (simp add: drops_at_def nth_append)

section \<open>The main loop in closed form\<close>

definition lead_drops :: "slot list \<Rightarrow> nat \<Rightarrow> slot list" where
  "lead_drops unused index = (if index = 0 then unused else [])"

definition tail_drops :: "liveness_sets \<Rightarrow> slot set \<Rightarrow> nat \<Rightarrow> instruction \<Rightarrow> slot list" where
  "tail_drops l protected index i =
     (case i of
        Drop _ \<Rightarrow> []
      | Jump _ \<Rightarrow> []
      | Return _ \<Rightarrow> []
      | JumpIfFalse _ _ \<Rightarrow> (if index + 1 < length (live_in l)
          then edge_drops (live_in l ! index) (live_in l ! (index + 1)) protected else [])
      | _ \<Rightarrow> dying_registers i (live_out l ! index) protected)"

definition false_drops :: "liveness_sets \<Rightarrow> slot set \<Rightarrow> nat \<Rightarrow> nat \<Rightarrow> slot list" where
  "false_drops l protected index target = edge_drops (live_in l ! index) (live_in l ! target) protected"

definition block :: "liveness_sets \<Rightarrow> slot set \<Rightarrow> slot list \<Rightarrow> nat \<Rightarrow> instruction \<Rightarrow> instruction list" where
  "block l protected unused index i =
     map Drop (lead_drops unused index) @ retarget usize_max i # map Drop (tail_drops l protected index i)"

definition block_patches :: "liveness_sets \<Rightarrow> slot set \<Rightarrow> nat \<Rightarrow> instruction \<Rightarrow> nat \<Rightarrow> (nat \<times> nat) list" where
  "block_patches l protected index i entry =
     (case i of
        Jump target \<Rightarrow> [(entry, target)]
      | JumpIfFalse _ target \<Rightarrow> if false_drops l protected index target = [] then [(entry, target)] else []
      | _ \<Rightarrow> [])"

definition block_cleanups ::
  "liveness_sets \<Rightarrow> slot set \<Rightarrow> nat \<Rightarrow> instruction \<Rightarrow> span \<Rightarrow> nat \<Rightarrow> (nat \<times> nat \<times> slot list \<times> span) list" where
  "block_cleanups l protected index i sp entry =
     (case i of
        JumpIfFalse _ target \<Rightarrow> if false_drops l protected index target = [] then []
          else [(entry, target, false_drops l protected index target, sp)]
      | _ \<Rightarrow> [])"

lemma emit_drops_eq:
  "emit_drops rs sp e = e\<lparr>em_instructions := em_instructions e @ map Drop rs,
     em_spans := em_spans e @ replicate (length rs) sp\<rparr>"
  by (induction rs arbitrary: e) (simp_all add: emit_drops_def emit_def)

lemma emit_step_eq:
  fixes e :: emission and l :: liveness_sets and index :: nat and unused :: "slot list"
  defines "entry \<equiv> length (em_instructions e) + length (lead_drops unused index)"
  shows "emit_step l protected unused sp0 (index, i, sp) e =
    \<lparr>em_instructions = em_instructions e @ block l protected unused index i,
     em_spans = em_spans e @ replicate (length (lead_drops unused index)) sp0 @
       replicate (1 + length (tail_drops l protected index i)) sp,
     em_targets = (em_targets e)[index := length (em_instructions e)],
     em_patches = em_patches e @ block_patches l protected index i entry,
     em_cleanups = em_cleanups e @ block_cleanups l protected index i sp entry\<rparr>"
  unfolding emit_step_def prod.case Let_def entry_def
  by (cases i) (simp_all add: emit_drops_eq emit_def block_def lead_drops_def tail_drops_def
      block_patches_def block_cleanups_def false_drops_def)

text \<open>What the loop reads: the liveness sets, the kept slots, the unused parameters and the body.\<close>

record lowering =
  lw_live :: liveness_sets
  lw_kept :: "slot set"
  lw_unused :: "slot list"
  lw_body :: "instruction list"

abbreviation lw_block :: "lowering \<Rightarrow> nat \<Rightarrow> instruction list" where
  "lw_block w i \<equiv> block (lw_live w) (lw_kept w) (lw_unused w) i (lw_body w ! i)"

abbreviation lw_lead :: "lowering \<Rightarrow> nat \<Rightarrow> slot list" where
  "lw_lead w \<equiv> lead_drops (lw_unused w)"

abbreviation lw_tail :: "lowering \<Rightarrow> nat \<Rightarrow> slot list" where
  "lw_tail w i \<equiv> tail_drops (lw_live w) (lw_kept w) i (lw_body w ! i)"

definition code :: "lowering \<Rightarrow> nat \<Rightarrow> instruction list" where
  "code w k = concat (map (lw_block w) [0..<k])"

definition start :: "lowering \<Rightarrow> nat \<Rightarrow> nat" where
  "start w i = length (code w i)"

definition entry :: "lowering \<Rightarrow> nat \<Rightarrow> nat" where
  "entry w i = start w i + length (lw_lead w i)"

definition patches_to :: "lowering \<Rightarrow> nat \<Rightarrow> (nat \<times> nat) list" where
  "patches_to w k =
     concat (map (\<lambda>i. block_patches (lw_live w) (lw_kept w) i (lw_body w ! i) (entry w i)) [0..<k])"

definition cleanups_to :: "lowering \<Rightarrow> span list \<Rightarrow> nat \<Rightarrow> (nat \<times> nat \<times> slot list \<times> span) list" where
  "cleanups_to w sps k =
     concat (map (\<lambda>i. block_cleanups (lw_live w) (lw_kept w) i (lw_body w ! i) (sps ! i) (entry w i)) [0..<k])"

definition emitted :: "lowering \<Rightarrow> span \<Rightarrow> span list \<Rightarrow> nat \<Rightarrow> emission" where
  "emitted w sp0 sps k =
     fold (emit_step (lw_live w) (lw_kept w) (lw_unused w) sp0) (map (\<lambda>i. (i, lw_body w ! i, sps ! i)) [0..<k])
       \<lparr>em_instructions = [], em_spans = [], em_targets = replicate (length (lw_body w)) 0,
        em_patches = [], em_cleanups = []\<rparr>"

lemma code_simps [simp]:
  "code w 0 = []" "code w (Suc k) = code w k @ lw_block w k"
  "patches_to w 0 = []"
  "patches_to w (Suc k) = patches_to w k @ block_patches (lw_live w) (lw_kept w) k (lw_body w ! k) (entry w k)"
  "cleanups_to w sps 0 = []"
  "cleanups_to w sps (Suc k) = cleanups_to w sps k @
     block_cleanups (lw_live w) (lw_kept w) k (lw_body w ! k) (sps ! k) (entry w k)"
  by (simp_all add: code_def patches_to_def cleanups_to_def)

lemma length_block [simp]:
  "length (lw_block w k) = length (lw_lead w k) + 1 + length (lw_tail w k)"
  by (simp add: block_def)

lemma emitted_eq:
  "k \<le> length (lw_body w) \<Longrightarrow>
   em_instructions (emitted w sp0 sps k) = code w k \<and>
   length (em_spans (emitted w sp0 sps k)) = length (code w k) \<and>
   em_targets (emitted w sp0 sps k) = map (start w) [0..<k] @ replicate (length (lw_body w) - k) 0 \<and>
   em_patches (emitted w sp0 sps k) = patches_to w k \<and>
   em_cleanups (emitted w sp0 sps k) = cleanups_to w sps k"
proof (induction k)
  case 0
  then show ?case by (simp add: emitted_def)
next
  case (Suc k)
  have "(map (start w) [0..<k] @ replicate (length (lw_body w) - k) 0)[k := start w k] =
      map (start w) [0..<Suc k] @ replicate (length (lw_body w) - Suc k) 0"
    using Suc.prems by (simp add: list_update_append Suc_diff_Suc [symmetric])
  moreover have "emitted w sp0 sps (Suc k) =
      emit_step (lw_live w) (lw_kept w) (lw_unused w) sp0 (k, lw_body w ! k, sps ! k) (emitted w sp0 sps k)"
    by (simp add: emitted_def)
  moreover have "length (code w k) = start w k" "start w k + length (lw_lead w k) = entry w k"
    by (simp_all add: start_def entry_def)
  ultimately show ?case using Suc by (simp add: emit_step_eq)
qed

lemma emitted_enumerate:
  assumes "length sps = length (lw_body w)"
  shows "fold (emit_step (lw_live w) (lw_kept w) (lw_unused w) sp0) (enumerate 0 (zip (lw_body w) sps))
    \<lparr>em_instructions = [], em_spans = [], em_targets = replicate (length (lw_body w)) 0,
     em_patches = [], em_cleanups = []\<rparr> = emitted w sp0 sps (length (lw_body w))"
proof -
  have "enumerate 0 (zip (lw_body w) sps) = map (\<lambda>i. (i, lw_body w ! i, sps ! i)) [0..<length (lw_body w)]"
    using assms by (intro nth_equalityI) (simp_all add: nth_enumerate_eq)
  then show ?thesis by (simp add: emitted_def)
qed

lemma start_Suc: "start w (Suc i) = entry w i + 1 + length (lw_tail w i)"
  by (simp add: start_def entry_def)

lemma start_mono: "i \<le> j \<Longrightarrow> start w i \<le> start w j"
  by (induction rule: dec_induct) (auto simp: start_Suc entry_def)

lemma entry_less: "i < j \<Longrightarrow> entry w i < start w j"
  using start_mono [of "Suc i" j w] by (simp add: start_Suc)

lemma entry_strict: "i < j \<Longrightarrow> entry w i < entry w j"
  using entry_less [of i j w] by (simp add: entry_def)

lemma entry_inj: "entry w i = entry w j \<Longrightarrow> i = j"
  using entry_strict [of i j w] entry_strict [of j i w] by (cases i j rule: linorder_cases) auto

lemma code_split:
  assumes "i < k"
  shows "\<exists>rest. code w k = code w i @ lw_block w i @ rest"
proof -
  have "[0..<k] = [0..<i] @ i # [Suc i..<k]"
    using assms upt_add_eq_append [of 0 i "k - i"] by (simp add: upt_conv_Cons)
  then show ?thesis by (simp add: code_def)
qed

lemma code_block:
  assumes "i < k"
  shows "drops_at (code w k) (start w i) (lw_lead w i)"
    and "code w k ! entry w i = retarget usize_max (lw_body w ! i)"
    and "drops_at (code w k) (entry w i + 1) (lw_tail w i)"
proof -
  obtain rest where code: "code w k = code w i @ lw_block w i @ rest"
    using code_split [OF assms] by blast
  then show "drops_at (code w k) (start w i) (lw_lead w i)"
    using drops_at_append [of "code w i"] by (simp add: block_def start_def)
  have "code w k = (code w i @ map Drop (lw_lead w i) @ [retarget usize_max (lw_body w ! i)]) @
      map Drop (lw_tail w i) @ rest"
    by (simp add: code block_def)
  then show "drops_at (code w k) (entry w i + 1) (lw_tail w i)"
    using drops_at_append [of "code w i @ map Drop (lw_lead w i) @ [retarget usize_max (lw_body w ! i)]"]
    by (simp add: entry_def start_def)
  show "code w k ! entry w i = retarget usize_max (lw_body w ! i)"
    by (simp add: code block_def entry_def start_def nth_append)
qed

section \<open>Cleanups and patches\<close>

lemma drops_at_mono:
  assumes "drops_at is p rs" "length is \<le> length ns"
    and "\<And>q. p \<le> q \<Longrightarrow> q < p + length rs \<Longrightarrow> ns ! q = is ! q"
  shows "drops_at ns p rs"
  using assms by (simp add: drops_at_def)

lemma get_Some [simp]: "i < length xs \<Longrightarrow> get xs i = Some (xs ! i)"
  by (simp add: get_def)

lemma cleanup_step_eq:
  assumes "branch < length (em_instructions e)" "em_instructions e ! branch = JumpIfFalse c u"
  shows "cleanup_step (branch, target, dying, sp) e = Some
    (e\<lparr>em_instructions := (em_instructions e)[branch := JumpIfFalse c (length (em_instructions e))] @
         map Drop dying @ [Jump usize_max],
       em_spans := em_spans e @ replicate (length dying + 1) sp,
       em_patches := em_patches e @ [(length (em_instructions e) + length dying, target)]\<rparr>)"
  using assms by (simp add: cleanup_step_def emit_drops_eq emit_def Let_def replicate_append_same)

definition cleaned :: "instruction list \<Rightarrow> instruction list \<Rightarrow> (nat \<times> nat) list \<Rightarrow> nat \<times> nat \<times> slot list \<times> span \<Rightarrow> bool" where
  "cleaned is ns ps c \<longleftrightarrow>
     (case c of (branch, target, dying, sp) \<Rightarrow>
        \<exists>q. ns ! branch = retarget q (is ! branch) \<and> length is \<le> q \<and> drops_at ns q dying \<and>
          q + length dying < length ns \<and> ns ! (q + length dying) = Jump usize_max \<and>
          (q + length dying, target) \<in> set ps)"

lemma cleanups_run:
  assumes "\<forall>(branch, target, dying, sp) \<in> set cs.
      branch < length (em_instructions e) \<and> (\<exists>c u. em_instructions e ! branch = JumpIfFalse c u)"
    and "distinct (map fst cs)" "length (em_spans e) = length (em_instructions e)"
  shows "\<exists>e' ps. fold_option cleanup_step cs e = Some e' \<and> em_targets e' = em_targets e \<and>
    length (em_spans e') = length (em_instructions e') \<and>
    length (em_instructions e) \<le> length (em_instructions e') \<and>
    (\<forall>p < length (em_instructions e). p \<notin> fst ` set cs \<longrightarrow> em_instructions e' ! p = em_instructions e ! p) \<and>
    em_patches e' = em_patches e @ ps \<and> distinct (map fst ps) \<and> snd ` set ps \<subseteq> (\<lambda>c. fst (snd c)) ` set cs \<and>
    (\<forall>(p, t) \<in> set ps. length (em_instructions e) \<le> p \<and> p < length (em_instructions e') \<and>
       em_instructions e' ! p = Jump usize_max) \<and>
    (\<forall>c \<in> set cs. cleaned (em_instructions e) (em_instructions e') ps c)"
  using assms
proof (induction cs arbitrary: e)
  case Nil
  then show ?case by simp
next
  case (Cons c cs)
  obtain branch target dying sp where c: "c = (branch, target, dying, sp)" by (cases c)
  let ?is = "em_instructions e"
  obtain cnd u where b: "branch < length ?is" "?is ! branch = JumpIfFalse cnd u"
    using Cons.prems(1) by (auto simp: c)
  define e1 where "e1 = e\<lparr>em_instructions := ?is[branch := JumpIfFalse cnd (length ?is)] @ map Drop dying @ [Jump usize_max],
       em_spans := em_spans e @ replicate (length dying + 1) sp,
       em_patches := em_patches e @ [(length ?is + length dying, target)]\<rparr>"
  let ?is1 = "em_instructions e1"
  have step: "cleanup_step c e = Some e1" unfolding c e1_def by (rule cleanup_step_eq [OF b])
  have len1: "length ?is1 = length ?is + length dying + 1" by (simp add: e1_def)
  have keep1: "?is1 ! p = ?is ! p" if "p < length ?is" "p \<noteq> branch" for p
    using that by (simp add: e1_def nth_append)
  have branch1: "?is1 ! branch = retarget (length ?is) (?is ! branch)"
    using b by (simp add: e1_def nth_append)
  have jump1: "?is1 ! (length ?is + length dying) = Jump usize_max" by (simp add: e1_def nth_append)
  have drops1: "drops_at ?is1 (length ?is) dying" by (simp add: e1_def drops_at_def nth_append)
  have fresh: "p \<noteq> branch" if "p \<in> fst ` set cs" for p using Cons.prems(2) that by (auto simp: c)
  have "\<forall>(branch, target, dying, sp) \<in> set cs.
      branch < length ?is1 \<and> (\<exists>c u. ?is1 ! branch = JumpIfFalse c u)"
    using Cons.prems(1) keep1 fresh len1 by fastforce
  with Cons.IH [of e1] Cons.prems obtain e' ps where e':
    "fold_option cleanup_step cs e1 = Some e'" "em_targets e' = em_targets e1"
    "length (em_spans e') = length (em_instructions e')" "length ?is1 \<le> length (em_instructions e')"
    and keep: "\<forall>p < length ?is1. p \<notin> fst ` set cs \<longrightarrow> em_instructions e' ! p = ?is1 ! p"
    and ps: "em_patches e' = em_patches e1 @ ps" "distinct (map fst ps)" "snd ` set ps \<subseteq> (\<lambda>c. fst (snd c)) ` set cs"
    and jumps: "\<forall>(p, t) \<in> set ps. length ?is1 \<le> p \<and> p < length (em_instructions e') \<and>
       em_instructions e' ! p = Jump usize_max"
    and rest: "\<forall>c \<in> set cs. cleaned ?is1 (em_instructions e') ps c"
    by (auto simp: e1_def)
  have below: "p < length ?is" if "p \<in> fst ` set cs" for p using Cons.prems(1) that by auto
  have same: "em_instructions e' ! p = ?is1 ! p" if "length ?is \<le> p" "p < length ?is1" for p
    using keep that below by (meson linorder_not_less)
  let ?ps = "(length ?is + length dying, target) # ps"
  have "cleaned ?is (em_instructions e') ?ps c"
  proof -
    have "em_instructions e' ! branch = retarget (length ?is) (?is ! branch)"
    proof -
      have "branch \<notin> fst ` set cs" using fresh by blast
      then have "em_instructions e' ! branch = ?is1 ! branch" using keep b(1) len1 by simp
      then show ?thesis using branch1 by simp
    qed
    moreover have "drops_at (em_instructions e') (length ?is) dying"
      using drops1 e'(4) by (rule drops_at_mono) (use same len1 in simp)
    moreover have "em_instructions e' ! (length ?is + length dying) = Jump usize_max"
      using same jump1 len1 by simp
    ultimately show ?thesis using e'(4) len1 by (auto simp: cleaned_def c)
  qed
  moreover have "cleaned ?is (em_instructions e') ?ps d" if d: "d \<in> set cs" for d
  proof -
    obtain db dt dd ds where deq: "d = (db, dt, dd, ds)" by (cases d)
    have "?is1 ! db = ?is ! db" using keep1 fresh below d by (force simp: deq)
    then show ?thesis using rest d len1 by (fastforce simp: cleaned_def deq)
  qed
  ultimately have "\<forall>d \<in> set (c # cs). cleaned ?is (em_instructions e') ?ps d" by simp
  moreover have "\<forall>(p, t) \<in> set ?ps. length ?is \<le> p \<and> p < length (em_instructions e') \<and>
       em_instructions e' ! p = Jump usize_max"
    using jumps same jump1 len1 e'(4) by auto
  moreover have "\<forall>p < length ?is. p \<notin> fst ` set (c # cs) \<longrightarrow> em_instructions e' ! p = ?is ! p"
    using keep keep1 len1 by (auto simp: c)
  moreover have "distinct (map fst ?ps)"
    using ps(2) jumps len1 by auto
  moreover have "snd ` set ?ps \<subseteq> (\<lambda>c. fst (snd c)) ` set (c # cs)" using ps(3) by (auto simp: c)
  moreover have "em_patches e' = em_patches e @ ?ps" using ps(1) by (simp add: e1_def)
  moreover have "em_targets e' = em_targets e" using e'(2) by (simp add: e1_def)
  moreover have "length ?is \<le> length (em_instructions e')" using e'(4) len1 by simp
  ultimately show ?case using step e'(1,3) by (intro exI [of _ e'] exI [of _ ?ps]) simp
qed

lemma patches_run:
  assumes "\<forall>(p, t) \<in> set ps. p < length is \<and> is_jump (is ! p) \<and> t < length targets"
    and "distinct (map fst ps)"
  shows "\<exists>ns. fold_option (patch_step targets) ps is = Some ns \<and> length ns = length is \<and>
    (\<forall>p. p \<notin> fst ` set ps \<longrightarrow> ns ! p = is ! p) \<and>
    (\<forall>(p, t) \<in> set ps. ns ! p = retarget (targets ! t) (is ! p))"
  using assms
proof (induction ps arbitrary: "is")
  case Nil
  then show ?case by simp
next
  case (Cons x ps)
  obtain p t where x: "x = (p, t)" by (cases x)
  have p: "p < length is" "is_jump (is ! p)" "t < length targets" using Cons.prems(1) by (auto simp: x)
  let ?is1 = "is[p := retarget (targets ! t) (is ! p)]"
  have step: "patch_step targets x is = Some ?is1"
    using p by (cases "is ! p") (simp_all add: patch_step_def x)
  have fresh: "p \<notin> fst ` set ps" using Cons.prems(2) by (simp add: x)
  have same: "?is1 ! q = is ! q" if "(q, u) \<in> set ps" for q u
  proof -
    have "q \<noteq> p" using fresh that by force
    then show ?thesis by simp
  qed
  have "q < length ?is1 \<and> is_jump (?is1 ! q) \<and> u < length targets" if "(q, u) \<in> set ps" for q u
    using Cons.prems(1) that same [OF that] by auto
  then have "\<forall>(q, u) \<in> set ps. q < length ?is1 \<and> is_jump (?is1 ! q) \<and> u < length targets"
    by blast
  with Cons.IH [of ?is1] Cons.prems(2) obtain ns where
    ns: "fold_option (patch_step targets) ps ?is1 = Some ns" "length ns = length is"
      "\<forall>q. q \<notin> fst ` set ps \<longrightarrow> ns ! q = ?is1 ! q"
      "\<forall>(q, u) \<in> set ps. ns ! q = retarget (targets ! u) (?is1 ! q)"
    by auto
  have "ns ! q = retarget (targets ! u) (is ! q)" if "(q, u) \<in> set ps" for q u
    using ns(4) that same [OF that] by auto
  moreover have "ns ! p = retarget (targets ! t) (is ! p)" using ns(3) fresh p by simp
  ultimately have "\<forall>(q, u) \<in> set (x # ps). ns ! q = retarget (targets ! u) (is ! q)"
    by (auto simp: x)
  then show ?case using step ns by (auto simp: x)
qed

section \<open>The lowered body\<close>

lemma cleanups_to_sound:
  assumes "(branch, target, dying, sp) \<in> set (cleanups_to w sps k)"
  obtains i c where "i < k" "branch = entry w i" "lw_body w ! i = JumpIfFalse c target"
    "dying = false_drops (lw_live w) (lw_kept w) i target" "dying \<noteq> []"
  using assms
proof (induction k)
  case (Suc k)
  show ?case
  proof (cases "(branch, target, dying, sp) \<in> set (cleanups_to w sps k)")
    case True
    with Suc show ?thesis by (meson less_Suc_eq)
  next
    case False
    then show ?thesis using Suc.prems(2) Suc.prems(1) [of k]
      by (cases "lw_body w ! k") (auto simp: block_cleanups_def split: if_splits)
  qed
qed simp

lemma patches_to_sound:
  assumes "(p, t) \<in> set (patches_to w k)"
  obtains i where "i < k" "p = entry w i"
    "lw_body w ! i = Jump t \<or> (\<exists>c. lw_body w ! i = JumpIfFalse c t \<and> false_drops (lw_live w) (lw_kept w) i t = [])"
  using assms
proof (induction k)
  case (Suc k)
  show ?case
  proof (cases "(p, t) \<in> set (patches_to w k)")
    case True
    with Suc show ?thesis by (meson less_Suc_eq)
  next
    case False
    then show ?thesis using Suc.prems(2) Suc.prems(1) [of k]
      by (cases "lw_body w ! k") (auto simp: block_patches_def split: if_splits)
  qed
qed simp

lemma cleanups_to_complete:
  "i < k \<Longrightarrow> lw_body w ! i = JumpIfFalse c t \<Longrightarrow> false_drops (lw_live w) (lw_kept w) i t \<noteq> [] \<Longrightarrow>
   (entry w i, t, false_drops (lw_live w) (lw_kept w) i t, sps ! i) \<in> set (cleanups_to w sps k)"
  by (induction k) (auto simp: less_Suc_eq block_cleanups_def)

lemma patches_to_complete:
  "i < k \<Longrightarrow> lw_body w ! i = Jump t \<or> (\<exists>c. lw_body w ! i = JumpIfFalse c t \<and>
      false_drops (lw_live w) (lw_kept w) i t = []) \<Longrightarrow>
   (entry w i, t) \<in> set (patches_to w k)"
  by (induction k) (auto simp: less_Suc_eq block_patches_def)

lemma cleanups_to_distinct: "distinct (map fst (cleanups_to w sps k))"
proof (induction k)
  case (Suc k)
  have "entry w k \<notin> fst ` set (cleanups_to w sps k)"
    by (auto elim!: cleanups_to_sound dest!: entry_inj)
  then show ?case using Suc by (cases "lw_body w ! k") (auto simp: block_cleanups_def)
qed simp

lemma patches_to_distinct: "distinct (map fst (patches_to w k))"
proof (induction k)
  case (Suc k)
  have "entry w k \<notin> fst ` set (patches_to w k)"
    by (auto elim!: patches_to_sound dest!: entry_inj)
  then show ?case using Suc by (cases "lw_body w ! k") (auto simp: block_patches_def)
qed simp

lemma entry_in_code: "i < k \<Longrightarrow> entry w i < length (code w k)"
  using entry_less [of i k w] by (simp add: start_def)

lemma code_jump: "i < k \<Longrightarrow> is_jump (code w k ! entry w i) \<longleftrightarrow> is_jump (lw_body w ! i)"
  using code_block(2) [of i k w] by (cases "lw_body w ! i") simp_all

definition lowered :: "lowering \<Rightarrow> instruction list \<Rightarrow> nat \<Rightarrow> bool" where
  "lowered w ns i \<longleftrightarrow>
     drops_at ns (start w i) (lw_lead w i) \<and> drops_at ns (entry w i + 1) (lw_tail w i) \<and> entry w i < length ns \<and>
     (case lw_body w ! i of
        Jump t \<Rightarrow> ns ! entry w i = Jump (start w t)
      | JumpIfFalse c t \<Rightarrow>
          (\<exists>q. ns ! entry w i = JumpIfFalse c q \<and>
            (false_drops (lw_live w) (lw_kept w) i t = [] \<and> q = start w t \<or>
             (let ds = false_drops (lw_live w) (lw_kept w) i t
              in start w (length (lw_body w)) \<le> q \<and> drops_at ns q ds \<and> q + length ds < length ns \<and>
                ns ! (q + length ds) = Jump (start w t))))
      | i' \<Rightarrow> ns ! entry w i = i')"

lemma lowering_run:
  fixes w :: lowering
  defines "n \<equiv> length (lw_body w)"
  assumes targets: "\<forall>i < n. \<forall>t. lw_body w ! i = Jump t \<or> (\<exists>c. lw_body w ! i = JumpIfFalse c t) \<longrightarrow> t < n"
  shows "\<exists>e' ns. fold_option cleanup_step (em_cleanups (emitted w sp0 sps n)) (emitted w sp0 sps n) = Some e' \<and>
    fold_option (patch_step (em_targets e')) (em_patches e') (em_instructions e') = Some ns \<and>
    length (em_spans e') = length ns \<and> length (code w n) \<le> length ns \<and> (\<forall>i < n. lowered w ns i)"
proof -
  let ?base = "code w n" and ?cs = "cleanups_to w sps n" and ?ps = "patches_to w n"
  let ?fd = "false_drops (lw_live w) (lw_kept w)"
  note em = emitted_eq [of n w sp0 sps, folded n_def, simplified]
  have cs: "\<forall>(branch, target, dying, sp) \<in> set ?cs.
      branch < length ?base \<and> (\<exists>c u. ?base ! branch = JumpIfFalse c u)"
  proof (clarify, goal_cases)
    case (1 branch target dying sp)
    then show ?case by (elim cleanups_to_sound) (simp add: entry_in_code code_block(2))
  qed
  from cleanups_run [of ?cs "emitted w sp0 sps n"] cs cleanups_to_distinct em obtain e' ps where
    run: "fold_option cleanup_step ?cs (emitted w sp0 sps n) = Some e'"
    and tg: "em_targets e' = map (start w) [0..<n]"
    and spans: "length (em_spans e') = length (em_instructions e')"
    and grow: "length ?base \<le> length (em_instructions e')"
    and keep: "\<forall>p < length ?base. p \<notin> fst ` set ?cs \<longrightarrow> em_instructions e' ! p = ?base ! p"
    and patches: "em_patches e' = ?ps @ ps" "distinct (map fst ps)"
    and ps_targets: "snd ` set ps \<subseteq> (\<lambda>c. fst (snd c)) ` set ?cs"
    and ps: "\<forall>(p, t) \<in> set ps. length ?base \<le> p \<and> p < length (em_instructions e') \<and>
       em_instructions e' ! p = Jump usize_max"
    and cleaned: "\<forall>c \<in> set ?cs. cleaned ?base (em_instructions e') ps c"
    by auto
  let ?is = "em_instructions e'"
  have not_cs: "entry w i \<notin> fst ` set ?cs"
    if "lw_body w ! i = Jump t \<or> (\<exists>c. lw_body w ! i = JumpIfFalse c t \<and> ?fd i t = [])" for i t
    using that by (auto elim!: cleanups_to_sound dest!: entry_inj)
  have patched: "p < length ?is \<and> is_jump (?is ! p) \<and> t < n" if "(p, t) \<in> set (?ps @ ps)" for p t
  proof (cases "(p, t) \<in> set ?ps")
    case True
    then obtain i where i: "i < n" "p = entry w i"
      "lw_body w ! i = Jump t \<or> (\<exists>c. lw_body w ! i = JumpIfFalse c t \<and> ?fd i t = [])"
      by (elim patches_to_sound)
    then have "?is ! p = ?base ! p" "p < length ?base"
      using keep not_cs [OF i(3)] entry_in_code [OF i(1), of w] by auto
    moreover have "t < n" using i(1,3) targets by blast
    moreover have "is_jump (?base ! p)" using i(2,3) code_jump [OF i(1), of w] by auto
    ultimately show ?thesis using grow by simp
  next
    case False
    then have pt: "(p, t) \<in> set ps" using that by simp
    have "snd (p, t) \<in> (\<lambda>c. fst (snd c)) ` set ?cs"
      by (rule subsetD [OF ps_targets imageI [OF pt]])
    then obtain x where "x \<in> set ?cs" "t = fst (snd x)" by auto
    moreover obtain b u d sp where "x = (b, u, d, sp)" by (metis prod.collapse)
    ultimately have "(b, t, d, sp) \<in> set ?cs" by simp
    then obtain i c where "i < n \<and> lw_body w ! i = JumpIfFalse c t" by (elim cleanups_to_sound) blast
    then have "t < n" using targets by metis
    moreover have "p < length ?is \<and> ?is ! p = Jump usize_max" using pt ps by auto
    ultimately show ?thesis by simp
  qed
  have "distinct (map fst (?ps @ ps))"
  proof -
    have "p < length ?base" if "p \<in> fst ` set ?ps" for p
      using that entry_in_code by (auto elim!: patches_to_sound)
    then have "fst ` set ?ps \<inter> fst ` set ps = {}" using ps by force
    then show ?thesis using patches_to_distinct patches(2) by simp
  qed
  moreover have "\<forall>(p, t) \<in> set (?ps @ ps). p < length ?is \<and> is_jump (?is ! p) \<and> t < length (em_targets e')"
    using patched tg by auto
  ultimately obtain ns where
    ns: "fold_option (patch_step (em_targets e')) (?ps @ ps) ?is = Some ns" "length ns = length ?is"
    and unpatched: "\<forall>p. p \<notin> fst ` set (?ps @ ps) \<longrightarrow> ns ! p = ?is ! p"
    and retargeted: "\<forall>(p, t) \<in> set (?ps @ ps). ns ! p = retarget (em_targets e' ! t) (?is ! p)"
    using patches_run [of "?ps @ ps" ?is "em_targets e'"] by auto
  have plain: "ns ! p = ?is ! p" if "\<not> is_jump (?is ! p)" for p
    using unpatched patched that by force
  have plain_base: "ns ! p = ?base ! p" if "p < length ?base" "\<not> is_jump (?base ! p)" for p
  proof -
    have "p \<notin> fst ` set ?cs" using cs that(2) by force
    then show ?thesis using keep that plain by simp
  qed
  have drops_base: "drops_at ns p rs" if d: "drops_at ?base p rs" for p rs
    unfolding drops_at_def
  proof (intro conjI allI impI)
    show "p + length rs \<le> length ns" using d grow ns(2) by (simp add: drops_at_def)
    fix j
    assume "j < length rs"
    then have "?base ! (p + j) = Drop (rs ! j)" "p + j < length ?base" using d by (auto simp: drops_at_def)
    then show "ns ! (p + j) = Drop (rs ! j)" using plain_base [of "p + j"] by simp
  qed
  have drops_is: "drops_at ns p rs" if "drops_at ?is p rs" for p rs
    using that plain ns(2) by (simp add: drops_at_def)
  have at_target: "ns ! p = retarget (start w t) (?is ! p)" if "(p, t) \<in> set (?ps @ ps)" for p t
    using bspec [OF retargeted that] patched [OF that] tg by simp
  have "lowered w ns i" if i: "i < n" for i
  proof -
    have e: "entry w i < length ?base" by (rule entry_in_code [OF i])
    have base: "?base ! entry w i = retarget usize_max (lw_body w ! i)" by (rule code_block(2) [OF i])
    have direct: "ns ! entry w i = retarget (start w t) (?base ! entry w i)"
      if "lw_body w ! i = Jump t \<or> (\<exists>c. lw_body w ! i = JumpIfFalse c t \<and> ?fd i t = [])" for t
      using at_target [of "entry w i" t] patches_to_complete [OF i that] keep e not_cs [OF that] by auto
    have target: "case lw_body w ! i of
        Jump t \<Rightarrow> ns ! entry w i = Jump (start w t)
      | JumpIfFalse c t \<Rightarrow>
          (\<exists>q. ns ! entry w i = JumpIfFalse c q \<and>
            (?fd i t = [] \<and> q = start w t \<or>
             (let ds = ?fd i t
              in start w (length (lw_body w)) \<le> q \<and> drops_at ns q ds \<and> q + length ds < length ns \<and>
                ns ! (q + length ds) = Jump (start w t))))
      | i' \<Rightarrow> ns ! entry w i = i'"
    proof (cases "is_jump (lw_body w ! i)")
      case False
      then show ?thesis using plain_base [OF e] base by (cases "lw_body w ! i") simp_all
    next
      case True
      then consider t where "lw_body w ! i = Jump t"
        | c t where "lw_body w ! i = JumpIfFalse c t" "?fd i t = []"
        | c t where "lw_body w ! i = JumpIfFalse c t" "?fd i t \<noteq> []"
        by (cases "lw_body w ! i") auto
      then show ?thesis
      proof cases
        case (1 t)
        then show ?thesis using direct [of t] base by simp
      next
        case (2 c t)
        then show ?thesis using direct [of t] base by simp
      next
        case (3 c t)
        have "cleaned ?base ?is ps (entry w i, t, ?fd i t, sps ! i)"
          using cleaned cleanups_to_complete [OF i 3] by blast
        then obtain q where past: "length ?base \<le> q"
          and q: "?is ! entry w i = JumpIfFalse c q" "drops_at ?is q (?fd i t)"
          "q + length (?fd i t) < length ?is" "?is ! (q + length (?fd i t)) = Jump usize_max"
          "(q + length (?fd i t), t) \<in> set ps"
          using base 3(1) by (auto simp: cleaned_def)
        have "entry w i \<notin> fst ` set ?ps"
          using 3 by (auto elim!: patches_to_sound dest!: entry_inj)
        moreover have "entry w i \<notin> fst ` set ps" using ps e by force
        ultimately have "ns ! entry w i = JumpIfFalse c q" using unpatched q(1) by auto
        moreover have "ns ! (q + length (?fd i t)) = Jump (start w t)"
          using at_target [of "q + length (?fd i t)" t] q(4,5) by simp
        ultimately show ?thesis using 3(1) drops_is [OF q(2)] q(3) ns(2) past
          by (auto simp: Let_def start_def n_def)
      qed
    qed
    show ?thesis unfolding lowered_def
      using drops_base [OF code_block(1) [OF i]] drops_base [OF code_block(3) [OF i]] e grow ns(2) target
      by simp
  qed
  then show ?thesis using run ns spans patches(1) grow em by auto
qed

end
