(* ===== verification/Lifetimes_Laws.thy ===== *)
theory Lifetimes_Laws
  imports Lowered_Code
begin

text \<open>
  What lifetime lowering guarantees: it never panics on a closed body, the lowered body has the
  control flow of the original, and on every edge exactly the slots that die there are released,
  each once, never one that a later instruction reads or that the frame must keep.
\<close>

section \<open>Release paths\<close>

text \<open>
  The only way through the inserted code: from a position, through drops and jumps that are no
  copies of original instructions, to the first copy.
\<close>

inductive release :: "instruction list \<Rightarrow> nat set \<Rightarrow> nat \<Rightarrow> slot list \<Rightarrow> nat \<Rightarrow> bool" for ns copies where
  arrive: "p \<in> copies \<Longrightarrow> release ns copies p [] p"
| drop: "p \<notin> copies \<Longrightarrow> p < length ns \<Longrightarrow> ns ! p = Drop r \<Longrightarrow> release ns copies (p + 1) rs q \<Longrightarrow>
    release ns copies p (r # rs) q"
| jump: "p \<notin> copies \<Longrightarrow> p < length ns \<Longrightarrow> ns ! p = Jump p' \<Longrightarrow> release ns copies p' rs q \<Longrightarrow>
    release ns copies p rs q"

inductive_cases release_atE: "release ns copies p rs q"

lemma release_unique:
  "release ns copies p rs q \<Longrightarrow> release ns copies p rs' q' \<Longrightarrow> rs = rs' \<and> q = q'"
proof (induction arbitrary: rs' q' rule: release.induct)
  case (arrive p)
  then show ?case by (cases rule: release_atE) auto
next
  case (drop p r rs q)
  from drop.prems drop.hyps(1-3) obtain rs2 where "rs' = r # rs2" "release ns copies (p + 1) rs2 q'"
    by (cases rule: release_atE) auto
  then show ?case using drop.IH by blast
next
  case (jump p p' rs q)
  from jump.prems jump.hyps(1-3) have "release ns copies p' rs' q'"
    by (cases rule: release_atE) auto
  then show ?case using jump.IH by blast
qed

inductive_cases live_atE: "live_at is exit_uses homes i r"

abbreviation copies :: "lowering \<Rightarrow> nat set" where
  "copies w \<equiv> entry w ` {..<length (lw_body w)}"

lemma release_drops:
  "drops_at ns p rs \<Longrightarrow> \<forall>k < length rs. p + k \<notin> E \<Longrightarrow> release ns E (p + length rs) rs' q \<Longrightarrow> release ns E p (rs @ rs') q"
proof (induction rs arbitrary: p)
  case (Cons r rs)
  have "p < length ns" "ns ! p = Drop r" using Cons.prems(1) by (auto simp: drops_at_def)
  moreover have "drops_at ns (p + 1) rs"
    using Cons.prems(1) by (fastforce simp: drops_at_def nth_Cons split: nat.splits)
  moreover have "p \<notin> E" "\<forall>k < length rs. p + 1 + k \<notin> E"
    using Cons.prems(2) by force+
  ultimately show ?case using Cons.IH [of "p + 1"] Cons.prems(3) by (auto intro: drop)
qed simp

lemma lead_between: "k < length (lw_lead w i) \<Longrightarrow> start w i + k \<noteq> entry w j"
  using entry_less [of j i w] entry_strict [of i j w] by (cases i j rule: linorder_cases) (auto simp: entry_def)

lemma tail_between: "k < length (lw_tail w i) \<Longrightarrow> entry w i + 1 + k \<noteq> entry w j"
proof (cases "j \<le> i")
  case True
  then have "entry w j \<le> entry w i" using entry_strict [of j i w] by (cases "j = i") auto
  then show ?thesis by simp
next
  case False
  assume "k < length (lw_tail w i)"
  moreover have "start w (Suc i) \<le> entry w j" using False start_mono [of "Suc i" j w] by (simp add: entry_def)
  ultimately show ?thesis by (simp add: start_Suc)
qed

lemma copies_before: "p \<in> copies w \<Longrightarrow> p < start w (length (lw_body w))"
  using entry_less by auto

lemma lowered_start:
  "lowered w ns i \<Longrightarrow> i < length (lw_body w) \<Longrightarrow> release ns (copies w) (start w i) (lw_lead w i) (entry w i)"
  using release_drops [of ns "start w i" "lw_lead w i" "copies w" "[]"] arrive [of "entry w i" "copies w" ns]
    lead_between by (fastforce simp: lowered_def entry_def)

lemma lowered_fallthrough:
  assumes "lowered w ns i" "lowered w ns (Suc i)" "Suc i < length (lw_body w)"
  shows "release ns (copies w) (entry w i + 1) (lw_tail w i @ lw_lead w (Suc i)) (entry w (Suc i))"
proof (rule release_drops)
  show "drops_at ns (entry w i + 1) (lw_tail w i)" using assms(1) by (simp add: lowered_def)
  show "\<forall>k < length (lw_tail w i). entry w i + 1 + k \<notin> copies w" using tail_between by blast
  show "release ns (copies w) (entry w i + 1 + length (lw_tail w i)) (lw_lead w (Suc i)) (entry w (Suc i))"
    using lowered_start [OF assms(2,3)] by (simp add: start_Suc)
qed

lemma lowered_condition:
  fixes w :: lowering
  assumes "lowered w ns i" "lowered w ns t" "t < length (lw_body w)" "lw_body w ! i = JumpIfFalse c t"
  shows "\<exists>q. ns ! entry w i = JumpIfFalse c q \<and>
    release ns (copies w) q (false_drops (lw_live w) (lw_kept w) i t @ lw_lead w t) (entry w t)"
proof -
  let ?ds = "false_drops (lw_live w) (lw_kept w) i t"
  obtain q where q: "ns ! entry w i = JumpIfFalse c q"
    "?ds = [] \<and> q = start w t \<or>
     start w (length (lw_body w)) \<le> q \<and> drops_at ns q ?ds \<and> q + length ?ds < length ns \<and>
     ns ! (q + length ?ds) = Jump (start w t)"
    using assms(1,4) by (auto simp: lowered_def Let_def)
  have "release ns (copies w) q (?ds @ lw_lead w t) (entry w t)"
    using q(2)
  proof
    assume "?ds = [] \<and> q = start w t"
    then show ?thesis using lowered_start [OF assms(2,3)] by simp
  next
    assume ds: "start w (length (lw_body w)) \<le> q \<and> drops_at ns q ?ds \<and> q + length ?ds < length ns \<and>
      ns ! (q + length ?ds) = Jump (start w t)"
    then have outside: "q + k \<notin> copies w" for k using copies_before [of "q + k" w] by auto
    have "release ns (copies w) (q + length ?ds) (lw_lead w t) (entry w t)"
      using lowered_start [OF assms(2,3)] ds outside by (auto intro: jump)
    then show ?thesis using ds outside by (intro release_drops) auto
  qed
  with q(1) show ?thesis by blast
qed

section \<open>What dies on an edge\<close>

fun is_drop :: "instruction \<Rightarrow> bool" where
  "is_drop (Drop _) = True"
| "is_drop _ = False"

text \<open>
  The slots an edge releases: what the instruction uses, defines or finds live, and no
  continuation at the end of the edge reads. An original release leaves nothing to release.
\<close>

definition dying_on_edge :: "instruction list \<Rightarrow> slot set \<Rightarrow> slot set \<Rightarrow> nat \<Rightarrow> nat \<Rightarrow> slot set" where
  "dying_on_edge os homes protected i j =
     {r. \<not> is_drop (os ! i) \<and>
         (r \<in> set (slot_uses (os ! i)) \<union> set (slot_definitions (os ! i)) \<or> live_at os [] homes i r) \<and>
         \<not> live_at os [] homes j r \<and> r \<notin> protected}"

fun ends_flow :: "instruction \<Rightarrow> bool" where
  "ends_flow (Jump _) = True"
| "ends_flow (Return _) = True"
| "ends_flow _ = False"

definition path_live :: "instruction list \<Rightarrow> slot set \<Rightarrow> nat \<Rightarrow> slot set" where
  "path_live os homes i = {r. live_at os [] homes i r}"

text \<open>The liveness result for the body, in the form the lemmas below use.\<close>

definition path_sets :: "instruction list \<Rightarrow> slot set \<Rightarrow> liveness_sets" where
  "path_sets os homes =
     \<lparr>live_in = map (path_live os homes) [0..<length os],
      live_out = map (\<lambda>i. {r. \<exists>j \<in> set (successors os i). live_at os [] homes j r}) [0..<length os]\<rparr>"

text \<open>The captures and parameters that are released on entry: no path reads them.\<close>

definition unread_prefix :: "instruction list \<Rightarrow> slot set \<Rightarrow> u16 \<Rightarrow> slot set \<Rightarrow> slot set" where
  "unread_prefix os homes prefix protected =
     {r. r < prefix \<and> r \<notin> protected \<and> r \<notin> path_live os homes 0}"

lemma set_edge_drops [simp]: "set (edge_drops a b p) = a - b - p"
  by (auto simp: edge_drops_def)

lemma set_dying_registers [simp]:
  "set (dying_registers i outs p) = (set (slot_uses i) \<union> set (slot_definitions i)) - outs - p"
  by (auto simp: dying_registers_def)

lemma reads_cover:
  "r \<in> set (instruction_reads [] homes i) \<Longrightarrow> r \<in> set (slot_uses i) \<union> set (slot_definitions i)"
  by (cases i) (auto simp: instruction_reads_def split: if_splits)

lemma tail_drops_set:
  assumes "Suc i < length os" "\<not> ends_flow (os ! i)"
  shows "set (tail_drops (path_sets os homes) kept i (os ! i)) = dying_on_edge os homes kept i (Suc i)"
proof -
  consider (jump) c t where "os ! i = JumpIfFalse c t" | (release) r where "os ! i = Drop r"
    | (plain) "\<not> is_jump (os ! i)" "\<not> is_drop (os ! i)"
    using assms(2) by (cases "os ! i") auto
  then show ?thesis
  proof cases
    case jump
    have "live_at os [] homes i c"
      by (rule reads) (simp add: jump instruction_reads_def)
    then show ?thesis using assms(1) jump
      by (auto simp: tail_drops_def path_sets_def path_live_def dying_on_edge_def)
  next
    case release
    then show ?thesis by (simp add: tail_drops_def dying_on_edge_def)
  next
    case plain
    have succ: "successors os i = [Suc i]"
      using plain assms by (cases "os ! i") (auto simp: successors_def)
    have tail: "tail_drops (path_sets os homes) kept i (os ! i) =
        dying_registers (os ! i) (live_out (path_sets os homes) ! i) kept"
      using plain assms(2) by (cases "os ! i") (auto simp: tail_drops_def)
    have outs: "live_out (path_sets os homes) ! i = path_live os homes (Suc i)"
      using assms(1) by (simp add: path_sets_def succ path_live_def)
    have "r \<in> set (slot_uses (os ! i)) \<union> set (slot_definitions (os ! i))"
      if "live_at os [] homes i r" "\<not> live_at os [] homes (Suc i) r" for r
      using that by (cases rule: live_atE) (use reads_cover succ in auto)
    then show ?thesis unfolding tail set_dying_registers outs using plain(2)
      by (auto simp: dying_on_edge_def path_live_def)
  qed
qed

lemma false_drops_set:
  assumes "i < length os" "t < length os" "os ! i = JumpIfFalse c t"
  shows "set (false_drops (path_sets os homes) kept i t) = dying_on_edge os homes kept i t"
proof -
  have "live_at os [] homes i c"
    by (rule reads) (simp add: assms(3) instruction_reads_def)
  then show ?thesis using assms
    by (auto simp: false_drops_def path_sets_def path_live_def dying_on_edge_def)
qed

lemma jump_edge_dies:
  assumes "os ! i = Jump t"
  shows "dying_on_edge os homes kept i t = {}"
proof -
  have "live_at os [] homes t r" if "live_at os [] homes i r" for r
    using that by (cases rule: live_atE) (auto simp: assms instruction_reads_def successors_def)
  then show ?thesis by (auto simp: dying_on_edge_def assms)
qed

text \<open>Nothing is released twice on an edge.\<close>

lemma distinct_edge_drops: "distinct (edge_drops a b p)"
  by (simp add: edge_drops_def)

lemma distinct_dying_registers: "distinct (dying_registers i outs p)"
  using strict_sorted_remdups_adj_sort [of "slot_uses i @ slot_definitions i"]
  by (simp add: dying_registers_def strict_sorted_iff del: strict_sorted_remdups_adj_sort)

lemma distinct_tail_drops: "distinct (tail_drops l kept index i)"
  by (cases i) (simp_all add: tail_drops_def distinct_edge_drops distinct_dying_registers)

lemma mset_distinct: "distinct xs \<Longrightarrow> set xs = A \<Longrightarrow> mset xs = mset_set A"
  using mset_set_set by metis

lemma tail_releases:
  "Suc i < length os \<Longrightarrow> \<not> ends_flow (os ! i) \<Longrightarrow>
   mset (tail_drops (path_sets os homes) kept i (os ! i)) = mset_set (dying_on_edge os homes kept i (Suc i))"
  by (intro mset_distinct distinct_tail_drops tail_drops_set)

lemma false_releases:
  "i < length os \<Longrightarrow> t < length os \<Longrightarrow> os ! i = JumpIfFalse c t \<Longrightarrow>
   mset (false_drops (path_sets os homes) kept i t) = mset_set (dying_on_edge os homes kept i t)"
  by (intro mset_distinct false_drops_set) (simp_all add: false_drops_def distinct_edge_drops)

lemma unused_releases:
  "mset (unused_prefix prefix kept (path_live os homes 0)) = mset_set (unread_prefix os homes prefix kept)"
proof (rule mset_distinct)
  have small: "unat (word_of_nat n :: u16) = n" if "n < unat prefix" for n
    using that unsigned_less [of prefix, where ?'a = nat] by (simp add: unsigned_of_nat take_bit_nat_eq_self)
  then have "inj_on (word_of_nat :: nat \<Rightarrow> u16) {0..<unat prefix}"
    by (intro inj_on_inverseI [where g = unat]) simp
  then show "distinct (unused_prefix prefix kept (path_live os homes 0))"
    by (simp add: unused_prefix_def distinct_map)
  have "r < prefix \<longleftrightarrow> r \<in> word_of_nat ` {0..<unat prefix}" for r :: u16
  proof
    assume "r < prefix"
    then show "r \<in> word_of_nat ` {0..<unat prefix}"
      by (intro image_eqI [of _ _ "unat r"]) (simp_all add: word_less_nat_alt)
  next
    assume "r \<in> word_of_nat ` {0..<unat prefix}"
    then obtain n where n: "r = word_of_nat n" "n < unat prefix" by auto
    then have "unat r = n" using small by simp
    then show "r < prefix" using n(2) by (simp add: word_less_nat_alt)
  qed
  then show "set (unused_prefix prefix kept (path_live os homes 0)) = unread_prefix os homes prefix kept"
    by (auto simp: unused_prefix_def unread_prefix_def)
qed

section \<open>The property\<close>

lemma lowered_operation:
  "lowered w ns i \<Longrightarrow>
   entry w i < length ns \<and> retarget 0 (ns ! entry w i) = retarget 0 (lw_body w ! i)"
  by (cases "lw_body w ! i") (auto simp: lowered_def)

definition well_ended :: "instruction list \<Rightarrow> bool" where
  "well_ended os \<longleftrightarrow> os \<noteq> [] \<and> ends_flow (last os)"

text \<open>The releases of an edge; what leads to the first instruction also releases the unread prefix.\<close>

definition edge_releases :: "instruction list \<Rightarrow> slot set \<Rightarrow> u16 \<Rightarrow> slot set \<Rightarrow> nat \<Rightarrow> nat \<Rightarrow> slot multiset" where
  "edge_releases os homes prefix protected i j =
     mset_set (dying_on_edge os homes protected i j) +
     (if j = 0 then mset_set (unread_prefix os homes prefix protected) else {#})"

lemma lowered_edge:
  fixes w :: lowering
  assumes w: "lw_live w = path_sets os homes" "lw_body w = os"
      "lw_unused w = unused_prefix prefix (lw_kept w) (path_live os homes 0)"
    and closed: "jumps_closed os" and ended: "well_ended os"
    and all: "\<forall>i < length os. lowered w ns i" and i: "i < length os"
  shows "list_all2 (\<lambda>q j. \<exists>rs. release ns (copies w) q rs (entry w j) \<and>
      mset rs = edge_releases os homes prefix (lw_kept w) i j)
    (successors ns (entry w i)) (successors os i)"
proof -
  have lead: "mset (lw_lead w j) = (if j = 0 then mset_set (unread_prefix os homes prefix (lw_kept w)) else {#})" for j
    using unused_releases [of prefix "lw_kept w" os homes] by (simp add: lead_drops_def w(3))
  have at: "lowered w ns i" using all i by blast
  have target: "t < length os" if "t \<in> set (successors os i)" for t
    using closed i that by (auto simp: jumps_closed_def list_all_iff)
  have inside: "Suc i < length os" if "\<not> ends_flow (os ! i)"
  proof (rule ccontr)
    assume "\<not> Suc i < length os"
    then have "i = length os - 1" using i by simp
    then show False using that ended by (auto simp: well_ended_def last_conv_nth)
  qed
  have fall: "\<exists>rs. release ns (copies w) (entry w i + 1) rs (entry w (Suc i)) \<and>
      mset rs = edge_releases os homes prefix (lw_kept w) i (Suc i)"
    if "\<not> ends_flow (os ! i)"
  proof -
    have n: "Suc i < length os" using inside [OF that] .
    have "mset (lw_tail w i) = mset_set (dying_on_edge os homes (lw_kept w) i (Suc i))"
      using tail_releases [OF n that] w by simp
    moreover have "release ns (copies w) (entry w i + 1) (lw_tail w i @ lw_lead w (Suc i)) (entry w (Suc i))"
      using all n at w(2) by (intro lowered_fallthrough) auto
    ultimately show ?thesis using lead [of "Suc i"]
      by (intro exI [of _ "lw_tail w i @ lw_lead w (Suc i)"]) (simp add: edge_releases_def)
  qed
  have past: "entry w i + 1 < length ns" if "\<not> ends_flow (os ! i)"
  proof -
    have "entry w i < entry w (Suc i)" by (rule entry_strict) simp
    moreover have "entry w (Suc i) < length ns" using all inside [OF that] by (auto simp: lowered_def)
    ultimately show ?thesis by simp
  qed
  consider t where "os ! i = Jump t" | s where "os ! i = Return s" | c t where "os ! i = JumpIfFalse c t"
    | "\<not> ends_flow (os ! i)" "\<not> is_jump (os ! i)"
    by (cases "os ! i") auto
  then show ?thesis
  proof cases
    case (1 t)
    then have "ns ! entry w i = Jump (start w t)" using at w(2) by (simp add: lowered_def)
    moreover have "t < length os" using target 1 by (simp add: successors_def)
    moreover have "mset (lw_lead w t) = edge_releases os homes prefix (lw_kept w) i t"
      using jump_edge_dies [OF 1] lead [of t] by (simp add: edge_releases_def)
    ultimately show ?thesis using 1 lowered_start [of w ns t] all w(2) by (auto simp: successors_def)
  next
    case (2 s)
    then have "ns ! entry w i = Return s" using at w(2) by (simp add: lowered_def)
    then show ?thesis using 2 by (simp add: successors_def)
  next
    case (3 c t)
    then have t: "t < length os" using target by (simp add: successors_def)
    obtain q where q: "ns ! entry w i = JumpIfFalse c q"
      "release ns (copies w) q (false_drops (lw_live w) (lw_kept w) i t @ lw_lead w t) (entry w t)"
      using lowered_condition [OF at, of t c] all t 3 w(2) by auto
    have "mset (false_drops (lw_live w) (lw_kept w) i t) = mset_set (dying_on_edge os homes (lw_kept w) i t)"
      using false_releases [OF i t 3] w(1) by simp
    then have "\<exists>rs. release ns (copies w) q rs (entry w t) \<and> mset rs = edge_releases os homes prefix (lw_kept w) i t"
      using q(2) lead [of t]
      by (intro exI [of _ "false_drops (lw_live w) (lw_kept w) i t @ lw_lead w t"]) (simp add: edge_releases_def)
    then show ?thesis using q(1) 3 fall inside past by (simp add: successors_def)
  next
    case 4
    then have "ns ! entry w i = os ! i" using at w(2) by (cases "os ! i") (auto simp: lowered_def)
    then show ?thesis using 4 fall inside past by (cases "os ! i") (simp_all add: successors_def)
  qed
qed

lemma lowering_correct:
  assumes "body_ok (f_body f)" "parameter_count f = Some cnt"
    and "jumps_closed (instructions (f_body f))" "well_ended (instructions (f_body f))"
  shows "\<exists>f' entry. insert_function protected f = Some f' \<and> body_ok (f_body f') \<and>
    f' = f\<lparr>f_body := f_body f'\<rparr> \<and>
    (\<forall>i < length (instructions (f_body f)). \<forall>j < length (instructions (f_body f)). i < j \<longrightarrow> entry i < entry j) \<and>
    (\<forall>i < length (instructions (f_body f)). entry i < length (instructions (f_body f')) \<and>
       retarget 0 (instructions (f_body f') ! entry i) = retarget 0 (instructions (f_body f) ! i)) \<and>
    (\<exists>rs. release (instructions (f_body f')) (entry ` {..<length (instructions (f_body f))}) 0 rs (entry 0) \<and>
       mset rs = mset_set (unread_prefix (instructions (f_body f)) (pattern_binding_slots (instructions (f_body f)))
         (saturating_add (f_captures f) cnt) protected)) \<and>
    (\<forall>i < length (instructions (f_body f)).
       list_all2 (\<lambda>q j. \<exists>rs. release (instructions (f_body f')) (entry ` {..<length (instructions (f_body f))}) q rs (entry j) \<and>
           mset rs = edge_releases (instructions (f_body f)) (pattern_binding_slots (instructions (f_body f)))
             (saturating_add (f_captures f) cnt) protected i j)
         (successors (instructions (f_body f')) (entry i)) (successors (instructions (f_body f)) i))"
proof -
  define os where "os = instructions (f_body f)"
  define homes where "homes = pattern_binding_slots os"
  let ?n = "length os"
  let ?l = "path_sets os homes"
  let ?unused = "unused_prefix (saturating_add (f_captures f) cnt) protected (live_in ?l ! 0)"
  let ?sps = "instruction_spans (f_body f)"
  define w where "w = \<lparr>lw_live = ?l, lw_kept = protected, lw_unused = ?unused, lw_body = os\<rparr>"
  obtain sp0 where sp0: "(case ?sps of [] \<Rightarrow> (0, 0) | sp # _ \<Rightarrow> sp) = sp0" by blast
  have spans: "length ?sps = ?n" using assms(1) by (simp add: body_ok_def os_def)
  have os: "os \<noteq> []" "jumps_closed os" "well_ended os"
    using assms(3,4) by (auto simp: os_def well_ended_def)
  have l: "liveness_with_write_bindings f [] homes = Some ?l"
  proof -
    obtain l where "liveness_with_write_bindings f [] homes = Some l" "live_in l = live_in ?l" "live_out l = live_out ?l"
      using liveness_path_sets [OF assms(3), of "[]" homes] by (auto simp: path_sets_def path_live_def [abs_def] os_def)
    moreover have "l = ?l" using calculation(2,3) by (intro liveness_sets.equality) simp_all
    ultimately show ?thesis by simp
  qed
  have body: "lw_body w = os" and live: "lw_live w = ?l" and kept: "lw_kept w = protected"
    by (simp_all add: w_def)
  have unused: "lw_unused w = unused_prefix (saturating_add (f_captures f) cnt) (lw_kept w) (path_live os homes 0)"
    using os(1) by (simp add: w_def path_sets_def)
  have targets: "\<forall>i < ?n. \<forall>t. os ! i = Jump t \<or> (\<exists>c. os ! i = JumpIfFalse c t) \<longrightarrow> t < ?n"
  proof (intro allI impI)
    fix i t
    assume i: "i < ?n" and jump: "os ! i = Jump t \<or> (\<exists>c. os ! i = JumpIfFalse c t)"
    then have "t \<in> set (successors os i)" by (auto simp: successors_def)
    then show "t < ?n" using os(2) i by (simp add: jumps_closed_def list_all_iff)
  qed
  obtain e' ns where
    run: "fold_option cleanup_step (em_cleanups (emitted w sp0 ?sps ?n)) (emitted w sp0 ?sps ?n) = Some e'"
      "fold_option (patch_step (em_targets e')) (em_patches e') (em_instructions e') = Some ns"
      "length (em_spans e') = length ns"
    and low: "\<forall>i < ?n. lowered w ns i"
    using lowering_run [of w sp0 ?sps, unfolded body, OF targets] by blast
  have fold: "fold (emit_step ?l protected ?unused sp0) (enumerate 0 (zip os ?sps))
      \<lparr>em_instructions = [], em_spans = [], em_targets = replicate ?n 0, em_patches = [], em_cleanups = []\<rparr> =
      emitted w sp0 ?sps ?n"
    using emitted_enumerate [of ?sps w sp0] spans by (simp add: w_def)
  let ?f' = "f\<lparr>f_body := \<lparr>instructions = ns, instruction_spans = em_spans e'\<rparr>\<rparr>"
  have result: "insert_function protected f = Some ?f'"
    using os(1) l assms(2) run fold sp0
    by (simp add: insert_function_def into_parts_def os_def [symmetric] homes_def [symmetric] Let_def
        body_try_from_parts_def)
  have "entry w i < length ns \<and> retarget 0 (ns ! entry w i) = retarget 0 (os ! i)" if "i < ?n" for i
    using lowered_operation low that unfolding body [symmetric] by blast
  moreover have "\<exists>rs. release ns (copies w) 0 rs (entry w 0) \<and>
      mset rs = mset_set (unread_prefix os homes (saturating_add (f_captures f) cnt) protected)"
  proof (intro exI conjI)
    show "release ns (copies w) 0 (lw_lead w 0) (entry w 0)"
      using lowered_start [of w ns 0] low os(1) body by (simp add: start_def)
    show "mset (lw_lead w 0) = mset_set (unread_prefix os homes (saturating_add (f_captures f) cnt) protected)"
      by (simp add: lead_drops_def unused unused_releases kept)
  qed
  moreover have "list_all2 (\<lambda>q j. \<exists>rs. release ns (copies w) q rs (entry w j) \<and>
      mset rs = edge_releases os homes (saturating_add (f_captures f) cnt) protected i j)
    (successors ns (entry w i)) (successors os i)" if "i < ?n" for i
    using lowered_edge [OF live body unused os(2,3) low that] unfolding kept .
  moreover have "body_ok (f_body ?f')" using run(3) by (simp add: body_ok_def)
  ultimately show ?thesis using result entry_strict
    unfolding os_def [symmetric] homes_def [symmetric]
    by (intro exI [of _ ?f'] exI [of _ "entry w"]) (auto simp: body)
qed

text \<open>
  C12. Lifetime lowering of a function whose jumps stay inside the body and whose last
  instruction ends the flow never panics and keeps code and locations paired. The copy of every
  instruction keeps its operation, in order; from every copy the lowered code goes, for each
  successor of the original instruction and through inserted drops and jumps only, to the copy of
  that successor. On the way it releases exactly, and each of them once, the slots that die on the
  edge: those the instruction uses, defines or finds live, that no continuation reads before
  writing and that are not protected; none after an original release. The way into the first
  instruction, on entry or by a jump back, releases in addition exactly the unprotected captures
  and parameters that no path reads.
\<close>

theorem lifetimes_preserve_flow:
  assumes "body_ok (f_body f)" "parameter_count f = Some cnt"
    and "jumps_closed (instructions (f_body f))" "well_ended (instructions (f_body f))"
  shows "\<exists>f' entry. insert_function protected f = Some f' \<and> body_ok (f_body f') \<and>
    f' = f\<lparr>f_body := f_body f'\<rparr> \<and>
    (\<forall>i < length (instructions (f_body f)). \<forall>j < length (instructions (f_body f)). i < j \<longrightarrow> entry i < entry j) \<and>
    (\<forall>i < length (instructions (f_body f)). entry i < length (instructions (f_body f')) \<and>
       retarget 0 (instructions (f_body f') ! entry i) = retarget 0 (instructions (f_body f) ! i)) \<and>
    (\<exists>rs. release (instructions (f_body f')) (entry ` {..<length (instructions (f_body f))}) 0 rs (entry 0) \<and>
       mset rs = mset_set (unread_prefix (instructions (f_body f)) (pattern_binding_slots (instructions (f_body f)))
         (saturating_add (f_captures f) cnt) protected)) \<and>
    (\<forall>i < length (instructions (f_body f)).
       list_all2 (\<lambda>q j. \<exists>rs. release (instructions (f_body f')) (entry ` {..<length (instructions (f_body f))}) q rs (entry j) \<and>
           mset rs = edge_releases (instructions (f_body f)) (pattern_binding_slots (instructions (f_body f)))
             (saturating_add (f_captures f) cnt) protected i j)
         (successors (instructions (f_body f')) (entry i)) (successors (instructions (f_body f)) i))"
  using assms by (rule lowering_correct)

lemma lifetimes_preserve_flow_witness:
  "\<exists>f' entry. insert_function {} sample_loop = Some f' \<and> entry (1::nat) < length (instructions (f_body f')) \<and>
     retarget 0 (instructions (f_body f') ! entry 1) = JumpIfFalse 0 0"
proof -
  have "body_ok (f_body sample_loop)" by (simp add: sample_loop_def)
  moreover have "parameter_count sample_loop = Some 0" by (simp add: sample_loop_def parameter_count_def)
  moreover have "jumps_closed (instructions (f_body sample_loop))" "well_ended (instructions (f_body sample_loop))"
    by (simp_all add: jumps_closed_def well_ended_def sample_loop_body successors_def upt_rec)
  ultimately have "\<exists>f' entry. insert_function {} sample_loop = Some f' \<and>
      (\<forall>i < length (instructions (f_body sample_loop)). entry i < length (instructions (f_body f')) \<and>
       retarget 0 (instructions (f_body f') ! entry i) = retarget 0 (instructions (f_body sample_loop) ! i))"
    using lifetimes_preserve_flow [of sample_loop 0 "{}"] by blast
  then obtain f' entry where f': "insert_function {} sample_loop = Some f'"
    and at: "\<forall>i < length (instructions (f_body sample_loop)). entry i < length (instructions (f_body f')) \<and>
       retarget 0 (instructions (f_body f') ! entry i) = retarget 0 (instructions (f_body sample_loop) ! i)"
    by blast
  have "entry 1 < length (instructions (f_body f')) \<and>
      retarget 0 (instructions (f_body f') ! entry 1) = JumpIfFalse 0 0"
    using spec [OF at, of 1] by (simp add: sample_loop_body)
  with f' show ?thesis by blast
qed

end
