(* ===== verification/Protected_Slots.thy ===== *)
theory Protected_Slots
  imports Lifetimes_Laws
begin

text \<open>
  Slots a frame must keep: lowering keeps the number of releases of a protected slot, and the
  origins of references are protected in every function.
\<close>

section \<open>Protected slots are kept\<close>

definition releases :: "slot \<Rightarrow> instruction list \<Rightarrow> nat" where
  "releases r is = count_list is (Drop r)"

lemma releases_simps [simp]:
  "releases r [] = 0" "releases r (is @ js) = releases r is + releases r js"
  "releases r (i # is) = (if i = Drop r then 1 else 0) + releases r is"
  by (simp_all add: releases_def)

lemma releases_drops [simp]: "r \<notin> set ds \<Longrightarrow> releases r (map Drop ds) = 0"
  by (induction ds) auto

lemma retarget_drop [simp]: "retarget t i = Drop r \<longleftrightarrow> i = Drop r"
  by (cases i) auto

text \<open>An update of a jump is neutral.\<close>

lemma releases_retarget [simp]:
  assumes "p < length is" "is_jump (is ! p)"
  shows "releases r (is[p := retarget t (is ! p)]) = releases r is"
proof -
  have "releases r is = releases r (take p is @ is ! p # drop (Suc p) is)"
    by (rule arg_cong [OF id_take_nth_drop [OF assms(1)]])
  moreover have "is ! p \<noteq> Drop r" using assms(2) by auto
  ultimately show ?thesis using assms(1) by (simp add: upd_conv_take_nth_drop)
qed

lemma edge_drops_kept: "r \<in> kept \<Longrightarrow> r \<notin> set (edge_drops a b kept)"
  by simp

lemma tail_drops_kept: "r \<in> kept \<Longrightarrow> r \<notin> set (tail_drops l kept index i)"
  by (cases i) (auto simp: tail_drops_def)

lemma block_releases:
  "r \<in> kept \<Longrightarrow> r \<notin> set unused \<Longrightarrow>
   releases r (block l kept unused index i) = (if i = Drop r then 1 else 0)"
  by (simp add: block_def lead_drops_def tail_drops_kept)

definition cleanups_keep :: "slot \<Rightarrow> emission \<Rightarrow> bool" where
  "cleanups_keep r e \<longleftrightarrow> (\<forall>(b, t, ds, sp) \<in> set (em_cleanups e). r \<notin> set ds)"

lemma emit_fold_releases:
  assumes "cleanups_keep r e" "r \<in> kept" "r \<notin> set unused"
  shows "cleanups_keep r (fold (emit_step l kept unused sp0) items e) \<and>
    releases r (em_instructions (fold (emit_step l kept unused sp0) items e)) =
      releases r (em_instructions e) + releases r (map (fst \<circ> snd) items)"
  using assms(1)
proof (induction items arbitrary: e)
  case (Cons item items)
  obtain index i sp where item: "item = (index, i, sp)" by (cases item)
  let ?e = "emit_step l kept unused sp0 item e"
  have "cleanups_keep r ?e"
    using Cons.prems assms(2)
    by (cases i) (auto simp: item emit_step_eq cleanups_keep_def block_cleanups_def false_drops_def)
  moreover have "releases r (em_instructions ?e) = releases r (em_instructions e) + (if i = Drop r then 1 else 0)"
    using block_releases [OF assms(2,3)] by (simp add: item emit_step_eq)
  ultimately show ?case using Cons.IH [of ?e] by (simp add: item)
qed simp

lemma cleanup_step_releases:
  assumes "cleanup_step (b, t, ds, sp) e = Some e'" "r \<notin> set ds"
  shows "releases r (em_instructions e') = releases r (em_instructions e)"
proof -
  obtain c u where b: "b < length (em_instructions e)" "em_instructions e ! b = JumpIfFalse c u"
    using assms(1) by (auto simp: cleanup_step_def get_def split: if_splits instruction.splits)
  have "releases r ((em_instructions e)[b := JumpIfFalse c n]) = releases r (em_instructions e)" for n
    using releases_retarget [of b "em_instructions e" r n] b by simp
  then show ?thesis using assms unfolding cleanup_step_eq [OF b] by auto
qed

lemma cleanup_fold_releases:
  assumes "fold_option cleanup_step cs e = Some e'" "\<forall>(b, t, ds, sp) \<in> set cs. r \<notin> set ds"
  shows "releases r (em_instructions e') = releases r (em_instructions e)"
  using assms
proof (induction cs arbitrary: e)
  case (Cons c cs)
  obtain b t ds sp where c: "c = (b, t, ds, sp)" by (cases c)
  obtain e1 where e1: "cleanup_step c e = Some e1" "fold_option cleanup_step cs e1 = Some e'"
    using Cons.prems(1) by (auto split: option.splits)
  have "releases r (em_instructions e1) = releases r (em_instructions e)"
    using cleanup_step_releases [of b t ds sp e e1 r] e1(1) Cons.prems(2) by (simp add: c)
  then show ?case using Cons.IH [OF e1(2)] Cons.prems(2) by simp
qed simp

lemma patch_fold_releases:
  "fold_option (patch_step targets) ps is = Some is' \<Longrightarrow> releases r is' = releases r is"
proof (induction ps arbitrary: "is")
  case (Cons x ps)
  obtain is1 where is1: "patch_step targets x is = Some is1" "fold_option (patch_step targets) ps is1 = Some is'"
    using Cons.prems by (auto split: option.splits)
  obtain p t where "p < length is" "is_jump (is ! p)" "is1 = is[p := retarget t (is ! p)]"
    using is1(1) by (cases x) (auto simp: patch_step_def get_def split: if_splits instruction.splits)
  then show ?case using Cons.IH [OF is1(2)] by simp
qed simp

lemma insert_function_releases:
  assumes "insert_function kept f = Some f'" "r \<in> kept"
  shows "releases r (instructions (f_body f')) =
    releases r (map fst (zip (instructions (f_body f)) (instruction_spans (f_body f))))"
proof (cases "instructions (f_body f) = []")
  case True
  then show ?thesis using assms by (simp add: insert_function_def into_parts_def)
next
  case False
  let ?os = "instructions (f_body f)" and ?sps = "instruction_spans (f_body f)"
  obtain l where l: "liveness_with_write_bindings f [] (pattern_binding_slots ?os) = Some l"
    using assms False by (auto simp: insert_function_def into_parts_def Let_def split: option.splits)
  obtain cnt where cnt: "parameter_count f = Some cnt"
    using assms False l by (auto simp: insert_function_def into_parts_def Let_def split: option.splits)
  define unused where "unused = unused_prefix (saturating_add (f_captures f) cnt) kept (live_in l ! 0)"
  define sp0 where "sp0 = (case ?sps of [] \<Rightarrow> (0, 0) | sp # _ \<Rightarrow> sp)"
  let ?e0 = "\<lparr>em_instructions = [], em_spans = [], em_targets = replicate (length ?os) 0, em_patches = [], em_cleanups = []\<rparr>"
  define e where "e = fold (emit_step l kept unused sp0) (enumerate 0 (zip ?os ?sps)) ?e0"
  obtain e' ns where clean: "fold_option cleanup_step (em_cleanups e) e = Some e'"
    and patch: "fold_option (patch_step (em_targets e')) (em_patches e') (em_instructions e') = Some ns"
    and result: "instructions (f_body f') = ns"
    using assms False l cnt unfolding insert_function_def into_parts_def Let_def prod.case
    by (auto simp: body_try_from_parts_def unused_def [symmetric] sp0_def [symmetric] e_def [symmetric]
        split: option.splits if_splits)
  have "r \<notin> set unused" using assms(2) by (auto simp: unused_def unused_prefix_def)
  then have e: "cleanups_keep r e" "releases r (em_instructions e) = releases r (map (fst \<circ> snd) (enumerate 0 (zip ?os ?sps)))"
    unfolding e_def using emit_fold_releases [of r ?e0 kept unused] assms(2) by (simp_all add: cleanups_keep_def)
  moreover have "map (fst \<circ> snd) (enumerate 0 (zip ?os ?sps)) = map fst (zip ?os ?sps)"
    by (simp add: map_map [symmetric] del: map_map)
  ultimately show ?thesis
    using cleanup_fold_releases [OF clean, of r] patch_fold_releases [OF patch, of r] result
    by (simp add: cleanups_keep_def)
qed

lemma insert_function_releases_le:
  assumes "insert_function kept f = Some f'" "r \<in> kept"
  shows "releases r (instructions (f_body f')) \<le> releases r (instructions (f_body f)) \<and>
    (body_ok (f_body f) \<longrightarrow> releases r (instructions (f_body f')) = releases r (instructions (f_body f)))"
proof -
  let ?os = "instructions (f_body f)" and ?sps = "instruction_spans (f_body f)"
  have "map fst (zip ?os ?sps) = take (length ?sps) ?os"
    by (cases "length ?os \<le> length ?sps") (simp_all add: map_fst_zip_take min_def)
  then have kept: "releases r (instructions (f_body f')) = releases r (take (length ?sps) ?os)"
    using insert_function_releases [OF assms] by simp
  have "releases r ?os = releases r (take (length ?sps) ?os @ drop (length ?sps) ?os)" by simp
  then have "releases r (take (length ?sps) ?os) \<le> releases r ?os" unfolding releases_simps(2) by linarith
  moreover have "take (length ?sps) ?os = ?os" if "body_ok (f_body f)" using that by (simp add: body_ok_def)
  ultimately show ?thesis using kept by auto
qed

lemma fold_mono: "(\<And>x s. s \<le> f x s) \<Longrightarrow> s \<le> fold f xs s" for s :: "'a::order"
proof (induction xs arbitrary: s)
  case (Cons x xs)
  have "s \<le> f x s" "f x s \<le> fold f xs (f x s)" using Cons by auto
  then show ?case by (simp add: order.trans)
qed simp

lemma fold_option_mono:
  "(\<And>x s s'. f x s = Some s' \<Longrightarrow> s \<le> s') \<Longrightarrow> fold_option f xs s = Some s' \<Longrightarrow> s \<le> s'" for s :: "'a::order"
proof (induction xs arbitrary: s)
  case (Cons x xs)
  obtain s1 where s1: "f x s = Some s1" "fold_option f xs s1 = Some s'"
    using Cons.prems(2) by (auto split: option.splits)
  have "s \<le> s1" by (rule Cons.prems(1) [OF s1(1)])
  moreover have "s1 \<le> s'" using Cons.IH [OF _ s1(2)] Cons.prems(1) by blast
  ultimately show ?case by simp
qed simp

lemma protect_increases: "p \<le> protect fid r p"
  by (auto simp: protect_def le_fun_def)

lemma protect_captures_increases: "p \<le> protect_captures caller target captures p"
  unfolding protect_captures_def
  by (rule fold_mono) (auto intro: order.trans protect_increases split: prod.splits)

lemma protect_instruction_increases:
  "protect_instruction fs caller i p = Some p' \<Longrightarrow> p \<le> p'"
  by (auto simp: protect_instruction_def protect_receiver_def split: instruction.splits option.splits
      intro: protect_captures_increases protect_increases)

lemma protect_prefix_increases: "p \<le> protect_prefix prefix is caller p"
  unfolding protect_prefix_def by (intro fold_mono) (auto intro: protect_increases)

lemma reference_origins_increases: "p \<subseteq> protect_reference_origins f p"
  unfolding protect_reference_origins_def by (rule fold_mono) (auto split: option.splits)

lemma reference_origins_in:
  assumes "i \<in> set is" "reference_origin i = Some r"
  shows "r \<in> fold (\<lambda>i p. case reference_origin i of Some obj \<Rightarrow> insert obj p | None \<Rightarrow> p) is p"
proof -
  let ?step = "\<lambda>i p. case reference_origin i of Some obj \<Rightarrow> insert obj p | None \<Rightarrow> p"
  obtain xs ys where "is = xs @ i # ys" using split_list [OF assms(1)] by blast
  then have "fold ?step is p = fold ?step ys (insert r (fold ?step xs p))" using assms(2) by simp
  moreover have "insert r (fold ?step xs p) \<subseteq> fold ?step ys (insert r (fold ?step xs p))"
    by (rule fold_mono) (auto split: option.splits)
  ultimately show ?thesis by blast
qed

lemma protect_function_origins:
  assumes "protect_function fs (caller, f) p = Some p'"
  shows "p \<le> p' \<and> (\<forall>i \<in> set (instructions (f_body f)). \<forall>r. reference_origin i = Some r \<longrightarrow> r \<in> p' caller)"
proof -
  obtain cnt where cnt: "parameter_count f = Some cnt"
    using assms by (auto simp: protect_function_def split: option.splits)
  let ?is = "instructions (f_body f)"
  define p1 where "p1 = protect_prefix (saturating_add (f_captures f) cnt) ?is caller p"
  define p2 where "p2 = p1(caller := protect_reference_origins f (p1 caller))"
  have run: "fold_option (protect_instruction fs caller) ?is p2 = Some p'"
    using assms cnt by (simp add: protect_function_def Let_def p1_def p2_def)
  have "p \<le> p1" unfolding p1_def by (rule protect_prefix_increases)
  also have "p1 \<le> p2" using reference_origins_increases by (auto simp: p2_def le_fun_def)
  also have up: "p2 \<le> p'" using fold_option_mono [OF _ run] protect_instruction_increases by blast
  finally have "p \<le> p'" .
  moreover have "r \<in> p' caller" if "i \<in> set ?is" "reference_origin i = Some r" for i r
  proof -
    have "r \<in> p2 caller" using reference_origins_in [OF that] by (simp add: p2_def protect_reference_origins_def)
    then show ?thesis using up by (auto simp: le_fun_def)
  qed
  ultimately show ?thesis by blast
qed

lemma protected_origins:
  assumes "fold_option (protect_function fs) es p = Some p'" "(caller, f) \<in> set es"
    and "i \<in> set (instructions (f_body f))" "reference_origin i = Some r"
  shows "r \<in> p' caller"
  using assms
proof (induction es arbitrary: p)
  case (Cons entry es)
  obtain p1 where p1: "protect_function fs entry p = Some p1" "fold_option (protect_function fs) es p1 = Some p'"
    using Cons.prems(1) by (auto split: option.splits)
  have up: "p1 \<le> p'" using fold_option_mono [OF _ p1(2)] protect_function_origins by (metis surj_pair)
  show ?case
  proof (cases "entry = (caller, f)")
    case True
    then have "r \<in> p1 caller" using protect_function_origins p1(1) Cons.prems(3,4) by blast
    then show ?thesis using up by (auto simp: le_fun_def)
  next
    case False
    then show ?thesis using Cons p1(2) by auto
  qed
qed simp

text \<open>
  C24. Lifetime lowering of a program is done once, keeps the metadata and the set of functions,
  and never adds a release of the origin slot of a weak reference: of a slot a function makes a
  reference to (a whole, field or element reference, or a field loaded by reference) the lowered
  function has no more releases than the function had, and, when its code and locations are
  paired, exactly as many.
\<close>

theorem reference_origins_kept:
  assumes "insert_drops prog = Some prog'"
  shows "insert_drops prog' = Some prog' \<and> metadata prog' = metadata prog \<and>
    list_all2 (\<lambda>(fid, f) (fid', f'). fid = fid' \<and>
      (\<forall>i \<in> set (instructions (f_body f)). \<forall>r. reference_origin i = Some r \<longrightarrow>
         releases r (instructions (f_body f')) \<le> releases r (instructions (f_body f)) \<and>
         (body_ok (f_body f) \<longrightarrow> releases r (instructions (f_body f')) = releases r (instructions (f_body f)))))
      (pg_functions prog) (pg_functions prog')"
proof (cases "drops_inserted prog")
  case True
  then show ?thesis using assms by (auto simp: insert_drops_def list_all2_conv_all_nth)
next
  case False
  obtain protected fs where p: "protected_slots prog = Some protected"
    and fs: "list_all2 (\<lambda>x y. (\<lambda>(fid, f). map_option (Pair fid) (insert_function (protected fid) f)) x = Some y)
      (pg_functions prog) fs"
    and prog': "prog' = prog\<lparr>pg_functions := fs, drops_inserted := True\<rparr>"
    using assms False by (auto simp: insert_drops_def map_option_list_Some split: option.splits)
  have "list_all2 (\<lambda>(fid, f) (fid', f'). fid = fid' \<and>
      (\<forall>i \<in> set (instructions (f_body f)). \<forall>r. reference_origin i = Some r \<longrightarrow>
         releases r (instructions (f_body f')) \<le> releases r (instructions (f_body f)) \<and>
         (body_ok (f_body f) \<longrightarrow> releases r (instructions (f_body f')) = releases r (instructions (f_body f)))))
      (pg_functions prog) fs"
    using fs
  proof (rule list.rel_mono_strong)
    fix x y
    assume x: "x \<in> set (pg_functions prog)"
      and lower: "(\<lambda>(fid, f). map_option (Pair fid) (insert_function (protected fid) f)) x = Some y"
    obtain fid f where xf: "x = (fid, f)" by (cases x)
    obtain f' where f': "insert_function (protected fid) f = Some f'" "y = (fid, f')"
      using lower by (auto simp: xf)
    have "r \<in> protected fid" if "i \<in> set (instructions (f_body f))" "reference_origin i = Some r" for i r
      using protected_origins [OF p [unfolded protected_slots_def] x [unfolded xf] that] .
    then show "(\<lambda>(fid, f) (fid', f'). fid = fid' \<and>
      (\<forall>i \<in> set (instructions (f_body f)). \<forall>r. reference_origin i = Some r \<longrightarrow>
         releases r (instructions (f_body f')) \<le> releases r (instructions (f_body f)) \<and>
         (body_ok (f_body f) \<longrightarrow> releases r (instructions (f_body f')) = releases r (instructions (f_body f))))) x y"
      using insert_function_releases_le [OF f'(1)] by (simp add: xf f'(2))
  qed
  then show ?thesis by (simp add: prog' insert_drops_def)
qed

definition sample_reference :: bytecode_function where
  "sample_reference = sample_loop\<lparr>f_registers := 2, f_body := body_new
     [(MakeWholeReference 1 Bool 0, (0, 1)), (Return 1, (1, 2))]\<rparr>"

lemma reference_origins_kept_witness:
  "\<forall>md. \<exists>f'. insert_drops \<lparr>metadata = md, drops_inserted = False, pg_functions = [(7, sample_reference)]\<rparr> =
       Some \<lparr>metadata = md, drops_inserted = True, pg_functions = [(7, f')]\<rparr> \<and>
     Drop 0 \<notin> set (instructions (f_body f'))"
proof
  fix md
  let ?prog = "\<lparr>metadata = md, drops_inserted = False, pg_functions = [(7, sample_reference)]\<rparr>"
  have body: "instructions (f_body sample_reference) = [MakeWholeReference 1 Bool 0, Return 1]"
    by (simp add: sample_reference_def body_new_def)
  have cnt: "parameter_count sample_reference = Some 0"
    by (simp add: sample_reference_def sample_loop_def parameter_count_def)
  then obtain protected where p: "protected_slots ?prog = Some protected"
    by (simp add: protected_slots_def protect_function_def body protect_instruction_def Let_def)
  have "body_ok (f_body sample_reference)" "jumps_closed (instructions (f_body sample_reference))"
    "well_ended (instructions (f_body sample_reference))"
    by (simp add: sample_reference_def,
        simp_all add: jumps_closed_def well_ended_def body successors_def upt_rec)
  then obtain f' where f': "insert_function (protected 7) sample_reference = Some f'"
    using lowering_correct [OF _ cnt, of "protected 7"] by blast
  then have run: "insert_drops ?prog = Some \<lparr>metadata = md, drops_inserted = True, pg_functions = [(7, f')]\<rparr>"
    using p by (simp add: insert_drops_def)
  from reference_origins_kept [OF run]
  have "releases 0 (instructions (f_body f')) \<le> releases 0 (instructions (f_body sample_reference))"
    by (simp add: body reference_origin_def)
  then have "Drop 0 \<notin> set (instructions (f_body f'))" by (simp add: body releases_def count_list_0_iff)
  with run show "\<exists>f'. insert_drops ?prog =
       Some \<lparr>metadata = md, drops_inserted = True, pg_functions = [(7, f')]\<rparr> \<and>
     Drop 0 \<notin> set (instructions (f_body f'))" by blast
qed

end
