(* ===== verification/Flow_Types.thy ===== *)
theory Flow_Types
  imports Program
begin

text \<open>
  The logical type rules of the flow analysis, \<open>bytecode/src/codegen/flow/engine/types.rs\<close>, with
  the operation vocabulary of \<open>operations.rs\<close> and the callable schemas of \<open>flow.rs\<close>. A
  \<open>FosterError\<close> is the constructor of \<open>flow_error\<close> that names its message; \<open>Panic\<close> is a Rust
  panic (an index out of bounds, a missing map key, \<open>expect\<close>).
\<close>

section \<open>Schemas and operations\<close>

type_synonym flow_value = u32

datatype flow_error =
    Panic
  | UnavailableRead nat flow_value
  | UnavailableConsume nat flow_value
  | TypeMismatch nat string executable_type executable_type
  | RequiresType nat string executable_type
  | IncompatibleOperands nat binary_op executable_type executable_type
  | InvalidFlow nat string
  | PatternMismatch string

type_synonym 'a flow = "flow_error + 'a"

record function_schema =
  fs_name :: string
  fs_parameters :: "executable_type parameter list"
  fs_captures :: "executable_type list"
  fs_result_type :: executable_type
  fs_returns_reference :: bool
  fs_intrinsic_stub :: bool

datatype flow_instruction =
    FUnreachable
  | FDrop flow_value
  | FLoadConstant flow_value u16
  | FMove flow_value flow_value
  | FUnary flow_value unary_op flow_value
  | FBinary flow_value binary_op flow_value flow_value
  | FMakeList flow_value executable_type "flow_value list"
  | FIndex flow_value flow_value flow_value
  | FMakeRecord flow_value record_id "executable_type list" "(string \<times> flow_value) list"
  | FMakeVariant flow_value variant_id "executable_type list" "flow_value list"
  | FLoadField flow_value flow_value bool
  | FStoreField flow_value flow_value
  | FStoreIndex flow_value flow_value flow_value
  | FMakeReference flow_value executable_type flow_value flow_value
  | FMakeWholeReference flow_value executable_type flow_value
  | FMakeFieldReference string flow_value executable_type flow_value
  | FMoveOut bool flow_value flow_value
  | FPush flow_value flow_value flow_value
  | FAppend flow_value flow_value flow_value
  | FContains flow_value flow_value "flow_value list"
  | FBuiltin flow_value builtin "flow_value list"
  | FSpawnRemote flow_value flow_value
  | FSpawnRemoteBorrow flow_value flow_value
  | FRemoteCall flow_value flow_value function_id "(parameter_mode \<times> flow_value) list"
  | FAwait flow_value flow_value
  | FMatchPattern flow_value flow_value pattern "flow_value list"
  | FJump nat
  | FJumpIfFalse flow_value nat
  | FAssert flow_value "flow_value option"
  | FCall flow_value function_id specialization "flow_value list"
  | FCallMethod flow_value flow_value function_id specialization "flow_value list"
  | FCallContractMethod flow_value flow_value dispatch_slot string "flow_value list" executable_type
  | FMakeClosure flow_value function_id specialization "(capture_mode \<times> flow_value) list"
  | FCallValue flow_value flow_value "flow_value list"
  | FCallClosure flow_value function_id specialization "(capture_mode \<times> flow_value) list" "flow_value list"
  | FReturn flow_value
  | FCopyOnWrite flow_value flow_value
  | FEdge nat "(flow_value \<times> flow_value) list"

datatype storage_policy = ConsumingSlots | ImmutableValues

record flow_program =
  fp_metadata :: program_metadata
  fp_functions :: "(function_id, function_schema) hash_map"

record flow_body =
  fb_schema :: function_schema
  fb_instructions :: "flow_instruction list"
  fb_value_count :: nat
  fb_entry_values :: "flow_value list"
  fb_write_bindings :: "(flow_value, flow_value) hash_map"
  fb_storage_policy :: storage_policy

section \<open>Projections\<close>

fun position :: "('a \<Rightarrow> bool) \<Rightarrow> 'a list \<Rightarrow> nat option" where
  "position p [] = None"
| "position p (x # xs) = (if p x then Some 0 else map_option Suc (position p xs))"

text \<open>A map collected from pairs: the last entry of a key wins.\<close>

definition collect_map :: "('k \<times> 'v) list \<Rightarrow> 'k \<rightharpoonup> 'v" where
  "collect_map es = map_of (rev es)"

fun verification_field_type :: "program_metadata \<Rightarrow> executable_type \<Rightarrow> string \<Rightarrow> executable_type option" where
  "verification_field_type md (Reference pointee) field = verification_field_type md pointee field"
| "verification_field_type md (Record rec as) field =
     (case map_of (records md) rec of
        None \<Rightarrow> None
      | Some r \<Rightarrow>
          (case position (\<lambda>name. name = field) (rl_names (rr_layout r)) of
             None \<Rightarrow> None
           | Some index \<Rightarrow>
               (case get (rr_fields r) index of
                  None \<Rightarrow> None
                | Some fd \<Rightarrow> Some (substitute (collect_map (zip (rr_parameters r) as)) (rf_ty fd)))))"
| "verification_field_type md (List element) field =
     (if field = ''empty?'' then Some Bool
      else if field = ''length'' then Some Integer
      else if field = ''head'' then Some element
      else if field = ''rest'' then Some (List element)
      else None)"
| "verification_field_type md Unknown field = Some Unknown"
| "verification_field_type md _ field = None"

section \<open>Joins and compatibility\<close>

text \<open>\<open>merge_types\<close> returns a \<open>Result\<close> that is \<open>Ok\<close> on every path; the model is its value.\<close>

fun merge_types :: "executable_type \<Rightarrow> executable_type \<Rightarrow> executable_type" where
  "merge_types left right =
     (if left = right then left
      else if left = Unknown \<or> right = Unknown then Unknown
      else case left of
          List l \<Rightarrow> (case right of List r \<Rightarrow> List (merge_types l r) | _ \<Rightarrow> alternatives [left, right])
        | Reference l \<Rightarrow>
            (case right of Reference r \<Rightarrow> Reference (merge_types l r) | _ \<Rightarrow> alternatives [left, right])
        | Remote l \<Rightarrow> (case right of Remote r \<Rightarrow> Remote (merge_types l r) | _ \<Rightarrow> alternatives [left, right])
        | Future l \<Rightarrow> (case right of Future r \<Rightarrow> Future (merge_types l r) | _ \<Rightarrow> alternatives [left, right])
        | _ \<Rightarrow> alternatives [left, right])"

declare merge_types.simps [simp del]

definition unconstrained :: "executable_type \<Rightarrow> bool" where
  "unconstrained t = (case t of Unknown \<Rightarrow> True | Generic _ \<Rightarrow> True | _ \<Rightarrow> False)"

definition alternatives_of :: "executable_type \<Rightarrow> executable_type list option" where
  "alternatives_of t = (case t of Alternatives ts \<Rightarrow> Some ts | _ \<Rightarrow> None)"

lemma alternatives_of_size: "alternatives_of t = Some ts \<Longrightarrow> x \<in> set ts \<Longrightarrow> size x < size t"
  by (auto simp: alternatives_of_def size_list_estimation' less_Suc_eq_le split: executable_type.splits)

lemma size_parameter_ty:
  "p \<in> set ps \<Longrightarrow> size (ty p) < size (Function ps r)"
  using size_parameter_lt [of "ty p" p ps "size r"] by (simp add: parameter.set_sel)

lemma zip_parameter_sizes:
  assumes "(p, q) \<in> set (zip ps qs)"
  shows "size (ty p) + size (ty q) < size (Function ps r) + size (Function qs s)"
  using size_parameter_ty [of p ps r] size_parameter_ty [of q qs s]
    set_zip_leftD [OF assms] set_zip_rightD [OF assms] by linarith

function compatible :: "executable_type \<Rightarrow> executable_type \<Rightarrow> bool" where
  "compatible found expected =
     (if found = expected \<or> unconstrained found \<or> unconstrained expected then True
      else case alternatives_of found of
          Some fs \<Rightarrow> list_all (\<lambda>f. compatible f expected) fs
        | None \<Rightarrow>
            (case alternatives_of expected of
               Some es \<Rightarrow> list_ex (\<lambda>e. compatible found e) es
             | None \<Rightarrow>
                 (case found of
                    CodePoint \<Rightarrow> expected = Integer
                  | Byte \<Rightarrow> expected = Integer
                  | Record _ _ \<Rightarrow> (case expected of Record _ _ \<Rightarrow> True | _ \<Rightarrow> False)
                  | Variant _ _ \<Rightarrow> (case expected of Variant _ _ \<Rightarrow> True | _ \<Rightarrow> False)
                  | List f \<Rightarrow> (case expected of List e \<Rightarrow> compatible f e | _ \<Rightarrow> False)
                  | Reference f \<Rightarrow> (case expected of Reference e \<Rightarrow> compatible f e | _ \<Rightarrow> False)
                  | Remote f \<Rightarrow> (case expected of Remote e \<Rightarrow> compatible f e | _ \<Rightarrow> False)
                  | Future f \<Rightarrow> (case expected of Future e \<Rightarrow> compatible f e | _ \<Rightarrow> False)
                  | Function fps fr \<Rightarrow>
                      (case expected of
                         Function eps er \<Rightarrow>
                           length fps = length eps \<and>
                           list_all (\<lambda>(f, e). compatible (ty f) (ty e)) (zip fps eps) \<and>
                           compatible fr er
                       | _ \<Rightarrow> False)
                  | _ \<Rightarrow> False)))"
  by pat_completeness auto
termination
  by (relation "measure (\<lambda>(f, e). size f + size e)")
    (auto intro: alternatives_of_size zip_parameter_sizes [of _ _ _ _ r s for r s, simplified])

declare compatible.simps [simp del]

definition require_type ::
  "nat \<Rightarrow> executable_type \<Rightarrow> executable_type \<Rightarrow> string \<Rightarrow> unit flow" where
  "require_type index found expected role =
     (if compatible found expected then Inr () else Inl (TypeMismatch index role found expected))"

section \<open>Operators\<close>

definition is_integer_like :: "executable_type \<Rightarrow> bool" where
  "is_integer_like t = (case t of Integer \<Rightarrow> True | CodePoint \<Rightarrow> True | Byte \<Rightarrow> True | _ \<Rightarrow> False)"

definition unary_type :: "nat \<Rightarrow> unary_op \<Rightarrow> executable_type \<Rightarrow> executable_type flow" where
  "unary_type index operator operand =
     (if operator = Negate \<and> operand = Float then Inr Float
      else if operator = Negate \<and> is_integer_like operand then Inr Integer
      else if operator = Not \<and> operand = Bool then Inr Bool
      else if operator = BitNot \<and> operand = Byte then Inr Byte
      else if operand = Unknown then Inr Unknown
      else Inl (RequiresType index ''valid unary operand'' operand))"

definition is_comparison :: "binary_op \<Rightarrow> bool" where
  "is_comparison op = (op \<in> {Less, LessEqual, Greater, GreaterEqual})"

definition is_arithmetic :: "binary_op \<Rightarrow> bool" where
  "is_arithmetic op = (op \<in> {Add, Subtract, Multiply, Divide})"

definition binary_type ::
  "nat \<Rightarrow> binary_op \<Rightarrow> executable_type \<Rightarrow> executable_type \<Rightarrow> executable_type flow" where
  "binary_type index operator left right =
     (if operator \<in> {Equal, NotEqual} then
        (if is_integer_like left \<and> is_integer_like right then Inr Bool
         else try_bind (require_type index left right ''binary operand'') (\<lambda>_. Inr Bool))
      else if left = Unknown \<or> right = Unknown then Inr Unknown
      else if operator \<in> {BitAnd, BitOr, BitXor} \<and> left = Byte \<and> right = Byte then Inr Byte
      else if operator \<in> {ShiftLeft, ShiftRight} \<and> left = Byte \<and> right = Integer then Inr Byte
      else if is_integer_like left \<and> is_integer_like right then
        (if is_comparison operator then Inr Bool
         else if is_arithmetic operator then Inr Integer
         else Inl (RequiresType index ''valid integer operation'' left))
      else if left = Float \<and> right = Float then
        (if is_comparison operator then Inr Bool
         else if is_arithmetic operator then Inr Float
         else Inl (RequiresType index ''valid float operation'' left))
      else if operator = Add \<and> left = right then Inr left
      else Inl (IncompatibleOperands index operator left right))"

section \<open>Metadata types\<close>

definition nominal_record :: "record_id \<Rightarrow> executable_type" where
  "nominal_record rec = Record rec []"

definition optional_record :: "record_id option \<Rightarrow> executable_type" where
  "optional_record rec = (case rec of None \<Rightarrow> Unknown | Some r \<Rightarrow> nominal_record r)"

fun constant_type :: "program_metadata \<Rightarrow> program_constant \<Rightarrow> executable_type" where
  "constant_type md Unit_const = Unit"
| "constant_type md (Bool_const _) = Bool"
| "constant_type md (Integer_const _) = Integer"
| "constant_type md (Float_const _) = Float"
| "constant_type md (String_const _) = optional_record (string_record md)"
| "constant_type md (CodePoint_const _) = CodePoint"
| "constant_type md (Symbol_const _) = optional_record (symbol_record md)"

definition record_type :: "program_metadata \<Rightarrow> record_id \<Rightarrow> executable_type" where
  "record_type md rec =
     (if Some rec = list_record md then List Unknown
      else if Some rec = bytes_record md then Bytes
      else nominal_record rec)"

definition is_foster_byte_buffer :: "program_metadata \<Rightarrow> executable_type \<Rightarrow> bool" where
  "is_foster_byte_buffer md t =
     (case t of Record rec _ \<Rightarrow> Some rec = byte_buffer_record md | _ \<Rightarrow> False)"

fun indexed_element_type :: "program_metadata \<Rightarrow> executable_type \<Rightarrow> executable_type option" where
  "indexed_element_type md (Reference pointee) = indexed_element_type md pointee"
| "indexed_element_type md t = (if is_foster_byte_buffer md t then Some Byte else indexed_element t)"

definition callable_type :: "function_schema \<Rightarrow> executable_type" where
  "callable_type f = Function (fs_parameters f) (fs_result_type f)"

fun intrinsic_verification_type :: "program_metadata \<Rightarrow> intrinsic_type \<Rightarrow> executable_type" where
  "intrinsic_verification_type md Any_ty = Unknown"
| "intrinsic_verification_type md Unit_ty = Unit"
| "intrinsic_verification_type md Bool_ty = Bool"
| "intrinsic_verification_type md Integer_ty = Integer"
| "intrinsic_verification_type md Float_ty = Float"
| "intrinsic_verification_type md CodePoint_ty = CodePoint"
| "intrinsic_verification_type md Byte_ty = Byte"
| "intrinsic_verification_type md Bytes_ty = Bytes"
| "intrinsic_verification_type md ByteBuffer_ty = ByteBuffer"
| "intrinsic_verification_type md String_ty = optional_record (string_record md)"
| "intrinsic_verification_type md ListInteger_ty = List Integer"
| "intrinsic_verification_type md ListFloat_ty = List Float"
| "intrinsic_verification_type md ListByte_ty = List Byte"

section \<open>Patterns\<close>

text \<open>\<open>unspanned\<close> strips every span before the match: the first equation of each function.\<close>

fun pattern_irrefutable :: "pattern \<Rightarrow> bool" where
  "pattern_irrefutable (Spanned p _) = pattern_irrefutable p"
| "pattern_irrefutable Wildcard = True"
| "pattern_irrefutable (Binding _) = True"
| "pattern_irrefutable (Record_pat fs) = list_all (\<lambda>(_, p). pattern_irrefutable p) fs"
| "pattern_irrefutable _ = False"

definition fully_covered_variant :: "pattern \<Rightarrow> variant_id option" where
  "fully_covered_variant p =
     (case unspanned p of
        Variant_pat variant fs \<Rightarrow> if list_all pattern_irrefutable fs then Some variant else None
      | _ \<Rightarrow> None)"

text \<open>\<open>From<BTreeMap>\<close>: the entries in key order.\<close>

definition specialization_from :: "(string \<rightharpoonup> executable_type) \<Rightarrow> specialization" where
  "specialization_from m = map (\<lambda>name. (name, the (m name))) (sorted_list_of_set (dom m))"

end
