(* ===== verification/Flow_State.thy ===== *)
theory Flow_State
  imports Flow_Types
begin

text \<open>
  The state of the flow analysis, \<open>bytecode/src/codegen/flow/engine/state.rs\<close>: availability of
  values, evidence from branches and patterns, reads, consumption, assignment through references
  and the join of two states. The hash maps of a state are association lists with distinct keys.
\<close>

section \<open>States\<close>

record pending_pattern =
  pp_conditions :: "flow_value list"
  pp_bindings :: "(flow_value \<times> executable_type) list"
  pp_irrefutable :: bool
  pp_covered_variant :: "(flow_value list \<times> variant_id) option"
  pp_refined_subject :: "(flow_value list \<times> executable_type) option"

record flow_state =
  fl_bindings :: "executable_type option list"
  fl_booleans :: "(flow_value, bool) hash_map"
  fl_pending :: "pending_pattern option"
  fl_excluded :: "(flow_value, variant_id set) hash_map"

definition map_remove :: "'k \<Rightarrow> ('k, 'v) hash_map \<Rightarrow> ('k, 'v) hash_map" where
  "map_remove k m = [e \<leftarrow> m. fst e \<noteq> k]"

definition map_insert :: "'k \<Rightarrow> 'v \<Rightarrow> ('k, 'v) hash_map \<Rightarrow> ('k, 'v) hash_map" where
  "map_insert k v m = (k, v) # map_remove k m"

text \<open>\<open>bindings[value.index()]\<close>, read and written; out of bounds is a panic.\<close>

definition binding :: "flow_state \<Rightarrow> flow_value \<Rightarrow> executable_type option flow" where
  "binding s v = (case get (fl_bindings s) (unat v) of None \<Rightarrow> Inl Panic | Some b \<Rightarrow> Inr b)"

definition set_binding :: "flow_value \<Rightarrow> executable_type option \<Rightarrow> flow_state \<Rightarrow> flow_state flow" where
  "set_binding v b s =
     (if unat v < length (fl_bindings s)
      then Inr (s\<lparr>fl_bindings := (fl_bindings s)[unat v := b]\<rparr>) else Inl Panic)"

definition forget :: "flow_value \<Rightarrow> flow_state \<Rightarrow> flow_state" where
  "forget v s = s\<lparr>fl_booleans := map_remove v (fl_booleans s), fl_excluded := map_remove v (fl_excluded s)\<rparr>"

section \<open>Reads\<close>

definition bound_type :: "nat \<Rightarrow> flow_state \<Rightarrow> flow_value \<Rightarrow> executable_type flow" where
  "bound_type index s v =
     try_bind (binding s v) (\<lambda>b. case b of None \<Rightarrow> Inl (UnavailableRead index v) | Some t \<Rightarrow> Inr t)"

fun readable_type :: "executable_type \<Rightarrow> executable_type" where
  "readable_type (Reference value) = value"
| "readable_type (Alternatives members) =
     (case map readable_type members of
        [] \<Rightarrow> Unknown
      | first # rest \<Rightarrow> fold (\<lambda>member result. merge_types result member) rest first)"
| "readable_type t = t"

definition read_type :: "nat \<Rightarrow> flow_state \<Rightarrow> flow_value \<Rightarrow> executable_type flow" where
  "read_type index s v = try_bind (bound_type index s v) (\<lambda>t. Inr (readable_type t))"

definition take_type ::
  "flow_body \<Rightarrow> nat \<Rightarrow> flow_value \<Rightarrow> flow_state \<Rightarrow> (executable_type \<times> flow_state) flow" where
  "take_type body index v s =
     (if fb_storage_policy body = ImmutableValues
      then try_bind (bound_type index s v) (\<lambda>t. Inr (t, s))
      else try_bind (binding s v) (\<lambda>b.
          case b of
            None \<Rightarrow> Inl (UnavailableConsume index v)
          | Some t \<Rightarrow> try_bind (set_binding v None (forget v s)) (\<lambda>s. Inr (t, s))))"

section \<open>Writes\<close>

definition assignment_binding ::
  "flow_body \<Rightarrow> flow_state \<Rightarrow> flow_value \<Rightarrow> executable_type option flow" where
  "assignment_binding body s destination =
     (if fb_storage_policy body = ImmutableValues
      then (case map_of (fb_write_bindings body) destination of
              None \<Rightarrow> Inr None
            | Some previous \<Rightarrow> binding s previous)
      else binding s destination)"

definition write_type ::
  "flow_body \<Rightarrow> nat \<Rightarrow> flow_value \<Rightarrow> executable_type \<Rightarrow> flow_state \<Rightarrow> flow_state flow" where
  "write_type body index v value s =
     (let s = forget v s
      in try_bind (assignment_binding body s v) (\<lambda>previous.
           case previous of
             Some (Reference target) \<Rightarrow>
               try_bind (require_type index value target ''reference assignment'') (\<lambda>_.
                 set_binding v (Some (Reference target)) (s\<lparr>fl_booleans := []\<rparr>))
           | _ \<Rightarrow> set_binding v (Some value) s))"

section \<open>Joins\<close>

definition merge_binding :: "executable_type option \<Rightarrow> executable_type option \<Rightarrow> executable_type option" where
  "merge_binding l r =
     (case (l, r) of (Some lt, Some rt) \<Rightarrow> Some (merge_types lt rt) | _ \<Rightarrow> None)"

text \<open>The zip of the two vectors: what the shorter one does not reach is left alone.\<close>

definition merge_bindings ::
  "executable_type option list \<Rightarrow> executable_type option list \<Rightarrow> executable_type option list" where
  "merge_bindings ls rs = map2 merge_binding ls rs @ drop (length rs) ls"

definition merge_excluded ::
  "(flow_value, variant_id set) hash_map \<Rightarrow> (flow_value, variant_id set) hash_map \<Rightarrow>
   (flow_value, variant_id set) hash_map" where
  "merge_excluded current incoming =
     [e \<leftarrow> map (\<lambda>(v, excluded).
        (v, case map_of incoming v of None \<Rightarrow> {} | Some other \<Rightarrow> excluded \<inter> other)) current. snd e \<noteq> {}]"

definition excluded_changed ::
  "(flow_value, variant_id set) hash_map \<Rightarrow> (flow_value, variant_id set) hash_map \<Rightarrow> bool" where
  "excluded_changed current incoming =
     list_ex (\<lambda>(v, excluded).
       case map_of incoming v of None \<Rightarrow> True | Some other \<Rightarrow> excluded \<inter> other \<noteq> excluded) current"

definition merge_state :: "flow_state \<Rightarrow> flow_state \<Rightarrow> flow_state \<times> bool" where
  "merge_state current incoming =
     (let bs = merge_bindings (fl_bindings current) (fl_bindings incoming);
          pending = (if fl_pending current = fl_pending incoming then fl_pending current else None);
          booleans = [e \<leftarrow> fl_booleans current. map_of (fl_booleans incoming) (fst e) = Some (snd e)]
      in (current\<lparr>fl_bindings := bs, fl_pending := pending,
            fl_excluded := merge_excluded (fl_excluded current) (fl_excluded incoming),
            fl_booleans := booleans\<rparr>,
          bs \<noteq> fl_bindings current \<or> pending \<noteq> fl_pending current \<or>
          excluded_changed (fl_excluded current) (fl_excluded incoming) \<or>
          length booleans \<noteq> length (fl_booleans current)))"

end
