(* ===== verification/Flow_Transfer.thy ===== *)
theory Flow_Transfer
  imports Flow_State
begin

text \<open>
  The transfer rules of the flow analysis: values, remote operations and control edges
  (\<open>bytecode/src/codegen/flow/engine/transfer.rs\<close>) and calls, closures and returns
  (\<open>calls.rs\<close>). A rule returns the successors of an instruction with the state that flows
  there, or the reason the code is rejected.
\<close>

section \<open>Patterns\<close>

definition borrowed_pattern_type :: "bool \<Rightarrow> executable_type \<Rightarrow> executable_type" where
  "borrowed_pattern_type borrowed t =
     (if borrowed then (case t of Reference _ \<Rightarrow> t | _ \<Rightarrow> Reference t) else t)"

definition is_reference :: "executable_type \<Rightarrow> bool" where
  "is_reference t = (case t of Reference _ \<Rightarrow> True | _ \<Rightarrow> False)"

definition pointee :: "executable_type \<Rightarrow> executable_type" where
  "pointee t = (case t of Reference v \<Rightarrow> v | _ \<Rightarrow> t)"

definition record_like :: "executable_type \<Rightarrow> bool" where
  "record_like t = (case t of Record _ _ \<Rightarrow> True | Unknown \<Rightarrow> True | _ \<Rightarrow> False)"

definition payload_substitution :: "runtime_variant \<Rightarrow> executable_type \<Rightarrow> string \<rightharpoonup> executable_type" where
  "payload_substitution v subject =
     (case subject of Variant _ as \<Rightarrow> collect_map (zip (rv_parameters v) as) | _ \<Rightarrow> Map.empty)"

fun pattern_binding_types ::
  "program_metadata \<Rightarrow> pattern \<Rightarrow> executable_type \<Rightarrow> executable_type list flow"
  and record_field_types ::
  "program_metadata \<Rightarrow> executable_type \<Rightarrow> bool \<Rightarrow> string set \<Rightarrow> (string \<times> pattern) list \<Rightarrow> executable_type list flow"
  and payload_types ::
  "program_metadata \<Rightarrow> (string \<rightharpoonup> executable_type) \<Rightarrow> bool \<Rightarrow> pattern list \<Rightarrow> executable_type list \<Rightarrow> executable_type list flow"
where
  "pattern_binding_types md (Spanned p _) subject = pattern_binding_types md p subject"
| "pattern_binding_types md (Binding _) subject = Inr [subject]"
| "pattern_binding_types md (IsType _ _ _ bnd) subject =
     Inr (case bnd of Some _ \<Rightarrow> [Unknown] | None \<Rightarrow> [])"
| "pattern_binding_types md (Record_pat fs) subject =
     (if \<not> record_like (pointee subject) then Inl (PatternMismatch ''record pattern requires a record subject'')
      else record_field_types md (pointee subject) (is_reference subject) {} fs)"
| "pattern_binding_types md (Variant_pat variant fs) subject =
     (case map_of (variants md) variant of
        None \<Rightarrow> Inl (PatternMismatch ''pattern references a missing enum case'')
      | Some v \<Rightarrow>
          if length fs \<noteq> length (rv_payload v)
          then Inl (PatternMismatch ''pattern has the wrong number of enum payload fields'')
          else payload_types md (payload_substitution v (pointee subject)) (is_reference subject) fs (rv_payload v))"
| "pattern_binding_types md _ subject = Inr []"
| "record_field_types md subject borrowed names [] = Inr []"
| "record_field_types md subject borrowed names ((name, p) # fs) =
     (if name \<in> names then Inl (PatternMismatch ''duplicate field in record pattern'')
      else case verification_field_type md subject name of
          None \<Rightarrow> Inl (PatternMismatch ''record pattern selects missing field'')
        | Some t \<Rightarrow>
            try_bind (pattern_binding_types md p (borrowed_pattern_type borrowed t)) (\<lambda>bs.
            try_bind (record_field_types md subject borrowed (insert name names) fs) (\<lambda>rest. Inr (bs @ rest))))"
| "payload_types md m borrowed (p # ps) (schema # schemas) =
     try_bind (pattern_binding_types md p (borrowed_pattern_type borrowed (substitute m schema))) (\<lambda>bs.
     try_bind (payload_types md m borrowed ps schemas) (\<lambda>rest. Inr (bs @ rest)))"
| "payload_types md m borrowed _ _ = Inr []"

definition supported_type_pattern :: "program_metadata \<Rightarrow> executable_type \<Rightarrow> bool" where
  "supported_type_pattern md target =
     (case target of
        Never \<Rightarrow> True | Unit \<Rightarrow> True | Bool \<Rightarrow> True | Integer \<Rightarrow> True | Float \<Rightarrow> True | Byte \<Rightarrow> True
      | CodePoint \<Rightarrow> True | Bytes \<Rightarrow> True
      | Record rec as \<Rightarrow> as = [] \<and> map_of (records md) rec \<noteq> None
      | Variant variant as \<Rightarrow> as = [] \<and> list_ex (\<lambda>(_, v). rv_parent v = variant) (variants md)
      | _ \<Rightarrow> False)"

section \<open>Arguments and captures\<close>

definition argument_found :: "parameter_mode \<Rightarrow> executable_type \<Rightarrow> executable_type \<Rightarrow> executable_type" where
  "argument_found expected_mode bound expected =
     (case expected_mode of
        Consume \<Rightarrow> bound
      | Borrow \<Rightarrow>
          if compatible bound expected then bound
          else if is_reference expected \<and> compatible bound (pointee expected) then Reference bound
          else readable_type bound)"

definition verify_argument ::
  "nat \<Rightarrow> flow_state \<Rightarrow> (parameter_mode \<times> flow_value) \<times> parameter_mode \<times> executable_type \<Rightarrow> unit flow" where
  "verify_argument index s item =
     (case item of ((encoded_mode, v), expected_mode, expected) \<Rightarrow>
        if encoded_mode \<noteq> expected_mode
        then Inl (InvalidFlow index ''has inconsistent argument ownership modes'')
        else try_bind (bound_type index s v) (\<lambda>bound.
          require_type index (argument_found expected_mode bound expected) expected ''call argument''))"

definition consume_argument ::
  "flow_body \<Rightarrow> nat \<Rightarrow> flow_value \<times> bool \<Rightarrow> flow_state \<Rightarrow> flow_state flow" where
  "consume_argument body index item s =
     (case item of (v, consumed) \<Rightarrow>
        if consumed then try_bind (take_type body index v s) (\<lambda>(_, s). Inr s) else Inr s)"

definition verify_arguments ::
  "flow_body \<Rightarrow> nat \<Rightarrow> (parameter_mode \<times> flow_value) list \<Rightarrow> parameter_mode list \<Rightarrow> executable_type list \<Rightarrow>
   flow_state \<Rightarrow> flow_state flow" where
  "verify_arguments body index actual modes types s =
     (if length actual \<noteq> length modes \<or> length actual \<noteq> length types
      then Inl (InvalidFlow index ''has an invalid argument layout'')
      else try_bind (try_for_each (verify_argument index s) (zip actual (zip modes types))) (\<lambda>_.
        try_fold (consume_argument body index)
          (map (\<lambda>((_, v), m). (v, m = Consume)) (zip actual modes)) s))"

definition verify_capture ::
  "nat \<Rightarrow> flow_state \<Rightarrow> (capture_mode \<times> flow_value) \<times> executable_type \<Rightarrow> unit flow" where
  "verify_capture index s item =
     (case item of ((m, v), expected) \<Rightarrow>
        try_bind
          (case m of
             Move_capture \<Rightarrow> bound_type index s v
           | Ref_capture \<Rightarrow> try_bind (bound_type index s v) (\<lambda>t. Inr (if is_reference t then t else Reference t))
           | _ \<Rightarrow> read_type index s v)
          (\<lambda>found. require_type index found expected ''closure capture''))"

definition verify_captures ::
  "flow_body \<Rightarrow> nat \<Rightarrow> (capture_mode \<times> flow_value) list \<Rightarrow> executable_type list \<Rightarrow> flow_state \<Rightarrow> flow_state flow" where
  "verify_captures body index captures expected s =
     (if length captures \<noteq> length expected then Inl (InvalidFlow index ''has an invalid capture layout'')
      else try_bind (try_for_each (verify_capture index s) (zip captures expected)) (\<lambda>_.
        try_fold (consume_argument body index) (map (\<lambda>(m, v). (v, m = Move_capture)) captures) s))"

section \<open>Shared steps\<close>

type_synonym successors_of = "(nat \<times> flow_state) list"

definition target_schema :: "flow_program \<Rightarrow> function_id \<Rightarrow> function_schema flow" where
  "target_schema prog f = (case map_of (fp_functions prog) f of None \<Rightarrow> Inl Panic | Some g \<Rightarrow> Inr g)"

definition continue :: "nat \<Rightarrow> flow_state \<Rightarrow> successors_of flow" where
  "continue index s = Inr [(index + 1, s)]"

definition write_next ::
  "flow_body \<Rightarrow> nat \<Rightarrow> flow_value \<Rightarrow> executable_type \<Rightarrow> flow_state \<Rightarrow> successors_of flow" where
  "write_next body index v t s = try_bind (write_type body index v t s) (continue index)"

text \<open>After a call: a destination of type \<open>Never\<close> has no successor.\<close>

definition write_call ::
  "flow_body \<Rightarrow> nat \<Rightarrow> flow_value \<Rightarrow> executable_type \<Rightarrow> flow_state \<Rightarrow> successors_of flow" where
  "write_call body index v t s =
     try_bind (write_type body index v t s) (\<lambda>s.
     try_bind (binding s v) (\<lambda>b. if b = Some Never then Inr [] else continue index s))"

abbreviation parameter_types :: "function_schema \<Rightarrow> executable_type list" where
  "parameter_types f \<equiv> map ty (fs_parameters f)"

abbreviation parameter_modes :: "function_schema \<Rightarrow> parameter_mode list" where
  "parameter_modes f \<equiv> map mode (fs_parameters f)"

text \<open>What a store through \<open>object\<close> requires of the element.\<close>

definition require_element ::
  "program_metadata \<Rightarrow> nat \<Rightarrow> string \<Rightarrow> executable_type \<Rightarrow> executable_type \<Rightarrow> unit flow" where
  "require_element md index expected obj val =
     (case obj of
        List element \<Rightarrow> require_type index val element ''list element''
      | ByteBuffer \<Rightarrow> require_type index val Byte ''byte-buffer element''
      | Unknown \<Rightarrow> Inr ()
      | _ \<Rightarrow> if is_foster_byte_buffer md obj then require_type index val Byte ''byte-buffer element''
             else Inl (RequiresType index expected obj))"

end
