(* ===== verification/Worklist.thy ===== *)
theory Worklist
  imports Prelude
begin

text \<open>
  The worklist of \<open>analyze_function_flow\<close> (\<open>bytecode/src/codegen/flow/engine.rs\<close>), over any
  state: \<open>transfer\<close> yields the successors of an instruction, \<open>merge\<close> joins a state into a stored
  one and tells whether the stored one changed. The loop may run for ever, so its value is
  \<open>None\<close> when it does. The locale \<open>dataflow\<close> states what the loop needs of the two.
\<close>

section \<open>The loop\<close>

record 's worklist =
  wl_states :: "'s option list"
  wl_pending :: "nat list"

definition deliver ::
  "('s \<Rightarrow> 's \<Rightarrow> 's \<times> bool) \<Rightarrow> 'e \<Rightarrow> nat \<times> 's \<Rightarrow> 's worklist \<Rightarrow> 'e + 's worklist" where
  "deliver merge off_end item w =
     (case item of (successor, incoming) \<Rightarrow>
        case get (wl_states w) successor of
          None \<Rightarrow> Inl off_end
        | Some None \<Rightarrow>
            Inr (w\<lparr>wl_states := (wl_states w)[successor := Some incoming],
                   wl_pending := wl_pending w @ [successor]\<rparr>)
        | Some (Some current) \<Rightarrow>
            (case merge current incoming of (merged, changed) \<Rightarrow>
               Inr (w\<lparr>wl_states := (wl_states w)[successor := Some merged],
                      wl_pending := wl_pending w @ (if changed then [successor] else [])\<rparr>)))"

definition work_step ::
  "(nat \<Rightarrow> 's \<Rightarrow> 'e + (nat \<times> 's) list) \<Rightarrow> ('s \<Rightarrow> 's \<Rightarrow> 's \<times> bool) \<Rightarrow> (nat \<Rightarrow> 'e) \<Rightarrow> 'e \<Rightarrow>
   nat \<Rightarrow> 's worklist \<Rightarrow> 'e + 's worklist" where
  "work_step transfer merge off_end stuck index w =
     (case get (wl_states w) index of
        Some (Some s) \<Rightarrow> try_bind (transfer index s) (\<lambda>ss. try_fold (deliver merge (off_end index)) ss w)
      | _ \<Rightarrow> Inl stuck)"

partial_function (option) work_loop ::
  "(nat \<Rightarrow> 's \<Rightarrow> 'e + (nat \<times> 's) list) \<Rightarrow> ('s \<Rightarrow> 's \<Rightarrow> 's \<times> bool) \<Rightarrow> (nat \<Rightarrow> 'e) \<Rightarrow> 'e \<Rightarrow>
   's worklist \<Rightarrow> ('e + 's option list) option" where
  "work_loop transfer merge off_end stuck w =
     (case wl_pending w of
        [] \<Rightarrow> Some (Inr (wl_states w))
      | index # rest \<Rightarrow>
          (case work_step transfer merge off_end stuck index (w\<lparr>wl_pending := rest\<rparr>) of
             Inl e \<Rightarrow> Some (Inl e)
           | Inr w \<Rightarrow> work_loop transfer merge off_end stuck w))"

definition work_start :: "nat \<Rightarrow> 's \<Rightarrow> 's worklist" where
  "work_start n s = \<lparr>wl_states = (replicate n None)[0 := Some s], wl_pending = [0]\<rparr>"

section \<open>The contract\<close>

locale dataflow =
  fixes transfer :: "nat \<Rightarrow> 's \<Rightarrow> 'e + (nat \<times> 's) list"
    and merge :: "'s \<Rightarrow> 's \<Rightarrow> 's \<times> bool"
    and off_end :: "nat \<Rightarrow> 'e"
    and stuck :: 'e
    and ok :: "'s \<Rightarrow> bool"
    and le :: "'s \<Rightarrow> 's \<Rightarrow> bool"
  assumes le_refl: "le s s"
    and le_trans: "le s t \<Longrightarrow> le t u \<Longrightarrow> le s u"
    and merge_ok: "ok t \<Longrightarrow> ok s \<Longrightarrow> ok (fst (merge t s))"
    and merge_upper: "ok t \<Longrightarrow> ok s \<Longrightarrow> le t (fst (merge t s)) \<and> le s (fst (merge t s))"
    and merge_same: "ok t \<Longrightarrow> ok s \<Longrightarrow> \<not> snd (merge t s) \<Longrightarrow> fst (merge t s) = t"
    and transfer_ok: "ok s \<Longrightarrow> transfer i s = Inr ss \<Longrightarrow> (j, t) \<in> set ss \<Longrightarrow> ok t"
begin

definition reached :: "'s option list \<Rightarrow> nat \<times> 's \<Rightarrow> bool" where
  "reached st item = (\<exists>t. fst item < length st \<and> st ! fst item = Some t \<and> le (snd item) t)"

definition closed :: "'s option list \<Rightarrow> nat \<Rightarrow> bool" where
  "closed st i = (\<forall>s. st ! i = Some s \<longrightarrow> (\<exists>ss. transfer i s = Inr ss \<and> (\<forall>item \<in> set ss. reached st item)))"

definition grows :: "'s option list \<Rightarrow> 's option list \<Rightarrow> bool" where
  "grows st st' = (length st' = length st \<and> (\<forall>i s. i < length st \<longrightarrow> st ! i = Some s \<longrightarrow> reached st' (i, s)))"

definition good :: "'s worklist \<Rightarrow> bool" where
  "good w = ((\<forall>i s. i < length (wl_states w) \<longrightarrow> wl_states w ! i = Some s \<longrightarrow> ok s) \<and>
     (\<forall>i \<in> set (wl_pending w). i < length (wl_states w) \<and> wl_states w ! i \<noteq> None))"

definition queued_changes :: "'s worklist \<Rightarrow> 's worklist \<Rightarrow> bool" where
  "queued_changes w w' = (set (wl_pending w) \<subseteq> set (wl_pending w') \<and>
     (\<forall>i < length (wl_states w). wl_states w' ! i \<noteq> wl_states w ! i \<longrightarrow> i \<in> set (wl_pending w')))"

definition extends :: "'s worklist \<Rightarrow> 's worklist \<Rightarrow> bool" where
  "extends w w' = (good w' \<and> grows (wl_states w) (wl_states w') \<and> queued_changes w w')"

lemma grows_refl: "grows st st"
  by (auto simp: grows_def reached_def le_refl)

lemma grows_trans: "grows st st' \<Longrightarrow> grows st' st'' \<Longrightarrow> grows st st''"
  unfolding grows_def reached_def by (metis fst_conv le_trans snd_conv)

lemma reached_grows: "reached st item \<Longrightarrow> grows st st' \<Longrightarrow> reached st' item"
  unfolding grows_def reached_def by (metis fst_conv le_trans snd_conv)

lemma extends_refl: "good w \<Longrightarrow> extends w w"
  by (simp add: extends_def grows_refl queued_changes_def)

lemma extends_trans:
  assumes "extends w w'" "extends w' w''"
  shows "extends w w''"
proof -
  have "queued_changes w w''"
    unfolding queued_changes_def
  proof (intro conjI allI impI)
    show "set (wl_pending w) \<subseteq> set (wl_pending w'')"
      using assms by (auto simp: extends_def queued_changes_def)
    fix i assume "i < length (wl_states w)" "wl_states w'' ! i \<noteq> wl_states w ! i"
    then show "i \<in> set (wl_pending w'')"
      using assms by (cases "wl_states w'' ! i = wl_states w' ! i")
        (auto simp: extends_def queued_changes_def grows_def)
  qed
  then show ?thesis using assms by (auto simp: extends_def intro: grows_trans)
qed

lemma good_update:
  "good w \<Longrightarrow> j < length (wl_states w) \<Longrightarrow> ok s \<Longrightarrow> set ps \<subseteq> {j} \<Longrightarrow>
   good (w\<lparr>wl_states := (wl_states w)[j := Some s], wl_pending := wl_pending w @ ps\<rparr>)"
  by (auto simp: good_def nth_list_update)

lemma deliver_extends:
  assumes "deliver merge e (j, u) w = Inr w'" "good w" "ok u"
  shows "extends w w' \<and> reached (wl_states w') (j, u)"
proof (cases "wl_states w ! j")
  case None
  then have j: "j < length (wl_states w)"
    and w': "w' = w\<lparr>wl_states := (wl_states w)[j := Some u], wl_pending := wl_pending w @ [j]\<rparr>"
    using assms(1) by (auto simp: deliver_def get_def split: if_splits)
  have "good w'" unfolding w' using good_update [of w j u "[j]"] j assms by simp
  moreover have "grows (wl_states w) (wl_states w')"
    using None j by (auto simp: grows_def reached_def w' nth_list_update le_refl)
  ultimately show ?thesis
    using j by (auto simp: extends_def queued_changes_def reached_def w' le_refl nth_list_update split: if_splits)
next
  case (Some t)
  obtain m c where m: "merge t u = (m, c)" by fastforce
  have j: "j < length (wl_states w)"
    and w': "w' = w\<lparr>wl_states := (wl_states w)[j := Some m],
                    wl_pending := wl_pending w @ (if c then [j] else [])\<rparr>"
    using assms(1) Some m by (auto simp: deliver_def get_def split: if_splits)
  have t: "ok t" using assms(2) j Some by (auto simp: good_def)
  have laws: "ok m" "le t m" "le u m" "c \<or> m = t"
    using merge_ok [OF t assms(3)] merge_upper [OF t assms(3)] merge_same [OF t assms(3)] m by auto
  have "good w'" unfolding w'
    by (rule good_update) (use j assms laws in auto)
  moreover have "grows (wl_states w) (wl_states w')"
    using Some j laws by (auto simp: grows_def reached_def w' nth_list_update le_refl)
  ultimately show ?thesis
    using j laws Some by (auto simp: extends_def queued_changes_def reached_def w' nth_list_update split: if_splits)
qed

lemma deliver_all_extends:
  "try_fold (deliver merge e) ss w = Inr w' \<Longrightarrow> good w \<Longrightarrow> \<forall>item \<in> set ss. ok (snd item) \<Longrightarrow>
   extends w w' \<and> (\<forall>item \<in> set ss. reached (wl_states w') item)"
proof (induction ss arbitrary: w)
  case Nil
  then show ?case by (simp add: extends_refl)
next
  case (Cons item ss)
  obtain w1 where w1: "deliver merge e item w = Inr w1" "try_fold (deliver merge e) ss w1 = Inr w'"
    using Cons.prems(1) by auto
  have first: "extends w w1 \<and> reached (wl_states w1) item"
    using deliver_extends [of e "fst item" "snd item" w w1] w1(1) Cons.prems by simp
  moreover have rest: "extends w1 w' \<and> (\<forall>item \<in> set ss. reached (wl_states w') item)"
    using Cons.IH [OF w1(2)] first Cons.prems(3) by (auto simp: extends_def)
  moreover have "extends w w'" using first rest extends_trans by blast
  moreover have "reached (wl_states w') item"
    using first rest reached_grows unfolding extends_def by blast
  ultimately show ?case by simp
qed

definition invariant :: "'s worklist \<Rightarrow> bool" where
  "invariant w = (good w \<and> (\<forall>i < length (wl_states w). i \<in> set (wl_pending w) \<or> closed (wl_states w) i))"

lemma closed_grows:
  "closed st i \<Longrightarrow> grows st st' \<Longrightarrow> st' ! i = st ! i \<Longrightarrow> closed st' i"
  by (fastforce simp: closed_def intro: reached_grows)

lemma work_step_invariant:
  assumes step: "work_step transfer merge off_end stuck index (w\<lparr>wl_pending := rest\<rparr>) = Inr w'"
    and inv: "invariant w" and pending: "wl_pending w = index # rest"
  shows "invariant w' \<and> grows (wl_states w) (wl_states w')"
proof -
  let ?w = "w\<lparr>wl_pending := rest\<rparr>"
  obtain s ss where s: "index < length (wl_states w)" "wl_states w ! index = Some s"
    and ss: "transfer index s = Inr ss" "try_fold (deliver merge (off_end index)) ss ?w = Inr w'"
    using step by (auto simp: work_step_def get_def split: if_splits option.splits)
  have good: "good ?w" and ok: "ok s" using inv pending s by (auto simp: invariant_def good_def)
  have ext: "extends ?w w'" and all: "\<forall>item \<in> set ss. reached (wl_states w') item"
    using deliver_all_extends [OF ss(2) good] transfer_ok [OF ok ss(1)] by (metis prod.collapse)+
  then have grows: "grows (wl_states w) (wl_states w')" by (simp add: extends_def)
  have "i \<in> set (wl_pending w') \<or> closed (wl_states w') i" if i: "i < length (wl_states w')" for i
  proof (cases "wl_states w' ! i = wl_states w ! i")
    case False
    then show ?thesis using ext i by (auto simp: extends_def queued_changes_def grows_def)
  next
    case True
    consider "i = index" | "i \<in> set rest" | "closed (wl_states w) i"
      using inv i grows pending by (auto simp: invariant_def grows_def)
    then show ?thesis
    proof cases
      case 1
      then show ?thesis using True s ss(1) all by (simp add: closed_def)
    next
      case 2
      then show ?thesis using ext by (auto simp: extends_def queued_changes_def)
    next
      case 3
      then show ?thesis using closed_grows [OF _ grows] True by simp
    qed
  qed
  then show ?thesis using ext grows by (simp add: invariant_def extends_def)
qed

theorem work_loop_closed:
  assumes "work_loop transfer merge off_end stuck w = Some (Inr st)" "invariant w"
  shows "grows (wl_states w) st \<and> (\<forall>i < length st. closed st i)"
proof -
  have "f = transfer \<and> m = merge \<and> e = off_end \<and> p = stuck \<and> res = Inr st \<and> invariant w \<longrightarrow>
      grows (wl_states w) st \<and> (\<forall>i < length st. closed st i)"
    if "work_loop f m e p w = Some res" for f m e p w res
  proof (rule work_loop.raw_induct [where P = "\<lambda>f m e p w res. f = transfer \<and> m = merge \<and> e = off_end \<and>
      p = stuck \<and> res = Inr st \<and> invariant w \<longrightarrow>
      grows (wl_states w) st \<and> (\<forall>i < length st. closed st i)", OF _ that], intro impI)
    fix loop f m e p w res
    assume IH: "\<And>m e p w v y. loop m e p w v = Some y \<Longrightarrow>
        m = transfer \<and> e = merge \<and> p = off_end \<and> w = stuck \<and> y = Inr st \<and> invariant v \<longrightarrow>
        grows (wl_states v) st \<and> (\<forall>i < length st. closed st i)"
      and body: "(case wl_pending w of [] \<Rightarrow> Some (Inr (wl_states w))
        | index # rest \<Rightarrow> (case work_step f m e p index (w\<lparr>wl_pending := rest\<rparr>) of
            Inl e \<Rightarrow> Some (Inl e) | Inr w \<Rightarrow> loop f m e p w)) = Some res"
      and args: "f = transfer \<and> m = merge \<and> e = off_end \<and> p = stuck \<and> res = Inr st \<and> invariant w"
    show "grows (wl_states w) st \<and> (\<forall>i < length st. closed st i)"
    proof (cases "wl_pending w")
      case Nil
      then show ?thesis using args body by (auto simp: invariant_def grows_refl)
    next
      case (Cons index rest)
      obtain w' where w': "work_step f m e p index (w\<lparr>wl_pending := rest\<rparr>) = Inr w'"
          "loop f m e p w' = Some res"
        using args body Cons by (auto split: sum.splits)
      have step: "invariant w' \<and> grows (wl_states w) (wl_states w')"
        using work_step_invariant [where index = index and w = w and rest = rest and w' = w'] w'(1) args Cons by simp
      then show ?thesis using IH [OF w'(2)] args grows_trans by blast
    qed
  qed
  then show ?thesis using assms by blast
qed

lemma work_start_invariant: "0 < n \<Longrightarrow> ok s \<Longrightarrow> invariant (work_start n s)"
  by (auto simp: invariant_def good_def work_start_def closed_def nth_list_update)

text \<open>Where every rule moves forward the queue shrinks in the multiset order, so the loop ends.\<close>

definition queue_measure :: "nat \<Rightarrow> nat list \<Rightarrow> nat multiset" where
  "queue_measure n q = image_mset (\<lambda>i. n - i) (mset q)"

lemma deliver_pending:
  "deliver merge e item w = Inr w' \<Longrightarrow>
   length (wl_states w') = length (wl_states w) \<and>
   (\<exists>js. wl_pending w' = wl_pending w @ js \<and> set js \<subseteq> {fst item} \<and> fst item < length (wl_states w))"
  by (auto simp: deliver_def get_def split: prod.splits option.splits if_splits)

lemma deliver_all_pending:
  "try_fold (deliver merge e) ss w = Inr w' \<Longrightarrow>
   length (wl_states w') = length (wl_states w) \<and>
   (\<exists>js. wl_pending w' = wl_pending w @ js \<and> set js \<subseteq> fst ` set ss \<inter> {..< length (wl_states w)})"
proof (induction ss arbitrary: w)
  case (Cons item ss)
  obtain w1 where w1: "deliver merge e item w = Inr w1" "try_fold (deliver merge e) ss w1 = Inr w'"
    using Cons.prems by auto
  obtain js where js: "wl_pending w1 = wl_pending w @ js" "set js \<subseteq> {fst item}"
      "fst item < length (wl_states w)" "length (wl_states w1) = length (wl_states w)"
    using deliver_pending [OF w1(1)] by blast
  obtain ks where ks: "wl_pending w' = wl_pending w1 @ ks"
      "set ks \<subseteq> fst ` set ss \<inter> {..< length (wl_states w1)}" "length (wl_states w') = length (wl_states w1)"
    using Cons.IH [OF w1(2)] by blast
  have "wl_pending w' = wl_pending w @ (js @ ks)" using js ks by simp
  moreover have "set (js @ ks) \<subseteq> fst ` set (item # ss) \<inter> {..< length (wl_states w)}" using js ks by auto
  ultimately show ?case using js(4) ks(3) by metis
qed simp

lemma work_step_measure:
  assumes step: "work_step transfer merge off_end stuck index (w\<lparr>wl_pending := rest\<rparr>) = Inr w'"
    and forward: "\<And>s ss j t. transfer index s = Inr ss \<Longrightarrow> (j, t) \<in> set ss \<Longrightarrow> index < j"
    and n: "n = length (wl_states w)"
  shows "(queue_measure n (wl_pending w'), queue_measure n (index # rest)) \<in> mult less_than \<and>
    length (wl_states w') = n"
proof -
  obtain s ss where ss: "index < n" "transfer index s = Inr ss"
      "try_fold (deliver merge (off_end index)) ss (w\<lparr>wl_pending := rest\<rparr>) = Inr w'"
    using step n by (auto simp: work_step_def get_def split: if_splits option.splits)
  obtain js where js: "wl_pending w' = rest @ js" "set js \<subseteq> fst ` set ss \<inter> {..< n}"
      "length (wl_states w') = n"
    using deliver_all_pending [OF ss(3)] n by auto
  have later: "index < j \<and> j < n" if "j \<in> set js" for j
    using that js(2) forward [OF ss(2)] by force
  have "(queue_measure n rest + queue_measure n js, queue_measure n rest + {# n - index #}) \<in> mult less_than"
    by (rule one_step_implies_mult) (use later ss(1) in \<open>auto simp: queue_measure_def intro!: diff_less_mono2\<close>)
  then show ?thesis using js by (simp add: queue_measure_def)
qed

theorem work_loop_forward:
  assumes forward: "\<And>i s ss j t. transfer i s = Inr ss \<Longrightarrow> (j, t) \<in> set ss \<Longrightarrow> i < j"
  shows "\<exists>r. work_loop transfer merge off_end stuck w = Some r"
proof -
  have "\<exists>r. work_loop transfer merge off_end stuck w = Some r"
    if "length (wl_states w) = n" for w and n
    using wf_mult [OF wf_less_than] that
  proof (induction "queue_measure n (wl_pending w)" arbitrary: w rule: wf_induct_rule)
    case less
    show ?case
    proof (cases "wl_pending w")
      case Nil
      then show ?thesis by (simp add: work_loop.simps)
    next
      case (Cons index rest)
      show ?thesis
      proof (cases "work_step transfer merge off_end stuck index (w\<lparr>wl_pending := rest\<rparr>)")
        case (Inl e)
        then show ?thesis using Cons by (simp add: work_loop.simps)
      next
        case (Inr w')
        then have "\<exists>r. work_loop transfer merge off_end stuck w' = Some r"
          using less work_step_measure [OF Inr forward] Cons by auto
        then show ?thesis using Inr Cons by (subst work_loop.simps) simp
      qed
    qed
  qed
  then show ?thesis by blast
qed

end

end
