(* ===== verification/Flow_Engine.thy ===== *)
theory Flow_Engine
  imports Flow_Transfer Worklist
begin

text \<open>
  The dispatch of the transfer rules (\<open>transfer\<close> of \<open>engine/transfer.rs\<close> and of
  \<open>engine/calls.rs\<close>) and the worklist that runs them (\<open>engine.rs\<close>). The worklist may run for
  ever: \<open>work_loop\<close> is a partial function whose value \<open>None\<close> is divergence.
\<close>

section \<open>Values\<close>

text \<open>Operations that can mutate aliased storage invalidate literal evidence.\<close>

definition invalidates :: "flow_instruction \<Rightarrow> bool" where
  "invalidates i =
     (case i of
        FStoreField _ _ \<Rightarrow> True | FStoreIndex _ _ _ \<Rightarrow> True | FBuiltin _ _ _ \<Rightarrow> True | FAwait _ _ \<Rightarrow> True
      | FRemoteCall _ _ _ _ \<Rightarrow> True | FMakeWholeReference _ _ _ \<Rightarrow> True
      | FMakeFieldReference _ _ _ _ \<Rightarrow> True | FMakeReference _ _ _ _ \<Rightarrow> True | FMoveOut _ _ _ \<Rightarrow> True
      | FCopyOnWrite _ _ \<Rightarrow> True | FLoadField _ _ by_reference \<Rightarrow> by_reference
      | _ \<Rightarrow> False)"

text \<open>The control edge with parallel block arguments.\<close>

definition rename_values :: "(flow_value \<times> flow_value) list \<Rightarrow> flow_value list \<Rightarrow> flow_value list" where
  "rename_values arguments vs =
     remdups_adj (sort (concat (map (\<lambda>v.
       (if list_ex (\<lambda>(_, destination). destination = v) arguments then [] else [v]) @
       map snd (filter (\<lambda>(source, _). source = v) arguments)) vs)))"

definition rename_pending :: "(flow_value \<times> flow_value) list \<Rightarrow> pending_pattern \<Rightarrow> pending_pattern" where
  "rename_pending arguments p =
     p\<lparr>pp_conditions := rename_values arguments (pp_conditions p),
       pp_bindings := concat (map (\<lambda>(v, t). map (\<lambda>v. (v, t)) (rename_values arguments [v])) (pp_bindings p)),
       pp_refined_subject := map_option (\<lambda>(vs, t). (rename_values arguments vs, t)) (pp_refined_subject p),
       pp_covered_variant := map_option (\<lambda>(vs, v). (rename_values arguments vs, v)) (pp_covered_variant p)\<rparr>"

definition copy_entry :: "('k, 'v) hash_map \<Rightarrow> 'k \<Rightarrow> 'k \<Rightarrow> ('k, 'v) hash_map \<Rightarrow> ('k, 'v) hash_map" where
  "copy_entry old source destination m =
     (case map_of old source of
        None \<Rightarrow> map_remove destination m
      | Some x \<Rightarrow> map_insert destination x (map_remove destination m))"

definition pass_argument :: "flow_state \<Rightarrow> flow_value \<times> flow_value \<Rightarrow> flow_state \<Rightarrow> flow_state flow" where
  "pass_argument old argument s =
     (case argument of (source, destination) \<Rightarrow>
        try_bind (binding old source) (\<lambda>b.
        try_bind (set_binding destination b s) (\<lambda>s.
          Inr (s\<lparr>fl_booleans := copy_entry (fl_booleans old) source destination (fl_booleans s),
                 fl_excluded := copy_entry (fl_excluded old) source destination (fl_excluded s)\<rparr>))))"

definition transfer_edge :: "nat \<Rightarrow> (flow_value \<times> flow_value) list \<Rightarrow> flow_state \<Rightarrow> successors_of flow" where
  "transfer_edge target arguments s =
     try_bind (try_fold (pass_argument s) arguments s) (\<lambda>s.
       Inr [(target, s\<lparr>fl_pending := map_option (rename_pending arguments) (fl_pending s)\<rparr>)])"

definition transfer_drop :: "flow_body \<Rightarrow> flow_value \<Rightarrow> flow_state \<Rightarrow> flow_state flow" where
  "transfer_drop body v s =
     try_bind (if fb_storage_policy body = ConsumingSlots then set_binding v None s else Inr s)
       (\<lambda>s. Inr (forget v s))"

definition transfer_constant ::
  "flow_program \<Rightarrow> flow_body \<Rightarrow> nat \<Rightarrow> flow_value \<Rightarrow> u16 \<Rightarrow> flow_state \<Rightarrow> flow_state flow" where
  "transfer_constant prog body index destination c s =
     (case get (constants (fp_metadata prog)) (unat c) of
        None \<Rightarrow> Inl Panic
      | Some const \<Rightarrow>
          try_bind (write_type body index destination (constant_type (fp_metadata prog) const) s) (\<lambda>s.
            case const of
              Bool_const b \<Rightarrow>
                try_bind (binding s destination) (\<lambda>bound.
                  Inr (if bound = Some Bool then s\<lparr>fl_booleans := map_insert destination b (fl_booleans s)\<rparr> else s))
            | _ \<Rightarrow> Inr s))"

definition transfer_move :: "flow_body \<Rightarrow> nat \<Rightarrow> flow_value \<Rightarrow> flow_value \<Rightarrow> flow_state \<Rightarrow> flow_state flow" where
  "transfer_move body index destination source s =
     try_bind (assignment_binding body s destination) (\<lambda>previous.
     try_bind (case previous of
         Some (Reference _) \<Rightarrow> read_type index s source
       | _ \<Rightarrow> bound_type index s source) (\<lambda>t. write_type body index destination t s))"

definition element_join :: "nat \<Rightarrow> flow_state \<Rightarrow> flow_value \<Rightarrow> executable_type \<Rightarrow> executable_type flow" where
  "element_join index s v element = try_bind (read_type index s v) (\<lambda>found. Inr (merge_types element found))"

definition subscript_ok :: "nat \<Rightarrow> flow_state \<Rightarrow> flow_value \<Rightarrow> unit flow" where
  "subscript_ok index s v = try_bind (read_type index s v) (\<lambda>t. require_type index t Integer ''index'')"

definition transfer_index ::
  "flow_program \<Rightarrow> flow_body \<Rightarrow> nat \<Rightarrow> flow_value \<Rightarrow> flow_value \<Rightarrow> flow_value \<Rightarrow> flow_state \<Rightarrow> flow_state flow" where
  "transfer_index prog body index destination obj subscript s =
     try_bind (subscript_ok index s subscript) (\<lambda>_.
     try_bind (read_type index s obj) (\<lambda>object_type.
     try_bind (case object_type of
         List element \<Rightarrow> Inr element
       | Bytes \<Rightarrow> Inr Byte
       | ByteBuffer \<Rightarrow> Inr Byte
       | Unknown \<Rightarrow> Inr Unknown
       | _ \<Rightarrow> if is_foster_byte_buffer (fp_metadata prog) object_type then Inr Byte
              else Inl (RequiresType index ''indexable value'' object_type)) (\<lambda>res.
     write_type body index destination res s)))"

definition transfer_make_record ::
  "flow_program \<Rightarrow> flow_body \<Rightarrow> nat \<Rightarrow> flow_value \<Rightarrow> record_id \<Rightarrow> executable_type list \<Rightarrow>
   (string \<times> flow_value) list \<Rightarrow> flow_state \<Rightarrow> flow_state flow" where
  "transfer_make_record prog body index destination rec type_arguments fs s =
     try_bind (traverse (\<lambda>(_, v). read_type index s v) fs) (\<lambda>_.
       write_type body index destination
         (case record_type (fp_metadata prog) rec of
            Record rec _ \<Rightarrow> Record rec type_arguments
          | t \<Rightarrow> t) s)"

definition transfer_make_variant ::
  "flow_program \<Rightarrow> flow_body \<Rightarrow> nat \<Rightarrow> flow_value \<Rightarrow> variant_id \<Rightarrow> executable_type list \<Rightarrow>
   flow_value list \<Rightarrow> flow_state \<Rightarrow> flow_state flow" where
  "transfer_make_variant prog body index destination variant type_arguments payload s =
     try_bind (traverse (read_type index s) payload) (\<lambda>_.
       case map_of (variants (fp_metadata prog)) variant of
         None \<Rightarrow> Inl Panic
       | Some v \<Rightarrow> write_type body index destination (Variant (rv_parent v) type_arguments) s)"

section \<open>Storage\<close>

definition transfer_store_field ::
  "nat \<Rightarrow> flow_value \<Rightarrow> flow_value \<Rightarrow> flow_state \<Rightarrow> flow_state flow" where
  "transfer_store_field index obj source s =
     try_bind (read_type index s obj) (\<lambda>object_type.
       if (case object_type of Record _ _ \<Rightarrow> True | List _ \<Rightarrow> True | Bytes \<Rightarrow> True | ByteBuffer \<Rightarrow> True
           | Unknown \<Rightarrow> True | _ \<Rightarrow> False)
       then try_bind (read_type index s source) (\<lambda>_. Inr s)
       else Inl (RequiresType index ''record'' object_type))"

definition transfer_store_index ::
  "flow_program \<Rightarrow> nat \<Rightarrow> flow_value \<Rightarrow> flow_value \<Rightarrow> flow_value \<Rightarrow> flow_state \<Rightarrow> flow_state flow" where
  "transfer_store_index prog index obj subscript source s =
     try_bind (subscript_ok index s subscript) (\<lambda>_.
     try_bind (read_type index s source) (\<lambda>source_type.
     try_bind (read_type index s obj) (\<lambda>object_type.
     try_bind (require_element (fp_metadata prog) index ''mutable indexed value'' object_type source_type)
       (\<lambda>_. Inr s))))"

definition write_reference ::
  "flow_body \<Rightarrow> nat \<Rightarrow> flow_value \<Rightarrow> executable_type \<Rightarrow> executable_type \<Rightarrow> flow_state \<Rightarrow> flow_state flow" where
  "write_reference body index destination inferred pointee_type s =
     try_bind (require_type index inferred pointee_type ''reference pointee'') (\<lambda>_.
       write_type body index destination (Reference pointee_type) s)"

definition transfer_make_reference ::
  "flow_program \<Rightarrow> flow_body \<Rightarrow> nat \<Rightarrow> flow_value \<Rightarrow> executable_type \<Rightarrow> flow_value \<Rightarrow> flow_value \<Rightarrow>
   flow_state \<Rightarrow> flow_state flow" where
  "transfer_make_reference prog body index destination pointee_type obj subscript s =
     try_bind (subscript_ok index s subscript) (\<lambda>_.
     try_bind (read_type index s obj) (\<lambda>object_type.
       case indexed_element_type (fp_metadata prog) object_type of
         None \<Rightarrow> Inl (RequiresType index ''referenceable indexed value'' object_type)
       | Some inferred \<Rightarrow> write_reference body index destination inferred pointee_type s))"

definition transfer_make_field_reference ::
  "flow_program \<Rightarrow> flow_body \<Rightarrow> nat \<Rightarrow> string \<Rightarrow> flow_value \<Rightarrow> executable_type \<Rightarrow> flow_value \<Rightarrow>
   flow_state \<Rightarrow> flow_state flow" where
  "transfer_make_field_reference prog body index field destination pointee_type obj s =
     try_bind (read_type index s obj) (\<lambda>object_type.
       case verification_field_type (fp_metadata prog) object_type field of
         None \<Rightarrow> Inl (InvalidFlow index ''references missing field'')
       | Some inferred \<Rightarrow> write_reference body index destination inferred pointee_type s)"

definition transfer_move_out ::
  "flow_body \<Rightarrow> nat \<Rightarrow> bool \<Rightarrow> flow_value \<Rightarrow> flow_value \<Rightarrow> flow_state \<Rightarrow> flow_state flow" where
  "transfer_move_out body index by_reference destination source s =
     (if by_reference then
        try_bind (bound_type index s source) (\<lambda>t.
          case t of
            Reference target \<Rightarrow> write_type body index destination target s
          | _ \<Rightarrow> Inl (InvalidFlow index ''projected move requires a reference''))
      else try_bind (take_type body index source s) (\<lambda>(t, s). write_type body index destination t s))"

definition transfer_push ::
  "flow_program \<Rightarrow> flow_body \<Rightarrow> nat \<Rightarrow> flow_value \<Rightarrow> flow_value \<Rightarrow> flow_value \<Rightarrow> flow_state \<Rightarrow> flow_state flow" where
  "transfer_push prog body index destination obj val s =
     try_bind (read_type index s val) (\<lambda>value_type.
     try_bind (read_type index s obj) (\<lambda>object_type.
     try_bind (require_element (fp_metadata prog) index ''List or ByteBuffer'' object_type value_type) (\<lambda>_.
       write_type body index destination Unit s)))"

definition transfer_append ::
  "flow_body \<Rightarrow> nat \<Rightarrow> flow_value \<Rightarrow> flow_value \<Rightarrow> flow_value \<Rightarrow> flow_state \<Rightarrow> flow_state flow" where
  "transfer_append body index destination obj val s =
     try_bind (read_type index s val) (\<lambda>value_type.
     try_bind (read_type index s obj) (\<lambda>object_type.
     try_bind (case object_type of
         List element \<Rightarrow> try_bind (require_type index value_type element ''list element'') (\<lambda>_. Inr (List element))
       | Unknown \<Rightarrow> Inr Unknown
       | found \<Rightarrow> Inl (RequiresType index ''List'' found)) (\<lambda>res.
     write_type body index destination res s)))"

definition transfer_contains ::
  "flow_body \<Rightarrow> nat \<Rightarrow> flow_value \<Rightarrow> flow_value \<Rightarrow> flow_value list \<Rightarrow> flow_state \<Rightarrow> flow_state flow" where
  "transfer_contains body index destination val candidates s =
     try_bind (read_type index s val) (\<lambda>value_type.
     try_bind (try_for_each (\<lambda>v. try_bind (read_type index s v) (\<lambda>t.
         require_type index t value_type ''candidate'')) candidates) (\<lambda>_.
     write_type body index destination Bool s))"

section \<open>Builtins and remote operations\<close>

definition builtin_argument ::
  "flow_program \<Rightarrow> nat \<Rightarrow> intrinsic_signature \<Rightarrow> flow_state \<Rightarrow> nat \<times> flow_value \<Rightarrow> unit flow" where
  "builtin_argument prog index signature s argument =
     (case signature_parameter signature (fst argument) of
        None \<Rightarrow> Inl Panic
      | Some (_, t) \<Rightarrow>
          try_bind (read_type index s (snd argument)) (\<lambda>found.
            require_type index found (intrinsic_verification_type (fp_metadata prog) t) ''builtin argument''))"

definition builtin_consume ::
  "flow_body \<Rightarrow> nat \<Rightarrow> intrinsic_signature \<Rightarrow> nat \<times> flow_value \<Rightarrow> flow_state \<Rightarrow> flow_state flow" where
  "builtin_consume body index signature argument s =
     (case signature_parameter signature (fst argument) of
        None \<Rightarrow> Inl Panic
      | Some (m, _) \<Rightarrow> consume_argument body index (snd argument, m = Consume_arg) s)"

definition transfer_builtin ::
  "flow_program \<Rightarrow> flow_body \<Rightarrow> nat \<Rightarrow> flow_value \<Rightarrow> builtin \<Rightarrow> flow_value list \<Rightarrow> flow_state \<Rightarrow> flow_state flow" where
  "transfer_builtin prog body index destination b arguments s =
     (case descriptor b of
        None \<Rightarrow> Inl Panic
      | Some d \<Rightarrow>
          let signature = bd_signature d in
          if \<not> accepts_arity signature (length arguments)
          then Inl (InvalidFlow index ''has invalid builtin arity'')
          else try_bind (try_for_each (builtin_argument prog index signature s) (enumerate 0 arguments)) (\<lambda>_.
            try_bind (try_fold (builtin_consume body index signature) (enumerate 0 arguments) s)
              (write_type body index destination
                (intrinsic_verification_type (fp_metadata prog) (sig_result signature)))))"

definition infer_argument ::
  "nat \<Rightarrow> flow_state \<Rightarrow> executable_type \<times> flow_value \<Rightarrow> (string \<rightharpoonup> executable_type) \<Rightarrow>
   (string \<rightharpoonup> executable_type) flow" where
  "infer_argument index s argument m =
     try_bind (read_type index s (snd argument)) (\<lambda>t. Inr (infer_specialization (fst argument) t m))"

definition remote_receiver :: "nat \<Rightarrow> executable_type \<Rightarrow> executable_type flow" where
  "remote_receiver index t =
     (case t of Remote v \<Rightarrow> Inr v | Unknown \<Rightarrow> Inr Unknown | _ \<Rightarrow> Inl (RequiresType index ''Remote'' t))"

definition transfer_remote_call ::
  "flow_program \<Rightarrow> flow_body \<Rightarrow> nat \<Rightarrow> flow_value \<Rightarrow> flow_value \<Rightarrow> function_id \<Rightarrow>
   (parameter_mode \<times> flow_value) list \<Rightarrow> flow_state \<Rightarrow> flow_state flow" where
  "transfer_remote_call prog body index destination remote target arguments s =
     try_bind (target_schema prog target) (\<lambda>f.
     try_bind (read_type index s remote) (\<lambda>remote_type.
     try_bind (remote_receiver index remote_type) (\<lambda>receiver_type.
       case parameter_types f of
         [] \<Rightarrow> Inl Panic
       | first # rest \<Rightarrow>
           try_bind (try_fold (infer_argument index s) (zip rest (map snd arguments))
             (infer_specialization first receiver_type Map.empty)) (\<lambda>substitutions.
           let sp = specialization_from substitutions in
           try_bind (require_type index receiver_type (specialize sp first) ''remote receiver'') (\<lambda>_.
           try_bind (verify_arguments body index arguments (tl (parameter_modes f)) (map (specialize sp) rest) s) (\<lambda>s.
             case remote_outcome_type (fp_metadata prog) (specialize sp (fs_result_type f)) of
               None \<Rightarrow> Inl Panic
             | Some outcome \<Rightarrow> write_type body index destination (Future outcome) s))))))"

definition transfer_await ::
  "flow_body \<Rightarrow> nat \<Rightarrow> flow_value \<Rightarrow> flow_value \<Rightarrow> flow_state \<Rightarrow> flow_state flow" where
  "transfer_await body index destination future s =
     try_bind (read_type index s future) (\<lambda>t.
     try_bind (case t of
         Future v \<Rightarrow> Inr v
       | Unknown \<Rightarrow> Inr Unknown
       | found \<Rightarrow> Inl (RequiresType index ''Future'' found)) (\<lambda>res.
     write_type body index destination res s))"

definition transfer_spawn ::
  "flow_body \<Rightarrow> nat \<Rightarrow> flow_value \<Rightarrow> flow_value \<Rightarrow> flow_state \<Rightarrow> flow_state flow" where
  "transfer_spawn body index destination val s =
     try_bind (read_type index s val) (\<lambda>t. write_type body index destination (Remote t) s)"

section \<open>Pattern tests and branches\<close>

definition unsupported_test :: "program_metadata \<Rightarrow> pattern \<Rightarrow> bool" where
  "unsupported_test md p =
     (case unspanned p of IsType target _ _ _ \<Rightarrow> \<not> supported_type_pattern md target | _ \<Rightarrow> False)"

text \<open>
  Every other case of the enum is excluded on this path; the lookup of the covered variant is an
  index into the map, which panics when it is missing.
\<close>

definition covers_remaining ::
  "program_metadata \<Rightarrow> flow_state \<Rightarrow> flow_value \<Rightarrow> variant_id option \<Rightarrow> bool flow" where
  "covers_remaining md s subject covered =
     (case covered of
        None \<Rightarrow> Inr False
      | Some variant \<Rightarrow>
          (case map_of (variants md) variant of
             None \<Rightarrow> Inl Panic
           | Some v \<Rightarrow>
               Inr (list_all (\<lambda>(candidate, w). rv_parent w = rv_parent v \<longrightarrow>
                 candidate = variant \<or>
                 (case map_of (fl_excluded s) subject of
                    None \<Rightarrow> False
                  | Some excluded \<Rightarrow> candidate \<in> excluded)) (variants md))))"

definition wrong_enum :: "program_metadata \<Rightarrow> pattern \<Rightarrow> executable_type \<Rightarrow> bool flow" where
  "wrong_enum md p subject_type =
     (case (unspanned p, subject_type) of
        (Variant_pat variant _, Variant parent _) \<Rightarrow>
          (case map_of (variants md) variant of
             None \<Rightarrow> Inl Panic
           | Some v \<Rightarrow> Inr (rv_parent v \<noteq> parent))
      | _ \<Rightarrow> Inr False)"

definition pattern_evidence ::
  "flow_value \<Rightarrow> flow_value \<Rightarrow> pattern \<Rightarrow> flow_value list \<Rightarrow> executable_type list \<Rightarrow> bool \<Rightarrow> pending_pattern" where
  "pattern_evidence destination subject p binds types exhaustive =
     \<lparr>pp_conditions = [destination],
      pp_bindings = zip binds types,
      pp_irrefutable = (pattern_irrefutable p \<or> exhaustive),
      pp_covered_variant = map_option (\<lambda>variant. ([subject], variant)) (fully_covered_variant p),
      pp_refined_subject =
        (case unspanned p of IsType target _ _ None \<Rightarrow> Some ([subject], target) | _ \<Rightarrow> None)\<rparr>"

definition transfer_match ::
  "flow_program \<Rightarrow> flow_body \<Rightarrow> nat \<Rightarrow> flow_value \<Rightarrow> flow_value \<Rightarrow> pattern \<Rightarrow> flow_value list \<Rightarrow>
   flow_state \<Rightarrow> flow_state flow" where
  "transfer_match prog body index destination subject p binds s =
     (let md = fp_metadata prog in
      if unsupported_test md p then Inl (InvalidFlow index ''unsupported runtime type-pattern target'')
      else
        try_bind (read_type index s subject) (\<lambda>subject_type.
        try_bind (covers_remaining md s subject (fully_covered_variant p)) (\<lambda>exhaustive.
        try_bind (wrong_enum md p subject_type) (\<lambda>wrong.
          if wrong then Inl (InvalidFlow index ''matches a variant case against the wrong enum type'')
          else
            try_bind (write_type body index destination Bool s) (\<lambda>s.
            try_bind (bound_type index s subject) (\<lambda>bound.
            try_bind (pattern_binding_types md p bound) (\<lambda>types.
              Inr (s\<lparr>fl_pending :=
                Some (pattern_evidence destination subject p binds types exhaustive)\<rparr>))))))))"

text \<open>What the true branch of a pattern test learns, and what the false branch excludes.\<close>

definition refine_subject :: "flow_value \<Rightarrow> flow_state \<Rightarrow> flow_state flow" where
  "refine_subject subject s =
     try_bind (binding s subject) (\<lambda>b.
       set_binding subject
         (Some (case b of Some (Reference _) \<Rightarrow> Reference Unknown | _ \<Rightarrow> Unknown)) s)"

definition exclude_variant :: "variant_id \<Rightarrow> flow_value \<Rightarrow> flow_state \<Rightarrow> flow_state" where
  "exclude_variant variant subject s =
     s\<lparr>fl_excluded := map_insert subject
         (insert variant (case map_of (fl_excluded s) subject of None \<Rightarrow> {} | Some vs \<Rightarrow> vs)) (fl_excluded s)\<rparr>"

definition learn_match :: "flow_body \<Rightarrow> nat \<Rightarrow> pending_pattern \<Rightarrow> flow_state \<Rightarrow> flow_state flow" where
  "learn_match body index p s =
     try_bind (case pp_refined_subject p of
         None \<Rightarrow> Inr s
       | Some (subjects, _) \<Rightarrow> try_fold refine_subject subjects s) (\<lambda>s.
     try_fold (\<lambda>(v, t). write_type body index v t) (pp_bindings p) s)"

definition learn_mismatch :: "pending_pattern \<Rightarrow> flow_state \<Rightarrow> flow_state" where
  "learn_mismatch p s =
     (case pp_covered_variant p of
        None \<Rightarrow> s
      | Some (subjects, variant) \<Rightarrow> fold (exclude_variant variant) subjects s)"

definition condition_ok :: "nat \<Rightarrow> flow_state \<Rightarrow> flow_value \<Rightarrow> unit flow" where
  "condition_ok index s condition =
     try_bind (read_type index s condition) (\<lambda>t. require_type index t Bool ''condition'')"

definition transfer_branch ::
  "flow_body \<Rightarrow> nat \<Rightarrow> flow_value \<Rightarrow> nat \<Rightarrow> flow_state \<Rightarrow> successors_of flow" where
  "transfer_branch body index condition target s =
     try_bind (condition_ok index s condition) (\<lambda>_.
       case map_of (fl_booleans s) condition of
         Some b \<Rightarrow> Inr [(if b then index + 1 else target, s)]
       | None \<Rightarrow>
           let t = s\<lparr>fl_pending := None\<rparr> in
           (case fl_pending s of
              Some p \<Rightarrow>
                if List.member (pp_conditions p) condition
                then try_bind (learn_match body index p t) (\<lambda>truthy.
                  Inr (if pp_irrefutable p then [(index + 1, truthy)]
                       else [(target, learn_mismatch p t), (index + 1, truthy)]))
                else Inr [(target, t), (index + 1, t)]
            | None \<Rightarrow> Inr [(target, t), (index + 1, t)]))"

definition transfer_assert ::
  "flow_program \<Rightarrow> nat \<Rightarrow> flow_value \<Rightarrow> flow_value option \<Rightarrow> flow_state \<Rightarrow> successors_of flow" where
  "transfer_assert prog index condition message s =
     try_bind (condition_ok index s condition) (\<lambda>_.
     try_bind (case message of
         None \<Rightarrow> Inr ()
       | Some m \<Rightarrow>
           try_bind (read_type index s m) (\<lambda>t.
             require_type index t (optional_record (string_record (fp_metadata prog))) ''assertion message'')) (\<lambda>_.
       if map_of (fl_booleans s) condition = Some False then Inr [] else continue index s))"

section \<open>Calls\<close>

definition transfer_call ::
  "flow_program \<Rightarrow> flow_body \<Rightarrow> nat \<Rightarrow> flow_value \<Rightarrow> function_id \<Rightarrow> specialization \<Rightarrow> flow_value list \<Rightarrow>
   flow_state \<Rightarrow> successors_of flow" where
  "transfer_call prog body index destination target sp arguments s =
     try_bind (target_schema prog target) (\<lambda>f.
     try_bind (verify_arguments body index (zip (parameter_modes f) arguments) (parameter_modes f)
       (map (specialize sp) (parameter_types f)) s)
     (write_call body index destination (specialize sp (fs_result_type f))))"

definition transfer_call_method ::
  "flow_program \<Rightarrow> flow_body \<Rightarrow> nat \<Rightarrow> flow_value \<Rightarrow> flow_value \<Rightarrow> function_id \<Rightarrow> specialization \<Rightarrow>
   flow_value list \<Rightarrow> flow_state \<Rightarrow> successors_of flow" where
  "transfer_call_method prog body index destination obj target sp arguments s =
     try_bind (target_schema prog target) (\<lambda>f.
       case map (specialize sp) (parameter_types f) of
         [] \<Rightarrow> Inl Panic
       | first # rest \<Rightarrow>
           try_bind (verify_arguments body index [(Borrow, obj)] [Borrow] [first] s) (\<lambda>s.
           try_bind (verify_arguments body index (zip (tl (parameter_modes f)) arguments)
             (tl (parameter_modes f)) rest s)
           (write_call body index destination (specialize sp (fs_result_type f)))))"

definition COPY_SLOT :: dispatch_slot where "COPY_SLOT = - 1"
definition CAN_COPY_SLOT :: dispatch_slot where "CAN_COPY_SLOT = - 2"
definition DEINIT_SLOT :: dispatch_slot where "DEINIT_SLOT = - 3"

definition dispatch_target ::
  "flow_program \<Rightarrow> executable_type \<Rightarrow> dispatch_slot \<Rightarrow> function_schema option" where
  "dispatch_target prog receiver_type slt =
     (case (case receiver_type of
         Record rec _ \<Rightarrow> Some (Record_nominal rec)
       | Variant variant _ \<Rightarrow> Some (Variant_nominal variant)
       | _ \<Rightarrow> None) of
        None \<Rightarrow> None
      | Some nominal \<Rightarrow>
          (case map_of (dispatch (fp_metadata prog)) (nominal, slt) of
             None \<Rightarrow> None
           | Some f \<Rightarrow> map_of (fp_functions prog) f))"

definition copy_capability ::
  "flow_body \<Rightarrow> nat \<Rightarrow> flow_value \<Rightarrow> executable_type \<Rightarrow> dispatch_slot \<Rightarrow> flow_value list \<Rightarrow>
   flow_state \<Rightarrow> successors_of flow" where
  "copy_capability body index destination receiver_type slt arguments s =
     (if arguments \<noteq> [] then Inl (InvalidFlow index ''copy capability does not accept arguments'')
      else write_next body index destination (if slt = CAN_COPY_SLOT then Bool else receiver_type) s)"

definition call_witness ::
  "flow_body \<Rightarrow> nat \<Rightarrow> flow_value \<Rightarrow> function_schema \<Rightarrow> executable_type \<Rightarrow> flow_value list \<Rightarrow>
   executable_type \<Rightarrow> flow_state \<Rightarrow> successors_of flow" where
  "call_witness body index destination f receiver_type arguments result_type s =
     (let types = parameter_types f;
          substitutions = (case types of [] \<Rightarrow> Map.empty | first # _ \<Rightarrow> infer_specialization first receiver_type Map.empty)
      in try_bind (try_fold (infer_argument index s) (zip (tl types) arguments) substitutions) (\<lambda>substitutions.
         try_bind (require_type index (specialize (specialization_from substitutions) (fs_result_type f))
           result_type ''contract result'') (\<lambda>_.
         try_bind (verify_arguments body index (zip (tl (parameter_modes f)) arguments)
           (tl (parameter_modes f)) (tl types) s)
         (write_call body index destination result_type))))"

definition call_accessor ::
  "flow_program \<Rightarrow> flow_body \<Rightarrow> nat \<Rightarrow> flow_value \<Rightarrow> executable_type \<Rightarrow> string \<Rightarrow> flow_value list \<Rightarrow>
   executable_type \<Rightarrow> flow_state \<Rightarrow> successors_of flow" where
  "call_accessor prog body index destination receiver_type name arguments result_type s =
     try_bind
       (case (arguments, verification_field_type (fp_metadata prog) receiver_type name) of
          ([], Some concrete) \<Rightarrow> require_type index concrete result_type ''contract accessor result''
        | _ \<Rightarrow> Inr ()) (\<lambda>_.
     try_bind (traverse (read_type index s) arguments) (\<lambda>_.
     write_call body index destination result_type s))"

definition transfer_contract_method ::
  "flow_program \<Rightarrow> flow_body \<Rightarrow> nat \<Rightarrow> flow_value \<Rightarrow> flow_value \<Rightarrow> dispatch_slot \<Rightarrow> string \<Rightarrow>
   flow_value list \<Rightarrow> executable_type \<Rightarrow> flow_state \<Rightarrow> successors_of flow" where
  "transfer_contract_method prog body index destination obj slt name arguments result_type s =
     try_bind (read_type index s obj) (\<lambda>receiver_type.
       if slt = DEINIT_SLOT
       then Inl (InvalidFlow index ''deinit can only be invoked by ownership cleanup'')
       else if slt = CAN_COPY_SLOT \<or> slt = COPY_SLOT
       then copy_capability body index destination receiver_type slt arguments s
       else case dispatch_target prog receiver_type slt of
           Some f \<Rightarrow> call_witness body index destination f receiver_type arguments result_type s
         | None \<Rightarrow> call_accessor prog body index destination receiver_type name arguments result_type s)"

definition transfer_make_closure ::
  "flow_program \<Rightarrow> flow_body \<Rightarrow> nat \<Rightarrow> flow_value \<Rightarrow> function_id \<Rightarrow> specialization \<Rightarrow>
   (capture_mode \<times> flow_value) list \<Rightarrow> flow_state \<Rightarrow> successors_of flow" where
  "transfer_make_closure prog body index destination target sp captures s =
     try_bind (target_schema prog target) (\<lambda>f.
     try_bind (verify_captures body index captures (map (specialize sp) (fs_captures f)) s)
     (write_next body index destination (callable_type f)))"

definition transfer_call_value ::
  "flow_body \<Rightarrow> nat \<Rightarrow> flow_value \<Rightarrow> flow_value \<Rightarrow> flow_value list \<Rightarrow> flow_state \<Rightarrow> successors_of flow" where
  "transfer_call_value body index destination callee arguments s =
     try_bind (read_type index s callee) (\<lambda>callee_type.
       case callee_type of
         Function ps res \<Rightarrow>
           if length arguments \<noteq> length ps
           then Inl (InvalidFlow index ''calls a closure with the wrong arity'')
           else try_bind (verify_arguments body index (zip (map mode ps) arguments) (map mode ps) (map ty ps) s)
             (write_call body index destination res)
       | Unknown \<Rightarrow>
           try_bind (traverse (read_type index s) arguments) (\<lambda>_. write_next body index destination Unknown s)
       | _ \<Rightarrow> Inl (RequiresType index ''callable value'' callee_type))"

definition transfer_call_closure ::
  "flow_program \<Rightarrow> flow_body \<Rightarrow> nat \<Rightarrow> flow_value \<Rightarrow> function_id \<Rightarrow> specialization \<Rightarrow>
   (capture_mode \<times> flow_value) list \<Rightarrow> flow_value list \<Rightarrow> flow_state \<Rightarrow> successors_of flow" where
  "transfer_call_closure prog body index destination target sp captures arguments s =
     try_bind (target_schema prog target) (\<lambda>f.
     try_bind (verify_captures body index captures (map (specialize sp) (fs_captures f)) s) (\<lambda>s.
     try_bind (verify_arguments body index (zip (parameter_modes f) arguments) (parameter_modes f)
       (map (specialize sp) (parameter_types f)) s)
     (write_call body index destination (specialize sp (fs_result_type f)))))"

definition transfer_return :: "flow_body \<Rightarrow> nat \<Rightarrow> flow_value \<Rightarrow> flow_state \<Rightarrow> successors_of flow" where
  "transfer_return body index source s =
     try_bind (if fs_returns_reference (fb_schema body) then bound_type index s source else read_type index s source)
       (\<lambda>actual. try_bind (require_type index actual (fs_result_type (fb_schema body)) ''return value'')
         (\<lambda>_. Inr []))"

section \<open>One instruction\<close>

definition pass :: "nat \<Rightarrow> flow_state flow \<Rightarrow> successors_of flow" where
  "pass index r = try_bind r (continue index)"

fun transfer_rule ::
  "flow_program \<Rightarrow> flow_body \<Rightarrow> nat \<Rightarrow> flow_instruction \<Rightarrow> flow_state \<Rightarrow> successors_of flow" where
  "transfer_rule prog body n FUnreachable s = Inr []"
| "transfer_rule prog body n (FCopyOnWrite d v) s = pass n (try_bind (binding s v) (\<lambda>b. set_binding d b s))"
| "transfer_rule prog body n (FEdge target arguments) s = transfer_edge target arguments s"
| "transfer_rule prog body n (FDrop v) s = pass n (transfer_drop body v s)"
| "transfer_rule prog body n (FLoadConstant d c) s = pass n (transfer_constant prog body n d c s)"
| "transfer_rule prog body n (FMove d v) s = pass n (transfer_move body n d v s)"
| "transfer_rule prog body n (FUnary d operator v) s =
     try_bind (read_type n s v) (\<lambda>t. try_bind (unary_type n operator t) (\<lambda>t. write_next body n d t s))"
| "transfer_rule prog body n (FBinary d operator l r) s =
     try_bind (read_type n s l) (\<lambda>lt. try_bind (read_type n s r) (\<lambda>rt.
     try_bind (binary_type n operator lt rt) (\<lambda>t. write_next body n d t s)))"
| "transfer_rule prog body n (FMakeList d element_type es) s =
     try_bind (try_fold (element_join n s) es element_type) (\<lambda>t. write_next body n d (List t) s)"
| "transfer_rule prog body n (FIndex d obj i) s = pass n (transfer_index prog body n d obj i s)"
| "transfer_rule prog body n (FMakeRecord d rec ts fs) s = pass n (transfer_make_record prog body n d rec ts fs s)"
| "transfer_rule prog body n (FMakeVariant d v ts payload) s =
     pass n (transfer_make_variant prog body n d v ts payload s)"
| "transfer_rule prog body n (FLoadField d obj by_reference) s =
     try_bind (read_type n s obj) (\<lambda>_.
       write_next body n d (if by_reference then Reference Unknown else Unknown) s)"
| "transfer_rule prog body n (FStoreField obj v) s = pass n (transfer_store_field n obj v s)"
| "transfer_rule prog body n (FStoreIndex obj i v) s = pass n (transfer_store_index prog n obj i v s)"
| "transfer_rule prog body n (FMakeReference d t obj i) s =
     pass n (transfer_make_reference prog body n d t obj i s)"
| "transfer_rule prog body n (FMakeWholeReference d t obj) s =
     try_bind (read_type n s obj) (\<lambda>v. pass n (write_reference body n d (pointee v) t s))"
| "transfer_rule prog body n (FMakeFieldReference field d t obj) s =
     pass n (transfer_make_field_reference prog body n field d t obj s)"
| "transfer_rule prog body n (FMoveOut by_reference d v) s = pass n (transfer_move_out body n by_reference d v s)"
| "transfer_rule prog body n (FPush d obj v) s = pass n (transfer_push prog body n d obj v s)"
| "transfer_rule prog body n (FAppend d obj v) s = pass n (transfer_append body n d obj v s)"
| "transfer_rule prog body n (FContains d v candidates) s = pass n (transfer_contains body n d v candidates s)"
| "transfer_rule prog body n (FBuiltin d b arguments) s = pass n (transfer_builtin prog body n d b arguments s)"
| "transfer_rule prog body n (FSpawnRemote d v) s = pass n (transfer_spawn body n d v s)"
| "transfer_rule prog body n (FSpawnRemoteBorrow d v) s = pass n (transfer_spawn body n d v s)"
| "transfer_rule prog body n (FRemoteCall d remote f arguments) s =
     pass n (transfer_remote_call prog body n d remote f arguments s)"
| "transfer_rule prog body n (FAwait d future) s = pass n (transfer_await body n d future s)"
| "transfer_rule prog body n (FMatchPattern d subject p binds) s =
     pass n (transfer_match prog body n d subject p binds s)"
| "transfer_rule prog body n (FJump target) s = Inr [(target, s)]"
| "transfer_rule prog body n (FJumpIfFalse condition target) s = transfer_branch body n condition target s"
| "transfer_rule prog body n (FAssert condition message) s = transfer_assert prog n condition message s"
| "transfer_rule prog body n (FCall d f sp arguments) s = transfer_call prog body n d f sp arguments s"
| "transfer_rule prog body n (FCallMethod d obj f sp arguments) s =
     transfer_call_method prog body n d obj f sp arguments s"
| "transfer_rule prog body n (FCallContractMethod d obj slt name arguments t) s =
     transfer_contract_method prog body n d obj slt name arguments t s"
| "transfer_rule prog body n (FMakeClosure d f sp captures) s =
     transfer_make_closure prog body n d f sp captures s"
| "transfer_rule prog body n (FCallValue d callee arguments) s = transfer_call_value body n d callee arguments s"
| "transfer_rule prog body n (FCallClosure d f sp captures arguments) s =
     transfer_call_closure prog body n d f sp captures arguments s"
| "transfer_rule prog body n (FReturn v) s = transfer_return body n v s"

text \<open>Every rule of \<open>calls.rs\<close> first forgets the boolean constants.\<close>

definition is_call :: "flow_instruction \<Rightarrow> bool" where
  "is_call i =
     (case i of
        FCall _ _ _ _ \<Rightarrow> True | FCallMethod _ _ _ _ _ \<Rightarrow> True | FCallContractMethod _ _ _ _ _ _ \<Rightarrow> True
      | FMakeClosure _ _ _ _ \<Rightarrow> True | FCallValue _ _ _ \<Rightarrow> True | FCallClosure _ _ _ _ _ \<Rightarrow> True
      | FReturn _ \<Rightarrow> True | _ \<Rightarrow> False)"

definition transfer :: "flow_program \<Rightarrow> flow_body \<Rightarrow> nat \<Rightarrow> flow_state \<Rightarrow> successors_of flow" where
  "transfer prog body index s =
     (case get (fb_instructions body) index of
        None \<Rightarrow> Inl Panic
      | Some i \<Rightarrow>
          transfer_rule prog body index i
            (if invalidates i \<or> is_call i then s\<lparr>fl_booleans := []\<rparr> else s))"

section \<open>The analysis\<close>

definition entry_types :: "flow_body \<Rightarrow> executable_type list" where
  "entry_types body = fs_captures (fb_schema body) @ parameter_types (fb_schema body)"

definition entry_slot :: "flow_body \<Rightarrow> nat \<Rightarrow> nat" where
  "entry_slot body index = (case get (fb_entry_values body) index of None \<Rightarrow> index | Some v \<Rightarrow> unat v)"

definition bind_entry ::
  "flow_body \<Rightarrow> nat \<times> executable_type \<Rightarrow> executable_type option list \<Rightarrow> executable_type option list flow" where
  "bind_entry body item bs =
     (let v = entry_slot body (fst item)
      in if v < length bs then Inr (bs[v := Some (snd item)]) else Inl Panic)"

definition entry_state :: "flow_body \<Rightarrow> flow_state flow" where
  "entry_state body =
     try_bind (try_fold (bind_entry body) (enumerate 0 (entry_types body)) (replicate (fb_value_count body) None))
       (\<lambda>bs. Inr \<lparr>fl_bindings = bs, fl_booleans = [], fl_pending = None, fl_excluded = []\<rparr>)"

definition falls_off :: "nat \<Rightarrow> flow_error" where
  "falls_off index = InvalidFlow index ''reachable control flow falls off the end''"

definition analyze_function_flow ::
  "flow_program \<Rightarrow> flow_body \<Rightarrow> flow_state option list flow option" where
  "analyze_function_flow prog body =
     (if fs_intrinsic_stub (fb_schema body) then Some (Inr (replicate (length (fb_instructions body)) None))
      else case entry_state body of
          Inl e \<Rightarrow> Some (Inl e)
        | Inr s \<Rightarrow>
            if fb_instructions body = [] then Some (Inl Panic)
            else work_loop (transfer prog body) merge_state falls_off Panic
              (work_start (length (fb_instructions body)) s))"

end
