(* ===== verification/Slot_Flow.thy ===== *)
theory Slot_Flow
  imports Flow_Engine
begin

text \<open>
  The flow analysis of storage bytecode: \<open>logical_schema\<close> (\<open>storage/schema.rs\<close>),
  \<open>slot_instruction\<close> and \<open>type_states\<close> (\<open>storage/verification.rs\<close>). A slot is the value with
  the same number.
\<close>

definition value_of :: "slot \<Rightarrow> flow_value" where
  "value_of r = ucast r"

definition logical_schema :: "bytecode_function \<Rightarrow> function_schema" where
  "logical_schema f =
     \<lparr>fs_name = f_name f,
      fs_parameters = map (\<lambda>p. Parameter (ep_ty p) (ep_mode p)) (f_parameters f),
      fs_captures = f_capture_types f,
      fs_result_type = f_result_type f,
      fs_returns_reference = f_returns_reference f,
      fs_intrinsic_stub = f_intrinsic_stub f\<rparr>"

abbreviation values_of :: "slot list \<Rightarrow> flow_value list" where
  "values_of \<equiv> map value_of"

abbreviation tagged_values :: "('a \<times> slot) list \<Rightarrow> ('a \<times> flow_value) list" where
  "tagged_values \<equiv> map (\<lambda>(a, r). (a, value_of r))"

fun slot_instruction :: "instruction \<Rightarrow> flow_instruction" where
  "slot_instruction (Drop r) = FDrop (value_of r)"
| "slot_instruction (LoadConstant d c) = FLoadConstant (value_of d) c"
| "slot_instruction (Move d r) = FMove (value_of d) (value_of r)"
| "slot_instruction (Unary d operator r) = FUnary (value_of d) operator (value_of r)"
| "slot_instruction (Binary d operator l r) = FBinary (value_of d) operator (value_of l) (value_of r)"
| "slot_instruction (MakeList d t rs) = FMakeList (value_of d) t (values_of rs)"
| "slot_instruction (Index d obj i) = FIndex (value_of d) (value_of obj) (value_of i)"
| "slot_instruction (MakeRecord d rec ts fs) = FMakeRecord (value_of d) rec ts (tagged_values fs)"
| "slot_instruction (MakeVariant d v ts payload) = FMakeVariant (value_of d) v ts (values_of payload)"
| "slot_instruction (LoadField d obj _ by_reference) = FLoadField (value_of d) (value_of obj) by_reference"
| "slot_instruction (StoreField obj _ r) = FStoreField (value_of obj) (value_of r)"
| "slot_instruction (StoreIndex obj i r) = FStoreIndex (value_of obj) (value_of i) (value_of r)"
| "slot_instruction (MakeReference d t obj i) = FMakeReference (value_of d) t (value_of obj) (value_of i)"
| "slot_instruction (MakeWholeReference d t obj) = FMakeWholeReference (value_of d) t (value_of obj)"
| "slot_instruction (MakeFieldReference d t obj field) =
     FMakeFieldReference field (value_of d) t (value_of obj)"
| "slot_instruction (MoveOut by_reference d r) = FMoveOut by_reference (value_of d) (value_of r)"
| "slot_instruction (Push d obj r) = FPush (value_of d) (value_of obj) (value_of r)"
| "slot_instruction (Append d obj r) = FAppend (value_of d) (value_of obj) (value_of r)"
| "slot_instruction (Contains d r rs) = FContains (value_of d) (value_of r) (values_of rs)"
| "slot_instruction (Builtin d b rs) = FBuiltin (value_of d) b (values_of rs)"
| "slot_instruction (SpawnRemote d r) = FSpawnRemote (value_of d) (value_of r)"
| "slot_instruction (SpawnRemoteBorrow d r) = FSpawnRemoteBorrow (value_of d) (value_of r)"
| "slot_instruction (RemoteCall d remote f rs) =
     FRemoteCall (value_of d) (value_of remote) f (tagged_values rs)"
| "slot_instruction (Await d r) = FAwait (value_of d) (value_of r)"
| "slot_instruction (MatchPattern d r p rs) = FMatchPattern (value_of d) (value_of r) p (values_of rs)"
| "slot_instruction (Jump target) = FJump target"
| "slot_instruction (JumpIfFalse r target) = FJumpIfFalse (value_of r) target"
| "slot_instruction (Assert r message) = FAssert (value_of r) (map_option value_of message)"
| "slot_instruction (Call d f sp rs) = FCall (value_of d) f sp (values_of rs)"
| "slot_instruction (CallMethod d obj f sp rs) =
     FCallMethod (value_of d) (value_of obj) f sp (values_of rs)"
| "slot_instruction (CallContractMethod d obj slt name rs t) =
     FCallContractMethod (value_of d) (value_of obj) slt name (values_of rs) t"
| "slot_instruction (MakeClosure d f sp cs) = FMakeClosure (value_of d) f sp (tagged_values cs)"
| "slot_instruction (CallValue d r rs) = FCallValue (value_of d) (value_of r) (values_of rs)"
| "slot_instruction (CallClosure d f sp cs rs) =
     FCallClosure (value_of d) f sp (tagged_values cs) (values_of rs)"
| "slot_instruction (Return r) = FReturn (value_of r)"

definition slot_body :: "bytecode_function \<Rightarrow> flow_body" where
  "slot_body f =
     \<lparr>fb_schema = logical_schema f,
      fb_instructions = map slot_instruction (instructions (f_body f)),
      fb_value_count = unat (f_registers f),
      fb_entry_values = [],
      fb_write_bindings = [],
      fb_storage_policy = ConsumingSlots\<rparr>"

definition flow_states ::
  "program \<Rightarrow> (function_id, function_schema) hash_map \<Rightarrow> bytecode_function \<Rightarrow>
   flow_state option list flow option" where
  "flow_states p schemas f =
     analyze_function_flow \<lparr>fp_metadata = metadata p, fp_functions = schemas\<rparr> (slot_body f)"

definition type_states ::
  "program \<Rightarrow> (function_id, function_schema) hash_map \<Rightarrow> bytecode_function \<Rightarrow>
   executable_type option list option list flow option" where
  "type_states p schemas f =
     map_option (map_sum id (map (map_option fl_bindings))) (flow_states p schemas f)"

definition program_schemas :: "program \<Rightarrow> (function_id, function_schema) hash_map" where
  "program_schemas p = map (\<lambda>(f, g). (f, logical_schema g)) (pg_functions p)"

end
