(* ===== verification/Verification.thy ===== *)
theory Verification
  imports Slot_Flow
begin

text \<open>
  The bytecode verifier, \<open>bytecode/src/codegen/storage/verification.rs\<close>: metadata, the structure
  of each function, and the flow analysis. A check that fails returns the error that names its
  message. Hash maps are association lists, so of several errors the model reports the first in
  list order where the program reports one that depends on the hash order.
\<close>

datatype type_fault = TooDeep | NativeStructural | NonCanonical | MissingRecord | MissingEnum

datatype verify_error =
    TooManyParameters
  | InvalidProgram string
  | InvalidMetadataType type_fault
  | InvalidFunction string string
  | InvalidFunctionType string type_fault
  | InvalidCode string nat string
  | FlowFailed flow_error
  | SymbolError string
  | VerifyPanic

type_synonym verified = "verify_error + unit"

definition ensure :: "bool \<Rightarrow> 'e \<Rightarrow> 'e + unit" where
  "ensure b e = (if b then Inr () else Inl e)"

lemma ensure_Inr_iff [simp]: "ensure b e = Inr u \<longleftrightarrow> b"
  by (simp add: ensure_def)

section \<open>Types\<close>

function check_type :: "program_metadata \<Rightarrow> executable_type \<Rightarrow> nat \<Rightarrow> type_fault + unit" where
  "check_type md t d =
     (if d \<ge> 64 then Inl TooDeep
      else case t of
          List v \<Rightarrow> check_type md v (d + 1)
        | Reference v \<Rightarrow> check_type md v (d + 1)
        | Remote v \<Rightarrow> check_type md v (d + 1)
        | Future v \<Rightarrow> check_type md v (d + 1)
        | Function ps res \<Rightarrow>
            try_bind (try_for_each (\<lambda>p. check_type md (ty p) (d + 1)) ps) (\<lambda>_. check_type md res (d + 1))
        | Intersection _ \<Rightarrow> Inl NativeStructural
        | AliasArguments _ _ \<Rightarrow> Inl NativeStructural
        | Alternatives ts \<Rightarrow>
            if \<not> canonical_alternatives ts then Inl NonCanonical
            else try_for_each (\<lambda>t. check_type md t (d + 1)) ts
        | Record rec as \<Rightarrow>
            if map_of (records md) rec = None then Inl MissingRecord
            else try_for_each (\<lambda>t. check_type md t (d + 1)) as
        | Variant variant as \<Rightarrow>
            if \<not> list_ex (\<lambda>(_, v). rv_parent v = variant) (variants md) then Inl MissingEnum
            else try_for_each (\<lambda>t. check_type md t (d + 1)) as
        | _ \<Rightarrow> Inr ())"
  by pat_completeness auto
termination
  by (relation "measure (\<lambda>(_, _, d). 64 - d)") auto

declare check_type.simps [simp del]

definition verify_metadata_type :: "program \<Rightarrow> executable_type \<Rightarrow> verified" where
  "verify_metadata_type p t = map_sum InvalidMetadataType id (check_type (metadata p) t 0)"

definition verify_type :: "program \<Rightarrow> bytecode_function \<Rightarrow> executable_type \<Rightarrow> verified" where
  "verify_type p f t = map_sum (InvalidFunctionType (f_name f)) id (check_type (metadata p) t 0)"

definition verify_specialization :: "program \<Rightarrow> specialization \<Rightarrow> verified" where
  "verify_specialization p sp = try_for_each (\<lambda>(_, t). verify_metadata_type p t) sp"

section \<open>Program metadata\<close>

text \<open>\<open>usize::from(function.parameter_count())\<close>; the cast of an over-long list panics.\<close>

definition verify_main :: "program \<Rightarrow> verified" where
  "verify_main p =
     (case main (metadata p) of
        None \<Rightarrow>
          ensure (\<not> main_arguments (metadata p))
            (InvalidProgram ''bytecode without `main` cannot accept command arguments'')
      | Some m \<Rightarrow>
          (case map_of (pg_functions p) m of
             None \<Rightarrow> Inl (InvalidProgram ''bytecode references a missing `main` function'')
           | Some f \<Rightarrow>
               (case parameter_count f of
                  None \<Rightarrow> Inl VerifyPanic
                | Some n \<Rightarrow>
                    ensure (n = (if main_arguments (metadata p) then 1 else 0) \<and> f_captures f = 0)
                      (InvalidProgram ''bytecode `main` has the wrong parameters or captures''))))"

definition uses_remote :: "program \<Rightarrow> bool" where
  "uses_remote p =
     list_ex (\<lambda>(_, f). list_ex (\<lambda>i. case i of RemoteCall _ _ _ _ \<Rightarrow> True | Await _ _ \<Rightarrow> True | _ \<Rightarrow> False)
       (instructions (f_body f))) (pg_functions p)"

abbreviation invalid_remote :: verify_error where
  "invalid_remote \<equiv> InvalidProgram ''bytecode has invalid remote outcome metadata''"

definition remote_payload ::
  "program_metadata \<Rightarrow> string \<Rightarrow> runtime_variant \<Rightarrow> verify_error + executable_type option" where
  "remote_payload md name v =
     (if name = ''Ok'' then
        (case get (rv_parameters v) 0 of None \<Rightarrow> Inl VerifyPanic | Some g \<Rightarrow> Inr (Some (Generic g)))
      else if name = ''Error'' then
        (case get (rv_parameters v) 1 of None \<Rightarrow> Inl VerifyPanic | Some g \<Rightarrow> Inr (Some (Generic g)))
      else if name = ''Failed'' then
        (case string_record md of None \<Rightarrow> Inl invalid_remote | Some rec \<Rightarrow> Inr (Some (Record rec [])))
      else Inr None)"

definition verify_remote_case ::
  "program_metadata \<Rightarrow> runtime_variant list \<Rightarrow> string \<Rightarrow> nat \<Rightarrow> string \<times> nat \<Rightarrow> verified" where
  "verify_remote_case md vs enum_name arity item =
     (case find (\<lambda>v. rv_alternative v = fst item) vs of
        None \<Rightarrow> Inl invalid_remote
      | Some v \<Rightarrow>
          try_bind (ensure (rv_type_name v = enum_name \<and> length (rv_parameters v) = arity \<and>
              length (rv_payload v) = snd item) invalid_remote) (\<lambda>_.
          try_bind (remote_payload md (fst item) v) (\<lambda>expected.
            ensure (get (rv_payload v) 0 = expected) invalid_remote)))"

definition verify_remote_enum ::
  "program_metadata \<Rightarrow> variant_type_id \<Rightarrow> string \<Rightarrow> nat \<Rightarrow> (string \<times> nat) list \<Rightarrow> verified" where
  "verify_remote_enum md parent enum_name arity cases =
     (let vs = filter (\<lambda>v. rv_parent v = parent) (map snd (variants md))
      in try_bind (ensure (length vs = length cases) invalid_remote) (\<lambda>_.
         try_for_each (verify_remote_case md vs enum_name arity) cases))"

definition verify_remote :: "program \<Rightarrow> verified" where
  "verify_remote p =
     (let md = metadata p in
      if uses_remote p \<or> remote_result md \<noteq> None \<or> remote_error md \<noteq> None then
        (case (remote_result md, remote_error md) of
           (Some res, Some err) \<Rightarrow>
             try_bind (ensure (res \<noteq> err) invalid_remote) (\<lambda>_.
             try_bind (verify_remote_enum md res ''Result'' 2 [(''Ok'', 1), (''Error'', 1)]) (\<lambda>_.
             verify_remote_enum md err ''RemoteError'' 0 [(''Failed'', 1), (''Shutdown'', 0)]))
         | _ \<Rightarrow> Inl invalid_remote)
      else Inr ())"

definition wrapper_records :: "program_metadata \<Rightarrow> record_id list" where
  "wrapper_records md =
     concat (map (case_option [] (\<lambda>rec. [rec]))
       [string_record md, symbol_record md, list_record md, bytes_record md, byte_buffer_record md])"

definition verify_aggregates :: "program \<Rightarrow> verified" where
  "verify_aggregates p =
     (let md = metadata p in
      try_bind (try_for_each (\<lambda>rec. ensure (map_of (records md) rec \<noteq> None)
          (InvalidProgram ''bytecode wrapper metadata references a missing record'')) (wrapper_records md)) (\<lambda>_.
      try_bind (try_for_each (\<lambda>(_, r). try_for_each (\<lambda>fd. verify_metadata_type p (rf_ty fd)) (rr_fields r))
          (records md)) (\<lambda>_.
      try_for_each (\<lambda>(_, v). try_for_each (verify_metadata_type p) (rv_payload v)) (variants md))))"

definition capability_signature :: "dispatch_slot \<Rightarrow> bytecode_function \<Rightarrow> bool" where
  "capability_signature slt f =
     (map ep_mode (f_parameters f) = [Borrow] \<and> f_captures f = 0 \<and>
      \<not> list_ex ep_mutable (f_parameters f) \<and>
      (if slt = COPY_SLOT then map ep_ty (take 1 (f_parameters f)) = [f_result_type f]
       else f_result_type f = Unit))"

definition nominal_exists :: "program_metadata \<Rightarrow> nominal_type_id \<Rightarrow> bool" where
  "nominal_exists md nominal =
     (case nominal of
        Record_nominal rec \<Rightarrow> map_of (records md) rec \<noteq> None
      | Variant_nominal variant \<Rightarrow> list_ex (\<lambda>(_, v). rv_parent v = variant) (variants md))"

definition verify_dispatch :: "program \<Rightarrow> (nominal_type_id \<times> dispatch_slot) \<times> function_id \<Rightarrow> verified" where
  "verify_dispatch p entry =
     (case entry of ((nominal, slt), target) \<Rightarrow>
        case map_of (pg_functions p) target of
          None \<Rightarrow> Inl (InvalidProgram ''bytecode dispatch table references a missing function'')
        | Some f \<Rightarrow>
            try_bind (ensure (\<not> f_intrinsic_stub f)
              (InvalidProgram ''bytecode dispatch table references a non-executable intrinsic declaration'')) (\<lambda>_.
            try_bind (ensure (slt \<noteq> CAN_COPY_SLOT)
              (InvalidProgram ''the copy capability query slot cannot be implemented'')) (\<lambda>_.
            try_bind (ensure (slt \<in> {COPY_SLOT, DEINIT_SLOT} \<longrightarrow> capability_signature slt f)
              (InvalidProgram ''invalid Copy or Drop capability signature in bytecode dispatch'')) (\<lambda>_.
            ensure (nominal_exists (metadata p) nominal)
              (InvalidProgram ''bytecode dispatch table references a missing nominal type'')))))"

definition verify_program_metadata :: "program \<Rightarrow> verified" where
  "verify_program_metadata p =
     try_bind (verify_main p) (\<lambda>_.
     try_bind (verify_remote p) (\<lambda>_.
     try_bind (verify_aggregates p) (\<lambda>_.
     try_for_each (verify_dispatch p) (dispatch (metadata p)))))"

section \<open>Functions\<close>

definition target_function ::
  "program \<Rightarrow> bytecode_function \<Rightarrow> nat \<Rightarrow> function_id \<Rightarrow> verify_error + bytecode_function" where
  "target_function p f index target =
     (case map_of (pg_functions p) target of
        None \<Rightarrow> Inl (InvalidCode (f_name f) index ''references a missing function'')
      | Some g \<Rightarrow> Inr g)"

definition count_parameters :: "bytecode_function \<Rightarrow> verify_error + nat" where
  "count_parameters f = (case parameter_count f of None \<Rightarrow> Inl VerifyPanic | Some n \<Rightarrow> Inr (unat n))"

fun pattern_binding_count :: "pattern \<Rightarrow> nat" where
  "pattern_binding_count (Spanned p _) = pattern_binding_count p"
| "pattern_binding_count (Binding _) = 1"
| "pattern_binding_count (IsType _ _ _ (Some _)) = 1"
| "pattern_binding_count (Record_pat fs) = sum_list (map (\<lambda>(_, p). pattern_binding_count p) fs)"
| "pattern_binding_count (Variant_pat _ fs) = sum_list (map pattern_binding_count fs)"
| "pattern_binding_count _ = 0"

definition verify_call_layout ::
  "program \<Rightarrow> bytecode_function \<Rightarrow> nat \<Rightarrow> function_id \<Rightarrow> nat \<Rightarrow> nat \<Rightarrow> string \<Rightarrow> verified" where
  "verify_call_layout p f index target captures arguments message =
     try_bind (target_function p f index target) (\<lambda>g.
     try_bind (ensure (\<not> f_intrinsic_stub g \<and> unat (f_captures g) = captures) (InvalidCode (f_name f) index message)) (\<lambda>_.
     try_bind (count_parameters g) (\<lambda>n.
       ensure (arguments = n) (InvalidCode (f_name f) index message))))"

definition verify_record ::
  "program \<Rightarrow> bytecode_function \<Rightarrow> nat \<Rightarrow> record_id \<Rightarrow> executable_type list \<Rightarrow> string list \<Rightarrow> verified" where
  "verify_record p f index rec ts names =
     (case map_of (records (metadata p)) rec of
        None \<Rightarrow> Inl (InvalidCode (f_name f) index ''references a missing record'')
      | Some r \<Rightarrow>
          try_bind (ensure (length ts = length (rr_parameters r))
            (InvalidCode (f_name f) index ''has the wrong number of record type arguments'')) (\<lambda>_.
          try_bind (try_for_each (verify_metadata_type p) ts) (\<lambda>_.
          ensure (list_all (\<lambda>name. List.member (rl_names (rr_layout r)) name) names \<and>
              list_all (\<lambda>(a, b). a < b) (windows2 names))
            (InvalidCode (f_name f) index ''constructs a record with an invalid field layout''))))"

definition verify_variant ::
  "program \<Rightarrow> bytecode_function \<Rightarrow> nat \<Rightarrow> variant_id \<Rightarrow> executable_type list \<Rightarrow> nat \<Rightarrow> verified" where
  "verify_variant p f index variant ts payload =
     (case map_of (variants (metadata p)) variant of
        None \<Rightarrow> Inl (InvalidCode (f_name f) index ''references a missing variant'')
      | Some v \<Rightarrow>
          try_bind (ensure (length (rv_payload v) = payload \<and> length (rv_parameters v) = length ts)
            (InvalidCode (f_name f) index ''constructs an enum case with an invalid type or payload layout'')) (\<lambda>_.
          try_for_each (verify_metadata_type p) ts))"

definition verify_pattern ::
  "program \<Rightarrow> bytecode_function \<Rightarrow> nat \<Rightarrow> pattern \<Rightarrow> nat \<Rightarrow> verified" where
  "verify_pattern p f index pat binds =
     try_bind (ensure (pattern_binding_count pat = binds)
       (InvalidCode (f_name f) index ''pattern binding register count does not match the pattern'')) (\<lambda>_.
     case unspanned pat of
       IsType target source conforming _ \<Rightarrow>
         try_bind (verify_metadata_type p target) (\<lambda>_.
         try_bind (verify_metadata_type p source) (\<lambda>_.
         try_for_each (verify_metadata_type p) conforming))
     | _ \<Rightarrow> Inr ())"

definition verify_operation :: "program \<Rightarrow> bytecode_function \<Rightarrow> nat \<Rightarrow> instruction \<Rightarrow> verified" where
  "verify_operation p f index i =
     (case i of
        CallContractMethod _ _ _ _ _ result_type \<Rightarrow> verify_metadata_type p result_type
      | LoadConstant _ c \<Rightarrow>
          ensure (unat c < length (constants (metadata p)))
            (InvalidCode (f_name f) index ''references missing constant'')
      | Call _ target sp arguments \<Rightarrow>
          try_bind (verify_specialization p sp) (\<lambda>_.
          verify_call_layout p f index target 0 (length arguments)
            ''has an invalid direct-call capture or parameter layout'')
      | CallMethod _ _ target sp arguments \<Rightarrow>
          try_bind (verify_specialization p sp) (\<lambda>_.
          verify_call_layout p f index target 0 (length arguments + 1)
            ''has an invalid method-call parameter layout'')
      | RemoteCall _ _ target arguments \<Rightarrow>
          verify_call_layout p f index target 0 (length arguments + 1)
            ''has an invalid remote-call parameter layout''
      | CallClosure _ target sp captures arguments \<Rightarrow>
          try_bind (verify_specialization p sp) (\<lambda>_.
          verify_call_layout p f index target (length captures) (length arguments)
            ''has an invalid specialized closure call'')
      | MakeClosure _ target sp captures \<Rightarrow>
          try_bind (verify_specialization p sp) (\<lambda>_.
          try_bind (target_function p f index target) (\<lambda>g.
          ensure (\<not> f_intrinsic_stub g \<and> length captures = unat (f_captures g))
            (InvalidCode (f_name f) index ''constructs a closure with the wrong capture layout'')))
      | Jump target \<Rightarrow>
          ensure (target < length (instructions (f_body f))) (InvalidCode (f_name f) index ''has invalid jump target'')
      | JumpIfFalse _ target \<Rightarrow>
          ensure (target < length (instructions (f_body f))) (InvalidCode (f_name f) index ''has invalid jump target'')
      | MakeRecord _ rec ts fs \<Rightarrow> verify_record p f index rec ts (map fst fs)
      | MakeVariant _ variant ts payload \<Rightarrow> verify_variant p f index variant ts (length payload)
      | MatchPattern _ _ pat binds \<Rightarrow> verify_pattern p f index pat (length binds)
      | _ \<Rightarrow> Inr ())"

definition verify_instruction :: "program \<Rightarrow> bytecode_function \<Rightarrow> nat \<times> instruction \<Rightarrow> verified" where
  "verify_instruction p f item =
     try_bind (ensure (list_all (\<lambda>r. r < f_registers f) (visit_registers (snd item)))
       (InvalidCode (f_name f) (fst item) ''references a register outside its frame'')) (\<lambda>_.
     verify_operation p f (fst item) (snd item))"

text \<open>\<open>u16::saturating_add\<close>.\<close>

definition saturating_add16 :: "u16 \<Rightarrow> u16 \<Rightarrow> u16" where
  "saturating_add16 a b = (if unat a + unat b < 2 ^ 16 then a + b else - 1)"

definition verify_frame :: "bytecode_function \<Rightarrow> verified" where
  "verify_frame f =
     try_bind (ensure (length (f_capture_types f) = unat (f_captures f))
       (InvalidFunction (f_name f) ''has invalid capture type metadata'')) (\<lambda>_.
     case parameter_count f of
       None \<Rightarrow> Inl VerifyPanic
     | Some n \<Rightarrow>
         try_bind (ensure (saturating_add16 (f_captures f) n \<le> f_registers f)
           (InvalidFunction (f_name f) ''has an invalid capture/parameter register prefix'')) (\<lambda>_.
         try_bind (ensure (body_ok (f_body f))
           (InvalidFunction (f_name f) ''has mismatched instruction and span tables'')) (\<lambda>_.
         ensure (instructions (f_body f) \<noteq> []) (InvalidFunction (f_name f) ''has no instructions''))))"

definition signature_types :: "bytecode_function \<Rightarrow> executable_type list" where
  "signature_types f = f_capture_types f @ map ep_ty (f_parameters f) @ [f_result_type f]"

definition verify_function_structure :: "program \<Rightarrow> bytecode_function \<Rightarrow> verified" where
  "verify_function_structure p f =
     try_bind (verify_frame f) (\<lambda>_.
     try_bind (try_for_each (verify_type p f) (signature_types f)) (\<lambda>_.
     try_bind (ensure (f_returns_reference f \<longrightarrow> is_reference (f_result_type f) \<or> f_result_type f = Unknown)
       (InvalidFunction (f_name f) ''returns a reference but declares a non-reference result'')) (\<lambda>_.
     try_for_each (verify_instruction p f) (enumerate 0 (instructions (f_body f))))))"

definition verify_structure :: "program \<Rightarrow> verified" where
  "verify_structure p =
     try_bind (try_for_each (\<lambda>(_, f). ensure (length (f_parameters f) \<le> 65535) TooManyParameters) (pg_functions p)) (\<lambda>_.
     try_bind (verify_program_metadata p) (\<lambda>_.
     try_for_each (\<lambda>(_, f). verify_function_structure p f) (pg_functions p)))"

text \<open>The analysis of every function; \<open>None\<close> when one of them diverges.\<close>

fun verify_flows :: "program \<Rightarrow> bytecode_function list \<Rightarrow> verified option" where
  "verify_flows p [] = Some (Inr ())"
| "verify_flows p (f # fs) =
     (case type_states p (program_schemas p) f of
        None \<Rightarrow> None
      | Some (Inl e) \<Rightarrow> Some (Inl (FlowFailed e))
      | Some (Inr _) \<Rightarrow> verify_flows p fs)"

end
