(* ===== verification/Symbol_Check.thy ===== *)
theory Symbol_Check
  imports Verification
begin

text \<open>
  The symbol table against the program it describes: \<open>Table::validate\<close>, \<open>wire_matches\<close> and
  \<open>target\<close> of \<open>bytecode/src/symbols/linking.rs\<close>, and the whole verifier \<open>verify\<close>, whose last
  step is \<open>validate\<close>. Ordered maps are association lists with distinct keys.
\<close>

section \<open>Executable types against symbolic types\<close>

type_synonym type_names = "(qualified_name, type_binding) hash_map"
type_synonym generic_names = "(u32, string) hash_map"

fun match_all :: "('a \<Rightarrow> 's \<Rightarrow> 's option) \<Rightarrow> 'a list \<Rightarrow> 's \<Rightarrow> 's option" where
  "match_all f [] s = Some s"
| "match_all f (x # xs) s = (case f x s of None \<Rightarrow> None | Some s \<Rightarrow> match_all f xs s)"

lemma match_all_cong [fundef_cong]:
  "xs = ys \<Longrightarrow> s = t \<Longrightarrow> (\<And>x s. x \<in> set ys \<Longrightarrow> f x s = g x s) \<Longrightarrow> match_all f xs s = match_all g ys t"
  by (induction ys arbitrary: xs s t) (auto split: option.split)

definition match_generic :: "u32 \<Rightarrow> string \<Rightarrow> generic_names \<Rightarrow> generic_names option" where
  "match_generic index name generics =
     (case map_of generics index of
        None \<Rightarrow> Some (map_insert index name generics)
      | Some bound \<Rightarrow> if bound = name then Some generics else None)"

definition primitive_type :: "string \<Rightarrow> executable_type \<Rightarrow> bool" where
  "primitive_type name t =
     (List.member [(''never'', Never), (''unit'', Unit), (''bool'', Bool), (''int'', Integer), (''float'', Float),
        (''byte'', Byte), (''code_point'', CodePoint), (''raw_bytes'', Bytes), (''raw_byte_buffer'', ByteBuffer)]
        (name, t))"

text \<open>The name and the binding of a nominal type fit its executable type.\<close>

definition binds_record :: "type_binding \<Rightarrow> record_id option \<Rightarrow> bool" where
  "binds_record b rec \<longleftrightarrow> \<not> tb_variant b \<and> rec = Some (tb_id b)"

text \<open>\<open>None\<close> is \<open>false\<close>; \<open>Some\<close> holds the generic names bound so far.\<close>

function wire_matches ::
  "type_names \<Rightarrow> program_metadata \<Rightarrow> symbol_type \<Rightarrow> executable_type \<Rightarrow> generic_names \<Rightarrow> generic_names option" where
  "wire_matches types md t wire m =
     (if wire = Unknown then Some m
      else case (t, wire) of
          (Generic_sym index, Generic name) \<Rightarrow> match_generic index name m
        | (Primitive name, _) \<Rightarrow> if primitive_type name wire then Some m else None
        | (Reference_sym _ v, Reference actual) \<Rightarrow> wire_matches types md v actual m
        | (Applied kind [arg], List actual) \<Rightarrow>
            if kind = ''raw_list'' then wire_matches types md arg actual m else None
        | (Applied kind [arg], Remote actual) \<Rightarrow>
            if kind = ''remote'' then wire_matches types md arg actual m else None
        | (Applied kind [arg], Future actual) \<Rightarrow>
            if kind = ''future'' then wire_matches types md arg actual m else None
        | (Nominal name args, _) \<Rightarrow>
            (case map_of types name of
               None \<Rightarrow> None
             | Some b \<Rightarrow>
                 (case wire of
                    Record rec actuals \<Rightarrow>
                      if \<not> tb_variant b \<and> tb_id b = rec \<and> length args = length actuals
                      then match_all (\<lambda>(a, w). wire_matches types md a w) (zip args actuals) m else None
                  | Variant variant actuals \<Rightarrow>
                      if tb_variant b \<and> tb_id b = variant \<and> length args = length actuals
                      then match_all (\<lambda>(a, w). wire_matches types md a w) (zip args actuals) m else None
                  | List element \<Rightarrow>
                      (case args of
                         [arg] \<Rightarrow> if binds_record b (list_record md) then wire_matches types md arg element m else None
                       | _ \<Rightarrow> None)
                  | Bytes \<Rightarrow> if binds_record b (bytes_record md) \<and> args = [] then Some m else None
                  | _ \<Rightarrow> None))
        | (Function_sym d, Function ps res) \<Rightarrow>
            if map sp_mode (dc_parameters d) = map (\<lambda>p. mode_from (mode p)) ps then
              (case match_all (\<lambda>(a, b). wire_matches types md (sp_ty a) (ty b)) (zip (dc_parameters d) ps) m of
                 None \<Rightarrow> None
               | Some m \<Rightarrow> wire_matches types md (dc_result d) res m)
            else None
        | _ \<Rightarrow> None)"
  by pat_completeness auto
termination
  by (relation "measure (\<lambda>(_, _, _, w, _). size w)")
    (auto dest!: set_zip_rightD size_parameter_ty simp: less_Suc_eq_le size_list_estimation')

declare wire_matches.simps [simp del]

section \<open>The table\<close>

definition ensure_symbol :: "bool \<Rightarrow> string \<Rightarrow> verified" where
  "ensure_symbol b message = ensure b (SymbolError message)"

record type_scope =
  ts_names :: type_names
  ts_ids :: "(bool \<times> u32) set"

text \<open>Entering a nominal type; the insertions are part of the test, as in the source.\<close>

definition enter_type :: "program \<Rightarrow> module_ident \<Rightarrow> type_binding \<Rightarrow> type_scope \<Rightarrow> verify_error + type_scope" where
  "enter_type p module b sc =
     try_bind (ensure_symbol
         (nm_module (tb_name b) = module \<and> map_of (ts_names sc) (tb_name b) = None \<and>
          (tb_variant b, tb_id b) \<notin> ts_ids sc)
         ''duplicate or misplaced nominal type binding'') (\<lambda>_.
     try_bind (ensure_symbol (tb_variant b \<or> map_of (records (metadata p)) (tb_id b) \<noteq> None)
         ''missing nominal type implementation'') (\<lambda>_.
       Inr (sc\<lparr>ts_names := map_insert (tb_name b) b (ts_names sc),
               ts_ids := insert (tb_variant b, tb_id b) (ts_ids sc)\<rparr>)))"

definition enter_types :: "program \<Rightarrow> symbol_table \<Rightarrow> verify_error + type_scope" where
  "enter_types p t =
     try_fold (\<lambda>m. try_fold (enter_type p (md_name m)) (md_types m)) (st_modules t)
       \<lparr>ts_names = [], ts_ids = {}\<rparr>"

record definition_scope =
  ds_modules :: "module_ident set"
  ds_definitions :: "(symbol, symbol_definition) hash_map"
  ds_bindings :: "(u32, symbol_definition) hash_map"

definition descriptor_fits :: "symbol_definition \<Rightarrow> bytecode_function \<Rightarrow> nat \<Rightarrow> bool" where
  "descriptor_fits d f n \<longleftrightarrow>
     (let dc = df_descriptor d in
      length (dc_parameters dc) = n \<and>
      list_all (\<lambda>(index, _). index < dc_generics dc) (dc_constraints dc) \<and>
      length (df_generic_names d) = unat (dc_generics dc) \<and>
      distinct (df_generic_names d) \<and>
      map sp_mode (dc_parameters dc) = map (\<lambda>q. mode_from (ep_mode q)) (f_parameters f) \<and>
      list_all (\<lambda>q. unat q < length (dc_parameters dc)) (dc_result_dependencies dc))"

definition descriptor_matches :: "type_names \<Rightarrow> program \<Rightarrow> symbol_definition \<Rightarrow> bytecode_function \<Rightarrow> generic_names option" where
  "descriptor_matches types p d f =
     (case match_all (\<lambda>(a, q). wire_matches types (metadata p) (sp_ty a) (ep_ty q))
         (zip (dc_parameters (df_descriptor d)) (f_parameters f)) [] of
        None \<Rightarrow> None
      | Some m \<Rightarrow> wire_matches types (metadata p) (dc_result (df_descriptor d)) (f_result_type f) m)"

definition check_implementation :: "type_names \<Rightarrow> program \<Rightarrow> symbol_definition \<Rightarrow> verified" where
  "check_implementation types p d =
     (case map_of (pg_functions p) (df_function d) of
        None \<Rightarrow> Inl (SymbolError ''missing implementation'')
      | Some f \<Rightarrow>
          try_bind (count_parameters f) (\<lambda>n.
          try_bind (ensure_symbol (descriptor_fits d f n)
            ''descriptor disagrees with implementation parameters'') (\<lambda>_.
            case descriptor_matches types p d f of
              None \<Rightarrow> Inl (SymbolError ''descriptor type disagrees with implementation'')
            | Some generics \<Rightarrow>
                ensure_symbol (list_all (\<lambda>(index, name). get (df_generic_names d) (unat index) = Some name) generics)
                  ''generic implementation names disagree with descriptor'')))"

definition enter_definition ::
  "type_names \<Rightarrow> program \<Rightarrow> module_ident \<Rightarrow> symbol_definition \<Rightarrow> definition_scope \<Rightarrow>
   verify_error + definition_scope" where
  "enter_definition types p module d sc =
     try_bind (ensure_symbol
         (nm_module (sy_name (df_symbol d)) = module \<and>
          sy_overload (df_symbol d) = overload (df_descriptor d) \<and>
          sy_receiver (df_symbol d) = dc_receiver (df_descriptor d))
         ''symbol identity disagrees with its descriptor or module'') (\<lambda>_.
     try_bind (ensure_symbol
         (map_of (ds_definitions sc) (df_symbol d) = None \<and> map_of (ds_bindings sc) (df_function d) = None)
         ''duplicate symbol or function binding'') (\<lambda>_.
     try_bind (check_implementation types p d) (\<lambda>_.
       Inr (sc\<lparr>ds_definitions := map_insert (df_symbol d) d (ds_definitions sc),
               ds_bindings := map_insert (df_function d) d (ds_bindings sc)\<rparr>))))"

definition enter_module ::
  "type_names \<Rightarrow> program \<Rightarrow> symbol_module \<Rightarrow> definition_scope \<Rightarrow> verify_error + definition_scope" where
  "enter_module types p m sc =
     try_bind (ensure_symbol
         (mn_package (md_name m) \<noteq> [] \<and> mn_path (md_name m) \<noteq> [] \<and> md_name m \<notin> ds_modules sc)
         ''empty or duplicate module identity'') (\<lambda>_.
       try_fold (enter_definition types p (md_name m)) (md_definitions m)
         (sc\<lparr>ds_modules := insert (md_name m) (ds_modules sc)\<rparr>))"

definition target :: "instruction \<Rightarrow> function_id option" where
  "target i =
     (case i of
        Call _ f _ _ \<Rightarrow> Some f
      | CallMethod _ _ f _ _ \<Rightarrow> Some f
      | RemoteCall _ _ f _ \<Rightarrow> Some f
      | MakeClosure _ f _ _ \<Rightarrow> Some f
      | CallClosure _ f _ _ _ \<Rightarrow> Some f
      | _ \<Rightarrow> None)"

text \<open>The imports of a module, collected as the set of the functions they bind.\<close>

definition enter_import ::
  "definition_scope \<Rightarrow> symbol_import \<Rightarrow> u32 set \<Rightarrow> verify_error + u32 set" where
  "enter_import sc im imports =
     (case map_of (ds_definitions sc) (im_symbol im) of
        None \<Rightarrow> Inl (SymbolError ''unresolved module import'')
      | Some d \<Rightarrow>
          try_bind (ensure_symbol
              (im_function im = df_function d \<and> im_generic_names im = df_generic_names d \<and>
               accepts (im_required im) (df_descriptor d) \<and>
               overload (im_required im) = sy_overload (im_symbol im) \<and>
               im_function im \<notin> imports)
              ''incompatible or duplicate module import'') (\<lambda>_.
            Inr (insert (im_function im) imports)))"

definition call_imported :: "definition_scope \<Rightarrow> module_ident \<Rightarrow> u32 set \<Rightarrow> instruction \<Rightarrow> bool" where
  "call_imported sc module imports i =
     (case target i of
        None \<Rightarrow> True
      | Some f \<Rightarrow>
          (case map_of (ds_bindings sc) f of
             None \<Rightarrow> True
           | Some d \<Rightarrow> nm_module (sy_name (df_symbol d)) = module \<or> df_function d \<in> imports))"

definition check_calls :: "program \<Rightarrow> definition_scope \<Rightarrow> module_ident \<Rightarrow> u32 set \<Rightarrow> symbol_definition \<Rightarrow> verified" where
  "check_calls p sc module imports d =
     (case map_of (pg_functions p) (df_function d) of
        None \<Rightarrow> Inl VerifyPanic
      | Some f \<Rightarrow>
          ensure_symbol (list_all (call_imported sc module imports) (instructions (f_body f)))
            ''cross-module call is missing its symbolic import'')"

definition check_imports :: "program \<Rightarrow> definition_scope \<Rightarrow> symbol_module \<Rightarrow> verified" where
  "check_imports p sc m =
     try_bind (try_fold (enter_import sc) (md_imports m) {}) (\<lambda>imports.
       try_for_each (check_calls p sc (md_name m) imports) (md_definitions m))"

definition scope_of :: "symbol_table \<Rightarrow> program \<Rightarrow> verify_error + definition_scope" where
  "scope_of t p =
     try_bind (enter_types p t) (\<lambda>ts.
       try_fold (enter_module (ts_names ts) p) (st_modules t)
         \<lparr>ds_modules = {}, ds_definitions = [], ds_bindings = []\<rparr>)"

definition validate :: "symbol_table \<Rightarrow> program \<Rightarrow> verified" where
  "validate t p =
     try_bind (ensure_symbol (st_version t = SYMBOLS_FORMAT_VERSION) ''unsupported descriptor version'') (\<lambda>_.
     try_bind (scope_of t p) (\<lambda>sc.
     try_for_each (check_imports p sc) (st_modules t)))"

section \<open>The verifier\<close>

definition verify :: "program \<Rightarrow> verified option" where
  "verify p =
     (case verify_structure p of
        Inl e \<Rightarrow> Some (Inl e)
      | Inr _ \<Rightarrow>
          (case verify_flows p (map snd (pg_functions p)) of
             Some (Inr _) \<Rightarrow> Some (validate (symbols (metadata p)) p)
           | r \<Rightarrow> r))"

end
