(* ===== verification/Wire.thy ===== *)
theory Wire
  imports Program
begin

text \<open>
  The byte writer and reader of \<open>bytecode/src/binary/write.rs\<close> and
  \<open>bytecode/src/binary/read.rs\<close>: their primitive operations, the sequencing both files
  build on, and the relation \<open>emits\<close> between what is written and what is read back.

  A write operation takes the bytes written so far and returns them extended. A reader is
  the whole input with the current offset. The maximal collection and string sizes are
  those of \<open>bytecode/src/binary.rs\<close>.
\<close>

section \<open>Errors\<close>

text \<open>
  One constructor per message of the two files and of \<open>binary.rs\<close>. \<open>Panicked\<close> is a panic of
  the code (an \<open>expect\<close> that fails), \<open>PatternTooDeep\<close> the exhaustion of the recursion
  budget of the model's pattern reader, which \<open>r_pattern_not_too_deep\<close> shows unreachable.
\<close>

datatype binary_error =
    CollectionExceedsFormat | StructuralMetadata | PendingCaptureMode
  | OffsetOverflow | Truncated | CollectionExceedsDecoder | StringExceedsDecoder | InvalidUtf8
  | InvalidNominalType u8 | InvalidBoolean u8 | InvalidOptionTag u8 | DuplicateMapKey
  | InvalidSpecializationEntries | UnknownConstantTag u8 | InvalidUnicodeScalar
  | InvalidParameterCounts | MismatchedSpans | TypeNesting | MismatchedModes
  | NonCanonicalAlternatives | UnknownTypeTag u8 | UnknownOpcode u8 | InvalidAssertionOption u8
  | UnknownUnary u8 | UnknownBinary u8 | UnknownParameterMode u8 | UnknownCaptureMode u8
  | UnknownBuiltinTag | UnknownPatternTag u8 | DuplicateRecordFields string
  | NotFosterBytecode | UnsupportedVersion u16 | UnsupportedFlags u16 | InvalidSymbolTable
  | TrailingBytes | InvalidProgram | InvalidBytecode
  | Panicked | PatternTooDeep

definition MAX_ITEMS :: nat where
  "MAX_ITEMS = 16777216"

definition MAX_STRING :: nat where
  "MAX_STRING = 64 * 1024 * 1024"

section \<open>Little-endian integers\<close>

text \<open>\<open>to_le_bytes\<close> and \<open>from_le_bytes\<close> at \<open>n\<close> bytes.\<close>

definition to_le_bytes :: "nat \<Rightarrow> 'a::len word \<Rightarrow> u8 list" where
  "to_le_bytes n w = map (\<lambda>i. ucast (drop_bit (8 * i) w)) [0..<n]"

fun from_le_bytes :: "u8 list \<Rightarrow> 'a::len word" where
  "from_le_bytes [] = 0"
| "from_le_bytes (b # bs) = or (ucast b) (push_bit 8 (from_le_bytes bs))"

lemma length_to_le_bytes [simp]: "length (to_le_bytes n w) = n"
  by (simp add: to_le_bytes_def)

lemma bit_from_le_bytes:
  "bit (from_le_bytes bs :: 'a::len word) n \<longleftrightarrow>
   n < LENGTH('a) \<and> n < 8 * length bs \<and> bit (bs ! (n div 8)) (n mod 8)"
proof (induction bs arbitrary: n)
  case (Cons b bs)
  show ?case
  proof (cases "n < 8")
    case True
    then show ?thesis by (auto simp: bit_simps)
  next
    case False
    then have "n div 8 = Suc ((n - 8) div 8)" "n mod 8 = (n - 8) mod 8"
      by (simp_all add: div_if mod_if)
    with False show ?thesis
      by (auto simp: bit_simps Cons.IH dest: bit_imp_le_length)
  qed
qed simp

lemma from_le_bytes_to_le_bytes:
  fixes w :: "'a::len word"
  assumes "LENGTH('a) = 8 * n"
  shows "from_le_bytes (to_le_bytes n w) = w"
proof (rule bit_word_eqI)
  fix i
  assume "i < LENGTH('a)"
  then have "i div 8 < n" using assms by (simp add: less_mult_imp_div_less mult.commute)
  then show "bit (from_le_bytes (to_le_bytes n w) :: 'a word) i = bit w i"
    using \<open>i < LENGTH('a)\<close> assms
    by (simp add: bit_from_le_bytes to_le_bytes_def bit_simps)
qed

section \<open>Writer\<close>

type_synonym writer = "u8 list \<Rightarrow> binary_error + u8 list"

definition w_bytes :: "u8 list \<Rightarrow> writer" where
  "w_bytes bs buf = Inr (buf @ bs)"

definition w_fail :: "binary_error \<Rightarrow> writer" where
  "w_fail e buf = Inl e"

definition w_u8 :: "u8 \<Rightarrow> writer" where
  "w_u8 v = w_bytes [v]"

definition w_u16 :: "u16 \<Rightarrow> writer" where
  "w_u16 v = w_bytes (to_le_bytes 2 v)"

definition w_u32 :: "nat \<Rightarrow> writer" where
  "w_u32 v = (if v < 2 ^ 32 then w_bytes (to_le_bytes 4 (word_of_nat v :: u32)) else w_fail CollectionExceedsFormat)"

definition w_u32_value :: "u32 \<Rightarrow> writer" where
  "w_u32_value v = w_bytes (to_le_bytes 4 v)"

definition w_u64 :: "u64 \<Rightarrow> writer" where
  "w_u64 v = w_bytes (to_le_bytes 8 v)"

definition w_id :: "u32 \<Rightarrow> writer" where
  "w_id v = w_u32_value v"

definition w_reg :: "slot \<Rightarrow> writer" where
  "w_reg v = w_u16 v"

definition w_bool :: "bool \<Rightarrow> writer" where
  "w_bool b = w_u8 (if b then 1 else 0)"

text \<open>Statements one after the other; the first error ends the operation.\<close>

fun w_all :: "writer list \<Rightarrow> writer" where
  "w_all [] buf = Inr buf"
| "w_all (w # ws) buf = try_bind (w buf) (w_all ws)"

text \<open>A count followed by its elements.\<close>

definition w_vec :: "('a \<Rightarrow> writer) \<Rightarrow> 'a list \<Rightarrow> writer" where
  "w_vec w xs = w_all [w_u32 (length xs), w_all (map w xs)]"

definition w_nominal_type :: "nominal_type_id \<Rightarrow> writer" where
  "w_nominal_type v =
     (case v of
        Record_nominal r \<Rightarrow> w_all [w_u8 0, w_id r]
      | Variant_nominal t \<Rightarrow> w_all [w_u8 1, w_id t])"

definition w_string :: "string \<Rightarrow> writer" where
  "w_string s = w_all [w_u32 (length s), w_bytes (as_bytes s)]"

definition w_option_id :: "u32 option \<Rightarrow> writer" where
  "w_option_id v = (case v of Some i \<Rightarrow> w_all [w_u8 1, w_id i] | None \<Rightarrow> w_u8 0)"

definition w_regs :: "slot list \<Rightarrow> writer" where
  "w_regs vs = w_vec w_reg vs"

section \<open>Reader\<close>

record reader =
  rd_bytes :: "u8 list"
  rd_offset :: nat

type_synonym 'a rd = "reader \<Rightarrow> binary_error + 'a \<times> reader"

definition r_return :: "'a \<Rightarrow> 'a rd" where
  "r_return x rd = Inr (x, rd)"

definition r_fail :: "binary_error \<Rightarrow> 'a rd" where
  "r_fail e rd = Inl e"

definition r_bind :: "'a rd \<Rightarrow> ('a \<Rightarrow> 'b rd) \<Rightarrow> 'b rd" where
  "r_bind r k rd = (case r rd of Inl e \<Rightarrow> Inl e | Inr (x, rd') \<Rightarrow> k x rd')"

definition r_map1 :: "('a \<Rightarrow> 'z) \<Rightarrow> 'a rd \<Rightarrow> 'z rd" where
  "r_map1 f a = r_bind a (\<lambda>x. r_return (f x))"

definition r_map2 :: "('a \<Rightarrow> 'b \<Rightarrow> 'z) \<Rightarrow> 'a rd \<Rightarrow> 'b rd \<Rightarrow> 'z rd" where
  "r_map2 f a b = r_bind a (\<lambda>x. r_map1 (f x) b)"

definition r_map3 :: "('a \<Rightarrow> 'b \<Rightarrow> 'c \<Rightarrow> 'z) \<Rightarrow> 'a rd \<Rightarrow> 'b rd \<Rightarrow> 'c rd \<Rightarrow> 'z rd" where
  "r_map3 f a b c = r_bind a (\<lambda>x. r_map2 (f x) b c)"

definition r_map4 ::
  "('a \<Rightarrow> 'b \<Rightarrow> 'c \<Rightarrow> 'd \<Rightarrow> 'z) \<Rightarrow> 'a rd \<Rightarrow> 'b rd \<Rightarrow> 'c rd \<Rightarrow> 'd rd \<Rightarrow> 'z rd" where
  "r_map4 f a b c d = r_bind a (\<lambda>x. r_map3 (f x) b c d)"

definition r_map5 ::
  "('a \<Rightarrow> 'b \<Rightarrow> 'c \<Rightarrow> 'd \<Rightarrow> 'e \<Rightarrow> 'z) \<Rightarrow> 'a rd \<Rightarrow> 'b rd \<Rightarrow> 'c rd \<Rightarrow> 'd rd \<Rightarrow> 'e rd \<Rightarrow> 'z rd" where
  "r_map5 f a b c d e = r_bind a (\<lambda>x. r_map4 (f x) b c d e)"

definition r_map6 ::
  "('a \<Rightarrow> 'b \<Rightarrow> 'c \<Rightarrow> 'd \<Rightarrow> 'e \<Rightarrow> 'f \<Rightarrow> 'z) \<Rightarrow>
   'a rd \<Rightarrow> 'b rd \<Rightarrow> 'c rd \<Rightarrow> 'd rd \<Rightarrow> 'e rd \<Rightarrow> 'f rd \<Rightarrow> 'z rd" where
  "r_map6 h a b c d e f = r_bind a (\<lambda>x. r_map5 (h x) b c d e f)"

definition r_take :: "nat \<Rightarrow> u8 list rd" where
  "r_take cnt rd =
     (let end = rd_offset rd + cnt
      in if end > usize_max then Inl OffsetOverflow
         else if end > length (rd_bytes rd) then Inl Truncated
         else Inr (take cnt (drop (rd_offset rd) (rd_bytes rd)), rd\<lparr>rd_offset := end\<rparr>))"

definition r_u8 :: "u8 rd" where
  "r_u8 = r_map1 hd (r_take 1)"

definition r_u16 :: "u16 rd" where
  "r_u16 = r_map1 from_le_bytes (r_take 2)"

definition r_u32 :: "u32 rd" where
  "r_u32 = r_map1 from_le_bytes (r_take 4)"

definition r_u64 :: "u64 rd" where
  "r_u64 = r_map1 from_le_bytes (r_take 8)"

definition r_usize :: "nat rd" where
  "r_usize = r_map1 unat r_u32"

definition r_count :: "nat rd" where
  "r_count = r_bind r_usize (\<lambda>v. if v > MAX_ITEMS then r_fail CollectionExceedsDecoder else r_return v)"

definition r_id :: "u32 rd" where
  "r_id = r_u32"

definition r_reg :: "slot rd" where
  "r_reg = r_u16"

definition r_nominal_type :: "nominal_type_id rd" where
  "r_nominal_type = r_bind r_u8 (\<lambda>tag.
     if tag = 0 then r_map1 Record_nominal r_id
     else if tag = 1 then r_map1 Variant_nominal r_id
     else r_fail (InvalidNominalType tag))"

definition r_bool :: "bool rd" where
  "r_bool = r_bind r_u8 (\<lambda>tag.
     if tag = 0 then r_return False
     else if tag = 1 then r_return True
     else r_fail (InvalidBoolean tag))"

definition r_string :: "string rd" where
  "r_string = r_bind r_usize (\<lambda>cnt.
     if cnt > MAX_STRING then r_fail StringExceedsDecoder
     else r_bind (r_take cnt) (\<lambda>bs.
       if utf8_valid bs then r_return (from_bytes bs) else r_fail InvalidUtf8))"

definition r_option_id :: "u32 option rd" where
  "r_option_id = r_bind r_u8 (\<lambda>tag.
     if tag = 0 then r_return None
     else if tag = 1 then r_map1 Some r_id
     else r_fail (InvalidOptionTag tag))"

fun r_times :: "nat \<Rightarrow> 'a rd \<Rightarrow> 'a list rd" where
  "r_times 0 r = r_return []"
| "r_times (Suc n) r = r_map2 (#) r (r_times n r)"

definition r_vec :: "'a rd \<Rightarrow> 'a list rd" where
  "r_vec r = r_bind r_count (\<lambda>cnt. r_times cnt r)"

text \<open>The entries of a map in reading order; a key that is already present is an error.\<close>

fun r_entries :: "nat \<Rightarrow> ('k \<times> 'v) list \<Rightarrow> ('k \<times> 'v) rd \<Rightarrow> ('k, 'v) hash_map rd" where
  "r_entries 0 m r = r_return m"
| "r_entries (Suc n) m r = r_bind r (\<lambda>(key, v).
     if key \<in> fst ` set m then r_fail DuplicateMapKey else r_entries n (m @ [(key, v)]) r)"

definition r_hash_map :: "('k \<times> 'v) rd \<Rightarrow> ('k, 'v) hash_map rd" where
  "r_hash_map r = r_bind r_count (\<lambda>cnt. r_entries cnt [] r)"

definition r_regs :: "slot list rd" where
  "r_regs = r_vec r_reg"

end
