(* ===== verification/Wire_Laws.thy ===== *)
theory Wire_Laws
  imports Wire
begin

text \<open>
  Laws of the byte writer and reader. \<open>emits w r x\<close> says that the write operation \<open>w\<close>
  appends bytes which the read operation \<open>r\<close> turns back into \<open>x\<close>, consuming exactly those
  bytes whatever surrounds them; it composes along the sequencing of both sides. The
  locale \<open>wire_codec\<close> is the contract between a writer and the reader of its bytes.
\<close>

declare w_all.simps [simp del]

section \<open>What is written is read back\<close>

definition reads_as :: "'a rd \<Rightarrow> u8 list \<Rightarrow> 'a \<Rightarrow> bool" where
  "reads_as r bs x \<longleftrightarrow> (\<forall>pre rest. length (pre @ bs @ rest) \<le> usize_max \<longrightarrow>
     r \<lparr>rd_bytes = pre @ bs @ rest, rd_offset = length pre\<rparr> =
     Inr (x, \<lparr>rd_bytes = pre @ bs @ rest, rd_offset = length pre + length bs\<rparr>))"

definition writes :: "writer \<Rightarrow> u8 list \<Rightarrow> bool" where
  "writes w bs \<longleftrightarrow> (\<forall>buf. w buf = Inr (buf @ bs))"

definition emits :: "writer \<Rightarrow> 'a rd \<Rightarrow> 'a \<Rightarrow> bool" where
  "emits w r x \<longleftrightarrow> (\<exists>bs. writes w bs \<and> reads_as r bs x)"

lemma reads_asD:
  "reads_as r bs x \<Longrightarrow> length (pre @ bs @ rest) \<le> usize_max \<Longrightarrow>
   r \<lparr>rd_bytes = pre @ bs @ rest, rd_offset = length pre\<rparr> =
   Inr (x, \<lparr>rd_bytes = pre @ bs @ rest, rd_offset = length pre + length bs\<rparr>)"
  unfolding reads_as_def by blast

lemma reads_as_return: "reads_as (r_return x) [] x"
  by (simp add: reads_as_def r_return_def)

lemma reads_as_bind:
  assumes "reads_as r bs x" "reads_as (k x) cs y"
  shows "reads_as (r_bind r k) (bs @ cs) y"
  unfolding reads_as_def
proof (intro allI impI)
  fix pre rest
  assume len: "length (pre @ (bs @ cs) @ rest) \<le> usize_max"
  have "r \<lparr>rd_bytes = pre @ bs @ cs @ rest, rd_offset = length pre\<rparr> =
      Inr (x, \<lparr>rd_bytes = pre @ bs @ cs @ rest, rd_offset = length pre + length bs\<rparr>)"
    using reads_asD [OF assms(1), of pre "cs @ rest"] len by simp
  moreover have "k x \<lparr>rd_bytes = pre @ bs @ cs @ rest, rd_offset = length pre + length bs\<rparr> =
      Inr (y, \<lparr>rd_bytes = pre @ bs @ cs @ rest, rd_offset = length pre + length bs + length cs\<rparr>)"
    using reads_asD [OF assms(2), of "pre @ bs" rest] len by simp
  ultimately show "r_bind r k \<lparr>rd_bytes = pre @ (bs @ cs) @ rest, rd_offset = length pre\<rparr> =
      Inr (y, \<lparr>rd_bytes = pre @ (bs @ cs) @ rest, rd_offset = length pre + length (bs @ cs)\<rparr>)"
    by (simp add: r_bind_def add.assoc)
qed

lemma reads_as_take: "length bs = n \<Longrightarrow> reads_as (r_take n) bs bs"
  by (auto simp: reads_as_def r_take_def Let_def)

lemma writes_bytes [simp]: "writes (w_bytes bs) cs \<longleftrightarrow> cs = bs"
  by (auto simp: writes_def w_bytes_def)

lemma writes_Nil: "writes (w_all []) []"
  by (simp add: writes_def w_all.simps)

lemma writes_Cons: "writes w bs \<Longrightarrow> writes (w_all ws) cs \<Longrightarrow> writes (w_all (w # ws)) (bs @ cs)"
  by (simp add: writes_def w_all.simps)

lemma writes_unique: "writes w bs \<Longrightarrow> writes w cs \<Longrightarrow> bs = cs"
  by (auto simp: writes_def)

lemma w_all_single [simp]: "w_all [w] = w"
proof
  show "w_all [w] buf = w buf" for buf by (cases "w buf") (auto simp: w_all.simps)
qed

section \<open>Composition\<close>

lemma emits_Nil: "emits (w_all []) (r_return x) x"
  unfolding emits_def by (intro exI conjI, rule writes_Nil, rule reads_as_return)

lemma emits_bind:
  "emits w r x \<Longrightarrow> emits (w_all ws) (k x) y \<Longrightarrow> emits (w_all (w # ws)) (r_bind r k) y"
  unfolding emits_def by (elim exE conjE, intro exI conjI, erule (1) writes_Cons, erule (1) reads_as_bind)

lemma emits_bind_last: "emits w r x \<Longrightarrow> k x = r_return y \<Longrightarrow> emits w (r_bind r k) y"
  by (subst w_all_single [symmetric], rule emits_bind, assumption, simp only: emits_Nil)

lemma emits_map1 [emits_intros]: "emits a r x \<Longrightarrow> emits a (r_map1 f r) (f x)"
  unfolding r_map1_def by (rule emits_bind_last) simp_all

lemma emits_map2 [emits_intros]:
  "emits a ra x \<Longrightarrow> emits b rb y \<Longrightarrow> emits (w_all [a, b]) (r_map2 f ra rb) (f x y)"
  unfolding r_map2_def by (rule emits_bind, assumption, unfold w_all_single, rule emits_map1)

lemma emits_map3 [emits_intros]:
  "emits a ra x \<Longrightarrow> emits b rb y \<Longrightarrow> emits c rc z \<Longrightarrow>
   emits (w_all [a, b, c]) (r_map3 f ra rb rc) (f x y z)"
  unfolding r_map3_def by (rule emits_bind, assumption, rule emits_map2)

lemma emits_map4 [emits_intros]:
  "emits a ra x \<Longrightarrow> emits b rb y \<Longrightarrow> emits c rc z \<Longrightarrow> emits d rd u \<Longrightarrow>
   emits (w_all [a, b, c, d]) (r_map4 f ra rb rc rd) (f x y z u)"
  unfolding r_map4_def by (rule emits_bind, assumption, rule emits_map3)

lemma emits_map5 [emits_intros]:
  "emits a ra x \<Longrightarrow> emits b rb y \<Longrightarrow> emits c rc z \<Longrightarrow> emits d rd u \<Longrightarrow> emits e re v \<Longrightarrow>
   emits (w_all [a, b, c, d, e]) (r_map5 f ra rb rc rd re) (f x y z u v)"
  unfolding r_map5_def by (rule emits_bind, assumption, rule emits_map4)

lemma emits_map6 [emits_intros]:
  "emits a ra x \<Longrightarrow> emits b rb y \<Longrightarrow> emits c rc z \<Longrightarrow> emits d rd u \<Longrightarrow> emits e re v \<Longrightarrow> emits g rg t \<Longrightarrow>
   emits (w_all [a, b, c, d, e, g]) (r_map6 f ra rb rc rd re rg) (f x y z u v t)"
  unfolding r_map6_def by (rule emits_bind, assumption, rule emits_map5)

section \<open>Primitives\<close>

lemma emits_take: "length bs = n \<Longrightarrow> emits (w_bytes bs) (r_take n) bs"
  unfolding emits_def using reads_as_take by auto

lemma emits_le_bytes:
  "LENGTH('a::len) = 8 * n \<Longrightarrow>
   emits (w_bytes (to_le_bytes n w)) (r_map1 from_le_bytes (r_take n)) (w :: 'a word)"
  using emits_map1 [OF emits_take [of "to_le_bytes n w" n], of "from_le_bytes :: u8 list \<Rightarrow> 'a word"]
  by (simp add: from_le_bytes_to_le_bytes)

lemma emits_u8 [emits_intros]: "emits (w_u8 v) r_u8 v"
  using emits_map1 [OF emits_take [of "[v]" 1], of hd] by (simp add: w_u8_def r_u8_def)

lemma emits_u16 [emits_intros]: "emits (w_u16 v) r_u16 v"
  by (simp add: w_u16_def r_u16_def emits_le_bytes)

lemma emits_u32_value [emits_intros]: "emits (w_u32_value v) r_u32 v"
  by (simp add: w_u32_value_def r_u32_def emits_le_bytes)

lemma emits_u64 [emits_intros]: "emits (w_u64 v) r_u64 v"
  by (simp add: w_u64_def r_u64_def emits_le_bytes)

lemma emits_u32 [emits_intros]:
  assumes "v < 2 ^ 32"
  shows "emits (w_u32 v) r_usize v"
proof -
  have "unat (word_of_nat v :: u32) = v"
    using assms by (simp add: unsigned_of_nat take_bit_nat_eq_self)
  moreover have "w_u32 v = w_u32_value (word_of_nat v)"
    using assms by (simp add: w_u32_def w_u32_value_def)
  ultimately show ?thesis
    using emits_map1 [OF emits_u32_value [of "word_of_nat v"], of unat]
    by (simp add: r_usize_def)
qed

lemma emits_id [emits_intros]: "emits (w_id v) r_id v"
  by (simp add: w_id_def r_id_def emits_u32_value)

lemma emits_reg [emits_intros]: "emits (w_reg v) r_reg v"
  by (simp add: w_reg_def r_reg_def emits_u16)

text \<open>A tag selects the branch of the reader.\<close>

lemma emits_tag: "emits (w_all ws) (k t) y \<Longrightarrow> emits (w_all (w_u8 t # ws)) (r_bind r_u8 k) y"
  by (rule emits_bind [OF emits_u8])

lemma emits_tag_only: "k t = r_return y \<Longrightarrow> emits (w_u8 t) (r_bind r_u8 k) y"
  by (rule emits_bind_last [OF emits_u8])

lemma emits_bool [emits_intros]: "emits (w_bool b) r_bool b"
  unfolding w_bool_def r_bool_def by (rule emits_tag_only) simp

lemma emits_nominal_type [emits_intros]: "emits (w_nominal_type v) r_nominal_type v"
  by (cases v) (simp_all add: w_nominal_type_def r_nominal_type_def emits_tag emits_map1 emits_id)

lemma emits_option_id [emits_intros]: "emits (w_option_id v) r_option_id v"
  by (cases v) (simp_all add: w_option_id_def r_option_id_def emits_tag emits_tag_only emits_map1 emits_id)

lemma emits_count [emits_intros]: "n \<le> MAX_ITEMS \<Longrightarrow> emits (w_u32 n) r_count n"
  unfolding r_count_def
  by (rule emits_bind_last [OF emits_u32]) (simp_all add: MAX_ITEMS_def)

definition string_ok :: "string \<Rightarrow> bool" where
  "string_ok s \<longleftrightarrow> length s \<le> MAX_STRING \<and> utf8_valid (as_bytes s)"

lemma emits_string [emits_intros]: "string_ok s \<Longrightarrow> emits (w_string s) r_string s"
  unfolding w_string_def r_string_def
proof (rule emits_bind [of _ _ "length s"])
  assume ok: "string_ok s"
  then show "emits (w_u32 (length s)) r_usize (length s)"
    by (intro emits_u32) (simp add: string_ok_def MAX_STRING_def)
  have "emits (w_bytes (as_bytes s)) (r_bind (r_take (length s)) (\<lambda>bs.
       if utf8_valid bs then r_return (from_bytes bs) else r_fail InvalidUtf8)) s"
    using ok by (intro emits_bind_last [OF emits_take]) (simp_all add: string_ok_def)
  then show "emits (w_all [w_bytes (as_bytes s)])
     (if MAX_STRING < length s then r_fail StringExceedsDecoder
      else r_bind (r_take (length s)) (\<lambda>bs.
       if utf8_valid bs then r_return (from_bytes bs) else r_fail InvalidUtf8)) s"
    using ok by (simp add: string_ok_def)
qed

lemma emits_times:
  "(\<And>x. x \<in> set xs \<Longrightarrow> emits (w x) r x) \<Longrightarrow> emits (w_all (map w xs)) (r_times (length xs) r) xs"
proof (induction xs)
  case Nil
  show ?case using emits_Nil [of "[]"] by simp
next
  case (Cons x xs)
  show ?case unfolding list.map length_Cons r_times.simps r_map2_def
    by (rule emits_bind [of _ _ x])
      (use Cons in \<open>auto intro!: emits_map1\<close>)
qed

lemma emits_vec [emits_intros]:
  "(\<And>x. x \<in> set xs \<Longrightarrow> emits (w x) r x) \<Longrightarrow> length xs \<le> MAX_ITEMS \<Longrightarrow> emits (w_vec w xs) (r_vec r) xs"
  unfolding w_vec_def r_vec_def
  by (rule emits_bind [OF emits_count]) (auto intro: emits_times)

lemma emits_entries:
  "(\<And>e. e \<in> set es \<Longrightarrow> emits (w e) r e) \<Longrightarrow> distinct (map fst (m @ es)) \<Longrightarrow>
   emits (w_all (map w es)) (r_entries (length es) m r) (m @ es)"
proof (induction es arbitrary: m)
  case Nil
  show ?case using emits_Nil [of m] by simp
next
  case (Cons e es)
  have "emits (w_all (map w es)) (r_entries (length es) (m @ [e]) r) ((m @ [e]) @ es)"
    using Cons.prems by (intro Cons.IH) auto
  with Cons.prems show ?case unfolding list.map length_Cons r_entries.simps
    by (intro emits_bind [of _ _ e]) (auto simp: case_prod_beta)
qed

lemma emits_hash_map [emits_intros]:
  "(\<And>e. e \<in> set es \<Longrightarrow> emits (w e) r e) \<Longrightarrow> distinct (map fst es) \<Longrightarrow> length es \<le> MAX_ITEMS \<Longrightarrow>
   emits (w_vec w es) (r_hash_map r) es"
  unfolding w_vec_def r_hash_map_def
  by (rule emits_bind [OF emits_count])
    (use emits_entries [of es w r "[]"] in \<open>auto\<close>)

section \<open>The contract of a codec\<close>

locale wire_codec =
  fixes ok :: "'a \<Rightarrow> bool" and w :: "'a \<Rightarrow> writer" and r :: "'a rd"
  assumes codec: "ok x \<Longrightarrow> emits (w x) r x"
begin

lemma written: "ok x \<Longrightarrow> \<exists>bs. writes (w x) bs \<and> reads_as r bs x"
  using codec by (simp add: emits_def)

lemma round_trip:
  assumes "ok x" "w x buf = Inr out" "length (out @ rest) \<le> usize_max"
  shows "r \<lparr>rd_bytes = out @ rest, rd_offset = length buf\<rparr> =
    Inr (x, \<lparr>rd_bytes = out @ rest, rd_offset = length out\<rparr>)"
proof -
  from written [OF assms(1)] obtain bs where bs: "writes (w x) bs" "reads_as r bs x" by blast
  then have "out = buf @ bs" using assms(2) by (simp add: writes_def)
  then show ?thesis using reads_asD [OF bs(2), of buf rest] assms(3) by simp
qed

lemma round_trip_at:
  assumes "ok x"
  shows "\<exists>bs. w x buf = Inr (buf @ bs) \<and>
    (\<forall>rest. length (buf @ bs @ rest) \<le> usize_max \<longrightarrow>
       r \<lparr>rd_bytes = buf @ bs @ rest, rd_offset = length buf\<rparr> =
       Inr (x, \<lparr>rd_bytes = buf @ bs @ rest, rd_offset = length buf + length bs\<rparr>))"
proof -
  from written [OF assms] obtain bs where bs: "writes (w x) bs" "reads_as r bs x" by blast
  then show ?thesis using reads_asD [OF bs(2), of buf] by (intro exI [of _ bs]) (simp add: writes_def)
qed

lemma prefix_free:
  assumes ok: "ok x" "ok y" and w: "w x buf = Inr out" "w y buf = Inr (out @ extra)"
    and len: "length (out @ extra) \<le> usize_max"
  shows "x = y \<and> extra = []"
proof -
  have "r \<lparr>rd_bytes = out @ extra, rd_offset = length buf\<rparr> =
      Inr (x, \<lparr>rd_bytes = out @ extra, rd_offset = length out\<rparr>)"
    by (rule round_trip [OF ok(1) w(1) len])
  moreover have "r \<lparr>rd_bytes = (out @ extra) @ [], rd_offset = length buf\<rparr> =
      Inr (y, \<lparr>rd_bytes = (out @ extra) @ [], rd_offset = length (out @ extra)\<rparr>)"
    by (rule round_trip [OF ok(2) w(2)]) (use len in simp)
  ultimately show ?thesis by simp
qed

lemma vec_codec:
  "list_all ok xs \<Longrightarrow> length xs \<le> MAX_ITEMS \<Longrightarrow> emits (w_vec w xs) (r_vec r) xs"
  by (rule emits_vec) (auto simp: list_all_iff intro: codec)

end

interpretation string_codec: wire_codec string_ok w_string r_string
  by unfold_locales (rule emits_string)

interpretation nominal_codec: wire_codec "\<lambda>_. True" w_nominal_type r_nominal_type
  by unfold_locales (rule emits_nominal_type)

end
