(* ===== verification/Codec.thy ===== *)
theory Codec
  imports Wire_Laws
begin

text \<open>
  The writers and readers of the parts of a program: types, specializations, constants,
  patterns, operators, instructions and functions, case by case as
  \<open>bytecode/src/binary/write.rs\<close> and \<open>bytecode/src/binary/read.rs\<close> list them. The order of
  the writes of a variant and of the reads of its constructor is the order of the code.
\<close>

section \<open>Writing\<close>

lemma w_vec_cong [fundef_cong]:
  "xs = ys \<Longrightarrow> (\<And>x. x \<in> set ys \<Longrightarrow> w x = w' x) \<Longrightarrow> w_vec w xs = w_vec w' ys"
  unfolding w_vec_def by (metis (no_types, lifting) map_cong)

definition w_parameter_mode :: "parameter_mode \<Rightarrow> writer" where
  "w_parameter_mode v = w_u8 (case v of Borrow \<Rightarrow> 0 | Consume \<Rightarrow> 1)"

fun w_type :: "executable_type \<Rightarrow> writer" where
  "w_type Unknown = w_u8 0"
| "w_type (Generic name) = w_all [w_u8 17, w_string name]"
| "w_type Never = w_u8 18"
| "w_type Unit = w_u8 1"
| "w_type Bool = w_u8 2"
| "w_type Integer = w_u8 3"
| "w_type Float = w_u8 4"
| "w_type CodePoint = w_u8 5"
| "w_type Byte = w_u8 6"
| "w_type Bytes = w_u8 7"
| "w_type ByteBuffer = w_u8 8"
| "w_type (List element) = w_all [w_u8 9, w_type element]"
| "w_type (Reference t) = w_all [w_u8 10, w_type t]"
| "w_type (Remote t) = w_all [w_u8 11, w_type t]"
| "w_type (Future t) = w_all [w_u8 12, w_type t]"
| "w_type (Function ps res) = w_all [w_u8 13,
     w_vec (\<lambda>p. case p of Parameter t _ \<Rightarrow> w_type t) ps,
     w_vec (\<lambda>p. w_parameter_mode (mode p)) ps,
     w_type res]"
| "w_type (Record rec arguments) = w_all [w_u8 14, w_id rec, w_vec w_type arguments]"
| "w_type (Variant variant arguments) = w_all [w_u8 15, w_id variant, w_vec w_type arguments]"
| "w_type (Alternatives members) = w_all [w_u8 16, w_vec w_type members]"
| "w_type (Intersection _) = w_fail StructuralMetadata"
| "w_type (AliasArguments _ _) = w_fail StructuralMetadata"

definition w_specialization :: "specialization \<Rightarrow> writer" where
  "w_specialization sp = w_vec (\<lambda>(name, ty). w_all [w_string name, w_type ty]) sp"

definition w_constant :: "program_constant \<Rightarrow> writer" where
  "w_constant v =
     (case v of
        Unit_const \<Rightarrow> w_u8 0
      | Bool_const b \<Rightarrow> w_all [w_u8 1, w_bool b]
      | Integer_const i \<Rightarrow> w_all [w_u8 2, w_u64 i]
      | Float_const f \<Rightarrow> w_all [w_u8 3, w_u64 f]
      | String_const s \<Rightarrow> w_all [w_u8 4, w_string s]
      | CodePoint_const c \<Rightarrow> w_all [w_u8 5, w_u32_value c]
      | Symbol_const s \<Rightarrow> w_all [w_u8 6, w_string s])"

definition w_range :: "span \<Rightarrow> writer" where
  "w_range sp = w_all [w_u32 (fst sp), w_u32 (snd sp)]"

definition w_unary :: "unary_op \<Rightarrow> writer" where
  "w_unary v = w_u8 (case v of Negate \<Rightarrow> 0 | Not \<Rightarrow> 1 | BitNot \<Rightarrow> 2)"

definition w_binary :: "binary_op \<Rightarrow> writer" where
  "w_binary v = w_u8
     (case v of
        Add \<Rightarrow> 0 | Subtract \<Rightarrow> 1 | Multiply \<Rightarrow> 2 | Divide \<Rightarrow> 3 | BitAnd \<Rightarrow> 4 | BitOr \<Rightarrow> 5
      | BitXor \<Rightarrow> 6 | ShiftLeft \<Rightarrow> 7 | ShiftRight \<Rightarrow> 8 | Equal \<Rightarrow> 9 | NotEqual \<Rightarrow> 10
      | Less \<Rightarrow> 11 | LessEqual \<Rightarrow> 12 | Greater \<Rightarrow> 13 | GreaterEqual \<Rightarrow> 14)"

definition w_capture_mode :: "capture_mode \<Rightarrow> writer" where
  "w_capture_mode v =
     (case v of
        Copy_capture \<Rightarrow> w_u8 0
      | Move_capture \<Rightarrow> w_u8 1
      | Ref_capture \<Rightarrow> w_u8 2
      | Pending \<Rightarrow> w_fail PendingCaptureMode)"

definition w_captures :: "(capture_mode \<times> slot) list \<Rightarrow> writer" where
  "w_captures vs = w_vec (\<lambda>(mode, reg). w_all [w_capture_mode mode, w_reg reg]) vs"

definition w_builtin :: "builtin \<Rightarrow> writer" where
  "w_builtin v = (case bytecode_tag v of Some t \<Rightarrow> w_u8 t | None \<Rightarrow> w_fail Panicked)"

fun w_pattern :: "pattern \<Rightarrow> writer" where
  "w_pattern (IsType target source conforming binding) = w_all [w_u8 10,
     w_type target, w_type source, w_vec w_type conforming, w_option_id binding]"
| "w_pattern (Spanned p sp) = w_all [w_u8 0, w_pattern p, w_range sp]"
| "w_pattern Wildcard = w_u8 1"
| "w_pattern (Binding local) = w_all [w_u8 2, w_id local]"
| "w_pattern (Bool_pat v) = w_all [w_u8 3, w_bool v]"
| "w_pattern (Integer_pat v) = w_all [w_u8 4, w_u64 v]"
| "w_pattern (Float_pat v) = w_all [w_u8 5, w_u64 v]"
| "w_pattern (String_pat v) = w_all [w_u8 6, w_string v]"
| "w_pattern (CodePoint_pat v) = w_all [w_u8 7, w_string v]"
| "w_pattern (Symbol_pat v) = w_all [w_u8 8, w_string v]"
| "w_pattern (Record_pat fs) = w_all [w_u8 11, w_vec (\<lambda>(name, p). w_all [w_string name, w_pattern p]) fs]"
| "w_pattern (Variant_pat variant fs) = w_all [w_u8 9, w_id variant, w_vec w_pattern fs]"

fun w_instruction :: "instruction \<Rightarrow> writer" where
  "w_instruction (Drop register) = w_all [w_u8 0, w_reg register]"
| "w_instruction (LoadConstant destination constant) = w_all [w_u8 1, w_reg destination, w_u16 constant]"
| "w_instruction (Move destination source) = w_all [w_u8 2, w_reg destination, w_reg source]"
| "w_instruction (Unary destination operator operand) =
     w_all [w_u8 3, w_reg destination, w_unary operator, w_reg operand]"
| "w_instruction (Binary destination operator left right) =
     w_all [w_u8 4, w_reg destination, w_binary operator, w_reg left, w_reg right]"
| "w_instruction (MakeList destination element_type elements) =
     w_all [w_u8 5, w_reg destination, w_type element_type, w_regs elements]"
| "w_instruction (Index destination obj index) = w_all [w_u8 6, w_reg destination, w_reg obj, w_reg index]"
| "w_instruction (MakeRecord destination rec type_arguments fs) =
     w_all [w_u8 7, w_reg destination, w_id rec, w_vec w_type type_arguments,
       w_vec (\<lambda>(name, v). w_all [w_string name, w_reg v]) fs]"
| "w_instruction (MakeVariant destination variant type_arguments payload) =
     w_all [w_u8 8, w_reg destination, w_id variant, w_vec w_type type_arguments, w_regs payload]"
| "w_instruction (LoadField destination obj field by_reference) =
     w_all [w_u8 9, w_reg destination, w_reg obj, w_string field, w_bool by_reference]"
| "w_instruction (StoreField obj field source) = w_all [w_u8 10, w_reg obj, w_string field, w_reg source]"
| "w_instruction (StoreIndex obj index source) = w_all [w_u8 11, w_reg obj, w_reg index, w_reg source]"
| "w_instruction (MakeReference destination pointee_type obj index) =
     w_all [w_u8 12, w_reg destination, w_type pointee_type, w_reg obj, w_reg index]"
| "w_instruction (MakeFieldReference destination pointee_type obj field) =
     w_all [w_u8 32, w_reg destination, w_type pointee_type, w_reg obj, w_string field]"
| "w_instruction (MakeWholeReference destination pointee_type obj) =
     w_all [w_u8 34, w_reg destination, w_type pointee_type, w_reg obj]"
| "w_instruction (MoveOut by_reference destination source) =
     w_all [w_u8 13, w_bool by_reference, w_reg destination, w_reg source]"
| "w_instruction (Push destination obj v) = w_all [w_u8 14, w_reg destination, w_reg obj, w_reg v]"
| "w_instruction (Append destination obj v) = w_all [w_u8 15, w_reg destination, w_reg obj, w_reg v]"
| "w_instruction (Contains destination v candidates) =
     w_all [w_u8 16, w_reg destination, w_reg v, w_regs candidates]"
| "w_instruction (Builtin destination builtin arguments) =
     w_all [w_u8 17, w_reg destination, w_builtin builtin, w_regs arguments]"
| "w_instruction (SpawnRemote destination v) = w_all [w_u8 18, w_reg destination, w_reg v]"
| "w_instruction (SpawnRemoteBorrow destination source) = w_all [w_u8 19, w_reg destination, w_reg source]"
| "w_instruction (RemoteCall destination remote f arguments) =
     w_all [w_u8 20, w_reg destination, w_reg remote, w_id f,
       w_vec (\<lambda>(mode, reg). w_all [w_parameter_mode mode, w_reg reg]) arguments]"
| "w_instruction (Await destination future) = w_all [w_u8 21, w_reg destination, w_reg future]"
| "w_instruction (MatchPattern destination subject p bindings) =
     w_all [w_u8 22, w_reg destination, w_reg subject, w_pattern p, w_regs bindings]"
| "w_instruction (Jump target) = w_all [w_u8 23, w_u32 target]"
| "w_instruction (JumpIfFalse condition target) = w_all [w_u8 24, w_reg condition, w_u32 target]"
| "w_instruction (Call destination f specialization arguments) =
     w_all [w_u8 25, w_reg destination, w_id f, w_specialization specialization, w_regs arguments]"
| "w_instruction (CallMethod destination receiver f specialization arguments) =
     w_all [w_u8 26, w_reg destination, w_reg receiver, w_id f, w_specialization specialization,
       w_regs arguments]"
| "w_instruction (CallContractMethod destination receiver slot name arguments result_type) =
     w_all [w_u8 27, w_reg destination, w_reg receiver, w_u32_value slot, w_string name,
       w_regs arguments, w_type result_type]"
| "w_instruction (MakeClosure destination f specialization captures) =
     w_all [w_u8 28, w_reg destination, w_id f, w_specialization specialization, w_captures captures]"
| "w_instruction (CallValue destination callee arguments) =
     w_all [w_u8 29, w_reg destination, w_reg callee, w_regs arguments]"
| "w_instruction (CallClosure destination f specialization captures arguments) =
     w_all [w_u8 30, w_reg destination, w_id f, w_specialization specialization, w_captures captures,
       w_regs arguments]"
| "w_instruction (Return source) = w_all [w_u8 31, w_reg source]"
| "w_instruction (Assert condition message) =
     w_all [w_u8 33, w_reg condition,
       case message of Some m \<Rightarrow> w_all [w_u8 1, w_reg m] | None \<Rightarrow> w_u8 0]"

definition w_parameter_count :: "bytecode_function \<Rightarrow> writer" where
  "w_parameter_count f = (case parameter_count f of Some n \<Rightarrow> w_u16 n | None \<Rightarrow> w_fail Panicked)"

definition w_function :: "bytecode_function \<Rightarrow> writer" where
  "w_function f = w_all [
     w_string (f_name f),
     w_bool (f_intrinsic_stub f),
     w_parameter_count f,
     w_vec (\<lambda>p. w_type (ep_ty p)) (f_parameters f),
     w_vec (\<lambda>p. w_parameter_mode (ep_mode p)) (f_parameters f),
     w_vec (\<lambda>p. w_bool (ep_mutable p)) (f_parameters f),
     w_bool (f_returns_reference f),
     w_u16 (f_captures f),
     w_vec w_type (f_capture_types f),
     w_type (f_result_type f),
     w_u16 (f_registers f),
     w_vec w_instruction (instructions (f_body f)),
     w_vec w_range (instruction_spans (f_body f))]"

section \<open>Reading\<close>

definition r_parameter_mode :: "parameter_mode rd" where
  "r_parameter_mode = r_bind r_u8 (\<lambda>t.
     if t = 0 then r_return Borrow
     else if t = 1 then r_return Consume
     else r_fail (UnknownParameterMode t))"

definition r_unary :: "unary_op rd" where
  "r_unary = r_bind r_u8 (\<lambda>t.
     if t = 0 then r_return Negate
     else if t = 1 then r_return Not
     else if t = 2 then r_return BitNot
     else r_fail (UnknownUnary t))"

definition r_binary :: "binary_op rd" where
  "r_binary = r_bind r_u8 (\<lambda>t.
     if t = 0 then r_return Add
     else if t = 1 then r_return Subtract
     else if t = 2 then r_return Multiply
     else if t = 3 then r_return Divide
     else if t = 4 then r_return BitAnd
     else if t = 5 then r_return BitOr
     else if t = 6 then r_return BitXor
     else if t = 7 then r_return ShiftLeft
     else if t = 8 then r_return ShiftRight
     else if t = 9 then r_return Equal
     else if t = 10 then r_return NotEqual
     else if t = 11 then r_return Less
     else if t = 12 then r_return LessEqual
     else if t = 13 then r_return Greater
     else if t = 14 then r_return GreaterEqual
     else r_fail (UnknownBinary t))"

definition r_capture_mode :: "capture_mode rd" where
  "r_capture_mode = r_bind r_u8 (\<lambda>t.
     if t = 0 then r_return Copy_capture
     else if t = 1 then r_return Move_capture
     else if t = 2 then r_return Ref_capture
     else r_fail (UnknownCaptureMode t))"

definition r_captures :: "(capture_mode \<times> slot) list rd" where
  "r_captures = r_vec (r_map2 Pair r_capture_mode r_reg)"

definition r_builtin :: "builtin rd" where
  "r_builtin = r_bind r_u8 (\<lambda>t.
     case from_bytecode_tag t of Some b \<Rightarrow> r_return b | None \<Rightarrow> r_fail UnknownBuiltinTag)"

definition r_range :: "span rd" where
  "r_range = r_map2 Pair r_usize r_usize"

text \<open>The match of \<open>verification_type\<close>; \<open>nested\<close> is its closure of the same name.\<close>

definition r_type_case :: "executable_type rd \<Rightarrow> u8 \<Rightarrow> executable_type rd" where
  "r_type_case nested tag =
     (if tag = 0 then r_return Unknown
      else if tag = 18 then r_return Never
      else if tag = 1 then r_return Unit
      else if tag = 2 then r_return Bool
      else if tag = 3 then r_return Integer
      else if tag = 4 then r_return Float
      else if tag = 5 then r_return CodePoint
      else if tag = 6 then r_return Byte
      else if tag = 7 then r_return Bytes
      else if tag = 8 then r_return ByteBuffer
      else if tag = 9 then r_map1 List nested
      else if tag = 10 then r_map1 Reference nested
      else if tag = 11 then r_map1 Remote nested
      else if tag = 12 then r_map1 Future nested
      else if tag = 13 then
        r_bind (r_vec nested) (\<lambda>types.
        r_bind (r_vec r_parameter_mode) (\<lambda>modes.
          case parameter_try_from_parts types modes of
            Inl _ \<Rightarrow> r_fail MismatchedModes
          | Inr ps \<Rightarrow> r_map1 (Function ps) nested))
      else if tag = 14 then r_map2 Record r_id (r_vec nested)
      else if tag = 15 then r_map2 Variant r_id (r_vec nested)
      else if tag = 16 then
        r_bind (r_vec nested) (\<lambda>members.
          case try_alternatives members of
            Inl _ \<Rightarrow> r_fail NonCanonicalAlternatives
          | Inr t \<Rightarrow> r_return t)
      else if tag = 17 then r_map1 Generic r_string
      else r_fail (UnknownTypeTag tag))"

function r_type :: "nat \<Rightarrow> executable_type rd" where
  "r_type d =
     (if d \<ge> 64 then r_fail TypeNesting
      else r_bind r_u8 (r_type_case (r_type (d + 1))))"
  by pat_completeness auto
termination
  by (relation "measure (\<lambda>d. 64 - d)") auto

declare r_type.simps [simp del]

definition r_specialization :: "specialization rd" where
  "r_specialization = r_bind (r_vec (r_map2 Pair r_string (r_type 0))) (\<lambda>es.
     case specialization_try_from_sorted es of
       Inl _ \<Rightarrow> r_fail InvalidSpecializationEntries
     | Inr sp \<Rightarrow> r_return sp)"

text \<open>\<open>char::from_u32\<close>: a Unicode scalar value.\<close>

definition scalar_value :: "u32 \<Rightarrow> bool" where
  "scalar_value c \<longleftrightarrow> c < 0x110000 \<and> \<not> (0xD800 \<le> c \<and> c \<le> 0xDFFF)"

definition r_constant :: "program_constant rd" where
  "r_constant = r_bind r_u8 (\<lambda>tag.
     if tag = 0 then r_return Unit_const
     else if tag = 1 then r_map1 Bool_const r_bool
     else if tag = 2 then r_map1 Integer_const r_u64
     else if tag = 3 then r_map1 Float_const r_u64
     else if tag = 4 then r_map1 String_const r_string
     else if tag = 5 then r_bind r_u32 (\<lambda>c.
       if scalar_value c then r_return (CodePoint_const c) else r_fail InvalidUnicodeScalar)
     else if tag = 6 then r_map1 Symbol_const r_string
     else r_fail (UnknownConstantTag tag))"

text \<open>
  The match of \<open>pattern\<close>. The recursion of the code is bounded only by the input, so the
  model recurses on a budget: one more than the number of remaining bytes, of which every
  level consumes at least its tag.
\<close>

definition r_pattern_case :: "pattern rd \<Rightarrow> u8 \<Rightarrow> pattern rd" where
  "r_pattern_case nested tag =
     (if tag = 0 then r_map2 Spanned nested r_range
      else if tag = 1 then r_return Wildcard
      else if tag = 2 then r_map1 Binding r_id
      else if tag = 3 then r_map1 Bool_pat r_bool
      else if tag = 4 then r_map1 Integer_pat r_u64
      else if tag = 5 then r_map1 Float_pat r_u64
      else if tag = 6 then r_map1 String_pat r_string
      else if tag = 7 then r_map1 CodePoint_pat r_string
      else if tag = 8 then r_map1 Symbol_pat r_string
      else if tag = 9 then r_map2 Variant_pat r_id (r_vec nested)
      else if tag = 11 then r_map1 Record_pat (r_vec (r_map2 Pair r_string nested))
      else if tag = 10 then r_map4 IsType (r_type 0) (r_type 0) (r_vec (r_type 0)) r_option_id
      else r_fail (UnknownPatternTag tag))"

fun r_pattern_within :: "nat \<Rightarrow> pattern rd" where
  "r_pattern_within 0 = r_fail PatternTooDeep"
| "r_pattern_within (Suc n) = r_bind r_u8 (r_pattern_case (r_pattern_within n))"

definition r_pattern :: "pattern rd" where
  "r_pattern rd = r_pattern_within (Suc (length (rd_bytes rd) - rd_offset rd)) rd"

definition r_assert_message :: "slot option rd" where
  "r_assert_message = r_bind r_u8 (\<lambda>tag.
     if tag = 0 then r_return None
     else if tag = 1 then r_map1 Some r_reg
     else r_fail (InvalidAssertionOption tag))"

definition r_instruction :: "instruction rd" where
  "r_instruction = r_bind r_u8 (\<lambda>tag.
     if tag = 0 then r_map1 Drop r_reg
     else if tag = 1 then r_map2 LoadConstant r_reg r_u16
     else if tag = 2 then r_map2 Move r_reg r_reg
     else if tag = 3 then r_map3 Unary r_reg r_unary r_reg
     else if tag = 4 then r_map4 Binary r_reg r_binary r_reg r_reg
     else if tag = 5 then r_map3 MakeList r_reg (r_type 0) r_regs
     else if tag = 6 then r_map3 Index r_reg r_reg r_reg
     else if tag = 7 then r_map4 MakeRecord r_reg r_id (r_vec (r_type 0)) (r_vec (r_map2 Pair r_string r_reg))
     else if tag = 8 then r_map4 MakeVariant r_reg r_id (r_vec (r_type 0)) r_regs
     else if tag = 9 then r_map4 LoadField r_reg r_reg r_string (r_map1 (\<lambda>b. b \<noteq> 0) r_u8)
     else if tag = 10 then r_map3 StoreField r_reg r_string r_reg
     else if tag = 11 then r_map3 StoreIndex r_reg r_reg r_reg
     else if tag = 12 then r_map4 MakeReference r_reg (r_type 0) r_reg r_reg
     else if tag = 13 then r_map3 MoveOut r_bool r_reg r_reg
     else if tag = 14 then r_map3 Push r_reg r_reg r_reg
     else if tag = 15 then r_map3 Append r_reg r_reg r_reg
     else if tag = 16 then r_map3 Contains r_reg r_reg r_regs
     else if tag = 17 then r_map3 Builtin r_reg r_builtin r_regs
     else if tag = 18 then r_map2 SpawnRemote r_reg r_reg
     else if tag = 19 then r_map2 SpawnRemoteBorrow r_reg r_reg
     else if tag = 20 then r_map4 RemoteCall r_reg r_reg r_id (r_vec (r_map2 Pair r_parameter_mode r_reg))
     else if tag = 21 then r_map2 Await r_reg r_reg
     else if tag = 22 then r_map4 MatchPattern r_reg r_reg r_pattern r_regs
     else if tag = 23 then r_map1 Jump r_usize
     else if tag = 24 then r_map2 JumpIfFalse r_reg r_usize
     else if tag = 25 then r_map4 Call r_reg r_id r_specialization r_regs
     else if tag = 26 then r_map5 CallMethod r_reg r_reg r_id r_specialization r_regs
     else if tag = 27 then r_map6 CallContractMethod r_reg r_reg r_u32 r_string r_regs (r_type 0)
     else if tag = 28 then r_map4 MakeClosure r_reg r_id r_specialization r_captures
     else if tag = 29 then r_map3 CallValue r_reg r_reg r_regs
     else if tag = 30 then r_map5 CallClosure r_reg r_id r_specialization r_captures r_regs
     else if tag = 31 then r_map1 Return r_reg
     else if tag = 32 then r_map4 MakeFieldReference r_reg (r_type 0) r_reg r_string
     else if tag = 33 then r_map2 Assert r_reg r_assert_message
     else if tag = 34 then r_map3 MakeWholeReference r_reg (r_type 0) r_reg
     else r_fail (UnknownOpcode tag))"

definition r_body :: "instruction_body rd" where
  "r_body = r_bind (r_vec r_instruction) (\<lambda>is.
     r_bind (r_vec r_range) (\<lambda>spans.
       case body_try_from_parts is spans of Inl _ \<Rightarrow> r_fail MismatchedSpans | Inr b \<Rightarrow> r_return b))"

definition zip_parameters ::
  "executable_type list \<Rightarrow> parameter_mode list \<Rightarrow> bool list \<Rightarrow> executable_parameter list" where
  "zip_parameters types modes mutables =
     map (\<lambda>((ty, mode), mutable). \<lparr>ep_ty = ty, ep_mode = mode, ep_mutable = mutable\<rparr>)
       (zip (zip types modes) mutables)"

definition r_function :: "bytecode_function rd" where
  "r_function =
     r_bind r_string (\<lambda>name.
     r_bind r_bool (\<lambda>intrinsic_stub.
     r_bind r_u16 (\<lambda>ps.
     r_bind (r_vec (r_type 0)) (\<lambda>types.
     r_bind (r_vec r_parameter_mode) (\<lambda>modes.
     r_bind (r_vec r_bool) (\<lambda>mutables.
       if length types \<noteq> unat ps \<or> length modes \<noteq> length types \<or> length mutables \<noteq> length types
       then r_fail InvalidParameterCounts
       else r_map6 (\<lambda>returns_reference captures capture_types result_type registers body.
           \<lparr>f_name = name, f_intrinsic_stub = intrinsic_stub,
            f_parameters = zip_parameters types modes mutables,
            f_returns_reference = returns_reference, f_captures = captures,
            f_capture_types = capture_types, f_result_type = result_type,
            f_registers = registers, f_body = body\<rparr>)
         r_bool r_u16 (r_vec (r_type 0)) (r_type 0) r_u16 r_body))))))"

end
