(* ===== verification/Reader_Bounds.thy ===== *)
theory Reader_Bounds
  imports Codec
begin

text \<open>
  Bounds of the readers on arbitrary input: no reader changes the input, moves backwards or
  leaves the input (\<open>advances\<close>), a tag is always consumed, and the recursion budget of the
  pattern reader is never exhausted, so \<open>r_pattern\<close> satisfies the recursion of the code.
\<close>

section \<open>Progress\<close>

definition in_bounds :: "reader \<Rightarrow> bool" where
  "in_bounds rd \<longleftrightarrow> rd_offset rd \<le> length (rd_bytes rd)"

definition remaining :: "reader \<Rightarrow> nat" where
  "remaining rd = length (rd_bytes rd) - rd_offset rd"

definition later :: "reader \<Rightarrow> reader \<Rightarrow> bool" where
  "later rd rd' \<longleftrightarrow> rd_bytes rd' = rd_bytes rd \<and> rd_offset rd \<le> rd_offset rd' \<and>
     (in_bounds rd \<longrightarrow> in_bounds rd')"

definition advances :: "'a rd \<Rightarrow> bool" where
  "advances r \<longleftrightarrow> (\<forall>rd x rd'. r rd = Inr (x, rd') \<longrightarrow> later rd rd')"

lemma later_refl [simp]: "later rd rd"
  by (simp add: later_def)

lemma later_trans: "later a b \<Longrightarrow> later b c \<Longrightarrow> later a c"
  by (auto simp: later_def)

lemma later_remaining: "later rd rd' \<Longrightarrow> remaining rd' \<le> remaining rd"
  by (auto simp: later_def remaining_def)

lemma advancesD: "advances r \<Longrightarrow> r rd = Inr (x, rd') \<Longrightarrow> later rd rd'"
  unfolding advances_def by blast

lemma advances_return [advances_intros]: "advances (r_return x)"
  by (simp add: advances_def r_return_def)

lemma advances_fail [advances_intros]: "advances (r_fail e)"
  by (simp add: advances_def r_fail_def)

lemma advances_bind [advances_intros]:
  "advances r \<Longrightarrow> (\<And>x. advances (k x)) \<Longrightarrow> advances (r_bind r k)"
  unfolding advances_def r_bind_def
  by (auto split: sum.splits) (meson later_trans)

lemma advances_take [advances_intros]: "advances (r_take n)"
  by (auto simp: advances_def r_take_def Let_def later_def in_bounds_def split: if_splits)

lemma advances_if [advances_intros]: "advances a \<Longrightarrow> advances b \<Longrightarrow> advances (if c then a else b)"
  by simp

lemma advances_sum [advances_intros]:
  "(\<And>e. advances (f e)) \<Longrightarrow> (\<And>x. advances (g x)) \<Longrightarrow> advances (case s of Inl e \<Rightarrow> f e | Inr x \<Rightarrow> g x)"
  by (cases s) auto

lemma advances_option [advances_intros]:
  "advances n \<Longrightarrow> (\<And>x. advances (g x)) \<Longrightarrow> advances (case v of None \<Rightarrow> n | Some x \<Rightarrow> g x)"
  by (cases v) auto

lemma advances_prod [advances_intros]:
  "(\<And>x y. advances (f x y)) \<Longrightarrow> advances (case p of (x, y) \<Rightarrow> f x y)"
  by (cases p) auto

lemma advances_map1 [advances_intros]: "advances a \<Longrightarrow> advances (r_map1 f a)"
  unfolding r_map1_def by (intro advances_intros)

lemma advances_map2 [advances_intros]: "advances a \<Longrightarrow> advances b \<Longrightarrow> advances (r_map2 f a b)"
  unfolding r_map2_def by (intro advances_intros)

lemma advances_map3 [advances_intros]:
  "advances a \<Longrightarrow> advances b \<Longrightarrow> advances c \<Longrightarrow> advances (r_map3 f a b c)"
  unfolding r_map3_def by (intro advances_intros)

lemma advances_map4 [advances_intros]:
  "advances a \<Longrightarrow> advances b \<Longrightarrow> advances c \<Longrightarrow> advances d \<Longrightarrow> advances (r_map4 f a b c d)"
  unfolding r_map4_def by (intro advances_intros)

lemma advances_map5 [advances_intros]:
  "advances a \<Longrightarrow> advances b \<Longrightarrow> advances c \<Longrightarrow> advances d \<Longrightarrow> advances e \<Longrightarrow>
   advances (r_map5 f a b c d e)"
  unfolding r_map5_def by (intro advances_intros)

lemma advances_map6 [advances_intros]:
  "advances a \<Longrightarrow> advances b \<Longrightarrow> advances c \<Longrightarrow> advances d \<Longrightarrow> advances e \<Longrightarrow> advances g \<Longrightarrow>
   advances (r_map6 f a b c d e g)"
  unfolding r_map6_def by (intro advances_intros)

lemma advances_times [advances_intros]: "advances r \<Longrightarrow> advances (r_times n r)"
  by (induction n) (auto intro: advances_intros)

lemma advances_entries [advances_intros]: "advances r \<Longrightarrow> advances (r_entries n m r)"
  by (induction n arbitrary: m) (auto intro!: advances_intros)

lemma advances_primitives [advances_intros]:
  "advances r_u8" "advances r_u16" "advances r_u32" "advances r_u64" "advances r_usize"
  "advances r_count" "advances r_id" "advances r_reg"
  unfolding r_u8_def r_u16_def r_u32_def r_u64_def r_usize_def r_count_def r_id_def r_reg_def
  by (intro advances_intros)+

lemma advances_vec [advances_intros]: "advances r \<Longrightarrow> advances (r_vec r)"
  unfolding r_vec_def by (intro advances_intros)

lemma advances_hash_map [advances_intros]: "advances r \<Longrightarrow> advances (r_hash_map r)"
  unfolding r_hash_map_def by (intro advances_intros)

lemma advances_simple [advances_intros]:
  "advances r_nominal_type" "advances r_bool" "advances r_string" "advances r_option_id"
  "advances r_regs" "advances r_parameter_mode" "advances r_unary" "advances r_binary"
  "advances r_capture_mode" "advances r_captures" "advances r_builtin" "advances r_range"
  "advances r_constant" "advances r_assert_message"
  unfolding r_nominal_type_def r_bool_def r_string_def r_option_id_def r_regs_def
    r_parameter_mode_def r_unary_def r_binary_def r_capture_mode_def r_captures_def r_builtin_def
    r_range_def r_constant_def r_assert_message_def
  by (intro advances_intros)+

lemma advances_type_case [advances_intros]: "advances nested \<Longrightarrow> advances (r_type_case nested tag)"
  unfolding r_type_case_def by (intro advances_intros)

lemma advances_type [advances_intros]: "advances (r_type d)"
  by (induction d rule: r_type.induct) (subst r_type.simps, auto intro!: advances_intros)

lemma advances_specialization [advances_intros]: "advances r_specialization"
  unfolding r_specialization_def by (intro advances_intros)

lemma advances_pattern_case [advances_intros]: "advances nested \<Longrightarrow> advances (r_pattern_case nested tag)"
  unfolding r_pattern_case_def by (intro advances_intros)

lemma advances_pattern_within [advances_intros]: "advances (r_pattern_within n)"
  by (induction n) (auto intro!: advances_intros)

lemma advances_pattern [advances_intros]: "advances r_pattern"
  using advances_pattern_within unfolding advances_def r_pattern_def by blast

lemma advances_instruction [advances_intros]: "advances r_instruction"
  unfolding r_instruction_def by (intro advances_intros)

lemma advances_function [advances_intros]: "advances r_function"
  unfolding r_function_def r_body_def by (intro advances_intros)

section \<open>The recursion budget of patterns\<close>

lemma r_u8_consumes:
  assumes "r_u8 rd = Inr (t, rd')"
  shows "remaining rd' < remaining rd"
  using assms
  by (auto simp: r_u8_def r_map1_def r_bind_def r_take_def r_return_def Let_def remaining_def
      split: sum.splits if_splits)

text \<open>Two readers that agree on every input with at most \<open>k\<close> remaining bytes.\<close>

definition agree :: "nat \<Rightarrow> 'a rd \<Rightarrow> 'a rd \<Rightarrow> bool" where
  "agree k r r' \<longleftrightarrow> (\<forall>rd. remaining rd \<le> k \<longrightarrow> r rd = r' rd)"

lemma agree_refl [simp]: "agree k r r"
  by (simp add: agree_def)

lemma agree_bind:
  assumes "agree k r r'" "advances r" "\<And>x. agree k (f x) (g x)"
  shows "agree k (r_bind r f) (r_bind r' g)"
  unfolding agree_def
proof (intro allI impI)
  fix rd
  assume k: "remaining rd \<le> k"
  then have eq: "r rd = r' rd" using assms(1) by (simp add: agree_def)
  show "r_bind r f rd = r_bind r' g rd"
  proof (cases "r rd")
    case (Inr p)
    then obtain x rd' where x: "r rd = Inr (x, rd')" by (cases p) auto
    then have "remaining rd' \<le> k"
      using advancesD [OF assms(2) x] k by (auto dest: later_remaining)
    then have "f x rd' = g x rd'" using assms(3) [of x] by (simp add: agree_def)
    then show ?thesis using x eq by (simp add: r_bind_def)
  qed (use eq in \<open>simp add: r_bind_def\<close>)
qed

lemma agree_if: "agree k a a' \<Longrightarrow> agree k b b' \<Longrightarrow> agree k (if c then a else b) (if c then a' else b')"
  by simp

lemma agree_map1: "agree k r r' \<Longrightarrow> advances r \<Longrightarrow> agree k (r_map1 f r) (r_map1 f r')"
  unfolding r_map1_def by (rule agree_bind) simp_all

lemma agree_map2:
  "agree k a a' \<Longrightarrow> advances a \<Longrightarrow> agree k b b' \<Longrightarrow> advances b \<Longrightarrow>
   agree k (r_map2 f a b) (r_map2 f a' b')"
  unfolding r_map2_def by (intro agree_bind agree_map1)

lemma agree_times: "agree k r r' \<Longrightarrow> advances r \<Longrightarrow> agree k (r_times n r) (r_times n r')"
  by (induction n) (auto intro: agree_map2 advances_times)

lemma agree_vec: "agree k r r' \<Longrightarrow> advances r \<Longrightarrow> agree k (r_vec r) (r_vec r')"
  unfolding r_vec_def by (intro agree_bind agree_times advances_intros) simp_all

lemma agree_pattern_case:
  assumes "agree k r r'" "advances r"
  shows "agree k (r_pattern_case r t) (r_pattern_case r' t)"
proof -
  have 1: "agree k (r_map2 Spanned r r_range) (r_map2 Spanned r' r_range)"
    by (intro agree_map2 assms agree_refl advances_simple)
  have 2: "agree k (r_map2 Variant_pat r_id (r_vec r)) (r_map2 Variant_pat r_id (r_vec r'))"
    by (intro agree_map2 agree_vec assms agree_refl advances_primitives advances_vec)
  have 3: "agree k (r_map1 Record_pat (r_vec (r_map2 Pair r_string r)))
      (r_map1 Record_pat (r_vec (r_map2 Pair r_string r')))"
    by (intro agree_map1 agree_map2 agree_vec assms agree_refl advances_simple advances_vec advances_map2)
  show ?thesis unfolding r_pattern_case_def by (intro agree_if 1 2 3 agree_refl)
qed

lemma r_pattern_within_enough:
  "remaining rd < m \<Longrightarrow> remaining rd < n \<Longrightarrow> r_pattern_within m rd = r_pattern_within n rd"
proof (induction m arbitrary: n rd)
  case (Suc m)
  then obtain n' where n: "n = Suc n'" by (cases n) auto
  show ?case
  proof (cases "r_u8 rd")
    case (Inr p)
    then obtain t rd' where t: "r_u8 rd = Inr (t, rd')" by (cases p) auto
    have rem: "remaining rd' < m" "remaining rd' < n'"
      using r_u8_consumes [OF t] Suc.prems n by auto
    have "agree (remaining rd') (r_pattern_within m) (r_pattern_within n')"
      unfolding agree_def using Suc.IH rem by auto
    then have "r_pattern_case (r_pattern_within m) t rd' = r_pattern_case (r_pattern_within n') t rd'"
      using agree_pattern_case [OF _ advances_pattern_within] by (simp add: agree_def)
    then show ?thesis using t n by (simp add: r_bind_def)
  qed (simp add: n r_bind_def)
qed simp

lemma r_pattern_within_eq: "remaining rd < n \<Longrightarrow> r_pattern_within n rd = r_pattern rd"
  unfolding r_pattern_def by (rule r_pattern_within_enough) (simp_all add: remaining_def)

lemma r_pattern_unfold: "r_pattern rd = r_bind r_u8 (r_pattern_case r_pattern) rd"
proof -
  let ?n = "remaining rd"
  have "r_pattern rd = r_pattern_within (Suc ?n) rd"
    by (simp only: r_pattern_def remaining_def)
  also have "\<dots> = r_bind r_u8 (r_pattern_case r_pattern) rd"
  proof (cases "r_u8 rd")
    case (Inr p)
    then obtain t rd' where t: "r_u8 rd = Inr (t, rd')" by (cases p) auto
    have "agree (remaining rd') (r_pattern_within ?n) r_pattern"
      unfolding agree_def using r_u8_consumes [OF t] by (auto intro: r_pattern_within_eq)
    then show ?thesis
      using agree_pattern_case [OF _ advances_pattern_within] t by (simp add: agree_def r_bind_def)
  qed (simp add: r_bind_def)
  finally show ?thesis .
qed

text \<open>Readers that never report an exhausted budget on at most \<open>k\<close> remaining bytes.\<close>

named_theorems within_intros

definition within_budget :: "nat \<Rightarrow> 'a rd \<Rightarrow> bool" where
  "within_budget k r \<longleftrightarrow> (\<forall>rd. remaining rd \<le> k \<longrightarrow> r rd \<noteq> Inl PatternTooDeep)"

lemma within_return [within_intros]: "within_budget k (r_return x)"
  by (simp add: within_budget_def r_return_def)

lemma within_fail [within_intros]: "e \<noteq> PatternTooDeep \<Longrightarrow> within_budget k (r_fail e)"
  by (simp add: within_budget_def r_fail_def)

lemma within_take [within_intros]: "within_budget k (r_take n)"
  by (simp add: within_budget_def r_take_def Let_def)

lemma within_if [within_intros]:
  "(c \<Longrightarrow> within_budget k a) \<Longrightarrow> (\<not> c \<Longrightarrow> within_budget k b) \<Longrightarrow> within_budget k (if c then a else b)"
  by simp

lemma within_sum [within_intros]:
  "(\<And>e. within_budget k (f e)) \<Longrightarrow> (\<And>x. within_budget k (g x)) \<Longrightarrow>
   within_budget k (case s of Inl e \<Rightarrow> f e | Inr x \<Rightarrow> g x)"
  by (cases s) auto

lemma within_bind [within_intros]:
  assumes "within_budget k r" "advances r" "\<And>x. within_budget k (f x)"
  shows "within_budget k (r_bind r f)"
  unfolding within_budget_def
proof (intro allI impI)
  fix rd
  assume k: "remaining rd \<le> k"
  show "r_bind r f rd \<noteq> Inl PatternTooDeep"
  proof (cases "r rd")
    case (Inl e)
    then show ?thesis using assms(1) k by (auto simp: within_budget_def r_bind_def)
  next
    case (Inr p)
    then obtain x rd' where x: "r rd = Inr (x, rd')" by (cases p) auto
    then have "remaining rd' \<le> k"
      using advancesD [OF assms(2) x] k by (auto dest: later_remaining)
    then show ?thesis using assms(3) [of x] x by (simp add: within_budget_def r_bind_def)
  qed
qed

lemma within_map1 [within_intros]: "within_budget k a \<Longrightarrow> advances a \<Longrightarrow> within_budget k (r_map1 f a)"
  unfolding r_map1_def by (rule within_bind) (simp_all add: within_return)

lemma within_map2 [within_intros]:
  "within_budget k a \<Longrightarrow> advances a \<Longrightarrow> within_budget k b \<Longrightarrow> advances b \<Longrightarrow>
   within_budget k (r_map2 f a b)"
  unfolding r_map2_def by (rule within_bind) (simp_all add: within_map1)

lemma within_map4 [within_intros]:
  "within_budget k a \<Longrightarrow> advances a \<Longrightarrow> within_budget k b \<Longrightarrow> advances b \<Longrightarrow>
   within_budget k c \<Longrightarrow> advances c \<Longrightarrow> within_budget k d \<Longrightarrow> advances d \<Longrightarrow>
   within_budget k (r_map4 f a b c d)"
  unfolding r_map4_def r_map3_def by (intro within_bind within_map2)

lemma within_times [within_intros]: "within_budget k r \<Longrightarrow> advances r \<Longrightarrow> within_budget k (r_times n r)"
  by (induction n) (auto intro!: within_return within_map2 advances_times)

lemma within_primitives [within_intros]:
  "within_budget k r_u8" "within_budget k r_u32" "within_budget k r_u64" "within_budget k r_usize"
  "within_budget k r_count" "within_budget k r_id"
  unfolding r_u8_def r_u32_def r_u64_def r_usize_def r_count_def r_id_def
  by (intro within_intros advances_intros; simp)+

lemma within_vec [within_intros]: "within_budget k r \<Longrightarrow> advances r \<Longrightarrow> within_budget k (r_vec r)"
  unfolding r_vec_def by (intro within_intros advances_intros)

lemma within_simple [within_intros]:
  "within_budget k r_bool" "within_budget k r_string" "within_budget k r_option_id"
  "within_budget k r_range" "within_budget k r_parameter_mode"
  unfolding r_bool_def r_string_def r_option_id_def r_range_def r_parameter_mode_def
  by (intro within_intros advances_intros; simp)+

lemma within_type_case:
  "within_budget k r \<Longrightarrow> advances r \<Longrightarrow> within_budget k (r_type_case r t)"
  unfolding r_type_case_def by (intro within_intros advances_intros; simp)

lemma within_type [within_intros]: "within_budget k (r_type d)"
  by (induction d rule: r_type.induct)
    (subst r_type.simps, auto intro!: within_fail within_bind within_primitives within_type_case
      advances_primitives advances_type)

lemma within_pattern_case:
  "within_budget k r \<Longrightarrow> advances r \<Longrightarrow> within_budget k (r_pattern_case r t)"
  unfolding r_pattern_case_def by (intro within_intros advances_intros; simp)

lemma r_pattern_within_budget: "remaining rd < n \<Longrightarrow> r_pattern_within n rd \<noteq> Inl PatternTooDeep"
proof (induction n arbitrary: rd)
  case (Suc n)
  show ?case
  proof (cases "r_u8 rd")
    case (Inl e)
    have "within_budget (remaining rd) r_u8" by (rule within_primitives)
    with Inl show ?thesis by (auto simp: within_budget_def r_bind_def)
  next
    case (Inr p)
    then obtain t rd' where t: "r_u8 rd = Inr (t, rd')" by (cases p) auto
    have "within_budget (remaining rd') (r_pattern_within n)"
      unfolding within_budget_def using Suc.IH r_u8_consumes [OF t] Suc.prems by auto
    then have "within_budget (remaining rd') (r_pattern_case (r_pattern_within n) t)"
      by (rule within_pattern_case) (rule advances_pattern_within)
    then show ?thesis using t by (simp add: within_budget_def r_bind_def)
  qed
qed simp

lemma r_pattern_not_too_deep: "r_pattern rd \<noteq> Inl PatternTooDeep"
  unfolding r_pattern_def by (rule r_pattern_within_budget) (simp add: remaining_def)

section \<open>Properties\<close>

text \<open>
  C31. The pattern reader terminates on every input without any nesting limit: the budget
  of the model is never exhausted, and the reader satisfies the recursion equation of the
  code, so it is the code's unbounded recursion.
\<close>

theorem r_pattern_total:
  "r_pattern rd = r_bind r_u8 (r_pattern_case r_pattern) rd \<and> r_pattern rd \<noteq> Inl PatternTooDeep"
  using r_pattern_unfold r_pattern_not_too_deep by blast

end
