(* ===== verification/Codec_Laws.thy ===== *)
theory Codec_Laws
  imports Reader_Bounds
begin

text \<open>
  Round trips of the codecs of \<open>Codec\<close>: each well-formedness predicate says which values
  the format can carry, and on those the reader undoes the writer. The predicates collect
  the limits of the reader (string and collection sizes, 64 levels of types, canonical
  alternatives, sorted specializations, scalar code points) and the 32-bit limits of the
  writer.
\<close>

section \<open>What the format can carry\<close>

definition vec_ok :: "('a \<Rightarrow> bool) \<Rightarrow> 'a list \<Rightarrow> bool" where
  "vec_ok ok xs \<longleftrightarrow> length xs \<le> MAX_ITEMS \<and> list_all ok xs"

lemma vec_ok_cong [fundef_cong]:
  "xs = ys \<Longrightarrow> (\<And>x. x \<in> set ys \<Longrightarrow> ok x = ok' x) \<Longrightarrow> vec_ok ok xs = vec_ok ok' ys"
  by (simp add: vec_ok_def list_all_iff)

fun type_ok :: "executable_type \<Rightarrow> bool" where
  "type_ok (Generic name) \<longleftrightarrow> string_ok name"
| "type_ok (List t) \<longleftrightarrow> type_ok t"
| "type_ok (Reference t) \<longleftrightarrow> type_ok t"
| "type_ok (Remote t) \<longleftrightarrow> type_ok t"
| "type_ok (Future t) \<longleftrightarrow> type_ok t"
| "type_ok (Function ps res) \<longleftrightarrow> vec_ok (\<lambda>p. case p of Parameter t _ \<Rightarrow> type_ok t) ps \<and> type_ok res"
| "type_ok (Record _ ts) \<longleftrightarrow> vec_ok type_ok ts"
| "type_ok (Variant _ ts) \<longleftrightarrow> vec_ok type_ok ts"
| "type_ok (Alternatives ts) \<longleftrightarrow> canonical_alternatives ts \<and> vec_ok type_ok ts"
| "type_ok (Intersection _) \<longleftrightarrow> False"
| "type_ok (AliasArguments _ _) \<longleftrightarrow> False"
| "type_ok _ \<longleftrightarrow> True"

definition wire_type :: "executable_type \<Rightarrow> bool" where
  "wire_type t \<longleftrightarrow> type_ok t \<and> depth t \<le> 64"

definition wire_specialization :: "specialization \<Rightarrow> bool" where
  "wire_specialization sp \<longleftrightarrow> specialization_ok sp \<and> vec_ok (\<lambda>(name, t). string_ok name \<and> wire_type t) sp"

fun wire_constant :: "program_constant \<Rightarrow> bool" where
  "wire_constant (String_const s) \<longleftrightarrow> string_ok s"
| "wire_constant (CodePoint_const c) \<longleftrightarrow> scalar_value c"
| "wire_constant (Symbol_const s) \<longleftrightarrow> string_ok s"
| "wire_constant _ \<longleftrightarrow> True"

definition wire_range :: "span \<Rightarrow> bool" where
  "wire_range sp \<longleftrightarrow> fst sp < 2 ^ 32 \<and> snd sp < 2 ^ 32"

fun wire_pattern :: "pattern \<Rightarrow> bool" where
  "wire_pattern (IsType target source conforming _) \<longleftrightarrow>
     wire_type target \<and> wire_type source \<and> vec_ok wire_type conforming"
| "wire_pattern (Spanned p sp) \<longleftrightarrow> wire_pattern p \<and> wire_range sp"
| "wire_pattern (String_pat s) \<longleftrightarrow> string_ok s"
| "wire_pattern (CodePoint_pat s) \<longleftrightarrow> string_ok s"
| "wire_pattern (Symbol_pat s) \<longleftrightarrow> string_ok s"
| "wire_pattern (Record_pat fs) \<longleftrightarrow> vec_ok (\<lambda>(name, p). string_ok name \<and> wire_pattern p) fs"
| "wire_pattern (Variant_pat _ fs) \<longleftrightarrow> vec_ok wire_pattern fs"
| "wire_pattern _ \<longleftrightarrow> True"

abbreviation regs_ok :: "slot list \<Rightarrow> bool" where
  "regs_ok \<equiv> vec_ok (\<lambda>_. True)"

definition captures_ok :: "(capture_mode \<times> slot) list \<Rightarrow> bool" where
  "captures_ok = vec_ok (\<lambda>(m, _). m \<noteq> Pending)"

fun wire_instruction :: "instruction \<Rightarrow> bool" where
  "wire_instruction (MakeList _ t es) \<longleftrightarrow> wire_type t \<and> regs_ok es"
| "wire_instruction (MakeRecord _ _ ts fs) \<longleftrightarrow> vec_ok wire_type ts \<and> vec_ok (\<lambda>(name, _). string_ok name) fs"
| "wire_instruction (MakeVariant _ _ ts payload) \<longleftrightarrow> vec_ok wire_type ts \<and> regs_ok payload"
| "wire_instruction (LoadField _ _ field _) \<longleftrightarrow> string_ok field"
| "wire_instruction (StoreField _ field _) \<longleftrightarrow> string_ok field"
| "wire_instruction (MakeReference _ t _ _) \<longleftrightarrow> wire_type t"
| "wire_instruction (MakeWholeReference _ t _) \<longleftrightarrow> wire_type t"
| "wire_instruction (MakeFieldReference _ t _ field) \<longleftrightarrow> wire_type t \<and> string_ok field"
| "wire_instruction (Contains _ _ cs) \<longleftrightarrow> regs_ok cs"
| "wire_instruction (Builtin _ _ as) \<longleftrightarrow> regs_ok as"
| "wire_instruction (RemoteCall _ _ _ as) \<longleftrightarrow> vec_ok (\<lambda>_. True) as"
| "wire_instruction (MatchPattern _ _ p bs) \<longleftrightarrow> wire_pattern p \<and> regs_ok bs"
| "wire_instruction (Jump target) \<longleftrightarrow> target < 2 ^ 32"
| "wire_instruction (JumpIfFalse _ target) \<longleftrightarrow> target < 2 ^ 32"
| "wire_instruction (Call _ _ sp as) \<longleftrightarrow> wire_specialization sp \<and> regs_ok as"
| "wire_instruction (CallMethod _ _ _ sp as) \<longleftrightarrow> wire_specialization sp \<and> regs_ok as"
| "wire_instruction (CallContractMethod _ _ _ name as t) \<longleftrightarrow> string_ok name \<and> regs_ok as \<and> wire_type t"
| "wire_instruction (MakeClosure _ _ sp cs) \<longleftrightarrow> wire_specialization sp \<and> captures_ok cs"
| "wire_instruction (CallValue _ _ as) \<longleftrightarrow> regs_ok as"
| "wire_instruction (CallClosure _ _ sp cs as) \<longleftrightarrow> wire_specialization sp \<and> captures_ok cs \<and> regs_ok as"
| "wire_instruction _ \<longleftrightarrow> True"

definition wire_function :: "bytecode_function \<Rightarrow> bool" where
  "wire_function f \<longleftrightarrow>
     string_ok (f_name f) \<and>
     length (f_parameters f) < 2 ^ 16 \<and> list_all (\<lambda>p. wire_type (ep_ty p)) (f_parameters f) \<and>
     vec_ok wire_type (f_capture_types f) \<and> wire_type (f_result_type f) \<and>
     vec_ok wire_instruction (instructions (f_body f)) \<and>
     vec_ok wire_range (instruction_spans (f_body f)) \<and> body_ok (f_body f)"

section \<open>Operators and modes\<close>

lemma emits_vec_ok [emits_intros]:
  "vec_ok ok xs \<Longrightarrow> (\<And>x. x \<in> set xs \<Longrightarrow> ok x \<Longrightarrow> emits (w x) r x) \<Longrightarrow> emits (w_vec w xs) (r_vec r) xs"
  by (rule emits_vec) (auto simp: vec_ok_def list_all_iff)

lemma emits_vec_map:
  "(\<And>x. x \<in> set xs \<Longrightarrow> emits (w x) r (f x)) \<Longrightarrow> length xs \<le> MAX_ITEMS \<Longrightarrow>
   emits (w_vec w xs) (r_vec r) (map f xs)"
proof -
  assume e: "\<And>x. x \<in> set xs \<Longrightarrow> emits (w x) r (f x)" and len: "length xs \<le> MAX_ITEMS"
  from e have "emits (w_all (map w xs)) (r_times (length xs) r) (map f xs)"
  proof (induction xs)
    case Nil
    show ?case using emits_Nil [of "[]"] by simp
  next
    case (Cons x xs)
    then show ?case unfolding list.map length_Cons r_times.simps r_map2_def
      by (intro emits_bind [of _ _ "f x"]) (auto intro!: emits_map1)
  qed
  then show ?thesis unfolding w_vec_def r_vec_def
    using len by (intro emits_bind [OF emits_count]) simp_all
qed

lemma emits_parameter_mode [emits_intros]: "emits (w_parameter_mode v) r_parameter_mode v"
  unfolding w_parameter_mode_def r_parameter_mode_def by (rule emits_tag_only) (cases v; simp)

lemma emits_unary [emits_intros]: "emits (w_unary v) r_unary v"
  unfolding w_unary_def r_unary_def by (rule emits_tag_only) (cases v; simp)

lemma emits_binary [emits_intros]: "emits (w_binary v) r_binary v"
  unfolding w_binary_def r_binary_def by (rule emits_tag_only) (cases v; simp)

lemma emits_capture_mode [emits_intros]: "v \<noteq> Pending \<Longrightarrow> emits (w_capture_mode v) r_capture_mode v"
  unfolding r_capture_mode_def by (cases v) (auto simp: w_capture_mode_def intro!: emits_tag_only)

lemma emits_builtin [emits_intros]: "emits (w_builtin v) r_builtin v"
proof -
  obtain t where "bytecode_tag v = Some t" "from_bytecode_tag t = Some v"
    using descriptor_total [of v] by (auto simp: from_bytecode_tag_Some_iff bytecode_tag_Some_iff)
  then show ?thesis by (simp add: w_builtin_def r_builtin_def emits_tag_only)
qed

lemma emits_range [emits_intros]: "wire_range sp \<Longrightarrow> emits (w_range sp) r_range sp"
  using emits_map2 [OF emits_u32 emits_u32, of "fst sp" "snd sp" Pair]
  by (simp add: w_range_def r_range_def wire_range_def)

lemma emits_regs [emits_intros]: "regs_ok rs \<Longrightarrow> emits (w_regs rs) r_regs rs"
  unfolding w_regs_def r_regs_def by (erule emits_vec_ok) (rule emits_reg)

lemma emits_pair [emits_intros]:
  "emits (w a) ra a \<Longrightarrow> emits (v b) rb b \<Longrightarrow>
   emits (case (a, b) of (a, b) \<Rightarrow> w_all [w a, v b]) (r_map2 Pair ra rb) (a, b)"
  using emits_map2 [of "w a" ra a "v b" rb b Pair] by simp

lemma emits_captures [emits_intros]: "captures_ok cs \<Longrightarrow> emits (w_captures cs) r_captures cs"
  unfolding captures_ok_def w_captures_def r_captures_def
  by (erule emits_vec_ok) (auto intro!: emits_map2 emits_capture_mode emits_reg)

lemma emits_flag [emits_intros]: "emits (w_bool b) (r_map1 (\<lambda>b. b \<noteq> 0) r_u8) b"
  using emits_map1 [OF emits_u8 [of "if b then 1 else 0"], of "\<lambda>b. b \<noteq> 0"]
  by (cases b) (simp_all add: w_bool_def)

section \<open>Types\<close>

lemma max_of_le_iff: "max_of ns \<le> k \<longleftrightarrow> (\<forall>n \<in> set ns. n \<le> k)"
proof -
  have "fold max ns m \<le> k \<longleftrightarrow> m \<le> k \<and> (\<forall>n \<in> set ns. n \<le> k)" for m
    by (induction ns arbitrary: m) auto
  then show ?thesis by (simp add: max_of_def)
qed

lemma nested_depth: "d + Suc (max_of (map depth ts)) \<le> 64 \<Longrightarrow> t \<in> set ts \<Longrightarrow> Suc d + depth t \<le> 64"
proof -
  assume "d + Suc (max_of (map depth ts)) \<le> 64" "t \<in> set ts"
  moreover have "depth t \<le> max_of (map depth ts)"
    using max_of_le_iff [of "map depth ts" "max_of (map depth ts)"] \<open>t \<in> set ts\<close> by simp
  ultimately show ?thesis by simp
qed

lemma depth_pos: "depth t \<ge> 1"
  by (cases t) auto

text \<open>Below the nesting limit the tag selects a branch whose nested reader is one level deeper.\<close>

lemma emits_type_tag:
  "d < 64 \<Longrightarrow> emits (w_all ws) (r_type_case (r_type (d + 1)) t) y \<Longrightarrow>
   emits (w_all (w_u8 t # ws)) (r_type d) y"
  by (subst r_type.simps) (simp add: emits_tag)

lemma emits_type_leaf:
  "d < 64 \<Longrightarrow> r_type_case (r_type (d + 1)) t = r_return y \<Longrightarrow> emits (w_u8 t) (r_type d) y"
  by (subst r_type.simps) (simp add: emits_tag_only)

lemma emits_function_type:
  assumes "\<And>p. p \<in> set ps \<Longrightarrow> emits (w_type (ty p)) nested (ty p)"
    and "emits (w_type res) nested res" and "length ps \<le> MAX_ITEMS"
  shows "emits (w_all [w_vec (\<lambda>p. case p of Parameter t _ \<Rightarrow> w_type t) ps,
     w_vec (\<lambda>p. w_parameter_mode (mode p)) ps, w_type res])
   (r_type_case nested 13) (Function ps res)"
proof -
  have types: "emits (w_vec (\<lambda>p. case p of Parameter t _ \<Rightarrow> w_type t) ps) (r_vec nested) (map ty ps)"
  proof (rule emits_vec_map)
    show "emits (case p of Parameter t _ \<Rightarrow> w_type t) nested (ty p)" if "p \<in> set ps" for p
      using assms(1) [OF that] by (cases p) simp
  qed (rule assms)
  have modes: "emits (w_vec (\<lambda>p. w_parameter_mode (mode p)) ps) (r_vec r_parameter_mode) (map mode ps)"
    using assms(3) by (intro emits_vec_map emits_parameter_mode)
  have "map (\<lambda>(t, m). Parameter t m) (zip (map ty ps) (map mode ps)) = ps"
    by (induction ps) auto
  then have "parameter_try_from_parts (map ty ps) (map mode ps) = Inr ps"
    by (simp add: parameter_try_from_parts_def)
  then have "emits (w_type res) (case parameter_try_from_parts (map ty ps) (map mode ps) of
      Inl _ \<Rightarrow> r_fail MismatchedModes | Inr ps \<Rightarrow> r_map1 (Function ps) nested) (Function ps res)"
    using assms(2) by (simp add: emits_map1)
  then show ?thesis
    unfolding r_type_case_def
    by simp (intro emits_bind [OF types] emits_bind [OF modes]; simp)
qed

lemma emits_alternatives:
  assumes "emits (w_vec w_type ts) (r_vec nested) ts" "canonical_alternatives ts"
  shows "emits (w_vec w_type ts) (r_type_case nested 16) (Alternatives ts)"
  using assms unfolding r_type_case_def
  by simp (erule emits_bind_last, simp add: try_alternatives_def)

lemma emits_type_at: "type_ok t \<Longrightarrow> d + depth t \<le> 64 \<Longrightarrow> emits (w_type t) (r_type d) t"
proof (induction t arbitrary: d)
  case (Function ps res)
  have le: "depth (ty p) \<le> 63 - d" if "p \<in> set ps" for p
  proof -
    have "max_of (map (\<lambda>p. case p of Parameter t _ \<Rightarrow> depth t) ps @ [depth res]) \<le> 63 - d"
      using Function.prems(2) by simp
    then have "(case p of Parameter t _ \<Rightarrow> depth t) \<le> 63 - d"
      using that by (simp add: max_of_le_iff)
    then show ?thesis by (cases p) simp
  qed
  have "max_of (map (\<lambda>p. case p of Parameter t _ \<Rightarrow> depth t) ps @ [depth res]) \<le> 63 - d"
    using Function.prems(2) by simp
  then have "depth res \<le> 63 - d" by (simp add: max_of_le_iff)
  moreover have "emits (w_type (ty p)) (r_type (d + 1)) (ty p)" if p: "p \<in> set ps" for p
  proof (rule Function.IH(1) [OF p])
    show "ty p \<in> set_parameter p" by (cases p) simp
    have "case p of Parameter t _ \<Rightarrow> type_ok t"
      using Function.prems(1) p by (simp add: vec_ok_def list_all_iff)
    then show "type_ok (ty p)" by (cases p) simp
    have "d + 1 \<le> 64" using Function.prems(2) by simp
    then show "d + 1 + depth (ty p) \<le> 64" using le [OF p] by simp
  qed
  ultimately show ?case
    using Function.prems Function.IH(2) [of "d + 1"] unfolding w_type.simps
    by (intro emits_type_tag emits_function_type) (auto simp: vec_ok_def)
next
  case (Record i ts)
  have "emits (w_type t) (r_type (d + 1)) t" if "t \<in> set ts" for t
    using that Record.prems nested_depth [of d ts] by (intro Record.IH) (auto simp: vec_ok_def list_all_iff)
  then show ?case using Record.prems unfolding w_type.simps
    by (intro emits_type_tag) (auto simp: r_type_case_def vec_ok_def intro!: emits_intros)
next
  case (Variant i ts)
  have "emits (w_type t) (r_type (d + 1)) t" if "t \<in> set ts" for t
    using that Variant.prems nested_depth [of d ts] by (intro Variant.IH) (auto simp: vec_ok_def list_all_iff)
  then show ?case using Variant.prems unfolding w_type.simps
    by (intro emits_type_tag) (auto simp: r_type_case_def vec_ok_def intro!: emits_intros)
next
  case (Alternatives ts)
  have "emits (w_type t) (r_type (d + 1)) t" if "t \<in> set ts" for t
    using that Alternatives.prems nested_depth [of d ts] by (intro Alternatives.IH) (auto simp: vec_ok_def list_all_iff)
  then have "emits (w_vec w_type ts) (r_vec (r_type (d + 1))) ts"
    using Alternatives.prems by (intro emits_vec) (auto simp: vec_ok_def)
  then show ?case using Alternatives.prems unfolding w_type.simps
    by (intro emits_type_tag) (auto intro!: emits_alternatives)
next
  case (Intersection ts)
  then show ?case by simp
next
  case (AliasArguments i ts)
  then show ?case by simp
qed (unfold w_type.simps, (rule emits_type_leaf emits_type_tag; simp add: r_type_case_def emits_map1 emits_string)+)

lemma emits_type [emits_intros]: "wire_type t \<Longrightarrow> emits (w_type t) (r_type 0) t"
  by (rule emits_type_at) (simp_all add: wire_type_def)

lemma emits_types [emits_intros]: "vec_ok wire_type ts \<Longrightarrow> emits (w_vec w_type ts) (r_vec (r_type 0)) ts"
  by (erule emits_vec_ok) (rule emits_type)

interpretation type_codec: wire_codec wire_type w_type "r_type 0"
  by unfold_locales (rule emits_type)

section \<open>Specializations, constants and patterns\<close>

lemma specialization_try_from_sorted_ok:
  "specialization_ok sp \<Longrightarrow> specialization_try_from_sorted sp = Inr sp"
  using windows2_strict_sorted_key [of fst sp]
  by (auto simp: specialization_try_from_sorted_def specialization_ok_def list_all_iff list_ex_iff
      split: prod.splits)

lemma emits_specialization [emits_intros]:
  assumes "wire_specialization sp"
  shows "emits (w_specialization sp) r_specialization sp"
proof -
  have "emits (w_vec (\<lambda>(name, ty). w_all [w_string name, w_type ty]) sp) (r_vec (r_map2 Pair r_string (r_type 0))) sp"
    using assms unfolding wire_specialization_def
    by (elim conjE, elim emits_vec_ok) (auto intro!: emits_map2 emits_string emits_type)
  then show ?thesis
    using assms unfolding w_specialization_def r_specialization_def wire_specialization_def
    by (elim emits_bind_last) (simp add: specialization_try_from_sorted_ok)
qed

lemma emits_constant [emits_intros]: "wire_constant c \<Longrightarrow> emits (w_constant c) r_constant c"
  unfolding r_constant_def
  by (cases c)
    (simp_all add: w_constant_def emits_tag emits_tag_only emits_map1 emits_bool emits_u64 emits_string
      emits_bind_last [OF emits_u32_value])

interpretation constant_codec: wire_codec wire_constant w_constant r_constant
  by unfold_locales (rule emits_constant)

text \<open>
  A budget of one per nesting level is enough for the pattern reader; the budget of
  \<open>r_pattern\<close>, one per remaining byte, is at least that.
\<close>

lemma emits_pattern_tag:
  "emits (w_all ws) (r_pattern_case (r_pattern_within n) t) y \<Longrightarrow>
   emits (w_all (w_u8 t # ws)) (r_pattern_within (Suc n)) y"
  by (simp add: emits_tag)

lemma emits_pattern_at: "wire_pattern p \<Longrightarrow> size p < n \<Longrightarrow> emits (w_pattern p) (r_pattern_within n) p"
proof (induction p arbitrary: n)
  case (Record_pat fs)
  then obtain m where n: "n = Suc m" by (cases n) auto
  have "emits (w_all [w_string a, w_pattern q]) (r_map2 Pair r_string (r_pattern_within m)) (a, q)"
    if "(a, q) \<in> set fs" for a q
  proof (intro emits_map2 emits_string)
    show "string_ok a" using Record_pat.prems(1) that by (auto simp: vec_ok_def list_all_iff)
    have "size q < m" using Record_pat.prems(2) that n
      size_list_estimation' [of "(a, q)" fs "size q" "size_prod (\<lambda>x. 0) size"] by simp
    then show "emits (w_pattern q) (r_pattern_within m) q"
      using Record_pat.prems(1) that
      by (intro Record_pat.IH [of "(a, q)" q]) (auto simp: vec_ok_def list_all_iff)
  qed
  then have "emits (w_vec (\<lambda>(name, p). w_all [w_string name, w_pattern p]) fs)
      (r_vec (r_map2 Pair r_string (r_pattern_within m))) fs"
    using Record_pat.prems(1) by (intro emits_vec) (auto simp: vec_ok_def)
  then show ?case unfolding n w_pattern.simps
    by (intro emits_pattern_tag) (simp add: r_pattern_case_def emits_map1)
next
  case (Variant_pat v fs)
  then obtain m where n: "n = Suc m" by (cases n) auto
  have "emits (w_pattern q) (r_pattern_within m) q" if "q \<in> set fs" for q
  proof (rule Variant_pat.IH [OF that])
    show "wire_pattern q" using Variant_pat.prems(1) that by (auto simp: vec_ok_def list_all_iff)
    show "size q < m" using Variant_pat.prems(2) that n size_list_estimation' [of q fs "size q" size] by simp
  qed
  then have "emits (w_vec w_pattern fs) (r_vec (r_pattern_within m)) fs"
    using Variant_pat.prems(1) by (intro emits_vec) (auto simp: vec_ok_def)
  then show ?case unfolding n w_pattern.simps
    by (intro emits_pattern_tag) (simp add: r_pattern_case_def emits_map2 emits_id)
next
  case (Spanned q sp)
  then obtain m where n: "n = Suc m" by (cases n) auto
  have "emits (w_pattern q) (r_pattern_within m) q"
    using Spanned.prems n by (intro Spanned.IH) auto
  then show ?case using Spanned.prems unfolding n w_pattern.simps
    by (intro emits_pattern_tag) (simp add: r_pattern_case_def emits_map2 emits_range)
next
  case (IsType t u cs b)
  then obtain m where n: "n = Suc m" by (cases n) auto
  show ?case using IsType.prems unfolding n w_pattern.simps
    by (intro emits_pattern_tag)
      (simp add: r_pattern_case_def emits_map4 emits_type emits_types emits_option_id)
qed (case_tac n, simp, simp add: emits_tag emits_tag_only r_pattern_case_def emits_map1 emits_id
    emits_bool emits_u64 emits_string)+

lemma emits_pattern [emits_intros]:
  assumes "wire_pattern p"
  shows "emits (w_pattern p) r_pattern p"
proof -
  from emits_pattern_at [OF assms, of "Suc (size p)"] obtain bs
    where bs: "writes (w_pattern p) bs" "reads_as (r_pattern_within (Suc (size p))) bs p"
    by (auto simp: emits_def)
  have "reads_as r_pattern bs p"
    unfolding reads_as_def
  proof (intro allI impI)
    fix pre rest
    assume len: "length (pre @ bs @ rest) \<le> usize_max"
    let ?rd = "\<lparr>rd_bytes = pre @ bs @ rest, rd_offset = length pre\<rparr>"
    let ?n = "Suc (size p) + Suc (remaining ?rd)"
    from emits_pattern_at [OF assms, of ?n] obtain cs
      where cs: "writes (w_pattern p) cs" "reads_as (r_pattern_within ?n) cs p"
      by (auto simp: emits_def)
    have "cs = bs" using writes_unique [OF cs(1) bs(1)] .
    then have "r_pattern_within ?n ?rd =
        Inr (p, \<lparr>rd_bytes = pre @ bs @ rest, rd_offset = length pre + length bs\<rparr>)"
      using reads_asD [OF cs(2), of pre rest] len by simp
    moreover have "r_pattern_within ?n ?rd = r_pattern ?rd"
      by (rule r_pattern_within_eq) simp
    ultimately show "r_pattern ?rd =
        Inr (p, \<lparr>rd_bytes = pre @ bs @ rest, rd_offset = length pre + length bs\<rparr>)"
      by simp
  qed
  with bs(1) show ?thesis by (auto simp: emits_def)
qed

interpretation pattern_codec: wire_codec wire_pattern w_pattern r_pattern
  by unfold_locales (rule emits_pattern)

section \<open>Instructions and functions\<close>

lemma emits_named_regs:
  "vec_ok (\<lambda>(name, _). string_ok name) fs \<Longrightarrow>
   emits (w_vec (\<lambda>(name, v). w_all [w_string name, w_reg v]) fs) (r_vec (r_map2 Pair r_string r_reg)) fs"
  by (erule emits_vec_ok) (auto intro!: emits_map2 emits_string emits_reg)

lemma emits_mode_regs:
  "vec_ok (\<lambda>_. True) as \<Longrightarrow>
   emits (w_vec (\<lambda>(mode, reg). w_all [w_parameter_mode mode, w_reg reg]) as)
     (r_vec (r_map2 Pair r_parameter_mode r_reg)) as"
  by (erule emits_vec_ok) (auto intro!: emits_map2 emits_parameter_mode emits_reg)

lemma emits_assert_message:
  "emits (case m of Some m \<Rightarrow> w_all [w_u8 1, w_reg m] | None \<Rightarrow> w_u8 0) r_assert_message m"
  by (cases m) (simp_all add: r_assert_message_def emits_tag emits_tag_only emits_map1 emits_reg)

lemmas emits_parts = emits_map1 emits_map2 emits_map3 emits_map4 emits_map5 emits_map6
  emits_reg emits_id emits_u16 emits_u32 emits_u32_value emits_bool emits_flag emits_string
  emits_unary emits_binary emits_builtin emits_type emits_types emits_regs emits_named_regs
  emits_mode_regs emits_assert_message emits_pattern emits_specialization emits_captures

lemma emits_instruction [emits_intros]: "wire_instruction i \<Longrightarrow> emits (w_instruction i) r_instruction i"
  unfolding r_instruction_def
  by (cases i; simp only: w_instruction.simps; rule emits_tag; simp add: emits_parts)

interpretation instruction_codec: wire_codec wire_instruction w_instruction r_instruction
  by unfold_locales (rule emits_instruction)

lemma body_try_from_parts_ok [simp]:
  "body_ok b \<Longrightarrow> body_try_from_parts (instructions b) (instruction_spans b) = Inr b"
  by (cases b) (simp add: body_try_from_parts_def body_ok_def)

lemma emits_body:
  assumes "vec_ok wire_instruction (instructions b)" "vec_ok wire_range (instruction_spans b)" "body_ok b"
  shows "emits (w_all [w_vec w_instruction (instructions b), w_vec w_range (instruction_spans b)]) r_body b"
proof -
  have "emits (w_vec w_range (instruction_spans b)) (r_vec r_range) (instruction_spans b)"
    using assms(2) by (rule emits_vec_ok) (rule emits_range)
  then have "emits (w_vec w_range (instruction_spans b)) (r_bind (r_vec r_range) (\<lambda>spans.
       case body_try_from_parts (instructions b) spans of Inl _ \<Rightarrow> r_fail MismatchedSpans | Inr b \<Rightarrow> r_return b)) b"
    using assms(3) by (elim emits_bind_last) simp
  moreover have "emits (w_vec w_instruction (instructions b)) (r_vec r_instruction) (instructions b)"
    using assms(1) by (rule emits_vec_ok) (rule emits_instruction)
  ultimately show ?thesis unfolding r_body_def
    by (elim emits_bind) (simp only: w_all_single)
qed

text \<open>A group of statements at the end of a sequence.\<close>

lemma w_all_group: "w_all (ws @ vs) = w_all (ws @ [w_all vs])"
proof (induction ws)
  case (Cons w ws)
  show ?case
  proof
    show "w_all ((w # ws) @ vs) buf = w_all ((w # ws) @ [w_all vs]) buf" for buf
      unfolding append_Cons w_all.simps Cons.IH ..
  qed
qed simp

lemma emits_column:
  "(\<And>p. p \<in> set ps \<Longrightarrow> emits (w (f p)) r (f p)) \<Longrightarrow> length ps < 2 ^ 16 \<Longrightarrow>
   emits (w_vec (\<lambda>p. w (f p)) ps) (r_vec r) (map f ps)"
  by (rule emits_vec_map) (simp_all add: MAX_ITEMS_def)

lemma zip_parameters_columns:
  "zip_parameters (map ep_ty ps) (map ep_mode ps) (map ep_mutable ps) = ps"
  by (induction ps) (auto simp: zip_parameters_def)

lemma emits_parameter_count:
  "length (f_parameters f) < 2 ^ 16 \<Longrightarrow>
   emits (w_parameter_count f) r_u16 (word_of_nat (length (f_parameters f)))"
  by (simp add: w_parameter_count_def parameter_count_def emits_u16)

lemma emits_function_rest:
  assumes "vec_ok wire_type (f_capture_types f)" "wire_type (f_result_type f)"
    "vec_ok wire_instruction (instructions (f_body f))" "vec_ok wire_range (instruction_spans (f_body f))"
    "body_ok (f_body f)"
  shows "emits (w_all [w_bool (f_returns_reference f), w_u16 (f_captures f),
      w_vec w_type (f_capture_types f), w_type (f_result_type f), w_u16 (f_registers f),
      w_all [w_vec w_instruction (instructions (f_body f)), w_vec w_range (instruction_spans (f_body f))]])
    (r_map6 (\<lambda>returns_reference captures capture_types result_type registers body.
           \<lparr>f_name = f_name f, f_intrinsic_stub = f_intrinsic_stub f, f_parameters = f_parameters f,
            f_returns_reference = returns_reference, f_captures = captures,
            f_capture_types = capture_types, f_result_type = result_type,
            f_registers = registers, f_body = body\<rparr>)
       r_bool r_u16 (r_vec (r_type 0)) (r_type 0) r_u16 r_body) f"
proof -
  let ?g = "\<lambda>returns_reference captures capture_types result_type registers body.
           \<lparr>f_name = f_name f, f_intrinsic_stub = f_intrinsic_stub f, f_parameters = f_parameters f,
            f_returns_reference = returns_reference, f_captures = captures,
            f_capture_types = capture_types, f_result_type = result_type,
            f_registers = registers, f_body = body\<rparr>"
  have "?g (f_returns_reference f) (f_captures f) (f_capture_types f) (f_result_type f)
      (f_registers f) (f_body f) = f" by simp
  then show ?thesis
    using emits_map6 [OF emits_bool emits_u16 emits_types [OF assms(1)] emits_type [OF assms(2)]
      emits_u16 emits_body [OF assms(3-5)], of "f_returns_reference f" "f_captures f" "f_registers f" ?g]
    by (simp only:)
qed

lemma emits_function [emits_intros]:
  assumes "wire_function f"
  shows "emits (w_function f) r_function f"
proof -
  let ?ps = "f_parameters f"
  from assms have len: "length ?ps < 2 ^ 16"
    and types: "\<And>p. p \<in> set ?ps \<Longrightarrow> wire_type (ep_ty p)"
    by (auto simp: wire_function_def list_all_iff)
  have name: "emits (w_string (f_name f)) r_string (f_name f)"
    using assms by (intro emits_string) (simp add: wire_function_def)
  have types': "emits (w_vec (\<lambda>p. w_type (ep_ty p)) ?ps) (r_vec (r_type 0)) (map ep_ty ?ps)"
    by (rule emits_column [OF emits_type len]) (rule types)
  have modes: "emits (w_vec (\<lambda>p. w_parameter_mode (ep_mode p)) ?ps) (r_vec r_parameter_mode) (map ep_mode ?ps)"
    by (rule emits_column [OF emits_parameter_mode len])
  have mutables: "emits (w_vec (\<lambda>p. w_bool (ep_mutable p)) ?ps) (r_vec r_bool) (map ep_mutable ?ps)"
    by (rule emits_column [OF emits_bool len])
  have count: "unat (word_of_nat (length ?ps) :: u16) = length ?ps"
    using len by (simp add: unsigned_of_nat take_bit_nat_eq_self)
  have rest: "emits (w_all [w_bool (f_returns_reference f), w_u16 (f_captures f),
      w_vec w_type (f_capture_types f), w_type (f_result_type f), w_u16 (f_registers f),
      w_all [w_vec w_instruction (instructions (f_body f)), w_vec w_range (instruction_spans (f_body f))]])
    (r_map6 (\<lambda>returns_reference captures capture_types result_type registers body.
           \<lparr>f_name = f_name f, f_intrinsic_stub = f_intrinsic_stub f, f_parameters = ?ps,
            f_returns_reference = returns_reference, f_captures = captures,
            f_capture_types = capture_types, f_result_type = result_type,
            f_registers = registers, f_body = body\<rparr>)
       r_bool r_u16 (r_vec (r_type 0)) (r_type 0) r_u16 r_body)
    f"
    using assms emits_function_rest by (simp add: wire_function_def)
  have split: "w_function f = w_all [w_string (f_name f), w_bool (f_intrinsic_stub f), w_parameter_count f,
      w_vec (\<lambda>p. w_type (ep_ty p)) ?ps, w_vec (\<lambda>p. w_parameter_mode (ep_mode p)) ?ps,
      w_vec (\<lambda>p. w_bool (ep_mutable p)) ?ps,
      w_bool (f_returns_reference f), w_u16 (f_captures f),
      w_vec w_type (f_capture_types f), w_type (f_result_type f), w_u16 (f_registers f),
      w_all [w_vec w_instruction (instructions (f_body f)), w_vec w_range (instruction_spans (f_body f))]]"
    unfolding w_function_def
    using w_all_group [of "[w_string (f_name f), w_bool (f_intrinsic_stub f), w_parameter_count f,
      w_vec (\<lambda>p. w_type (ep_ty p)) ?ps, w_vec (\<lambda>p. w_parameter_mode (ep_mode p)) ?ps,
      w_vec (\<lambda>p. w_bool (ep_mutable p)) ?ps,
      w_bool (f_returns_reference f), w_u16 (f_captures f),
      w_vec w_type (f_capture_types f), w_type (f_result_type f), w_u16 (f_registers f)]"] by simp
  show ?thesis unfolding split r_function_def
    by (rule emits_bind [OF name], rule emits_bind [OF emits_bool],
        rule emits_bind [OF emits_parameter_count [OF len]],
        rule emits_bind [OF types'], rule emits_bind [OF modes], rule emits_bind [OF mutables])
      (use rest in \<open>simp add: count zip_parameters_columns\<close>)
qed

interpretation function_codec: wire_codec wire_function w_function r_function
  by unfold_locales (rule emits_function)

section \<open>Properties\<close>

text \<open>
  C30. Reading a function from untrusted bytes never leaves the input: whatever the bytes
  are, a reader that starts inside the input and succeeds ends inside the same input, at
  the same position or later.
\<close>

theorem r_function_in_bounds:
  assumes "r_function rd = Inr (f, rd')" "in_bounds rd"
  shows "rd_bytes rd' = rd_bytes rd \<and> rd_offset rd \<le> rd_offset rd' \<and> in_bounds rd'"
  using advancesD [OF advances_function assms(1)] assms(2) by (simp add: later_def)

definition sample_function :: bytecode_function where
  "sample_function = \<lparr>f_name = ''f'', f_intrinsic_stub = False,
     f_parameters = [\<lparr>ep_ty = List Integer, ep_mode = Consume, ep_mutable = True\<rparr>],
     f_returns_reference = False, f_captures = 0, f_capture_types = [],
     f_result_type = Alternatives [Unit, Bool], f_registers = 3,
     f_body = body_new [(MatchPattern 1 0 (Spanned (Binding 2) (4, 5)) [2], (1, 9)), (Return 1, (2, 3))]\<rparr>"

lemma sample_function_ok: "wire_function sample_function"
  by (simp add: sample_function_def wire_function_def string_ok_def MAX_STRING_def as_bytes_def
      byte_of_char_def wire_type_def vec_ok_def MAX_ITEMS_def canonical_alternatives_def
      alternative_member_def less_executable_type_def cmp_lin_def max_of_def body_new_def
      wire_range_def body_ok_def)

lemmas writer_evaluation = w_function_def w_all.simps w_string_def w_bool_def w_u8_def w_bytes_def
  w_parameter_count_def parameter_count_def w_u16_def w_u32_def w_vec_def to_le_bytes_def
  as_bytes_def byte_of_char_def w_parameter_mode_def body_new_def w_reg_def w_regs_def w_range_def
  w_id_def w_u32_value_def upt_rec

lemma sample_function_written:
  "\<exists>bs. w_function sample_function [] = Inr bs \<and> length bs \<le> usize_max"
  by (simp add: sample_function_def writer_evaluation usize_max_def)

lemma sample_function_read:
  "\<exists>bs. w_function sample_function [] = Inr bs \<and> length bs \<le> usize_max \<and>
    r_function \<lparr>rd_bytes = bs, rd_offset = 0\<rparr> = Inr (sample_function, \<lparr>rd_bytes = bs, rd_offset = length bs\<rparr>)"
  using sample_function_written function_codec.round_trip [OF sample_function_ok, of "[]" _ "[]"] by auto

theorem r_function_in_bounds_witness:
  "\<exists>bs rd'. r_function \<lparr>rd_bytes = bs, rd_offset = 0\<rparr> = Inr (sample_function, rd') \<and>
     rd_bytes rd' = bs \<and> in_bounds rd'"
proof -
  obtain bs where read: "r_function \<lparr>rd_bytes = bs, rd_offset = 0\<rparr> =
      Inr (sample_function, \<lparr>rd_bytes = bs, rd_offset = length bs\<rparr>)"
    using sample_function_read by blast
  have "in_bounds \<lparr>rd_bytes = bs, rd_offset = length bs\<rparr>"
    using r_function_in_bounds [OF read] by (simp add: in_bounds_def)
  with read show ?thesis by (intro exI conjI) simp_all
qed

text \<open>
  A type the format can carry is written without error, and the reader gives it back
  from any position of any input that contains the written bytes, stopping right behind them.
\<close>

theorem type_round_trip:
  assumes "wire_type t"
  shows "\<exists>bs. w_type t buf = Inr (buf @ bs) \<and>
    (\<forall>rest. length (buf @ bs @ rest) \<le> usize_max \<longrightarrow>
       r_type 0 \<lparr>rd_bytes = buf @ bs @ rest, rd_offset = length buf\<rparr> =
       Inr (t, \<lparr>rd_bytes = buf @ bs @ rest, rd_offset = length buf + length bs\<rparr>))"
  using assms by (rule type_codec.round_trip_at)

theorem type_round_trip_witness:
  "\<exists>bs. w_type (Alternatives [Unit, Bool]) [] = Inr bs"
  using type_round_trip [of "Alternatives [Unit, Bool]" "[]"]
  by (auto simp: wire_type_def vec_ok_def MAX_ITEMS_def canonical_alternatives_def
      alternative_member_def less_executable_type_def cmp_lin_def max_of_def)

text \<open>
  C32. The instruction encoding is uniquely decodable: two instructions with the same bytes,
  or one whose bytes are a prefix of the other's, are the same instruction.
\<close>

theorem instruction_prefix_free:
  assumes "wire_instruction i" "wire_instruction j"
    and "w_instruction i buf = Inr out" "w_instruction j buf = Inr (out @ extra)"
    and "length (out @ extra) \<le> usize_max"
  shows "i = j \<and> extra = []"
  by (rule instruction_codec.prefix_free) (fact assms)+

theorem instruction_prefix_free_witness:
  "w_instruction (Jump 7) [] \<noteq> w_instruction (JumpIfFalse 7 0) []"
proof
  assume eq: "w_instruction (Jump 7) [] = w_instruction (JumpIfFalse 7 0) []"
  have w: "w_instruction (Jump 7) [] = Inr [23, 7, 0, 0, 0]"
    by (simp add: writer_evaluation)
  have "Jump 7 = JumpIfFalse 7 0 \<and> ([] :: u8 list) = []"
    by (rule instruction_prefix_free [of _ _ "[]" "[23, 7, 0, 0, 0]"])
      (use w eq in \<open>simp_all add: usize_max_def\<close>)
  then show False by simp
qed

text \<open>
  C1. A function the format can carry survives serialization: its bytes are written without
  error or panic, and reading them back, in any surrounding, gives the same function.
\<close>

theorem function_round_trip:
  assumes "wire_function f"
  shows "\<exists>bs. w_function f buf = Inr (buf @ bs) \<and>
    (\<forall>rest. length (buf @ bs @ rest) \<le> usize_max \<longrightarrow>
       r_function \<lparr>rd_bytes = buf @ bs @ rest, rd_offset = length buf\<rparr> =
       Inr (f, \<lparr>rd_bytes = buf @ bs @ rest, rd_offset = length buf + length bs\<rparr>))"
  using assms by (rule function_codec.round_trip_at)

theorem function_round_trip_witness:
  "\<exists>bs. w_function sample_function [] = Inr bs \<and>
     r_function \<lparr>rd_bytes = bs, rd_offset = 0\<rparr> = Inr (sample_function, \<lparr>rd_bytes = bs, rd_offset = length bs\<rparr>)"
proof -
  from function_round_trip [OF sample_function_ok, of "[]"] sample_function_written
  show ?thesis by (auto dest: spec [of _ "[]"])
qed

end
