(* ===== verification/Binary.thy ===== *)
theory Binary
  imports Codec_Laws
begin

text \<open>
  The bytecode file of \<open>bytecode/src/binary.rs\<close>: the writer and the reader of a whole
  program, without the verification that \<open>encode_program\<close> runs first and the linking that
  \<open>decode_program\<close> runs last. The JSON serializer of the symbol table is the \<open>serde_json\<close>
  package, a parameter of both directions.
\<close>

section \<open>Format\<close>

definition MAGIC :: "u8 list" where
  "MAGIC = as_bytes ''FOSTERBC''"

definition FORMAT_VERSION :: u16 where
  "FORMAT_VERSION = 41"

definition nominal_key :: "nominal_type_id \<Rightarrow> ord_key" where
  "nominal_key n =
     (case n of
        Record_nominal r \<Rightarrow> Key_list [Key_nat 0, u32_key r]
      | Variant_nominal v \<Rightarrow> Key_list [Key_nat 1, u32_key v])"

definition dispatch_key :: "nominal_type_id \<times> dispatch_slot \<Rightarrow> ord_key" where
  "dispatch_key k = Key_list [nominal_key (fst k), u32_key (snd k)]"

section \<open>Writing\<close>

definition w_function_entry :: "function_id \<times> bytecode_function \<Rightarrow> writer" where
  "w_function_entry e = w_all [w_id (fst e), w_function (snd e)]"

definition w_record_entry :: "record_id \<times> runtime_record \<Rightarrow> writer" where
  "w_record_entry e = w_all [
     w_id (fst e),
     w_string (rr_name (snd e)),
     w_vec w_string (rr_parameters (snd e)),
     w_vec (\<lambda>f. w_all [w_string (rf_name f), w_type (rf_ty f)]) (rr_fields (snd e))]"

definition w_dispatch_entry :: "(nominal_type_id \<times> dispatch_slot) \<times> function_id \<Rightarrow> writer" where
  "w_dispatch_entry e = w_all [
     w_nominal_type (fst (fst e)), w_u32_value (snd (fst e)), w_id (snd e)]"

definition w_variant_entry :: "variant_id \<times> runtime_variant \<Rightarrow> writer" where
  "w_variant_entry e = w_all [
     w_id (fst e),
     w_id (rv_parent (snd e)),
     w_string (rv_type_name (snd e)),
     w_vec w_string (rv_parameters (snd e)),
     w_string (rv_alternative (snd e)),
     w_vec w_type (rv_payload (snd e))]"

definition w_symbols :: "(symbol_table \<Rightarrow> string option) \<Rightarrow> symbol_table \<Rightarrow> writer" where
  "w_symbols to_json t =
     (case to_json (canonical t) of Some s \<Rightarrow> w_string s | None \<Rightarrow> w_fail InvalidSymbolTable)"

definition w_program :: "(symbol_table \<Rightarrow> string option) \<Rightarrow> program \<Rightarrow> writer" where
  "w_program to_json p = (let md = metadata p in w_all [
     w_bytes MAGIC,
     w_u16 FORMAT_VERSION,
     w_u16 0,
     w_vec w_constant (constants md),
     w_vec w_function_entry (sort_key fst (pg_functions p)),
     w_bool (drops_inserted p),
     w_option_id (main md),
     w_bool (main_arguments md),
     w_option_id (string_record md),
     w_option_id (symbol_record md),
     w_option_id (list_record md),
     w_option_id (bytes_record md),
     w_option_id (byte_buffer_record md),
     w_option_id (remote_result md),
     w_option_id (remote_error md),
     w_vec w_record_entry (sort_key fst (records md)),
     w_vec w_dispatch_entry (sort_key (\<lambda>e. dispatch_key (fst e)) (dispatch md)),
     w_vec w_variant_entry (sort_key fst (variants md)),
     w_symbols to_json (symbols md)])"

section \<open>Reading\<close>

definition r_function_entry :: "(function_id \<times> bytecode_function) rd" where
  "r_function_entry = r_map2 Pair r_id r_function"

definition r_field :: "record_field rd" where
  "r_field = r_map2 (\<lambda>n t. \<lparr>rf_name = n, rf_ty = t\<rparr>) r_string (r_type 0)"

definition r_record_entry :: "(record_id \<times> runtime_record) rd" where
  "r_record_entry =
     r_bind r_id (\<lambda>id.
     r_bind r_string (\<lambda>name.
     r_bind (r_vec r_string) (\<lambda>ps.
     r_bind (r_vec r_field) (\<lambda>fs.
       case runtime_record_new name ps fs of
         Inl (DuplicateFieldNames n) \<Rightarrow> r_fail (DuplicateRecordFields n)
       | Inr r \<Rightarrow> r_return (id, r)))))"

definition r_dispatch_entry :: "((nominal_type_id \<times> dispatch_slot) \<times> function_id) rd" where
  "r_dispatch_entry = r_map3 (\<lambda>n s f. ((n, s), f)) r_nominal_type r_u32 r_id"

definition r_variant_entry :: "(variant_id \<times> runtime_variant) rd" where
  "r_variant_entry = r_map6 (\<lambda>id parent type_name ps alternative payload.
       (id, \<lparr>rv_parent = parent, rv_type_name = type_name, rv_parameters = ps,
             rv_alternative = alternative, rv_payload = payload\<rparr>))
     r_id r_id r_string (r_vec r_string) r_string (r_vec (r_type 0))"

definition r_symbols :: "(string \<Rightarrow> symbol_table option) \<Rightarrow> symbol_table rd" where
  "r_symbols from_json = r_bind r_string (\<lambda>s.
     case from_json s of Some t \<Rightarrow> r_return t | None \<Rightarrow> r_fail InvalidSymbolTable)"

definition r_header :: "unit rd" where
  "r_header =
     r_bind (r_take 8) (\<lambda>magic.
       if magic \<noteq> MAGIC then r_fail NotFosterBytecode
       else r_bind r_u16 (\<lambda>version.
         if version \<noteq> FORMAT_VERSION then r_fail (UnsupportedVersion version)
         else r_bind r_u16 (\<lambda>flags.
           if flags \<noteq> 0 then r_fail (UnsupportedFlags flags) else r_return ())))"

definition r_program :: "(string \<Rightarrow> symbol_table option) \<Rightarrow> program rd" where
  "r_program from_json =
     r_bind r_header (\<lambda>_.
     r_bind (r_vec r_constant) (\<lambda>consts.
     r_bind (r_hash_map r_function_entry) (\<lambda>fns.
     r_bind r_bool (\<lambda>drops.
     r_bind r_option_id (\<lambda>mn.
     r_bind r_bool (\<lambda>mn_args.
     r_bind r_option_id (\<lambda>string_rec.
     r_bind r_option_id (\<lambda>symbol_rec.
     r_bind r_option_id (\<lambda>list_rec.
     r_bind r_option_id (\<lambda>bytes_rec.
     r_bind r_option_id (\<lambda>byte_buffer_rec.
     r_bind r_option_id (\<lambda>rem_result.
     r_bind r_option_id (\<lambda>rem_error.
     r_map4 (\<lambda>recs disp vars syms.
         \<lparr>metadata =
            \<lparr>symbols = syms, constants = consts, main = mn, main_arguments = mn_args,
             string_record = string_rec, symbol_record = symbol_rec, list_record = list_rec,
             bytes_record = bytes_rec, byte_buffer_record = byte_buffer_rec,
             remote_result = rem_result, remote_error = rem_error,
             records = recs, dispatch = disp, variants = vars\<rparr>,
          drops_inserted = drops, pg_functions = fns\<rparr>)
       (r_hash_map r_record_entry) (r_hash_map r_dispatch_entry) (r_hash_map r_variant_entry)
       (r_symbols from_json))))))))))))))"

text \<open>\<open>decode_program\<close> up to the call of \<open>link\<close>.\<close>

definition read_program :: "(string \<Rightarrow> symbol_table option) \<Rightarrow> u8 list \<Rightarrow> binary_error + program" where
  "read_program from_json bs =
     (case r_program from_json \<lparr>rd_bytes = bs, rd_offset = 0\<rparr> of
        Inl e \<Rightarrow> Inl e
      | Inr (p, rd) \<Rightarrow> if rd_offset rd \<noteq> length bs then Inl TrailingBytes else Inr p)"

section \<open>Canonical programs\<close>

text \<open>
  What serialization keeps of a program: the hash maps lose their iteration order, the symbol
  table is written in canonical order. Two programs are the same when they differ only in
  the iteration order of their maps.
\<close>

definition canonical_program :: "program \<Rightarrow> program" where
  "canonical_program p =
     p\<lparr>metadata := (metadata p)
         \<lparr>symbols := canonical (symbols (metadata p)),
          records := sort_key fst (records (metadata p)),
          dispatch := sort_key (\<lambda>e. dispatch_key (fst e)) (dispatch (metadata p)),
          variants := sort_key fst (variants (metadata p))\<rparr>,
       pg_functions := sort_key fst (pg_functions p)\<rparr>"

definition maps_ok :: "program \<Rightarrow> bool" where
  "maps_ok p \<longleftrightarrow> distinct (map fst (pg_functions p)) \<and> distinct (map fst (records (metadata p))) \<and>
     distinct (map fst (dispatch (metadata p))) \<and> distinct (map fst (variants (metadata p)))"

definition same_program :: "program \<Rightarrow> program \<Rightarrow> bool" where
  "same_program p q \<longleftrightarrow>
     mset (pg_functions p) = mset (pg_functions q) \<and>
     mset (records (metadata p)) = mset (records (metadata q)) \<and>
     mset (dispatch (metadata p)) = mset (dispatch (metadata q)) \<and>
     mset (variants (metadata p)) = mset (variants (metadata q)) \<and>
     drops_inserted p = drops_inserted q \<and>
     (metadata p)\<lparr>records := [], dispatch := [], variants := []\<rparr> =
     (metadata q)\<lparr>records := [], dispatch := [], variants := []\<rparr>"

definition wire_record :: "runtime_record \<Rightarrow> bool" where
  "wire_record r \<longleftrightarrow> string_ok (rr_name r) \<and> vec_ok string_ok (rr_parameters r) \<and>
     vec_ok (\<lambda>f. string_ok (rf_name f) \<and> wire_type (rf_ty f)) (rr_fields r) \<and>
     runtime_record_new (rr_name r) (rr_parameters r) (rr_fields r) = Inr r"

definition wire_variant :: "runtime_variant \<Rightarrow> bool" where
  "wire_variant v \<longleftrightarrow> string_ok (rv_type_name v) \<and> vec_ok string_ok (rv_parameters v) \<and>
     string_ok (rv_alternative v) \<and> vec_ok wire_type (rv_payload v)"

definition wire_program :: "program \<Rightarrow> bool" where
  "wire_program p \<longleftrightarrow> maps_ok p \<and>
     vec_ok wire_constant (constants (metadata p)) \<and>
     vec_ok (\<lambda>e. wire_function (snd e)) (pg_functions p) \<and>
     vec_ok (\<lambda>e. wire_record (snd e)) (records (metadata p)) \<and>
     vec_ok (\<lambda>_. True) (dispatch (metadata p)) \<and>
     vec_ok (\<lambda>e. wire_variant (snd e)) (variants (metadata p))"

text \<open>What the code relies on from \<open>serde_json\<close>, for one table: it is printed and parsed back.\<close>

definition json_round_trip ::
  "(symbol_table \<Rightarrow> string option) \<Rightarrow> (string \<Rightarrow> symbol_table option) \<Rightarrow> symbol_table \<Rightarrow> bool" where
  "json_round_trip to_json from_json t \<longleftrightarrow>
     (\<exists>s. to_json t = Some s \<and> string_ok s \<and> from_json s = Some t)"

lemma nominal_key_inject [simp]: "nominal_key a = nominal_key b \<longleftrightarrow> a = b"
  by (cases a; cases b) (auto simp: nominal_key_def)

lemma dispatch_key_inject [simp]: "dispatch_key a = dispatch_key b \<longleftrightarrow> a = b"
  by (cases a; cases b) (auto simp: dispatch_key_def)

interpretation dispatch_ord: derived_ord dispatch_key
  by unfold_locales simp

section \<open>Parts\<close>

lemma emits_function_entry: "wire_function (snd e) \<Longrightarrow> emits (w_function_entry e) r_function_entry e"
  using emits_map2 [OF emits_id emits_function, of "snd e" "fst e" Pair]
  by (simp add: w_function_entry_def r_function_entry_def)

lemma emits_strings: "vec_ok string_ok ss \<Longrightarrow> emits (w_vec w_string ss) (r_vec r_string) ss"
  by (erule emits_vec_ok) (rule emits_string)

lemma emits_field:
  "string_ok (rf_name f) \<Longrightarrow> wire_type (rf_ty f) \<Longrightarrow>
   emits (w_all [w_string (rf_name f), w_type (rf_ty f)]) r_field f"
  using emits_map2 [OF emits_string emits_type, of "rf_name f" "rf_ty f" "\<lambda>n t. \<lparr>rf_name = n, rf_ty = t\<rparr>"]
  by (cases f) (simp add: r_field_def)

lemma emits_record_entry:
  assumes "wire_record (snd e)"
  shows "emits (w_record_entry e) r_record_entry e"
proof -
  let ?r = "snd e"
  from assms have name: "emits (w_string (rr_name ?r)) r_string (rr_name ?r)"
    by (simp add: wire_record_def emits_string)
  from assms have params: "emits (w_vec w_string (rr_parameters ?r)) (r_vec r_string) (rr_parameters ?r)"
    by (simp add: wire_record_def emits_strings)
  have fields: "emits (w_vec (\<lambda>f. w_all [w_string (rf_name f), w_type (rf_ty f)]) (rr_fields ?r))
      (r_vec r_field) (rr_fields ?r)"
    using assms unfolding wire_record_def by (elim conjE emits_vec_ok) (auto intro: emits_field)
  show ?thesis unfolding w_record_entry_def r_record_entry_def
    by (rule emits_bind [OF emits_id], rule emits_bind [OF name], rule emits_bind [OF params],
        unfold w_all_single, rule emits_bind_last [OF fields])
      (use assms in \<open>simp add: wire_record_def\<close>)
qed

lemma emits_dispatch_entry: "emits (w_dispatch_entry e) r_dispatch_entry e"
  using emits_map3 [OF emits_nominal_type emits_u32_value emits_id,
      of "fst (fst e)" "snd (fst e)" "snd e" "\<lambda>n s f. ((n, s), f)"]
  by (simp add: w_dispatch_entry_def r_dispatch_entry_def)

lemma emits_variant_entry:
  assumes "wire_variant (snd e)"
  shows "emits (w_variant_entry e) r_variant_entry e"
proof -
  let ?v = "snd e"
  let ?f = "\<lambda>id parent type_name ps alternative payload.
       (id, \<lparr>rv_parent = parent, rv_type_name = type_name, rv_parameters = ps,
             rv_alternative = alternative, rv_payload = payload\<rparr>)"
  have "emits (w_variant_entry e) r_variant_entry
      (?f (fst e) (rv_parent ?v) (rv_type_name ?v) (rv_parameters ?v) (rv_alternative ?v) (rv_payload ?v))"
    unfolding w_variant_entry_def r_variant_entry_def
    using assms by (intro emits_map6 emits_id emits_string emits_strings emits_types)
      (simp_all add: wire_variant_def)
  moreover have "?f (fst e) (rv_parent ?v) (rv_type_name ?v) (rv_parameters ?v) (rv_alternative ?v) (rv_payload ?v) = e"
    by (cases e; cases "snd e") simp
  ultimately show ?thesis by (simp only:)
qed

lemma emits_symbols:
  "json_round_trip to_json from_json (canonical t) \<Longrightarrow>
   emits (w_symbols to_json t) (r_symbols from_json) (canonical t)"
  unfolding json_round_trip_def w_symbols_def r_symbols_def
  by (elim exE conjE) (auto intro: emits_bind_last [OF emits_string])

lemma emits_header: "emits (w_all [w_bytes MAGIC, w_u16 FORMAT_VERSION, w_u16 0]) r_header ()"
proof -
  have magic: "emits (w_bytes MAGIC) (r_take 8) MAGIC" by (rule emits_take) (simp add: MAGIC_def)
  show ?thesis unfolding r_header_def
    by (rule emits_bind [OF magic], simp, rule emits_bind [OF emits_u16], simp,
        rule emits_bind_last [OF emits_u16]) simp
qed

text \<open>Maps are written sorted and read back in that order.\<close>

lemma emits_sorted_map:
  assumes "vec_ok ok es" "distinct (map fst es)" "\<And>e. ok e \<Longrightarrow> emits (w e) r e"
  shows "emits (w_vec w (sort_key k es)) (r_hash_map r) (sort_key k es)"
proof (rule emits_hash_map)
  show "emits (w e) r e" if "e \<in> set (sort_key k es)" for e
    using that assms(1,3) by (auto simp: vec_ok_def list_all_iff)
  have "distinct es" "inj_on fst (set es)" using assms(2) by (auto simp: distinct_map)
  then show "distinct (map fst (sort_key k es))" by (simp add: distinct_map)
  show "length (sort_key k es) \<le> MAX_ITEMS" using assms(1) by (simp add: vec_ok_def)
qed

lemma w_all_group_front: "w_all (ws @ vs) = w_all (w_all ws # vs)"
proof -
  have b: "try_bind (try_bind m f) g = try_bind m (\<lambda>x. try_bind (f x) g)"
    for m :: "binary_error + u8 list" and f and g :: writer
    by (cases m) auto
  have "w_all (ws @ vs) = (\<lambda>buf. try_bind (w_all ws buf) (w_all vs))"
    by (induction ws) (rule ext, simp add: w_all.simps b)+
  then show ?thesis by (intro ext) (simp add: w_all.simps)
qed

lemma canonical_parts:
  "\<lparr>metadata =
      \<lparr>symbols = canonical (symbols (metadata p)), constants = constants (metadata p),
       main = main (metadata p), main_arguments = main_arguments (metadata p),
       string_record = string_record (metadata p), symbol_record = symbol_record (metadata p),
       list_record = list_record (metadata p), bytes_record = bytes_record (metadata p),
       byte_buffer_record = byte_buffer_record (metadata p), remote_result = remote_result (metadata p),
       remote_error = remote_error (metadata p), records = sort_key fst (records (metadata p)),
       dispatch = sort_key (\<lambda>e. dispatch_key (fst e)) (dispatch (metadata p)),
       variants = sort_key fst (variants (metadata p))\<rparr>,
    drops_inserted = drops_inserted p, pg_functions = sort_key fst (pg_functions p)\<rparr> = canonical_program p"
  by (intro program.equality program_metadata.equality) (simp_all add: canonical_program_def)

lemma emits_program:
  assumes "wire_program p" "json_round_trip to_json from_json (canonical (symbols (metadata p)))"
  shows "emits (w_program to_json p) (r_program from_json) (canonical_program p)"
proof -
  let ?md = "metadata p"
  have cnsts: "emits (w_vec w_constant (constants ?md)) (r_vec r_constant) (constants ?md)"
    using assms(1) unfolding wire_program_def by (elim conjE, elim emits_vec_ok) (rule emits_constant)
  have fns: "emits (w_vec w_function_entry (sort_key fst (pg_functions p)))
      (r_hash_map r_function_entry) (sort_key fst (pg_functions p))"
    using assms(1) by (intro emits_sorted_map [of "\<lambda>e. wire_function (snd e)"] emits_function_entry)
      (simp_all add: wire_program_def maps_ok_def)
  have recs: "emits (w_vec w_record_entry (sort_key fst (records ?md)))
      (r_hash_map r_record_entry) (sort_key fst (records ?md))"
    using assms(1) by (intro emits_sorted_map [of "\<lambda>e. wire_record (snd e)"] emits_record_entry)
      (simp_all add: wire_program_def maps_ok_def)
  have disp: "emits (w_vec w_dispatch_entry (sort_key (\<lambda>e. dispatch_key (fst e)) (dispatch ?md)))
      (r_hash_map r_dispatch_entry) (sort_key (\<lambda>e. dispatch_key (fst e)) (dispatch ?md))"
    using assms(1) by (intro emits_sorted_map [of "\<lambda>_. True"] emits_dispatch_entry)
      (simp_all add: wire_program_def maps_ok_def)
  have vars: "emits (w_vec w_variant_entry (sort_key fst (variants ?md)))
      (r_hash_map r_variant_entry) (sort_key fst (variants ?md))"
    using assms(1) by (intro emits_sorted_map [of "\<lambda>e. wire_variant (snd e)"] emits_variant_entry)
      (simp_all add: wire_program_def maps_ok_def)
  let ?make = "\<lambda>recs disp vars syms.
         \<lparr>metadata =
            \<lparr>symbols = syms, constants = constants ?md, main = main ?md, main_arguments = main_arguments ?md,
             string_record = string_record ?md, symbol_record = symbol_record ?md, list_record = list_record ?md,
             bytes_record = bytes_record ?md, byte_buffer_record = byte_buffer_record ?md,
             remote_result = remote_result ?md, remote_error = remote_error ?md,
             records = recs, dispatch = disp, variants = vars\<rparr>,
          drops_inserted = drops_inserted p, pg_functions = sort_key fst (pg_functions p)\<rparr>"
  have tail: "emits (w_all [w_vec w_record_entry (sort_key fst (records ?md)),
      w_vec w_dispatch_entry (sort_key (\<lambda>e. dispatch_key (fst e)) (dispatch ?md)),
      w_vec w_variant_entry (sort_key fst (variants ?md)), w_symbols to_json (symbols ?md)])
    (r_map4 ?make (r_hash_map r_record_entry) (r_hash_map r_dispatch_entry) (r_hash_map r_variant_entry)
      (r_symbols from_json)) (canonical_program p)"
    using emits_map4 [OF recs disp vars emits_symbols [OF assms(2)], of ?make]
    unfolding canonical_parts .
  let ?rest = "[w_vec w_constant (constants ?md), w_vec w_function_entry (sort_key fst (pg_functions p)),
      w_bool (drops_inserted p), w_option_id (main ?md), w_bool (main_arguments ?md),
      w_option_id (string_record ?md), w_option_id (symbol_record ?md), w_option_id (list_record ?md),
      w_option_id (bytes_record ?md), w_option_id (byte_buffer_record ?md), w_option_id (remote_result ?md),
      w_option_id (remote_error ?md), w_vec w_record_entry (sort_key fst (records ?md)),
      w_vec w_dispatch_entry (sort_key (\<lambda>e. dispatch_key (fst e)) (dispatch ?md)),
      w_vec w_variant_entry (sort_key fst (variants ?md)), w_symbols to_json (symbols ?md)]"
  have split: "w_program to_json p = w_all (w_all [w_bytes MAGIC, w_u16 FORMAT_VERSION, w_u16 0] # ?rest)"
    by (subst w_all_group_front [symmetric]) (simp only: w_program_def Let_def append.simps)
  show ?thesis
    unfolding split r_program_def
    by (rule emits_bind [OF emits_header], rule emits_bind [OF cnsts], rule emits_bind [OF fns],
       rule emits_bind [OF emits_bool], rule emits_bind [OF emits_option_id], rule emits_bind [OF emits_bool],
       (rule emits_bind [OF emits_option_id])+, rule tail)
qed

text \<open>A small program, and one with the same functions in another iteration order.\<close>

definition sample_metadata :: program_metadata where
  "sample_metadata =
     \<lparr>symbols = default_table, constants = [Integer_const 7, String_const ''s''], main = None,
      main_arguments = False, string_record = Some 0, symbol_record = None, list_record = None,
      bytes_record = None, byte_buffer_record = None, remote_result = None, remote_error = None,
      records = [(0, \<lparr>rr_name = ''String'', rr_parameters = [],
        rr_layout = record_layout_new [''data''], rr_fields = [\<lparr>rf_name = ''data'', rf_ty = Bytes\<rparr>]\<rparr>)],
      dispatch = [((Record_nominal 0, 1), 2)],
      variants = [(0, \<lparr>rv_parent = 0, rv_type_name = ''E'', rv_parameters = [], rv_alternative = ''A'',
        rv_payload = []\<rparr>)]\<rparr>"

definition sample_program :: program where
  "sample_program = \<lparr>metadata = sample_metadata, drops_inserted = False,
     pg_functions = [(2, sample_function), (1, sample_function)]\<rparr>"

definition sample_program_reordered :: program where
  "sample_program_reordered = sample_program\<lparr>pg_functions := [(1, sample_function), (2, sample_function)]\<rparr>"

lemma sample_program_ok: "wire_program sample_program"
  by (simp add: wire_program_def sample_program_def sample_metadata_def maps_ok_def vec_ok_def
      MAX_ITEMS_def sample_function_ok wire_record_def wire_variant_def string_ok_def MAX_STRING_def
      as_bytes_def byte_of_char_def wire_type_def runtime_record_new_Inr_iff)

lemma default_table_canonical [simp]: "canonical default_table = default_table"
  by (simp add: canonical_def default_table_def)

lemma sample_program_written:
  "\<exists>bs. w_program (\<lambda>_. Some ''{}'') sample_program [] = Inr bs \<and> length bs \<le> usize_max"
  by (simp add: w_program_def sample_program_def sample_metadata_def sample_function_def Let_def
      writer_evaluation w_constant_def w_function_entry_def w_record_entry_def w_dispatch_entry_def
      w_variant_entry_def w_symbols_def w_option_id_def w_nominal_type_def w_u64_def MAGIC_def usize_max_def)

section \<open>Properties\<close>

text \<open>
  C10. A bytecode file round-trips: a program the format can carry is written without error,
  and reading the file back gives the program with its maps and symbol table in canonical
  order, provided the JSON text of its symbol table is parsed back to that table.
\<close>

theorem program_round_trip:
  assumes "wire_program p" "json_round_trip to_json from_json (canonical (symbols (metadata p)))"
    and "w_program to_json p [] = Inr bs" "length bs \<le> usize_max"
  shows "read_program from_json bs = Inr (canonical_program p) \<and> same_program (canonical_program p)
    (p\<lparr>metadata := (metadata p)\<lparr>symbols := canonical (symbols (metadata p))\<rparr>\<rparr>)"
proof
  from emits_program [OF assms(1,2)] obtain cs
    where "writes (w_program to_json p) cs" and r: "reads_as (r_program from_json) cs (canonical_program p)"
    by (auto simp: emits_def)
  then have "cs = bs" using assms(3) by (simp add: writes_def)
  then show "read_program from_json bs = Inr (canonical_program p)"
    using reads_asD [OF r, of "[]" "[]"] assms(4) by (simp add: read_program_def)
  show "same_program (canonical_program p)
    (p\<lparr>metadata := (metadata p)\<lparr>symbols := canonical (symbols (metadata p))\<rparr>\<rparr>)"
    by (simp add: same_program_def canonical_program_def)
qed

theorem program_round_trip_witness:
  "\<exists>bs. w_program (\<lambda>_. Some ''{}'') sample_program [] = Inr bs \<and>
     read_program (\<lambda>_. Some default_table) bs = Inr (canonical_program sample_program)"
proof -
  obtain bs where bs: "w_program (\<lambda>_. Some ''{}'') sample_program [] = Inr bs" "length bs \<le> usize_max"
    using sample_program_written by blast
  have "json_round_trip (\<lambda>_. Some ''{}'') (\<lambda>_. Some default_table)
      (canonical (symbols (metadata sample_program)))"
    by (simp add: json_round_trip_def sample_program_def sample_metadata_def string_ok_def
        MAX_STRING_def as_bytes_def byte_of_char_def)
  from program_round_trip [OF sample_program_ok this bs] bs(1) show ?thesis by blast
qed

text \<open>
  C19. Serialization is deterministic: programs that differ only in the iteration order of
  their hash maps are written to the same bytes.
\<close>

theorem serialization_deterministic:
  assumes "maps_ok p" "same_program p q"
  shows "w_program to_json p buf = w_program to_json q buf"
proof -
  have "sort_key fst (pg_functions p) = sort_key fst (pg_functions q)"
    "sort_key fst (records (metadata p)) = sort_key fst (records (metadata q))"
    "sort_key fst (variants (metadata p)) = sort_key fst (variants (metadata q))"
    "sort_key (\<lambda>e. dispatch_key (fst e)) (dispatch (metadata p)) =
     sort_key (\<lambda>e. dispatch_key (fst e)) (dispatch (metadata q))"
    using assms
    by (auto simp: same_program_def maps_ok_def distinct_map_key intro!: sort_key_mset_cong)
  moreover have "drops_inserted p = drops_inserted q" using assms(2) by (simp add: same_program_def)
  moreover have "(metadata p)\<lparr>records := [], dispatch := [], variants := []\<rparr> =
     (metadata q)\<lparr>records := [], dispatch := [], variants := []\<rparr>"
    using assms(2) by (simp add: same_program_def)
  then have "symbols (metadata p) = symbols (metadata q)" "constants (metadata p) = constants (metadata q)"
    "main (metadata p) = main (metadata q)" "main_arguments (metadata p) = main_arguments (metadata q)"
    "string_record (metadata p) = string_record (metadata q)"
    "symbol_record (metadata p) = symbol_record (metadata q)"
    "list_record (metadata p) = list_record (metadata q)"
    "bytes_record (metadata p) = bytes_record (metadata q)"
    "byte_buffer_record (metadata p) = byte_buffer_record (metadata q)"
    "remote_result (metadata p) = remote_result (metadata q)"
    "remote_error (metadata p) = remote_error (metadata q)"
    by (cases "metadata p"; cases "metadata q"; simp)+
  ultimately show ?thesis by (simp only: w_program_def Let_def)
qed

theorem serialization_deterministic_witness:
  "w_program (\<lambda>_. Some ''{}'') sample_program [] = w_program (\<lambda>_. Some ''{}'') sample_program_reordered []"
  by (rule serialization_deterministic)
    (simp_all add: maps_ok_def same_program_def sample_program_def sample_program_reordered_def sample_metadata_def)

end
