(* ===== verification/Linking.thy ===== *)
theory Linking
  imports Symbol_Check Binary
begin

text \<open>
  Symbolic linkage, \<open>link\<close> of \<open>bytecode/src/symbols/linking.rs\<close>, and the public codec of
  \<open>bytecode/src/binary.rs\<close>: \<open>encode_program\<close> verifies before it writes and \<open>decode_program\<close>
  links what it has read. \<open>link\<close> mutates its argument, so the model returns the result and the
  program after the call.
\<close>

section \<open>Relocation\<close>

type_synonym renames = "(string, string) hash_map"
type_synonym relocations = "(u32, u32 \<times> renames) hash_map"

definition renamed :: "renames \<Rightarrow> string \<Rightarrow> string" where
  "renamed m name = (case map_of m name of None \<Rightarrow> name | Some n \<Rightarrow> n)"

text \<open>The rebinding of one import; it extends the relocations of its module.\<close>

definition relocate_import ::
  "(symbol, symbol_definition) hash_map \<Rightarrow> symbol_import \<Rightarrow> relocations \<Rightarrow>
   verify_error + symbol_import \<times> relocations" where
  "relocate_import definitions im relocations =
     (case map_of definitions (im_symbol im) of
        None \<Rightarrow> Inl (SymbolError ''unresolved symbol'')
      | Some d \<Rightarrow>
          try_bind (ensure_symbol (accepts (im_required im) (df_descriptor d)) ''incompatible descriptor'') (\<lambda>_.
          try_bind (ensure_symbol
            (length (im_generic_names im) = length (df_generic_names d) \<and> distinct (im_generic_names im))
            ''invalid generic import binding'') (\<lambda>_.
          try_bind (ensure_symbol (map_of relocations (im_function im) = None) ''duplicate import binding'') (\<lambda>_.
            Inr (im\<lparr>im_function := df_function d, im_generic_names := df_generic_names d\<rparr>,
                 map_insert (im_function im)
                   (df_function d, zip (im_generic_names im) (df_generic_names d)) relocations)))))"

fun relocate_imports ::
  "(symbol, symbol_definition) hash_map \<Rightarrow> symbol_import list \<Rightarrow> relocations \<Rightarrow>
   verify_error + symbol_import list \<times> relocations" where
  "relocate_imports definitions [] relocations = Inr ([], relocations)"
| "relocate_imports definitions (im # ims) relocations =
     try_bind (relocate_import definitions im relocations) (\<lambda>(im, relocations).
     try_bind (relocate_imports definitions ims relocations) (\<lambda>(ims, relocations).
       Inr (im # ims, relocations)))"

definition rename_specialization :: "renames \<Rightarrow> specialization \<Rightarrow> verify_error + specialization" where
  "rename_specialization m sp =
     (case specialization_rename (renamed m) sp of
        (_, Inl _) \<Rightarrow> Inl (SymbolError ''invalid specialization'')
      | (sp, Inr _) \<Rightarrow> Inr sp)"

definition rebind_target :: "u32 \<Rightarrow> renames \<Rightarrow> instruction \<Rightarrow> verify_error + instruction" where
  "rebind_target f m i =
     (case i of
        Call d _ sp rs \<Rightarrow> try_bind (rename_specialization m sp) (\<lambda>sp. Inr (Call d f sp rs))
      | CallMethod d obj _ sp rs \<Rightarrow> try_bind (rename_specialization m sp) (\<lambda>sp. Inr (CallMethod d obj f sp rs))
      | RemoteCall d remote _ rs \<Rightarrow> Inr (RemoteCall d remote f rs)
      | MakeClosure d _ sp cs \<Rightarrow> try_bind (rename_specialization m sp) (\<lambda>sp. Inr (MakeClosure d f sp cs))
      | CallClosure d _ sp cs rs \<Rightarrow>
          try_bind (rename_specialization m sp) (\<lambda>sp. Inr (CallClosure d f sp cs rs))
      | _ \<Rightarrow> Inr i)"

definition patch_instruction :: "relocations \<Rightarrow> instruction \<Rightarrow> verify_error + instruction" where
  "patch_instruction relocations i =
     (case target i of
        None \<Rightarrow> Inr i
      | Some old \<Rightarrow>
          (case map_of relocations old of
             None \<Rightarrow> Inr i
           | Some (replacement, m) \<Rightarrow> rebind_target replacement m i))"

definition patch_function :: "relocations \<Rightarrow> bytecode_function \<Rightarrow> verify_error + bytecode_function" where
  "patch_function relocations f =
     try_bind (traverse (patch_instruction relocations) (instructions (f_body f))) (\<lambda>is.
       Inr (f\<lparr>f_body := (f_body f)\<lparr>instructions := is\<rparr>\<rparr>))"

text \<open>\<open>*map.get_mut(k) = v\<close>.\<close>

definition map_replace :: "'k \<Rightarrow> 'v \<Rightarrow> ('k, 'v) hash_map \<Rightarrow> ('k, 'v) hash_map" where
  "map_replace k v m = map (\<lambda>(k', v'). if k' = k then (k', v) else (k', v')) m"

type_synonym functions_map = "(function_id, bytecode_function) hash_map"

definition patch_definition ::
  "relocations \<Rightarrow> symbol_definition \<Rightarrow> functions_map \<Rightarrow> verify_error + functions_map" where
  "patch_definition relocations d fs =
     try_bind (ensure_symbol
         (case map_of relocations (df_function d) of None \<Rightarrow> True | Some (f, _) \<Rightarrow> f = df_function d)
         ''import binding collides with a local definition'') (\<lambda>_.
       case map_of fs (df_function d) of
         None \<Rightarrow> Inl (SymbolError ''missing implementation'')
       | Some f \<Rightarrow> try_bind (patch_function relocations f) (\<lambda>f. Inr (map_replace (df_function d) f fs)))"

definition link_module ::
  "(symbol, symbol_definition) hash_map \<Rightarrow> symbol_module \<Rightarrow> functions_map \<Rightarrow>
   verify_error + symbol_module \<times> functions_map" where
  "link_module definitions m fs =
     try_bind (relocate_imports definitions (md_imports m) []) (\<lambda>(ims, relocations).
     try_bind (try_fold (patch_definition relocations) (md_definitions m) fs) (\<lambda>fs.
       Inr (m\<lparr>md_imports := ims\<rparr>, fs)))"

fun link_modules ::
  "(symbol, symbol_definition) hash_map \<Rightarrow> symbol_module list \<Rightarrow> functions_map \<Rightarrow>
   verify_error + symbol_module list \<times> functions_map" where
  "link_modules definitions [] fs = Inr ([], fs)"
| "link_modules definitions (m # ms) fs =
     try_bind (link_module definitions m fs) (\<lambda>(m, fs).
     try_bind (link_modules definitions ms fs) (\<lambda>(ms, fs). Inr (m # ms, fs)))"

text \<open>\<open>collect\<close> into an ordered map: of two definitions of a symbol the later one is kept.\<close>

definition definitions_of :: "symbol_table \<Rightarrow> (symbol, symbol_definition) hash_map" where
  "definitions_of t = rev (map (\<lambda>d. (df_symbol d, d)) (table_definitions t))"

definition relocate :: "program \<Rightarrow> verify_error + program" where
  "relocate p =
     (let t = symbols (metadata p) in
      try_bind (link_modules (definitions_of t) (st_modules t) (pg_functions p)) (\<lambda>(ms, fs).
        Inr (p\<lparr>metadata := (metadata p)\<lparr>symbols := t\<lparr>st_modules := ms\<rparr>\<rparr>, pg_functions := fs\<rparr>)))"

definition link :: "program \<Rightarrow> (verified \<times> program) option" where
  "link p =
     (case validate (symbols (metadata p)) p of
        Inr _ \<Rightarrow> map_option (\<lambda>r. (r, p)) (verify p)
      | Inl e \<Rightarrow>
          if e = VerifyPanic then Some (Inl VerifyPanic, p)
          else case relocate p of
              Inl e \<Rightarrow> Some (Inl e, p)
            | Inr linked \<Rightarrow>
                map_option (\<lambda>r. case r of Inl e \<Rightarrow> (Inl e, p) | Inr _ \<Rightarrow> (Inr (), linked)) (verify linked))"

section \<open>The codec\<close>

datatype codec_error = BinaryFault binary_error | InvalidProgramFile verify_error | InvalidBytecode verify_error

definition encode_program ::
  "(symbol_table \<Rightarrow> string option) \<Rightarrow> program \<Rightarrow> (codec_error + u8 list) option" where
  "encode_program to_json p =
     (case verify p of
        None \<Rightarrow> None
      | Some (Inl e) \<Rightarrow> Some (Inl (InvalidProgramFile e))
      | Some (Inr _) \<Rightarrow> Some (map_sum BinaryFault id (w_program to_json p [])))"

definition decode_program ::
  "(string \<Rightarrow> symbol_table option) \<Rightarrow> u8 list \<Rightarrow> (codec_error + program) option" where
  "decode_program from_json bs =
     (case read_program from_json bs of
        Inl e \<Rightarrow> Some (Inl (BinaryFault e))
      | Inr p \<Rightarrow>
          (case link p of
             None \<Rightarrow> None
           | Some (Inl e, _) \<Rightarrow> Some (Inl (InvalidBytecode e))
           | Some (Inr _, linked) \<Rightarrow> Some (Inr linked)))"

end
