(* ===== verification/Symbol_Laws.thy ===== *)
theory Symbol_Laws
  imports Symbol_Check
begin

text \<open>
  What \<open>Table::validate\<close> accepts, in closed form: the scope it builds is the list of all
  definitions, its insertion tests say that names, ids, symbols and function bindings are
  distinct over the whole table.
\<close>

section \<open>Folds that enter distinct keys\<close>

lemma map_insert_fresh: "map_of m k = None \<Longrightarrow> map_insert k v m = (k, v) # m"
  by (auto simp: map_insert_def map_remove_def map_of_eq_None_iff filter_id_conv)

lemma map_of_fresh_iff: "map_of m k = None \<longleftrightarrow> k \<notin> fst ` set m"
  by (simp add: map_of_eq_None_iff)

definition keyed :: "('a \<Rightarrow> 'k) \<Rightarrow> 'a list \<Rightarrow> ('k, 'a) hash_map" where
  "keyed f xs = rev (map (\<lambda>x. (f x, x)) xs)"

lemma keyed_simps [simp]: "keyed f [] = []" "keyed f (xs @ ys) = keyed f ys @ keyed f xs"
  "keyed f (x # xs) = keyed f xs @ [(f x, x)]"
  by (simp_all add: keyed_def)

lemma keyed_keys [simp]: "fst ` set (keyed f xs) = f ` set xs"
  by (force simp: keyed_def)

lemma keyed_add_keys [simp]: "fst ` (set (keyed f xs) \<union> S) = f ` set xs \<union> fst ` S"
  by (simp add: image_Un)

lemma map_of_keyed:
  assumes "distinct (map f xs)" "x \<in> set xs"
  shows "map_of (keyed f xs) (f x) = Some x"
proof -
  have "distinct (map fst (keyed f xs))"
    using assms(1) distinct_rev [of "map f xs"] by (simp add: keyed_def rev_map o_def)
  then show ?thesis using assms(2) by (intro map_of_is_SomeI) (auto simp: keyed_def)
qed

lemma map_of_keyed_iff:
  assumes "distinct (map f xs)"
  shows "map_of (keyed f xs) k = Some x \<longleftrightarrow> x \<in> set xs \<and> f x = k"
  using map_of_keyed [OF assms] map_of_SomeD [of "keyed f xs" k x] by (auto simp: keyed_def)

lemma map_of_keyed_None: "map_of (keyed f xs) k = None \<longleftrightarrow> k \<notin> f ` set xs"
  by (simp add: map_of_fresh_iff)

lemma map_of_keyed_mset:
  assumes "distinct (map f xs)" "mset xs = mset ys"
  shows "map_of (keyed f xs) = map_of (keyed f ys)"
proof
  fix k
  have "mset (map f xs) = mset (map f ys)" using assms(2) by simp
  then have ys: "distinct (map f ys)" using assms(1) mset_eq_imp_distinct_iff by blast
  have "map_of (keyed f xs) k = Some x \<longleftrightarrow> map_of (keyed f ys) k = Some x" for x
    by (simp add: map_of_keyed_iff assms(1) ys mset_eq_setD [OF assms(2)])
  then show "map_of (keyed f xs) k = map_of (keyed f ys) k"
    by (metis option.exhaust)
qed

text \<open>New keys: distinct among themselves and outside the keys already there.\<close>

definition fresh :: "('a \<Rightarrow> 'k) \<Rightarrow> 'a list \<Rightarrow> 'k set \<Rightarrow> bool" where
  "fresh f xs K \<longleftrightarrow> distinct (map f xs) \<and> f ` set xs \<inter> K = {}"

lemma fresh_Nil [simp]: "fresh f [] K"
  by (simp add: fresh_def)

lemma fresh_empty [simp]: "fresh f xs {} \<longleftrightarrow> distinct (map f xs)"
  by (simp add: fresh_def)

lemma fresh_one: "fresh f [x] K \<longleftrightarrow> f x \<notin> K"
  by (simp add: fresh_def)

lemma fresh_append: "fresh f (xs @ ys) K \<longleftrightarrow> fresh f xs K \<and> fresh f ys (f ` set xs \<union> K)"
  by (auto simp: fresh_def)

section \<open>Nominal types\<close>

definition table_types :: "symbol_table \<Rightarrow> type_binding list" where
  "table_types t = concat (map md_types (st_modules t))"

definition type_key :: "type_binding \<Rightarrow> bool \<times> u32" where
  "type_key b = (tb_variant b, tb_id b)"

definition binding_ok :: "program \<Rightarrow> module_ident \<Rightarrow> type_binding \<Rightarrow> bool" where
  "binding_ok p module b \<longleftrightarrow> nm_module (tb_name b) = module \<and>
     (tb_variant b \<or> map_of (records (metadata p)) (tb_id b) \<noteq> None)"

definition add_types :: "type_binding list \<Rightarrow> type_scope \<Rightarrow> type_scope" where
  "add_types bs sc = \<lparr>ts_names = keyed tb_name bs @ ts_names sc, ts_ids = type_key ` set bs \<union> ts_ids sc\<rparr>"

definition fresh_types :: "type_binding list \<Rightarrow> type_scope \<Rightarrow> bool" where
  "fresh_types bs sc \<longleftrightarrow> fresh tb_name bs (fst ` set (ts_names sc)) \<and> fresh type_key bs (ts_ids sc)"

lemma enter_type_iff:
  "enter_type p module b sc = Inr sc' \<longleftrightarrow>
     binding_ok p module b \<and> fresh_types [b] sc \<and> sc' = add_types [b] sc"
  by (auto simp: enter_type_def ensure_symbol_def binding_ok_def fresh_types_def add_types_def fresh_one
      map_of_fresh_iff map_insert_fresh type_key_def)

lemma fresh_types_append:
  "fresh_types (bs @ cs) sc \<longleftrightarrow> fresh_types bs sc \<and> fresh_types cs (add_types bs sc)"
  by (auto simp: fresh_types_def add_types_def fresh_append)

lemma add_types_append: "add_types (bs @ cs) sc = add_types cs (add_types bs sc)"
  by (auto simp: add_types_def)

lemma enter_module_types_iff:
  "try_fold (enter_type p module) bs sc = Inr sc' \<longleftrightarrow>
     (\<forall>b \<in> set bs. binding_ok p module b) \<and> fresh_types bs sc \<and> sc' = add_types bs sc"
proof (induction bs arbitrary: sc)
  case Nil
  show ?case by (auto simp: fresh_types_def add_types_def)
next
  case (Cons b bs)
  show ?case
    using fresh_types_append [of "[b]" bs sc] add_types_append [of "[b]" bs sc]
    by (auto simp: enter_type_iff Cons)
qed

lemma enter_all_types_iff:
  "try_fold (\<lambda>m. try_fold (enter_type p (md_name m)) (md_types m)) ms sc = Inr sc' \<longleftrightarrow>
     (\<forall>m \<in> set ms. \<forall>b \<in> set (md_types m). binding_ok p (md_name m) b) \<and>
     fresh_types (concat (map md_types ms)) sc \<and> sc' = add_types (concat (map md_types ms)) sc"
proof (induction ms arbitrary: sc)
  case Nil
  show ?case by (auto simp: fresh_types_def add_types_def)
next
  case (Cons m ms)
  then show ?case by (auto simp: enter_module_types_iff fresh_types_append add_types_append)
qed

section \<open>Definitions\<close>

definition definition_ok :: "type_names \<Rightarrow> program \<Rightarrow> module_ident \<Rightarrow> symbol_definition \<Rightarrow> bool" where
  "definition_ok types p module d \<longleftrightarrow>
     nm_module (sy_name (df_symbol d)) = module \<and>
     sy_overload (df_symbol d) = overload (df_descriptor d) \<and>
     sy_receiver (df_symbol d) = dc_receiver (df_descriptor d) \<and>
     check_implementation types p d = Inr ()"

definition add_definitions :: "symbol_definition list \<Rightarrow> definition_scope \<Rightarrow> definition_scope" where
  "add_definitions ds sc =
     sc\<lparr>ds_definitions := keyed df_symbol ds @ ds_definitions sc,
        ds_bindings := keyed df_function ds @ ds_bindings sc\<rparr>"

definition fresh_definitions :: "symbol_definition list \<Rightarrow> definition_scope \<Rightarrow> bool" where
  "fresh_definitions ds sc \<longleftrightarrow>
     fresh df_symbol ds (fst ` set (ds_definitions sc)) \<and> fresh df_function ds (fst ` set (ds_bindings sc))"

lemma enter_definition_iff:
  "enter_definition types p module d sc = Inr sc' \<longleftrightarrow>
     definition_ok types p module d \<and> fresh_definitions [d] sc \<and> sc' = add_definitions [d] sc"
  by (auto simp: enter_definition_def ensure_symbol_def definition_ok_def fresh_definitions_def fresh_one
      add_definitions_def map_of_fresh_iff map_insert_fresh)

lemma fresh_definitions_append:
  "fresh_definitions (ds @ es) sc \<longleftrightarrow> fresh_definitions ds sc \<and> fresh_definitions es (add_definitions ds sc)"
  by (auto simp: fresh_definitions_def add_definitions_def fresh_append)

lemma add_definitions_append: "add_definitions (ds @ es) sc = add_definitions es (add_definitions ds sc)"
  by (auto simp: add_definitions_def)

lemma enter_definitions_iff:
  "try_fold (enter_definition types p module) ds sc = Inr sc' \<longleftrightarrow>
     (\<forall>d \<in> set ds. definition_ok types p module d) \<and> fresh_definitions ds sc \<and> sc' = add_definitions ds sc"
proof (induction ds arbitrary: sc)
  case Nil
  show ?case by (auto simp: fresh_definitions_def add_definitions_def)
next
  case (Cons d ds)
  show ?case
    using fresh_definitions_append [of "[d]" ds sc] add_definitions_append [of "[d]" ds sc]
    by (auto simp: enter_definition_iff Cons)
qed

definition module_named :: "symbol_module \<Rightarrow> bool" where
  "module_named m \<longleftrightarrow> mn_package (md_name m) \<noteq> [] \<and> mn_path (md_name m) \<noteq> []"

lemma enter_module_iff:
  "enter_module types p m sc = Inr sc' \<longleftrightarrow>
     module_named m \<and> md_name m \<notin> ds_modules sc \<and>
     (\<forall>d \<in> set (md_definitions m). definition_ok types p (md_name m) d) \<and>
     fresh_definitions (md_definitions m) sc \<and>
     sc' = add_definitions (md_definitions m) (sc\<lparr>ds_modules := insert (md_name m) (ds_modules sc)\<rparr>)"
  by (auto simp: enter_module_def ensure_symbol_def enter_definitions_iff module_named_def
      fresh_definitions_def)

lemma enter_modules_iff:
  "try_fold (enter_module types p) ms sc = Inr sc' \<longleftrightarrow>
     (\<forall>m \<in> set ms. module_named m \<and> (\<forall>d \<in> set (md_definitions m). definition_ok types p (md_name m) d)) \<and>
     distinct (map md_name ms) \<and> md_name ` set ms \<inter> ds_modules sc = {} \<and>
     fresh_definitions (concat (map md_definitions ms)) sc \<and>
     sc' = add_definitions (concat (map md_definitions ms)) (sc\<lparr>ds_modules := md_name ` set ms \<union> ds_modules sc\<rparr>)"
proof (induction ms arbitrary: sc)
  case Nil
  show ?case by (auto simp: fresh_definitions_def add_definitions_def)
next
  case (Cons m ms)
  have fresh_mods: "fresh_definitions ds (sc\<lparr>ds_modules := X\<rparr>) = fresh_definitions ds sc" for ds X
    by (simp add: fresh_definitions_def)
  have add: "add_definitions ds (sc\<lparr>ds_modules := X\<rparr>)\<lparr>ds_modules := Y\<rparr> = add_definitions ds (sc\<lparr>ds_modules := Y\<rparr>)"
    for ds X Y by (simp add: add_definitions_def)
  have mods: "ds_modules (add_definitions ds (sc\<lparr>ds_modules := X\<rparr>)) = X" for ds X
    by (simp add: add_definitions_def)
  have fresh': "fresh_definitions es (add_definitions ds (sc\<lparr>ds_modules := X\<rparr>)) =
      fresh_definitions es (add_definitions ds sc)" for ds es X
    by (simp add: fresh_definitions_def add_definitions_def)
  have union: "md_name ` set ms \<union> insert x X = insert x (md_name ` set ms \<union> X)" for x X by auto
  show ?case
    by (simp add: enter_module_iff Cons.IH fresh_mods fresh' add mods
        fresh_definitions_append add_definitions_append union) auto
qed

text \<open>The scope of a table and the closed form of its validation.\<close>

definition table_scope :: "symbol_table \<Rightarrow> definition_scope" where
  "table_scope t =
     \<lparr>ds_modules = md_name ` set (st_modules t), ds_definitions = keyed df_symbol (table_definitions t),
      ds_bindings = keyed df_function (table_definitions t)\<rparr>"

definition table_names :: "symbol_table \<Rightarrow> type_names" where
  "table_names t = keyed tb_name (table_types t)"

definition scope_ok :: "symbol_table \<Rightarrow> program \<Rightarrow> bool" where
  "scope_ok t p \<longleftrightarrow>
     distinct (map tb_name (table_types t)) \<and> distinct (map type_key (table_types t)) \<and>
     distinct (map md_name (st_modules t)) \<and>
     distinct (map df_symbol (table_definitions t)) \<and> distinct (map df_function (table_definitions t)) \<and>
     (\<forall>m \<in> set (st_modules t). module_named m \<and>
        (\<forall>b \<in> set (md_types m). binding_ok p (md_name m) b) \<and>
        (\<forall>d \<in> set (md_definitions m). definition_ok (table_names t) p (md_name m) d))"

lemma scope_of_iff: "scope_of t p = Inr sc \<longleftrightarrow> scope_ok t p \<and> sc = table_scope t"
  by (auto simp: scope_of_def enter_types_def enter_all_types_iff enter_modules_iff scope_ok_def
      table_scope_def table_names_def table_types_def table_definitions_def fresh_types_def
      fresh_definitions_def add_types_def add_definitions_def)

text \<open>The imports of a module, in closed form.\<close>

definition import_ok :: "symbol_table \<Rightarrow> symbol_import \<Rightarrow> bool" where
  "import_ok t im \<longleftrightarrow>
     (\<exists>d \<in> set (table_definitions t). df_symbol d = im_symbol im \<and> im_function im = df_function d \<and>
        im_generic_names im = df_generic_names d \<and> accepts (im_required im) (df_descriptor d) \<and>
        overload (im_required im) = sy_overload (im_symbol im))"

lemma enter_import_iff:
  assumes "distinct (map df_symbol (table_definitions t))"
  shows "enter_import (table_scope t) im fs = Inr fs' \<longleftrightarrow>
    import_ok t im \<and> im_function im \<notin> fs \<and> fs' = insert (im_function im) fs"
proof (cases "map_of (keyed df_symbol (table_definitions t)) (im_symbol im)")
  case None
  then have "\<not> import_ok t im" by (force simp: import_ok_def map_of_keyed_None)
  then show ?thesis by (simp add: enter_import_def table_scope_def None)
next
  case (Some d)
  then have d: "d \<in> set (table_definitions t)" "df_symbol d = im_symbol im"
    using map_of_keyed_iff [OF assms] by auto
  have "d' = d" if "d' \<in> set (table_definitions t)" "df_symbol d' = im_symbol im" for d'
    using map_of_keyed [OF assms that(1)] that(2) Some by simp
  then have "import_ok t im \<longleftrightarrow> im_function im = df_function d \<and> im_generic_names im = df_generic_names d \<and>
      accepts (im_required im) (df_descriptor d) \<and> overload (im_required im) = sy_overload (im_symbol im)"
    unfolding import_ok_def using d by blast
  then show ?thesis
    by (simp add: enter_import_def table_scope_def Some ensure_symbol_def) blast
qed

lemma enter_imports_iff:
  assumes "distinct (map df_symbol (table_definitions t))"
  shows "try_fold (enter_import (table_scope t)) ims fs = Inr fs' \<longleftrightarrow>
    (\<forall>im \<in> set ims. import_ok t im) \<and> distinct (map im_function ims) \<and> im_function ` set ims \<inter> fs = {} \<and>
    fs' = im_function ` set ims \<union> fs"
  by (induction ims arbitrary: fs) (auto simp: enter_import_iff [OF assms])

definition calls_ok :: "symbol_table \<Rightarrow> program \<Rightarrow> symbol_module \<Rightarrow> bool" where
  "calls_ok t p m \<longleftrightarrow>
     (\<forall>d \<in> set (md_definitions m). \<exists>f. map_of (pg_functions p) (df_function d) = Some f \<and>
        (\<forall>i \<in> set (instructions (f_body f)).
           call_imported (table_scope t) (md_name m) (im_function ` set (md_imports m)) i))"

lemma check_imports_iff:
  assumes "distinct (map df_symbol (table_definitions t))"
  shows "check_imports p (table_scope t) m = Inr () \<longleftrightarrow>
    (\<forall>im \<in> set (md_imports m). import_ok t im) \<and> distinct (map im_function (md_imports m)) \<and> calls_ok t p m"
  by (auto simp: check_imports_def enter_imports_iff [OF assms] calls_ok_def check_calls_def ensure_symbol_def
      list_all_iff split: option.splits)

lemma validate_iff:
  "validate t p = Inr () \<longleftrightarrow>
     st_version t = SYMBOLS_FORMAT_VERSION \<and> scope_ok t p \<and>
     (\<forall>m \<in> set (st_modules t). (\<forall>im \<in> set (md_imports m). import_ok t im) \<and>
        distinct (map im_function (md_imports m)) \<and> calls_ok t p m)"
proof -
  have "scope_ok t p \<Longrightarrow> distinct (map df_symbol (table_definitions t))" by (simp add: scope_ok_def)
  then show ?thesis
    by (auto simp: validate_def ensure_symbol_def scope_of_iff check_imports_iff)
qed

end
