(* ===== verification/Flow_Order.thy ===== *)
theory Flow_Order
  imports Flow_State Type_Laws
begin

text \<open>
  The order in which the flow analysis grows: a type is below another when every value the first
  describes is described by the second, a state is below another when the second knows no more.
  \<open>merge_types\<close> and \<open>merge_state\<close> are upper bounds for these orders.
\<close>

section \<open>Types\<close>

function type_le :: "executable_type \<Rightarrow> executable_type \<Rightarrow> bool" where
  "type_le a b =
     (if a = b \<or> b = Unknown then True
      else case alternatives_of a of
          Some xs \<Rightarrow> list_all (\<lambda>x. type_le x b) xs
        | None \<Rightarrow>
            (case alternatives_of b of
               Some ys \<Rightarrow> list_ex (\<lambda>y. type_le a y) ys
             | None \<Rightarrow>
                 (case (a, b) of
                    (List l, List r) \<Rightarrow> type_le l r
                  | (Reference l, Reference r) \<Rightarrow> type_le l r
                  | (Remote l, Remote r) \<Rightarrow> type_le l r
                  | (Future l, Future r) \<Rightarrow> type_le l r
                  | _ \<Rightarrow> False)))"
  by pat_completeness auto
termination
  by (relation "measure (\<lambda>(a, b). size a + size b)") (auto intro: alternatives_of_size)

declare type_le.simps [simp del]

lemma type_le_refl [simp]: "type_le a a"
  by (simp add: type_le.simps)

lemma type_le_Unknown [simp]: "type_le a Unknown"
  by (simp add: type_le.simps)

lemma alternatives_of_Some: "alternatives_of t = Some ts \<longleftrightarrow> t = Alternatives ts"
  by (auto simp: alternatives_of_def split: executable_type.splits)

lemma type_le_members:
  "a \<noteq> Alternatives ys \<Longrightarrow> alternatives_of a = None \<Longrightarrow>
   type_le a (Alternatives ys) \<longleftrightarrow> (\<exists>y \<in> set ys. type_le a y)"
  by (simp add: type_le.simps [of a "Alternatives ys"] alternatives_of_def list_ex_iff)

lemma type_le_member: "type_le x y \<Longrightarrow> y \<in> set ys \<Longrightarrow> type_le x (Alternatives ys)"
proof (induction "size x" arbitrary: x y ys rule: less_induct)
  case less
  show ?case
  proof (cases "alternatives_of x")
    case None
    then have "x \<noteq> Alternatives ys" by (auto simp: alternatives_of_def)
    then show ?thesis using less.prems None by (auto simp: type_le_members)
  next
    case (Some xs)
    then have x: "x = Alternatives xs" by (simp add: alternatives_of_Some)
    have "type_le z (Alternatives ys)" if z: "z \<in> set xs" for z
    proof -
      have size: "size z < size x" using alternatives_of_size Some z by blast
      have "type_le z y"
      proof (cases "x = y")
        case True
        then show ?thesis using less.hyps [OF size type_le_refl z] x by simp
      next
        case False
        then show ?thesis using less.prems(1) z Some by (auto simp: type_le.simps [of x y] list_all_iff split: if_splits)
      qed
      then show ?thesis using less.hyps size less.prems(2) by blast
    qed
    then show ?thesis
      by (simp add: x type_le.simps [of "Alternatives xs"] alternatives_of_def list_all_iff)
  qed
qed

lemma type_le_Alternatives: "type_le (Alternatives xs) b \<longleftrightarrow> (\<forall>x \<in> set xs. type_le x b) \<or> b = Unknown"
proof (cases "Alternatives xs = b \<or> b = Unknown")
  case True
  then show ?thesis by (auto intro: type_le_member [OF type_le_refl])
next
  case False
  then show ?thesis by (simp add: type_le.simps [of "Alternatives xs"] alternatives_of_def list_all_iff)
qed

text \<open>The covariant constructors, with their argument.\<close>

definition type_arg :: "executable_type \<Rightarrow> (nat \<times> executable_type) option" where
  "type_arg t =
     (case t of List x \<Rightarrow> Some (0, x) | Reference x \<Rightarrow> Some (1, x) | Remote x \<Rightarrow> Some (2, x)
      | Future x \<Rightarrow> Some (3, x) | _ \<Rightarrow> None)"

lemma type_arg_size: "type_arg t = Some (k, x) \<Longrightarrow> size x < size t"
  by (cases t) (auto simp: type_arg_def)

lemma type_arg_plain: "type_arg t = Some kx \<Longrightarrow> alternatives_of t = None \<and> t \<noteq> Unknown"
  by (cases t) (auto simp: type_arg_def alternatives_of_def)

lemma type_arg_inject: "type_arg a = Some kx \<Longrightarrow> type_arg b = Some kx \<Longrightarrow> a = b"
  by (cases a; cases b) (auto simp: type_arg_def)

lemma type_le_plain:
  assumes "alternatives_of a = None" "alternatives_of b = None"
  shows "type_le a b \<longleftrightarrow> a = b \<or> b = Unknown \<or>
    (\<exists>k l r. type_arg a = Some (k, l) \<and> type_arg b = Some (k, r) \<and> type_le l r)"
  unfolding type_le.simps [of a b] using assms
  by (cases a; cases b) (simp_all add: type_arg_def)

lemma type_le_trans: "type_le a b \<Longrightarrow> type_le b c \<Longrightarrow> type_le a c"
proof (induction "size a + size b + size c" arbitrary: a b c rule: less_induct)
  case less
  show ?case
  proof (cases "a = b \<or> b = c \<or> c = Unknown")
    case True
    then show ?thesis using less.prems by auto
  next
    case neq: False
    show ?thesis
    proof (cases "alternatives_of a")
      case (Some xs)
      then have a: "a = Alternatives xs" by (simp add: alternatives_of_Some)
      have "type_le x c" if x: "x \<in> set xs" for x
      proof -
        have "type_le x b" using less.prems(1) x a by (auto simp: type_le_Alternatives)
        then show ?thesis using less.hyps [of x b c] less.prems(2) alternatives_of_size [OF Some x] by simp
      qed
      then show ?thesis by (simp add: a type_le_Alternatives)
    next
      case a: None
      show ?thesis
      proof (cases "alternatives_of c")
        case (Some zs)
        then have c: "c = Alternatives zs" by (simp add: alternatives_of_Some)
        show ?thesis
        proof (cases "alternatives_of b")
          case None
          then obtain z where z: "z \<in> set zs" "type_le b z"
            using less.prems(2) c neq by (auto simp: type_le_members)
          then have "type_le a z"
            using less.hyps [of a b z] less.prems(1) alternatives_of_size [OF Some z(1)] by simp
          then show ?thesis using z c by (auto intro: type_le_member)
        next
          case b: (Some ys)
          then have "b = Alternatives ys" by (simp add: alternatives_of_Some)
          then obtain y where y: "y \<in> set ys" "type_le a y" "type_le y c"
            using less.prems a neq by (auto simp: type_le_members type_le_Alternatives)
          then show ?thesis
            using less.hyps [of a y c] alternatives_of_size [OF b y(1)] by simp
        qed
      next
        case c: None
        show ?thesis
        proof (cases "alternatives_of b")
          case b: (Some ys)
          then have "b = Alternatives ys" by (simp add: alternatives_of_Some)
          then obtain y where y: "y \<in> set ys" "type_le a y" "type_le y c"
            using less.prems a neq by (auto simp: type_le_members type_le_Alternatives)
          then show ?thesis
            using less.hyps [of a y c] alternatives_of_size [OF b y(1)] by simp
        next
          case b: None
          have "b \<noteq> Unknown"
            using less.prems(2) c neq by (auto simp: type_le.simps [of Unknown c] alternatives_of_def)
          then obtain k l m r where args: "type_arg a = Some (k, l)" "type_arg b = Some (k, m)"
              "type_arg c = Some (k, r)" "type_le l m" "type_le m r"
            using less.prems neq by (auto simp: type_le_plain a b c)
          then have "type_le l r" using less.hyps [of l m r] type_arg_size by (simp add: add_strict_mono)
          then show ?thesis using args by (auto simp: type_le_plain a c)
        qed
      qed
    qed
  qed
qed

section \<open>Joins\<close>

lemma type_le_alternatives_of_set: "x \<in> set ts \<Longrightarrow> type_le x (alternatives_of_set ts)"
  by (auto simp: alternatives_of_set_def intro: type_le_member [OF type_le_refl] split: list.split)

lemma type_le_alternatives:
  assumes "t \<in> set ts" shows "type_le t (alternatives ts)"
proof (cases "flatten_alternatives ts")
  case None
  then show ?thesis by (simp add: alternatives_def)
next
  case (Some fs)
  have below: "type_le x (alternatives ts)" if "x \<in> set fs" for x
    using that Some by (simp add: alternatives_alt type_le_alternatives_of_set)
  have "t \<noteq> Unknown" using Some assms by (metis flatten_alternatives_None option.distinct(1))
  then have "set (members_of t) \<subseteq> set fs"
    using flatten_alternatives_set [OF Some] assms by blast
  then show ?thesis
    using below by (cases t) (auto simp: type_le_Alternatives)
qed

lemma merge_types_cases:
  assumes "a \<noteq> b" "a \<noteq> Unknown" "b \<noteq> Unknown"
  shows "merge_types a b = alternatives [a, b] \<or>
    (\<exists>k l r. type_arg a = Some (k, l) \<and> type_arg b = Some (k, r) \<and>
       type_arg (merge_types a b) = Some (k, merge_types l r))"
  unfolding merge_types.simps [of a b] using assms
  by (cases a; cases b) (simp_all add: type_arg_def, auto)

lemma merge_types_upper: "type_le a (merge_types a b) \<and> type_le b (merge_types a b)"
proof (induction "size a" arbitrary: a b rule: less_induct)
  case less
  show ?case
  proof (cases "a = b \<or> a = Unknown \<or> b = Unknown")
    case True
    then show ?thesis by (auto simp: merge_types.simps [of a b])
  next
    case False
    then consider (alt) "merge_types a b = alternatives [a, b]"
      | (arg) k l r where "type_arg a = Some (k, l)" "type_arg b = Some (k, r)"
          "type_arg (merge_types a b) = Some (k, merge_types l r)"
      using merge_types_cases by blast
    then show ?thesis
    proof cases
      case alt
      then show ?thesis by (simp add: type_le_alternatives)
    next
      case (arg k l r)
      then show ?thesis
        using less [OF type_arg_size [OF arg(1)], of r] by (simp add: type_le_plain type_arg_plain)
    qed
  qed
qed

text \<open>A type below an accepted one is accepted: the analysis never loses a rejection by joining.\<close>

lemma compatible_arg:
  "type_arg a = Some (k, l) \<Longrightarrow> type_arg b = Some (k, r) \<Longrightarrow> compatible l r \<Longrightarrow> compatible a b"
  unfolding compatible.simps [of a b]
  by (cases a; cases b) (simp_all add: type_arg_def alternatives_of_def)

lemma type_le_compatible: "type_le a b \<Longrightarrow> compatible a b"
proof (induction "size a + size b" arbitrary: a b rule: less_induct)
  case less
  show ?case
  proof (cases "a = b \<or> b = Unknown")
    case True
    then show ?thesis by (auto simp: compatible.simps [of a b] unconstrained_def)
  next
    case neq: False
    show ?thesis
    proof (cases "alternatives_of a")
      case (Some xs)
      have "compatible x b" if x: "x \<in> set xs" for x
        using less.hyps [of x b] less.prems alternatives_of_size [OF Some x] x Some neq
        by (auto simp: alternatives_of_Some type_le_Alternatives)
      then show ?thesis by (simp add: compatible.simps [of a b] Some list_all_iff)
    next
      case a: None
      show ?thesis
      proof (cases "alternatives_of b")
        case (Some ys)
        then obtain y where y: "y \<in> set ys" "type_le a y"
          using less.prems a neq by (auto simp: alternatives_of_Some type_le_members)
        then have "compatible a y" using less.hyps [of a y] alternatives_of_size [OF Some y(1)] by simp
        then show ?thesis using y by (auto simp: compatible.simps [of a b] Some a list_ex_iff)
      next
        case None
        then obtain k l r where args: "type_arg a = Some (k, l)" "type_arg b = Some (k, r)" "type_le l r"
          using less.prems neq a by (auto simp: type_le_plain)
        then have "compatible l r"
          using less.hyps [of l r] type_arg_size by (simp add: add_strict_mono)
        then show ?thesis using compatible_arg args by blast
      qed
    qed
  qed
qed

section \<open>States\<close>

text \<open>The maps of a state are maps, no excluded set is empty, and pending evidence satisfies \<open>Q\<close>.\<close>

definition state_ok :: "nat \<Rightarrow> (pending_pattern \<Rightarrow> bool) \<Rightarrow> flow_state \<Rightarrow> bool" where
  "state_ok n Q s = (length (fl_bindings s) = n \<and> distinct (map fst (fl_booleans s)) \<and>
     distinct (map fst (fl_excluded s)) \<and> (\<forall>e \<in> set (fl_excluded s). snd e \<noteq> {}) \<and> (\<forall>p. fl_pending s = Some p \<longrightarrow> Q p))"

definition binding_le :: "executable_type option \<Rightarrow> executable_type option \<Rightarrow> bool" where
  "binding_le b c = (case c of None \<Rightarrow> True | Some t \<Rightarrow> (case b of None \<Rightarrow> False | Some s \<Rightarrow> type_le s t))"

definition excluded_le ::
  "(flow_value, variant_id set) hash_map \<Rightarrow> (flow_value, variant_id set) hash_map \<Rightarrow> bool" where
  "excluded_le m m' = (\<forall>v vs. map_of m' v = Some vs \<longrightarrow> (\<exists>ws. map_of m v = Some ws \<and> vs \<subseteq> ws))"

definition state_le :: "flow_state \<Rightarrow> flow_state \<Rightarrow> bool" where
  "state_le s t = (list_all2 binding_le (fl_bindings s) (fl_bindings t) \<and>
     map_of (fl_booleans t) \<subseteq>\<^sub>m map_of (fl_booleans s) \<and>
     fl_pending t \<in> {None, fl_pending s} \<and> excluded_le (fl_excluded s) (fl_excluded t))"

lemma binding_le_refl [simp]: "binding_le b b"
  by (simp add: binding_le_def split: option.split)

lemma binding_le_trans: "binding_le b c \<Longrightarrow> binding_le c d \<Longrightarrow> binding_le b d"
  by (auto simp: binding_le_def intro: type_le_trans split: option.splits)

lemma state_le_refl [simp]: "state_le s s"
  by (simp add: state_le_def excluded_le_def list_all2_refl)

lemma excluded_le_trans:
  "excluded_le m m' \<Longrightarrow> excluded_le m' m'' \<Longrightarrow> excluded_le m m''"
  unfolding excluded_le_def by (meson order_trans)

lemma bindings_le_trans:
  "list_all2 binding_le bs cs \<Longrightarrow> list_all2 binding_le cs ds \<Longrightarrow> list_all2 binding_le bs ds"
  using binding_le_trans by (fastforce simp: list_all2_conv_all_nth)

lemma state_le_trans: "state_le s t \<Longrightarrow> state_le t u \<Longrightarrow> state_le s u"
  unfolding state_le_def using bindings_le_trans excluded_le_trans map_le_trans by auto

lemma merge_binding_upper: "binding_le b (merge_binding b c) \<and> binding_le c (merge_binding b c)"
  using merge_types_upper by (auto simp: binding_le_def merge_binding_def split: option.split)

lemma merge_bindings_map2: "length bs = length cs \<Longrightarrow> merge_bindings bs cs = map2 merge_binding bs cs"
  by (simp add: merge_bindings_def)

lemma map_of_filter_value:
  "distinct (map fst m) \<Longrightarrow> map_of [e \<leftarrow> m. P (fst e) (snd e)] k =
   (case map_of m k of Some v \<Rightarrow> if P k v then Some v else None | None \<Rightarrow> None)"
proof (induction m)
  case (Cons e m)
  have "map_of [e \<leftarrow> m. P (fst e) (snd e)] k = None" if "fst e = k"
    using Cons.prems that by (auto simp: map_of_eq_None_iff)
  then show ?case using Cons by (cases e) (auto split: option.split)
qed simp

definition joined_excluded ::
  "(flow_value, variant_id set) hash_map \<Rightarrow> flow_value \<Rightarrow> variant_id set \<Rightarrow> variant_id set" where
  "joined_excluded m v vs = (case map_of m v of None \<Rightarrow> {} | Some ws \<Rightarrow> vs \<inter> ws)"

lemma merge_excluded_alt:
  "merge_excluded m m' = [e \<leftarrow> map (\<lambda>(v, vs). (v, joined_excluded m' v vs)) m. snd e \<noteq> {}]"
  by (simp add: merge_excluded_def joined_excluded_def)

lemma map_of_merge_excluded:
  assumes "distinct (map fst m)"
  shows "map_of (merge_excluded m m') v =
    (case map_of m v of None \<Rightarrow> None
     | Some vs \<Rightarrow> if joined_excluded m' v vs = {} then None else Some (joined_excluded m' v vs))"
proof -
  have "distinct (map fst (map (\<lambda>(v, vs). (v, joined_excluded m' v vs)) m))"
    using assms by (simp add: split_def o_def)
  then have "map_of (merge_excluded m m') v =
      (case map_of (map (\<lambda>(v, vs). (v, joined_excluded m' v vs)) m) v of
         Some vs \<Rightarrow> if vs \<noteq> {} then Some vs else None | None \<Rightarrow> None)"
    unfolding merge_excluded_alt by (rule map_of_filter_value)
  moreover have "map_of (map (\<lambda>(v, vs). (v, joined_excluded m' v vs)) m) v =
      map_option (joined_excluded m' v) (map_of m v)"
    by (induction m) auto
  ultimately show ?thesis by (cases "map_of m v") auto
qed

lemma merge_excluded_keys: "distinct (map fst m) \<Longrightarrow> distinct (map fst (merge_excluded m m'))"
proof -
  assume "distinct (map fst m)"
  then have "distinct (map fst (map (\<lambda>(v, vs). (v, joined_excluded m' v vs)) m))"
    by (simp add: split_def o_def)
  then show ?thesis unfolding merge_excluded_alt by (rule distinct_map_filter)
qed

lemma merge_excluded_nonempty: "\<forall>e \<in> set (merge_excluded m m'). snd e \<noteq> {}"
  by (simp add: merge_excluded_alt)

lemma merge_state_ok:
  "state_ok n Q t \<Longrightarrow> state_ok n Q s \<Longrightarrow> state_ok n Q (fst (merge_state t s))"
  using merge_excluded_nonempty [of "fl_excluded t" "fl_excluded s"]
  by (auto simp: state_ok_def merge_state_def Let_def merge_bindings_map2 merge_excluded_keys
      distinct_map_filter)

lemma merge_state_upper:
  assumes "state_ok n Q t" "state_ok n Q s"
  shows "state_le t (fst (merge_state t s)) \<and> state_le s (fst (merge_state t s))"
proof -
  have len: "length (fl_bindings t) = length (fl_bindings s)"
    and bools: "distinct (map fst (fl_booleans t))" and excl: "distinct (map fst (fl_excluded t))"
    using assms by (auto simp: state_ok_def)
  have "list_all2 binding_le (fl_bindings t) (merge_bindings (fl_bindings t) (fl_bindings s)) \<and>
      list_all2 binding_le (fl_bindings s) (merge_bindings (fl_bindings t) (fl_bindings s))"
    using len merge_binding_upper by (auto simp: merge_bindings_map2 list_all2_conv_all_nth)
  moreover have "map_of [e \<leftarrow> fl_booleans t. map_of (fl_booleans s) (fst e) = Some (snd e)] v =
      (case map_of (fl_booleans t) v of Some b \<Rightarrow> if map_of (fl_booleans s) v = Some b then Some b else None
       | None \<Rightarrow> None)" for v
    using bools by (rule map_of_filter_value)
  moreover have "excluded_le (fl_excluded t) (merge_excluded (fl_excluded t) (fl_excluded s)) \<and>
      excluded_le (fl_excluded s) (merge_excluded (fl_excluded t) (fl_excluded s))"
    using excl by (auto simp: excluded_le_def map_of_merge_excluded joined_excluded_def split: option.splits if_splits)
  ultimately show ?thesis
    by (auto simp: state_le_def merge_state_def Let_def map_le_def split: option.splits if_splits)
qed

lemma filter_full: "length (filter P xs) = length xs \<Longrightarrow> filter P xs = xs"
proof (induction xs)
  case (Cons x xs)
  have "length (filter P xs) \<noteq> Suc (length xs)" using length_filter_le [of P xs] by linarith
  then show ?case using Cons by auto
qed simp

lemma merge_state_same:
  assumes "state_ok n Q t" "state_ok n Q s" "\<not> snd (merge_state t s)"
  shows "fst (merge_state t s) = t"
proof -
  let ?kept = "[e \<leftarrow> fl_booleans t. map_of (fl_booleans s) (fst e) = Some (snd e)]"
  have same: "merge_bindings (fl_bindings t) (fl_bindings s) = fl_bindings t"
      "(if fl_pending t = fl_pending s then fl_pending t else None) = fl_pending t"
      "\<not> excluded_changed (fl_excluded t) (fl_excluded s)" "length ?kept = length (fl_booleans t)"
    using assms(3) by (auto simp: merge_state_def Let_def)
  have "?kept = fl_booleans t"
    using same(4) by (rule filter_full)
  moreover have "merge_excluded (fl_excluded t) (fl_excluded s) = fl_excluded t"
  proof -
    have "joined_excluded (fl_excluded s) v vs = vs" if "(v, vs) \<in> set (fl_excluded t)" for v vs
    proof -
      have "\<not> (case map_of (fl_excluded s) v of None \<Rightarrow> True | Some ws \<Rightarrow> vs \<inter> ws \<noteq> vs)"
        using same(3) that unfolding excluded_changed_def list_ex_iff by blast
      then show ?thesis by (simp add: joined_excluded_def split: option.splits)
    qed
    then have "map (\<lambda>(v, vs). (v, joined_excluded (fl_excluded s) v vs)) (fl_excluded t) = fl_excluded t"
      by (intro map_idI) auto
    then show ?thesis using assms(1) by (simp add: merge_excluded_alt state_ok_def filter_id_conv)
  qed
  ultimately show ?thesis using same by (simp add: merge_state_def Let_def)
qed

end
