(* ===== verification/Flow_Laws.thy ===== *)
theory Flow_Laws
  imports Flow_Engine Flow_Order
begin

text \<open>
  The transfer rules keep the shape of a state, so the flow engine satisfies the contract
  \<open>dataflow\<close>: an analysis that returns has reached a fixed point of its rules.
\<close>

section \<open>The shape of states\<close>

lemma map_remove_keys: "distinct (map fst m) \<Longrightarrow> distinct (map fst (map_remove k m))"
  by (simp add: map_remove_def distinct_map_filter)

lemma map_remove_fresh: "k \<notin> fst ` set (map_remove k m)"
  by (auto simp: map_remove_def)

lemma map_insert_keys: "distinct (map fst m) \<Longrightarrow> distinct (map fst (map_insert k v m))"
  by (simp add: map_insert_def map_remove_keys map_remove_fresh)

lemma map_remove_subset: "set (map_remove k m) \<subseteq> set m"
  by (auto simp: map_remove_def)

lemma map_of_map_remove: "map_of (map_remove k m) k' = (if k' = k then None else map_of m k')"
  by (induction m) (auto simp: map_remove_def)

lemma map_of_map_insert [simp]: "map_of (map_insert k v m) = (map_of m)(k \<mapsto> v)"
  by (auto simp: map_insert_def map_of_map_remove fun_eq_iff)

lemma copy_entry_keys: "distinct (map fst m) \<Longrightarrow> distinct (map fst (copy_entry old a b m))"
  by (simp add: copy_entry_def map_remove_keys map_insert_keys split: option.split)

lemma copy_entry_values:
  "\<forall>e \<in> set m. P (snd e) \<Longrightarrow> \<forall>e \<in> set old. P (snd e) \<Longrightarrow> e \<in> set (copy_entry old a b m) \<Longrightarrow> P (snd e)"
  by (auto simp: copy_entry_def map_insert_def map_remove_def dest!: map_of_SomeD split: option.splits)

named_theorems keeps \<open>operations that keep the shape of a state\<close>

lemma set_binding_keeps [keeps]: "set_binding v b s = Inr t \<Longrightarrow> state_ok n Q s \<Longrightarrow> state_ok n Q t"
  by (auto simp: set_binding_def state_ok_def split: if_splits)

lemma forget_keeps [keeps]: "state_ok n Q s \<Longrightarrow> state_ok n Q (forget v s)"
  using map_remove_subset by (fastforce simp: forget_def state_ok_def map_remove_keys)

lemma clear_keeps [keeps]: "state_ok n Q s \<Longrightarrow> state_ok n Q (s\<lparr>fl_booleans := []\<rparr>)"
  by (simp add: state_ok_def)

lemma pending_keeps [keeps]:
  "state_ok n Q s \<Longrightarrow> (\<And>e. p = Some e \<Longrightarrow> Q e) \<Longrightarrow> state_ok n Q (s\<lparr>fl_pending := p\<rparr>)"
  by (simp add: state_ok_def)

lemma constant_keeps [keeps]:
  "state_ok n Q s \<Longrightarrow> state_ok n Q (s\<lparr>fl_booleans := map_insert v b (fl_booleans s)\<rparr>)"
  by (simp add: state_ok_def map_insert_keys)

text \<open>The assignment through a reference and the plain one.\<close>

definition reference_target :: "executable_type option \<Rightarrow> executable_type option" where
  "reference_target b = (case b of Some (Reference t) \<Rightarrow> Some t | _ \<Rightarrow> None)"

lemma case_reference:
  "(case p of Some (Reference r) \<Rightarrow> f r | _ \<Rightarrow> b) = (case reference_target p of None \<Rightarrow> b | Some r \<Rightarrow> f r)"
proof (cases p)
  case (Some t)
  then show ?thesis by (cases t) (simp_all add: reference_target_def)
qed (simp add: reference_target_def)

lemma write_type_alt:
  "write_type body i v t s =
     try_bind (assignment_binding body (forget v s) v) (\<lambda>previous.
       case reference_target previous of
         None \<Rightarrow> set_binding v (Some t) (forget v s)
       | Some r \<Rightarrow>
           try_bind (require_type i t r ''reference assignment'') (\<lambda>_.
             set_binding v (Some (Reference r)) ((forget v s)\<lparr>fl_booleans := []\<rparr>)))"
  unfolding write_type_def Let_def case_reference ..

lemma write_type_keeps [keeps]:
  "write_type body i v t s = Inr s' \<Longrightarrow> state_ok n Q s \<Longrightarrow> state_ok n Q s'"
  by (auto simp: write_type_alt split: option.splits
      elim!: set_binding_keeps intro: clear_keeps [OF forget_keeps] forget_keeps)

lemma take_type_keeps [keeps]:
  "take_type body i v s = Inr (t, s') \<Longrightarrow> state_ok n Q s \<Longrightarrow> state_ok n Q s'"
  by (auto simp: take_type_def split: if_splits option.splits elim!: set_binding_keeps intro: forget_keeps)

lemma consume_argument_keeps [keeps]:
  "consume_argument body i item s = Inr s' \<Longrightarrow> state_ok n Q s \<Longrightarrow> state_ok n Q s'"
  by (auto simp: consume_argument_def split: prod.splits if_splits intro: take_type_keeps)

lemma verify_arguments_keeps [keeps]:
  "verify_arguments body i actual modes types s = Inr s' \<Longrightarrow> state_ok n Q s \<Longrightarrow> state_ok n Q s'"
  by (auto simp: verify_arguments_def split: if_splits
      elim!: try_fold_invariant [where P = "state_ok n Q"] intro: consume_argument_keeps)

lemma verify_captures_keeps [keeps]:
  "verify_captures body i captures types s = Inr s' \<Longrightarrow> state_ok n Q s \<Longrightarrow> state_ok n Q s'"
  by (auto simp: verify_captures_def split: if_splits
      elim!: try_fold_invariant [where P = "state_ok n Q"] intro: consume_argument_keeps)

lemma builtin_consume_keeps [keeps]:
  "builtin_consume body i sig item s = Inr s' \<Longrightarrow> state_ok n Q s \<Longrightarrow> state_ok n Q s'"
  by (auto simp: builtin_consume_def split: option.splits intro: consume_argument_keeps)

lemma exclude_variant_keeps [keeps]: "state_ok n Q s \<Longrightarrow> state_ok n Q (exclude_variant v subject s)"
  using map_remove_subset [of subject "fl_excluded s"]
  by (auto simp: exclude_variant_def state_ok_def map_insert_keys map_insert_def map_remove_keys map_remove_fresh)

lemma learn_mismatch_keeps [keeps]:
  assumes "state_ok n Q s" shows "state_ok n Q (learn_mismatch p s)"
proof -
  have "state_ok n Q (fold (exclude_variant v) subjects s)" for v subjects
    using assms by (induction subjects arbitrary: s) (auto intro: exclude_variant_keeps)
  then show ?thesis using assms by (auto simp: learn_mismatch_def split: option.split)
qed

lemma refine_subject_keeps [keeps]:
  "refine_subject v s = Inr s' \<Longrightarrow> state_ok n Q s \<Longrightarrow> state_ok n Q s'"
  by (auto simp: refine_subject_def intro: set_binding_keeps)

lemma learn_match_keeps [keeps]:
  "learn_match body i p s = Inr s' \<Longrightarrow> state_ok n Q s \<Longrightarrow> state_ok n Q s'"
  by (auto simp: learn_match_def split: option.splits prod.splits
      elim!: try_fold_invariant [where P = "state_ok n Q"] intro: refine_subject_keeps write_type_keeps)

lemma copy_keeps:
  assumes "state_ok n Q old" "state_ok n Q s"
  shows "state_ok n Q (s\<lparr>fl_booleans := copy_entry (fl_booleans old) a b (fl_booleans s),
    fl_excluded := copy_entry (fl_excluded old) a b (fl_excluded s)\<rparr>)"
proof -
  have "snd e \<noteq> {}" if "e \<in> set (copy_entry (fl_excluded old) a b (fl_excluded s))" for e
    by (rule copy_entry_values [OF _ _ that]) (use assms in \<open>simp_all add: state_ok_def\<close>)
  then show ?thesis using assms by (simp add: state_ok_def copy_entry_keys)
qed

lemma pass_argument_keeps [keeps]:
  "pass_argument old item s = Inr s' \<Longrightarrow> state_ok n Q old \<Longrightarrow> state_ok n Q s \<Longrightarrow> state_ok n Q s'"
  by (auto simp: pass_argument_def split: prod.splits intro!: copy_keeps elim: set_binding_keeps)

text \<open>Every successor of a rule is in shape.\<close>

definition all_ok :: "nat \<Rightarrow> (pending_pattern \<Rightarrow> bool) \<Rightarrow> successors_of flow \<Rightarrow> bool" where
  "all_ok n Q r = (\<forall>ss. r = Inr ss \<longrightarrow> (\<forall>item \<in> set ss. state_ok n Q (snd item)))"

lemma all_ok_bind [intro!]: "(\<And>x. m = Inr x \<Longrightarrow> all_ok n Q (f x)) \<Longrightarrow> all_ok n Q (try_bind m f)"
  by (cases m) (auto simp: all_ok_def)

lemma all_ok_simps [simp]:
  "all_ok n Q (Inl e)" "all_ok n Q (Inr [])" "all_ok n Q (Inr ((j, s) # ss)) \<longleftrightarrow> state_ok n Q s \<and> all_ok n Q (Inr ss)"
  by (auto simp: all_ok_def)

lemma all_ok_continue [simp]: "all_ok n Q (continue i s) = state_ok n Q s"
  by (simp add: continue_def)

lemma all_ok_write_next [intro]: "state_ok n Q s \<Longrightarrow> all_ok n Q (write_next body i v t s)"
  by (auto simp: write_next_def intro: write_type_keeps)

lemma all_ok_write_call [intro]: "state_ok n Q s \<Longrightarrow> all_ok n Q (write_call body i v t s)"
  by (auto simp: write_call_def intro: write_type_keeps)

text \<open>The same for a rule that yields one state.\<close>

definition keeps_ok :: "nat \<Rightarrow> (pending_pattern \<Rightarrow> bool) \<Rightarrow> flow_state flow \<Rightarrow> bool" where
  "keeps_ok n Q r = (\<forall>t. r = Inr t \<longrightarrow> state_ok n Q t)"

lemma keeps_ok_bind: "(\<And>x. m = Inr x \<Longrightarrow> keeps_ok n Q (f x)) \<Longrightarrow> keeps_ok n Q (try_bind m f)"
  by (cases m) (auto simp: keeps_ok_def)

lemma keeps_ok_simps [simp]: "keeps_ok n Q (Inl e)" "keeps_ok n Q (Inr s) = state_ok n Q s"
  by (simp_all add: keeps_ok_def)

lemma keeps_ok_if: "(b \<Longrightarrow> keeps_ok n Q x) \<Longrightarrow> (\<not> b \<Longrightarrow> keeps_ok n Q y) \<Longrightarrow> keeps_ok n Q (if b then x else y)"
  by simp

lemma keeps_ok_option:
  "(m = None \<Longrightarrow> keeps_ok n Q x) \<Longrightarrow> (\<And>y. m = Some y \<Longrightarrow> keeps_ok n Q (f y)) \<Longrightarrow>
   keeps_ok n Q (case m of None \<Rightarrow> x | Some y \<Rightarrow> f y)"
  by (cases m) auto

lemma keeps_ok_list:
  "keeps_ok n Q x \<Longrightarrow> (\<And>y ys. keeps_ok n Q (f y ys)) \<Longrightarrow> keeps_ok n Q (case m of [] \<Rightarrow> x | y # ys \<Rightarrow> f y ys)"
  by (cases m) auto

lemma keeps_ok_write: "state_ok n Q s \<Longrightarrow> keeps_ok n Q (write_type body i v t s)"
  by (auto simp: keeps_ok_def intro: write_type_keeps)

lemma all_ok_pass [intro!]: "keeps_ok n Q r \<Longrightarrow> all_ok n Q (pass i r)"
  by (auto simp: pass_def keeps_ok_def)

lemmas keeps_ok_intros = keeps_ok_bind keeps_ok_if keeps_ok_option keeps_ok_list keeps_ok_write

lemma transfer_drop_keeps: "state_ok n Q s \<Longrightarrow> keeps_ok n Q (transfer_drop body v s)"
  by (auto simp: transfer_drop_def keeps_ok_def split: if_splits intro: keeps)

lemma transfer_constant_keeps: "state_ok n Q s \<Longrightarrow> keeps_ok n Q (transfer_constant prog body i v c s)"
  by (auto simp: transfer_constant_def intro!: keeps_ok_intros constant_keeps split: program_constant.split)
    (auto intro: write_type_keeps)

lemma transfer_move_out_keeps: "state_ok n Q s \<Longrightarrow> keeps_ok n Q (transfer_move_out body i b v u s)"
  by (auto simp: transfer_move_out_def intro!: keeps_ok_intros intro: keeps split: executable_type.split)

lemma transfer_builtin_keeps: "state_ok n Q s \<Longrightarrow> keeps_ok n Q (transfer_builtin prog body i v b vs s)"
  by (auto simp: transfer_builtin_def Let_def intro!: keeps_ok_intros
      elim!: try_fold_invariant [where P = "state_ok n Q"] intro: builtin_consume_keeps)

lemma transfer_remote_call_keeps: "state_ok n Q s \<Longrightarrow> keeps_ok n Q (transfer_remote_call prog body i v u f avs s)"
  by (auto simp: transfer_remote_call_def Let_def intro!: keeps_ok_intros intro: verify_arguments_keeps)

lemma transfer_match_keeps:
  "state_ok n Q s \<Longrightarrow> (\<And>ts b. Q (pattern_evidence v u p vs ts b)) \<Longrightarrow> keeps_ok n Q (transfer_match prog body i v u p vs s)"
  by (auto simp: transfer_match_def Let_def intro!: keeps_ok_intros pending_keeps) (auto intro: write_type_keeps)

lemma transfer_values_keep:
  assumes "state_ok n Q s"
  shows "keeps_ok n Q (transfer_move body i v u s)"
    and "keeps_ok n Q (transfer_index prog body i v u w s)"
    and "keeps_ok n Q (transfer_make_record prog body i v rec ts fs s)"
    and "keeps_ok n Q (transfer_make_variant prog body i v var ts vs s)"
    and "keeps_ok n Q (transfer_store_field i v u s)"
    and "keeps_ok n Q (transfer_store_index prog i v u w s)"
    and "keeps_ok n Q (write_reference body i v t1 t2 s)"
    and "keeps_ok n Q (transfer_make_reference prog body i v t2 u w s)"
    and "keeps_ok n Q (transfer_make_field_reference prog body i field v t2 u s)"
    and "keeps_ok n Q (transfer_push prog body i v u w s)"
    and "keeps_ok n Q (transfer_append body i v u w s)"
    and "keeps_ok n Q (transfer_contains body i v u vs s)"
    and "keeps_ok n Q (transfer_await body i v u s)"
    and "keeps_ok n Q (transfer_spawn body i v u s)"
  unfolding transfer_move_def transfer_index_def transfer_make_record_def transfer_make_variant_def
    transfer_store_field_def transfer_store_index_def write_reference_def transfer_make_reference_def
    transfer_make_field_reference_def transfer_push_def transfer_append_def transfer_contains_def
    transfer_await_def transfer_spawn_def
  using assms by (safe intro!: keeps_ok_intros) (simp_all add: keeps_ok_write)

lemma transfer_edge_keeps:
  assumes "state_ok n Q s" "\<And>p. Q p \<Longrightarrow> Q (rename_pending arguments p)"
  shows "all_ok n Q (transfer_edge target arguments s)"
proof -
  have "state_ok n Q t" if "try_fold (pass_argument s) arguments s = Inr t" for t
    using that assms(1) by (rule try_fold_invariant) (erule pass_argument_keeps, rule assms(1))
  then have "state_ok n Q (t\<lparr>fl_pending := map_option (rename_pending arguments) (fl_pending t)\<rparr>)"
    if "try_fold (pass_argument s) arguments s = Inr t" for t
    using that assms(2) by (intro pending_keeps) (auto simp: state_ok_def)
  then show ?thesis by (auto simp: transfer_edge_def)
qed

lemma transfer_branch_keeps: "state_ok n Q s \<Longrightarrow> all_ok n Q (transfer_branch body i c target s)"
  by (auto simp: transfer_branch_def Let_def split: option.split intro!: learn_mismatch_keeps)
    (auto intro: learn_match_keeps pending_keeps)

lemma transfer_assert_keeps: "state_ok n Q s \<Longrightarrow> all_ok n Q (transfer_assert prog i c m s)"
  by (auto simp: transfer_assert_def)

lemma transfer_call_value_keeps: "state_ok n Q s \<Longrightarrow> all_ok n Q (transfer_call_value body i v u vs s)"
  by (auto simp: transfer_call_value_def split: executable_type.split intro!: all_ok_write_next all_ok_write_call)
    (auto intro: verify_arguments_keeps)

lemma transfer_calls_keep:
  assumes "state_ok n Q s"
  shows "all_ok n Q (transfer_call prog body i v f sp vs s)"
    and "all_ok n Q (transfer_call_method prog body i v u f sp vs s)"
    and "all_ok n Q (copy_capability body i v t slt vs s)"
    and "all_ok n Q (call_witness body i v g t vs t' s)"
    and "all_ok n Q (call_accessor prog body i v t name vs t' s)"
    and "all_ok n Q (transfer_make_closure prog body i v f sp cs s)"
    and "all_ok n Q (transfer_call_closure prog body i v f sp cs vs s)"
    and "all_ok n Q (transfer_return body i v s)"
  using assms verify_arguments_keeps verify_captures_keeps
  unfolding transfer_call_def transfer_call_method_def copy_capability_def call_witness_def
    call_accessor_def transfer_make_closure_def transfer_call_closure_def transfer_return_def Let_def
  by (auto intro!: all_ok_bind all_ok_write_next all_ok_write_call split: list.split)

lemma transfer_contract_method_keeps:
  "state_ok n Q s \<Longrightarrow> all_ok n Q (transfer_contract_method prog body i v u slt name vs t s)"
  by (auto simp: transfer_contract_method_def intro!: transfer_calls_keep split: option.split)

text \<open>The evidence the rules of a function create satisfies \<open>Q\<close>.\<close>

definition evidence_ok :: "(pending_pattern \<Rightarrow> bool) \<Rightarrow> flow_instruction \<Rightarrow> bool" where
  "evidence_ok Q op =
     (case op of
        FEdge _ arguments \<Rightarrow> \<forall>p. Q p \<longrightarrow> Q (rename_pending arguments p)
      | FMatchPattern v u p vs \<Rightarrow> \<forall>ts b. Q (pattern_evidence v u p vs ts b)
      | _ \<Rightarrow> True)"

lemma transfer_rule_keeps:
  "state_ok n Q s \<Longrightarrow> evidence_ok Q op \<Longrightarrow> all_ok n Q (transfer_rule prog body i op s)"
  by (cases op)
    (auto simp: keeps_ok_def evidence_ok_def intro: keeps transfer_drop_keeps transfer_constant_keeps
      transfer_move_out_keeps transfer_builtin_keeps transfer_remote_call_keeps transfer_match_keeps
      transfer_values_keep transfer_edge_keeps transfer_branch_keeps transfer_assert_keeps
      transfer_calls_keep transfer_call_value_keeps transfer_contract_method_keeps)

lemma transfer_keeps:
  "state_ok n Q s \<Longrightarrow> \<forall>op \<in> set (fb_instructions body). evidence_ok Q op \<Longrightarrow>
   transfer prog body i s = Inr ss \<Longrightarrow> (j, t) \<in> set ss \<Longrightarrow> state_ok n Q t"
  using transfer_rule_keeps [of n Q s] transfer_rule_keeps [OF clear_keeps]
  by (fastforce simp: transfer_def all_ok_def get_def split: option.splits if_splits)

text \<open>The evidence of a function, when its rules agree with \<open>Q\<close>; no condition otherwise.\<close>

definition body_evidence :: "flow_body \<Rightarrow> (pending_pattern \<Rightarrow> bool) \<Rightarrow> pending_pattern \<Rightarrow> bool" where
  "body_evidence body Q p = ((\<forall>op \<in> set (fb_instructions body). evidence_ok Q op) \<longrightarrow> Q p)"

lemma body_evidence_ok: "\<forall>op \<in> set (fb_instructions body). evidence_ok (body_evidence body Q) op"
  by (auto simp: body_evidence_def evidence_ok_def split: flow_instruction.split)

interpretation flow: dataflow "transfer prog body" merge_state falls_off Panic
  "state_ok n (body_evidence body Q)" state_le for prog body n Q
  by unfold_locales
    (auto intro: state_le_trans merge_state_ok merge_state_same transfer_keeps [OF _ body_evidence_ok]
      simp: merge_state_upper)

end
