(* ===== verification/Flow_Typing.thy ===== *)
theory Flow_Typing
  imports Flow_Laws
begin

text \<open>
  What an analysis that returns means: its states type the code. The witnesses run the engine on
  a loop whose join drops a register.
\<close>

lemma entry_bindings_length:
  "try_fold (bind_entry body) items bs = Inr cs \<Longrightarrow> length cs = length bs"
  by (induction items arbitrary: bs) (force simp: bind_entry_def Let_def split: if_splits)+

lemma entry_state_ok: "entry_state body = Inr s \<Longrightarrow> state_ok (fb_value_count body) Q s"
  by (auto simp: entry_state_def state_ok_def dest: entry_bindings_length)

lemma flow_reached_iff:
  "flow.reached st item \<longleftrightarrow> (\<exists>t. get st (fst item) = Some (Some t) \<and> state_le (snd item) t)"
  by (auto simp: flow.reached_def get_def)

text \<open>A type assignment of a function, as the analysis returns it.\<close>

definition types_function :: "flow_program \<Rightarrow> flow_body \<Rightarrow> flow_state option list \<Rightarrow> bool" where
  "types_function prog body states \<longleftrightarrow>
     length states = length (fb_instructions body) \<and>
     (\<exists>s t. entry_state body = Inr s \<and> get states 0 = Some (Some t) \<and> state_le s t) \<and>
     (\<forall>i s. get states i = Some (Some s) \<longrightarrow>
        (\<exists>ss. transfer prog body i s = Inr ss \<and>
           (\<forall>(j, u) \<in> set ss. \<exists>t. get states j = Some (Some t) \<and> state_le u t)))"

definition sample_loop_body :: flow_body where
  "sample_loop_body =
     \<lparr>fb_schema = \<lparr>fs_name = ''f'', fs_parameters = [], fs_captures = [], fs_result_type = Unit,
        fs_returns_reference = False, fs_intrinsic_stub = False\<rparr>,
      fb_instructions = [FLoadConstant 0 0, FMove 1 0, FJump 1],
      fb_value_count = 2, fb_entry_values = [], fb_write_bindings = [],
      fb_storage_policy = ConsumingSlots\<rparr>"

definition sample_flow_program :: flow_program where
  "sample_flow_program =
     \<lparr>fp_metadata = \<lparr>symbols = default_table, constants = [Integer_const 7], main = None, main_arguments = False,
        string_record = None, symbol_record = None, list_record = None, bytes_record = None,
        byte_buffer_record = None, remote_result = None, remote_error = None,
        records = [], dispatch = [], variants = []\<rparr>,
      fp_functions = []\<rparr>"

definition state_with :: "executable_type option list \<Rightarrow> flow_state" where
  "state_with bs = \<lparr>fl_bindings = bs, fl_booleans = [], fl_pending = None, fl_excluded = []\<rparr>"

lemma sample_loop_analysis:
  "analyze_function_flow sample_flow_program sample_loop_body =
     Some (Inr [Some (state_with [None, None]), Some (state_with [Some Integer, None]),
       Some (state_with [Some Integer, Some Integer])])"
  by (simp add: analyze_function_flow_def sample_flow_program_def sample_loop_body_def entry_state_def
      entry_types_def work_start_def work_loop.simps work_step_def transfer_def get_def invalidates_def
      is_call_def transfer_constant_def transfer_move_def write_type_def assignment_binding_def
      binding_def set_binding_def bound_type_def forget_def map_remove_def pass_def continue_def
      deliver_def merge_state_def merge_bindings_def merge_binding_def merge_excluded_def
      excluded_changed_def merge_types.simps state_with_def numeral_2_eq_2)

text \<open>
  C13. An analysis that returns is a typing of the function: the entry state is covered by the
  state of instruction 0, no rule rejects any reached instruction at its final state, and every
  state a rule produces is covered by the state recorded at the successor (each binding below the
  recorded one, no more evidence recorded than arrives), so no reached path falls off the end.
\<close>

theorem analysis_types_function:
  assumes "analyze_function_flow prog body = Some (Inr states)" "\<not> fs_intrinsic_stub (fb_schema body)"
  shows "types_function prog body states"
proof -
  obtain s where s: "entry_state body = Inr s" and code: "fb_instructions body \<noteq> []"
    and loop: "work_loop (transfer prog body) merge_state falls_off Panic
      (work_start (length (fb_instructions body)) s) = Some (Inr states)"
    using assms by (auto simp: analyze_function_flow_def split: sum.splits if_splits)
  have inv: "flow.invariant prog body (fb_value_count body) (\<lambda>_. True) (work_start (length (fb_instructions body)) s)"
    using code entry_state_ok [OF s] by (intro flow.work_start_invariant) auto
  have closed: "flow.grows (wl_states (work_start (length (fb_instructions body)) s)) states"
      "\<forall>i < length states. flow.closed prog body states i"
    using flow.work_loop_closed [OF loop inv] by auto
  have "length states = length (fb_instructions body)" "flow.reached states (0, s)"
    using closed(1) code by (auto simp: flow.grows_def work_start_def)
  then show ?thesis
    using closed(2) s
    by (force simp: types_function_def flow.closed_def flow_reached_iff get_def split: if_splits)
qed

theorem analysis_types_function_witness:
  "\<exists>states. analyze_function_flow sample_flow_program sample_loop_body = Some (Inr states) \<and>
     types_function sample_flow_program sample_loop_body states"
  using sample_loop_analysis analysis_types_function [OF sample_loop_analysis]
  by (simp add: sample_loop_body_def)

text \<open>The targets an instruction names.\<close>

definition flow_targets :: "flow_instruction \<Rightarrow> nat list" where
  "flow_targets i = (case i of FJump t \<Rightarrow> [t] | FJumpIfFalse _ t \<Rightarrow> [t] | FEdge t _ \<Rightarrow> [t] | _ \<Rightarrow> [])"

definition forward_body :: "flow_body \<Rightarrow> bool" where
  "forward_body body \<longleftrightarrow>
     list_all (\<lambda>(i, op). list_all (\<lambda>t. i < t) (flow_targets op)) (enumerate 0 (fb_instructions body))"

definition moves_to :: "nat set \<Rightarrow> successors_of flow \<Rightarrow> bool" where
  "moves_to ts r = (\<forall>ss. r = Inr ss \<longrightarrow> fst ` set ss \<subseteq> ts)"

lemma moves_to_bind [intro!]: "(\<And>x. m = Inr x \<Longrightarrow> moves_to ts (f x)) \<Longrightarrow> moves_to ts (try_bind m f)"
  by (cases m) (auto simp: moves_to_def)

lemma moves_to_simps [simp]:
  "moves_to ts (Inl e)" "moves_to ts (Inr []) " "moves_to ts (Inr ((j, s) # ss)) \<longleftrightarrow> j \<in> ts \<and> moves_to ts (Inr ss)"
  "moves_to ts (continue i s) \<longleftrightarrow> Suc i \<in> ts"
  by (auto simp: moves_to_def continue_def)

lemma moves_to_next [simp]:
  "Suc i \<in> ts \<Longrightarrow> moves_to ts (pass i r)"
  "Suc i \<in> ts \<Longrightarrow> moves_to ts (write_next body i v t s)"
  "Suc i \<in> ts \<Longrightarrow> moves_to ts (write_call body i v t s)"
  by (auto simp: pass_def write_next_def write_call_def)

lemma transfer_moves:
  "transfer_rule prog body i op s = r \<Longrightarrow> moves_to (insert (Suc i) (set (flow_targets op))) r"
  by (cases op)
    (auto simp: flow_targets_def transfer_edge_def transfer_branch_def transfer_assert_def transfer_call_def
      transfer_call_method_def transfer_contract_method_def copy_capability_def call_witness_def
      call_accessor_def transfer_make_closure_def transfer_call_value_def transfer_call_closure_def
      transfer_return_def Let_def split: option.split list.split executable_type.split)

text \<open>
  C25. The analysis of loop-free code terminates: when every jump target lies after its
  instruction the analysis returns, with states or with an error.
\<close>

theorem forward_analysis_returns:
  assumes "forward_body body"
  shows "\<exists>r. analyze_function_flow prog body = Some r"
proof -
  have "i < j" if t: "transfer prog body i s = Inr ss" "(j, u) \<in> set ss" for i s ss j u
  proof -
    obtain op where op: "get (fb_instructions body) i = Some op"
      and "moves_to (insert (Suc i) (set (flow_targets op))) (Inr ss)"
      using t(1) transfer_moves by (auto simp: transfer_def split: option.splits) metis
    then have "j \<in> insert (Suc i) (set (flow_targets op))" using t(2) by (force simp: moves_to_def)
    moreover have "\<forall>t \<in> set (flow_targets op). i < t"
      using assms op by (force simp: forward_body_def list_all_iff in_set_enumerate_eq get_def split: if_splits)
    ultimately show ?thesis by auto
  qed
  then have "\<exists>r. work_loop (transfer prog body) merge_state falls_off Panic w = Some r" for w
    by (rule flow.work_loop_forward)
  then show ?thesis by (auto simp: analyze_function_flow_def split: sum.split)
qed

theorem forward_analysis_returns_witness:
  "\<exists>r. analyze_function_flow sample_flow_program
     (sample_loop_body\<lparr>fb_instructions := [FLoadConstant 0 0, FJump 2, FReturn 0]\<rparr>) = Some r"
  by (rule forward_analysis_returns) (simp add: forward_body_def sample_loop_body_def flow_targets_def)

end
