(* ===== verification/Linking_Laws.thy ===== *)
theory Linking_Laws
  imports Linking Symbol_Laws Flow_Typing
begin

text \<open>
  What linkage guarantees: accepted imports resolve, calls between modules go through imports,
  and \<open>link\<close> is a transaction that changes nothing but call targets. The witnesses link a
  program of two modules whose import still carries a placeholder.
\<close>

section \<open>A program of two modules\<close>

definition callee_body :: "instruction list" where
  "callee_body = [LoadConstant 0 0, Return 0]"

definition caller_body :: "function_id \<Rightarrow> instruction list" where
  "caller_body f = [Call 0 f [] [], Return 0]"

definition plain_function :: "string \<Rightarrow> instruction list \<Rightarrow> bytecode_function" where
  "plain_function name is =
     \<lparr>f_name = name, f_intrinsic_stub = False, f_parameters = [], f_returns_reference = False, f_captures = 0,
      f_capture_types = [], f_result_type = Integer, f_registers = 1,
      f_body = \<lparr>instructions = is, instruction_spans = map (\<lambda>_. (0, 0)) is\<rparr>\<rparr>"

definition plain_descriptor :: symbol_descriptor where
  "plain_descriptor = Descriptor 0 [] False [] (Primitive ''int'') [] False [] False"

definition plain_symbol :: "string \<Rightarrow> string \<Rightarrow> symbol" where
  "plain_symbol module name = Symbol (Name (ModuleName ''p'' module) name) False []"

definition plain_definition :: "string \<Rightarrow> string \<Rightarrow> u32 \<Rightarrow> symbol_definition" where
  "plain_definition module name f =
     \<lparr>df_symbol = plain_symbol module name, df_descriptor = plain_descriptor, df_function = f,
      df_generic_names = [], df_public = True\<rparr>"

definition two_modules :: "u32 \<Rightarrow> symbol_table" where
  "two_modules bound =
     \<lparr>st_version = 3, st_modules =
       [\<lparr>md_name = ModuleName ''p'' ''a'', md_types = [],
         md_definitions = [plain_definition ''a'' ''main'' 0],
         md_imports = [\<lparr>im_symbol = plain_symbol ''b'' ''f'', im_required = plain_descriptor,
           im_function = bound, im_generic_names = []\<rparr>]\<rparr>,
        \<lparr>md_name = ModuleName ''p'' ''b'', md_types = [],
         md_definitions = [plain_definition ''b'' ''f'' 1], md_imports = []\<rparr>]\<rparr>"

definition two_module_program :: "u32 \<Rightarrow> program" where
  "two_module_program bound =
     \<lparr>metadata = (fp_metadata sample_flow_program)\<lparr>symbols := two_modules bound, main := Some 0\<rparr>,
      drops_inserted = True,
      pg_functions = [(0, plain_function ''main'' (caller_body bound)), (1, plain_function ''f'' callee_body)]\<rparr>"

lemma two_modules_valid: "validate (two_modules 1) (two_module_program 1) = Inr ()"
  by (simp add: two_modules_def two_module_program_def validate_def ensure_symbol_def ensure_def scope_of_def
      enter_types_def enter_module_def enter_definition_def plain_definition_def plain_symbol_def
      plain_descriptor_def overload_def check_implementation_def count_parameters_def parameter_count_def
      plain_function_def descriptor_fits_def descriptor_matches_def wire_matches.simps primitive_type_def
      check_imports_def enter_import_def accepts_def check_calls_def caller_body_def callee_body_def
      call_imported_def target_def map_insert_def map_remove_def sample_flow_program_def
      SYMBOLS_FORMAT_VERSION_def)

section \<open>Imports\<close>

lemma filter_key_singleton: "distinct (map f xs) \<Longrightarrow> x \<in> set xs \<Longrightarrow> [y \<leftarrow> xs. f y = f x] = [x]"
  by (induction xs) (auto simp: filter_empty_conv image_iff)

text \<open>
  C17. In a validated table every import names exactly one definition of the table, is bound to
  its function, which exists, and is compatible with its descriptor; where the definition is
  public the external resolution of the import yields the same function.
\<close>

theorem validated_imports_resolve:
  assumes "validate t p = Inr ()" "m \<in> set (st_modules t)" "im \<in> set (md_imports m)"
  shows "\<exists>d. [x \<leftarrow> table_definitions t. df_symbol x = im_symbol im] = [d] \<and>
    im_function im = df_function d \<and> map_of (pg_functions p) (im_function im) \<noteq> None \<and>
    accepts (im_required im) (df_descriptor d) \<and>
    (df_public d \<longrightarrow> resolve t (im_symbol im) (im_required im) = Inr (im_function im))"
proof -
  have ok: "scope_ok t p" "import_ok t im" using assms by (auto simp: validate_iff)
  then obtain d where d: "d \<in> set (table_definitions t)" "df_symbol d = im_symbol im"
      "im_function im = df_function d" "accepts (im_required im) (df_descriptor d)"
      "overload (im_required im) = sy_overload (im_symbol im)"
    by (auto simp: import_ok_def)
  have unique: "[x \<leftarrow> table_definitions t. df_symbol x = im_symbol im] = [d]"
    using ok(1) d(1,2) filter_key_singleton [of df_symbol "table_definitions t" d] by (simp add: scope_ok_def)
  obtain m' where "m' \<in> set (st_modules t)" "d \<in> set (md_definitions m')"
    using d(1) by (auto simp: table_definitions_def)
  then have "definition_ok (table_names t) p (md_name m') d" using ok(1) by (simp add: scope_ok_def)
  then have "map_of (pg_functions p) (im_function im) \<noteq> None"
      "dc_receiver (im_required im) = sy_receiver (im_symbol im)"
    using d by (auto simp: definition_ok_def check_implementation_def accepts_def split: option.splits)
  then show ?thesis using d unique by (auto simp: resolve_def)
qed

theorem validated_imports_resolve_witness:
  "resolve (two_modules 1) (plain_symbol ''b'' ''f'') plain_descriptor = Inr 1"
  using validated_imports_resolve [OF two_modules_valid, of "hd (st_modules (two_modules 1))"
      "hd (md_imports (hd (st_modules (two_modules 1))))"]
  by (simp add: two_modules_def table_definitions_def plain_definition_def plain_symbol_def)

text \<open>
  C18. Modules are encapsulated: when the code of a definition calls, or closes over, a function
  that another module of a validated table defines, its module imports that function, and the
  import is compatible with the definition.
\<close>

theorem cross_module_calls_imported:
  assumes "validate t p = Inr ()"
    and "m \<in> set (st_modules t)" "d \<in> set (md_definitions m)"
    and "map_of (pg_functions p) (df_function d) = Some f"
    and "i \<in> set (instructions (f_body f))" "target i = Some g"
    and "m' \<in> set (st_modules t)" "m' \<noteq> m" "d' \<in> set (md_definitions m')" "df_function d' = g"
  shows "\<exists>im \<in> set (md_imports m). im_function im = g \<and> accepts (im_required im) (df_descriptor d')"
proof -
  have ok: "scope_ok t p" "calls_ok t p m" "\<forall>im \<in> set (md_imports m). import_ok t im"
    using assms(1,2) by (auto simp: validate_iff)
  have fns: "distinct (map df_function (table_definitions t))" using ok(1) by (simp add: scope_ok_def)
  have d': "d' \<in> set (table_definitions t)" using assms(7,9) by (auto simp: table_definitions_def)
  have bound: "map_of (ds_bindings (table_scope t)) g = Some d'"
    using map_of_keyed [OF fns d'] assms(10) by (simp add: table_scope_def)
  have "md_name m' \<noteq> md_name m"
    using ok(1) assms(2,7,8) by (auto simp: scope_ok_def distinct_map inj_on_def)
  moreover have "nm_module (sy_name (df_symbol d')) = md_name m'"
    using ok(1) assms(7,9) by (auto simp: scope_ok_def definition_ok_def)
  moreover have "call_imported (table_scope t) (md_name m) (im_function ` set (md_imports m)) i"
    using ok(2) assms(3-5) by (force simp: calls_ok_def)
  ultimately obtain im where im: "im \<in> set (md_imports m)" "im_function im = df_function d'"
    using assms(6) bound by (auto simp: call_imported_def)
  then obtain e where e: "e \<in> set (table_definitions t)" "im_function im = df_function e"
      "accepts (im_required im) (df_descriptor e)"
    using ok(3) by (auto simp: import_ok_def)
  have "e = d'" using e(1,2) im(2) d' fns by (simp add: distinct_map inj_on_def)
  then show ?thesis using im e assms(10) by auto
qed

theorem cross_module_calls_imported_witness:
  "\<exists>im \<in> set (md_imports (hd (st_modules (two_modules 1)))).
     im_function im = 1 \<and> accepts (im_required im) plain_descriptor"
proof -
  have "\<exists>im \<in> set (md_imports (hd (st_modules (two_modules 1)))).
     im_function im = 1 \<and> accepts (im_required im) (df_descriptor (plain_definition ''b'' ''f'' 1))"
    by (rule cross_module_calls_imported [OF two_modules_valid, where d = "plain_definition ''a'' ''main'' 0" and
        f = "plain_function ''main'' (caller_body 1)" and i = "Call 0 1 [] []" and
        m' = "hd (tl (st_modules (two_modules 1)))"])
      (simp_all add: two_modules_def two_module_program_def plain_definition_def plain_function_def
        caller_body_def target_def)
  then show ?thesis by (simp add: plain_definition_def)
qed

section \<open>The transaction\<close>

lemma verify_validates:
  assumes "verify p = Some (Inr ())"
  shows "validate (symbols (metadata p)) p = Inr ()"
proof -
  obtain u v where "verify_structure p = Inr u" "verify_flows p (map snd (pg_functions p)) = Some (Inr v)"
    using assms by (auto simp: verify_def split: sum.splits option.splits)
  then show ?thesis using assms by (simp add: verify_def)
qed

lemma link_cases:
  assumes "link p = Some (r, q)"
  shows "(\<exists>e. r = Inl e \<and> q = p) \<or>
    r = Inr () \<and> verify q = Some (Inr ()) \<and> (q = p \<or> relocate p = Inr q)"
proof (cases "validate (symbols (metadata p)) p")
  case (Inr u)
  then have "verify p = Some r" "q = p" using assms by (auto simp: link_def)
  then show ?thesis by (cases r) simp_all
next
  case (Inl e)
  show ?thesis
  proof (cases "relocate p")
    case Inl': (Inl e')
    with Inl have "link p = Some (Inl (if e = VerifyPanic then VerifyPanic else e'), p)" by (simp add: link_def)
    then show ?thesis using assms by auto
  next
    case (Inr linked)
    then obtain v where "e = VerifyPanic \<and> r = Inl VerifyPanic \<and> q = p \<or>
        verify linked = Some v \<and> (r, q) = (case v of Inl e \<Rightarrow> (Inl e, p) | Inr _ \<Rightarrow> (Inr (), linked))"
      using assms Inl by (cases "e = VerifyPanic") (auto simp: link_def)
    then show ?thesis using Inr by (cases v) auto
  qed
qed

lemma link_verified: "verify q = Some (Inr ()) \<Longrightarrow> link q = Some (Inr (), q)"
  by (simp add: link_def verify_validates)

lemma placeholder_rejected:
  "validate (two_modules 7) (two_module_program 7) =
     Inl (SymbolError ''incompatible or duplicate module import'')"
  by (simp add: two_modules_def two_module_program_def validate_def ensure_symbol_def ensure_def scope_of_def
      enter_types_def enter_module_def enter_definition_def plain_definition_def plain_symbol_def
      plain_descriptor_def overload_def check_implementation_def count_parameters_def parameter_count_def
      plain_function_def descriptor_fits_def descriptor_matches_def wire_matches.simps primitive_type_def
      check_imports_def enter_import_def accepts_def map_insert_def map_remove_def sample_flow_program_def
      SYMBOLS_FORMAT_VERSION_def)

lemma rename_nothing: "rename_specialization m [] = Inr []"
  by (simp add: rename_specialization_def specialization_rename_def specialization_try_new_def
      specialization_try_from_sorted_def)

lemma placeholder_relocated: "relocate (two_module_program 7) = Inr (two_module_program 1)"
  by (simp add: two_modules_def two_module_program_def relocate_def definitions_of_def table_definitions_def
      link_module_def relocate_import_def plain_definition_def plain_symbol_def plain_descriptor_def accepts_def
      ensure_symbol_def ensure_def patch_definition_def patch_function_def patch_instruction_def target_def
      rebind_target_def rename_nothing caller_body_def callee_body_def plain_function_def map_insert_def map_remove_def map_replace_def)

lemma two_modules_structure: "verify_structure (two_module_program 1) = Inr ()"
  by (simp add: two_module_program_def verify_structure_def verify_program_metadata_def verify_main_def
      verify_remote_def uses_remote_def verify_aggregates_def wrapper_records_def sample_flow_program_def
      verify_function_structure_def verify_frame_def parameter_count_def plain_function_def caller_body_def
      callee_body_def saturating_add16_def body_ok_def signature_types_def verify_type_def check_type.simps
      verify_instruction_def verify_operation_def verify_specialization_def verify_call_layout_def
      target_function_def count_parameters_def ensure_def)

lemma two_modules_flows:
  "verify_flows (two_module_program 1) (map snd (pg_functions (two_module_program 1))) = Some (Inr ())"
  by (simp add: two_module_program_def type_states_def flow_states_def program_schemas_def logical_schema_def
      slot_body_def plain_function_def caller_body_def callee_body_def value_of_def sample_flow_program_def
      analyze_function_flow_def entry_state_def entry_types_def work_start_def work_loop.simps work_step_def
      transfer_def get_def invalidates_def is_call_def transfer_constant_def write_type_def
      assignment_binding_def binding_def set_binding_def bound_type_def forget_def map_remove_def pass_def
      continue_def deliver_def transfer_call_def target_schema_def verify_arguments_def write_call_def
      specialize_def transfer_return_def read_type_def require_type_def compatible.simps)

lemma two_modules_verified: "verify (two_module_program 1) = Some (Inr ())"
proof -
  have "symbols (metadata (two_module_program 1)) = two_modules 1" by (simp add: two_module_program_def)
  then show ?thesis by (simp add: verify_def two_modules_structure two_modules_flows two_modules_valid)
qed

lemma placeholder_linked: "link (two_module_program 7) = Some (Inr (), two_module_program 1)"
proof -
  have "symbols (metadata (two_module_program 7)) = two_modules 7" by (simp add: two_module_program_def)
  then show ?thesis
    by (simp add: link_def placeholder_rejected placeholder_relocated two_modules_verified)
qed

text \<open>
  C15. Linking is a transaction: when it fails the program is unchanged, when it succeeds the
  program is accepted by the verifier, and linking it again succeeds and changes nothing.
\<close>

theorem link_transaction:
  assumes "link p = Some (r, q)"
  shows "case r of Inl _ \<Rightarrow> q = p | Inr _ \<Rightarrow> verify q = Some (Inr ()) \<and> link q = Some (Inr (), q)"
  using link_cases [OF assms] link_verified by auto

theorem link_transaction_witness:
  "link (two_module_program 7) = Some (Inr (), two_module_program 1) \<and>
   verify (two_module_program 1) = Some (Inr ())"
  using placeholder_linked link_transaction [OF placeholder_linked] by simp

end
