(* ===== verification/Simulation.thy ===== *)
theory Simulation
  imports Main
begin

text \<open>
  Deterministic machines and stuttering bisimulations, the interface between the optimiser passes
  and the theorems on what an optimised function computes. A pass interprets the locale on the
  machine of its input and the machine of its output.
\<close>

datatype ('s, 'r) progress = Continue 's | Stop 'r

inductive yields :: "('s \<Rightarrow> ('s, 'r) progress) \<Rightarrow> 's \<Rightarrow> 'r \<Rightarrow> bool" for step where
  stop: "step s = Stop r \<Longrightarrow> yields step s r"
| continue: "step s = Continue s' \<Longrightarrow> yields step s' r \<Longrightarrow> yields step s r"

inductive_simps yields_unfold: "yields step s r"

lemma yields_Stop [simp]: "step s = Stop q \<Longrightarrow> yields step s r \<longleftrightarrow> r = q"
  by (subst yields_unfold) auto

lemma yields_Continue [simp]: "step s = Continue s' \<Longrightarrow> yields step s r \<longleftrightarrow> yields step s' r"
  by (subst yields_unfold) auto

text \<open>
  Every step of the first machine is matched by a step of the second, or decreases the index;
  both stop with the same result.
\<close>

locale stuttering =
  fixes step1 :: "'s \<Rightarrow> ('s, 'r) progress" and step2 :: "'t \<Rightarrow> ('t, 'r) progress"
    and related :: "nat \<Rightarrow> 's \<Rightarrow> 't \<Rightarrow> bool"
  assumes matched: "related n s t \<Longrightarrow>
    (\<exists>r. step1 s = Stop r \<and> step2 t = Stop r) \<or>
    (\<exists>s' t' k. step1 s = Continue s' \<and> step2 t = Continue t' \<and> related k s' t') \<or>
    (\<exists>s' k. step1 s = Continue s' \<and> k < n \<and> related k s' t)"
begin

lemma yields_forward: "yields step1 s r \<Longrightarrow> related n s t \<Longrightarrow> yields step2 t r"
proof (induction arbitrary: n t rule: yields.induct)
  case (stop s r)
  then show ?case using matched [of n s t] by (auto intro: yields.stop)
next
  case (continue s s' r)
  then show ?case using matched [of n s t] by (auto intro: yields.continue)
qed

lemma yields_backward: "yields step2 t r \<Longrightarrow> related n s t \<Longrightarrow> yields step1 s r"
proof (induction arbitrary: n s rule: yields.induct)
  case (stop t r)
  from stop.prems show ?case
  proof (induction n arbitrary: s rule: less_induct)
    case (less n)
    then show ?case using matched [of n s t] stop.hyps by (auto intro: yields.intros)
  qed
next
  case (continue t t' r)
  from continue.prems show ?case
  proof (induction n arbitrary: s rule: less_induct)
    case (less n)
    then show ?case using matched [of n s t] continue by (auto intro: yields.intros)
  qed
qed

lemma yields_iff: "related n s t \<Longrightarrow> yields step1 s r \<longleftrightarrow> yields step2 t r"
  using yields_forward yields_backward by blast

end

text \<open>A lockstep simulation is the special case with no stuttering.\<close>

locale lockstep =
  fixes step1 :: "'s \<Rightarrow> ('s, 'r) progress" and step2 :: "'t \<Rightarrow> ('t, 'r) progress"
    and related :: "'s \<Rightarrow> 't \<Rightarrow> bool"
  assumes in_step: "related s t \<Longrightarrow>
    (\<exists>r. step1 s = Stop r \<and> step2 t = Stop r) \<or>
    (\<exists>s' t'. step1 s = Continue s' \<and> step2 t = Continue t' \<and> related s' t')"

sublocale lockstep \<subseteq> stuttering step1 step2 "\<lambda>_. related"
  by unfold_locales (use in_step in blast)

end
