(* ===== verification/Slot_Machine.thy ===== *)
theory Slot_Machine
  imports Lifetimes Simulation
begin

text \<open>
  What the optimiser passes of \<open>compiler/src/vm/optimizer\<close> assume of the virtual machine, as an
  abstract machine over slot instructions. Values and the world (heap, output, frames of callers)
  are arbitrary. An instruction reads and writes the slots its operands name; an instruction that
  is not a plain value operation, or that touches a pinned slot, may besides read and write every
  pinned slot, through references for instance. A slot that is not pinned has no identity an
  instruction could observe: an interpretation sees the values of the operands and, of pinned
  slots, their rank, never a slot number. To overwrite or release a slot that is not pinned has no
  effect on the world: the clean-up of the value it held is outside this class of machines.
\<close>

section \<open>The parts of an instruction\<close>

text \<open>The value operations: the first arm of \<open>pinned\<close> in \<open>storage.rs\<close>, and closure creation.\<close>

fun plain :: "instruction \<Rightarrow> bool" where
  "plain (LoadConstant _ _) = True"
| "plain (Move _ _) = True"
| "plain (Unary _ _ _) = True"
| "plain (Binary _ _ _ _) = True"
| "plain (Drop _) = True"
| "plain (Jump _) = True"
| "plain (JumpIfFalse _ _) = True"
| "plain (Return _) = True"
| "plain (Assert _ _) = True"
| "plain (MakeClosure _ _ _ _) = True"
| "plain _ = False"

definition touches :: "slot set \<Rightarrow> instruction \<Rightarrow> bool" where
  "touches P i \<longleftrightarrow> \<not> plain i \<or> (\<exists>r \<in> set (visit_registers i). r \<in> P)"

text \<open>The operation with its slots, jump target and constant erased.\<close>

definition erase_slots :: "instruction \<Rightarrow> instruction" where
  "erase_slots i = fst (visit_registers_mut (\<lambda>_ s. (0, s)) i ())"

definition shape :: "instruction \<Rightarrow> instruction" where
  "shape i = (case erase_slots i of
     Jump _ \<Rightarrow> Jump 0
   | JumpIfFalse c _ \<Rightarrow> JumpIfFalse c 0
   | LoadConstant d _ \<Rightarrow> LoadConstant d 0
   | i \<Rightarrow> i)"

definition rank :: "slot set \<Rightarrow> slot \<Rightarrow> nat option" where
  "rank P r = (if r \<in> P then Some (card {p \<in> P. p < r}) else None)"

text \<open>A capture by move leaves its source without a value, before the closure is stored.\<close>

definition moved_captures :: "instruction \<Rightarrow> slot list" where
  "moved_captures i =
     (case i of MakeClosure _ _ _ captures \<Rightarrow> map snd [c \<leftarrow> captures. fst c = Move_capture] | _ \<Rightarrow> [])"

definition slot_writes :: "instruction \<Rightarrow> slot list" where
  "slot_writes i = moved_captures i @ slot_definitions i"

definition assign :: "slot list \<Rightarrow> 'v list \<Rightarrow> (slot \<Rightarrow> 'v) \<Rightarrow> slot \<Rightarrow> 'v" where
  "assign rs vs \<rho> = fold (\<lambda>(r, v) \<rho>. \<rho>(r := v)) (zip rs vs) \<rho>"

section \<open>The machine\<close>

text \<open>
  \<open>operate\<close> gets the operation, the ranks of its slots, the values of its operands, the contents
  of the pinned slots when it touches them, and the world. It gives the values of the written
  slots, the new contents of the pinned slots, the condition of a branch and the new world, or
  \<open>None\<close> when the operation fails. Values of the wrong number are a failure too.
\<close>

record ('v, 'h) vm_meaning =
  constant_of :: "program_constant \<Rightarrow> 'v"
  operate :: "instruction \<Rightarrow> nat option list \<Rightarrow> 'v list \<Rightarrow> 'v list \<Rightarrow> 'h \<Rightarrow>
    ('v list \<times> 'v list \<times> bool \<times> 'h) option"

datatype 'v ending = Returned 'v "'v list" | Faulted

type_synonym ('v, 'h) machine_state = "nat \<times> (slot \<Rightarrow> 'v) \<times> 'h"
type_synonym ('v, 'h) effect_progress = "((slot \<Rightarrow> 'v) \<times> bool \<times> 'h, 'v ending \<times> 'h) progress"
type_synonym ('v, 'h) machine_progress = "(('v, 'h) machine_state, 'v ending \<times> 'h) progress"

definition frame :: "slot set \<Rightarrow> (slot \<Rightarrow> 'v) \<Rightarrow> 'v list" where
  "frame P \<rho> = map \<rho> (sorted_list_of_set P)"

text \<open>The values an instruction reads; \<open>None\<close> is a constant outside the table.\<close>

definition operands ::
  "(program_constant \<Rightarrow> 'v) \<Rightarrow> program_constant list \<Rightarrow> (slot \<Rightarrow> 'v) \<Rightarrow> instruction \<Rightarrow> 'v list option" where
  "operands konst pool \<rho> i =
     (case i of
        LoadConstant _ c \<Rightarrow> map_option (\<lambda>k. [konst k]) (get pool (unat c))
      | _ \<Rightarrow> Some (map \<rho> (slot_uses i)))"

definition next_index :: "instruction \<Rightarrow> nat \<Rightarrow> bool \<Rightarrow> nat" where
  "next_index i index b =
     (case i of Jump t \<Rightarrow> t | JumpIfFalse _ t \<Rightarrow> (if b then index + 1 else t) | _ \<Rightarrow> index + 1)"

definition execute ::
  "('v, 'h) vm_meaning \<Rightarrow> slot set \<Rightarrow> instruction \<Rightarrow> 'v list \<Rightarrow> (slot \<Rightarrow> 'v) \<Rightarrow> 'h \<Rightarrow> ('v, 'h) effect_progress" where
  "execute I P i vs \<rho> h =
     (case operate I (shape i) (map (rank P) (visit_registers i)) vs (if touches P i then frame P \<rho> else []) h of
        None \<Rightarrow> Stop (Faulted, h)
      | Some (ws, ps, b, h) \<Rightarrow>
          if length ws \<noteq> length (slot_writes i) \<or> touches P i \<and> length ps \<noteq> card P then Stop (Faulted, h)
          else
            let \<rho> = assign (slot_writes i) ws \<rho>
            in Continue (if touches P i then assign (sorted_list_of_set P) ps \<rho> else \<rho>, b, h))"

text \<open>
  Moves and loads between slots without identity have their plain meaning; every instruction but
  these, jumps and returns is left to the interpretation.
\<close>

definition instruction_effect ::
  "('v, 'h) vm_meaning \<Rightarrow> slot set \<Rightarrow> program_constant list \<Rightarrow> instruction \<Rightarrow> (slot \<Rightarrow> 'v) \<Rightarrow> 'h \<Rightarrow>
   ('v, 'h) effect_progress" where
  "instruction_effect I P pool i \<rho> h =
     (case operands (constant_of I) pool \<rho> i of
        None \<Rightarrow> Stop (Faulted, h)
      | Some vs \<Rightarrow>
          (case i of
             Return r \<Rightarrow> Stop (Returned (\<rho> r) (frame P \<rho>), h)
           | Jump _ \<Rightarrow> Continue (\<rho>, True, h)
           | Move d _ \<Rightarrow> if touches P i then execute I P i vs \<rho> h else Continue (\<rho>(d := hd vs), True, h)
           | LoadConstant d _ \<Rightarrow> if touches P i then execute I P i vs \<rho> h else Continue (\<rho>(d := hd vs), True, h)
           | _ \<Rightarrow> execute I P i vs \<rho> h))"

definition machine_step ::
  "('v, 'h) vm_meaning \<Rightarrow> slot set \<Rightarrow> program_constant list \<Rightarrow> instruction list \<Rightarrow>
   ('v, 'h) machine_state \<Rightarrow> ('v, 'h) machine_progress" where
  "machine_step I P pool is s =
     (case s of (index, \<rho>, h) \<Rightarrow>
        case get is index of
          None \<Rightarrow> Stop (Faulted, h)
        | Some i \<Rightarrow>
            (case instruction_effect I P pool i \<rho> h of
               Stop r \<Rightarrow> Stop r
             | Continue (\<rho>, b, h) \<Rightarrow> Continue (next_index i index b, \<rho>, h)))"

text \<open>The finished runs of a body.\<close>

definition body_yields ::
  "('v, 'h) vm_meaning \<Rightarrow> slot set \<Rightarrow> program_constant list \<Rightarrow> instruction list \<Rightarrow>
   (slot \<Rightarrow> 'v) \<Rightarrow> 'h \<Rightarrow> 'v ending \<times> 'h \<Rightarrow> bool" where
  "body_yields I P pool is \<rho> h r = yields (machine_step I P pool is) (0, \<rho>, h) r"

text \<open>A set of indices that holds every index a run reaches, inside the body.\<close>

definition flow_within :: "instruction list \<Rightarrow> nat set \<Rightarrow> bool" where
  "flow_within is R \<longleftrightarrow> R \<subseteq> {..<length is} \<and>
     (\<forall>i \<in> R. (\<forall>r. is ! i \<noteq> Return r) \<longrightarrow> (\<forall>b. next_index (is ! i) i b \<in> R))"

lemma touches_ranks: "touches P i \<longleftrightarrow> \<not> plain i \<or> (\<exists>x \<in> set (map (rank P) (visit_registers i)). x \<noteq> None)"
  by (auto simp: touches_def rank_def)

end
