(* ===== verification/Pinned_Slots.thy ===== *)
theory Pinned_Slots
  imports Slot_Machine
begin

text \<open>
  \<open>compiler/src/vm/optimizer/storage.rs\<close>: the slots whose identity matters, which the passes
  leave alone, and the instructions across which no equality of slots is kept.
\<close>

section \<open>Definitions\<close>

definition frame_prefix :: "bytecode_function \<Rightarrow> u16 option" where
  "frame_prefix f = map_option (saturating_add (f_captures f)) (parameter_count f)"

definition prefix_slots :: "u16 \<Rightarrow> slot list" where
  "prefix_slots prefix = map word_of_nat [0..<unat prefix]"

definition pin_instruction :: "instruction \<Rightarrow> slot list" where
  "pin_instruction i =
     (case i of
        LoadConstant _ _ \<Rightarrow> []
      | Move _ _ \<Rightarrow> []
      | Unary _ _ _ \<Rightarrow> []
      | Binary _ _ _ _ \<Rightarrow> []
      | Drop _ \<Rightarrow> []
      | Jump _ \<Rightarrow> []
      | JumpIfFalse _ _ \<Rightarrow> []
      | Return _ \<Rightarrow> []
      | Assert _ _ \<Rightarrow> []
      | MakeClosure _ _ _ captures \<Rightarrow> map snd [c \<leftarrow> captures. fst c = Ref_capture]
      | CallValue destination _ arguments \<Rightarrow> arguments @ [destination]
      | _ \<Rightarrow> slot_uses i @ slot_definitions i)"

text \<open>One round of the loop, and the loop, which stops when the set has not grown.\<close>

definition pin_move :: "instruction \<Rightarrow> slot set \<Rightarrow> slot set" where
  "pin_move i P =
     (case i of
        Move destination source \<Rightarrow>
          if destination \<in> P \<or> source \<in> P then insert source (insert destination P) else P
      | _ \<Rightarrow> P)"

definition pin_moves :: "instruction list \<Rightarrow> slot set \<Rightarrow> slot set" where
  "pin_moves is P = fold pin_move is P"

lemma pin_move_increases: "P \<subseteq> pin_move i P"
  by (cases i) (auto simp: pin_move_def)

lemma pin_moves_increases: "P \<subseteq> pin_moves is P"
  unfolding pin_moves_def
proof (induction "is" arbitrary: P)
  case (Cons i "is")
  then show ?case using pin_move_increases [of P i] by fastforce
qed simp

function pin_closure :: "instruction list \<Rightarrow> slot set \<Rightarrow> slot set" where
  "pin_closure is P =
     (let Q = pin_moves is P in if card Q = card P then Q else pin_closure is Q)"
  by pat_completeness auto
termination
proof (relation "measure (\<lambda>(is, P). card (UNIV - P))", goal_cases)
  case (2 "is" P Q)
  then have "P \<subset> Q" using pin_moves_increases [of P "is"] by auto
  then show ?case by (auto intro!: psubset_card_mono)
qed simp

declare pin_closure.simps [simp del]

definition pinned_slots :: "u16 \<Rightarrow> instruction list \<Rightarrow> slot set" where
  "pinned_slots prefix is =
     pin_closure is (set (prefix_slots prefix) \<union> set (concat (map pin_instruction is)))"

definition pinned :: "bytecode_function \<Rightarrow> slot set option" where
  "pinned f = map_option (\<lambda>prefix. pinned_slots prefix (instructions (f_body f))) (frame_prefix f)"

definition invalidates_copies :: "instruction \<Rightarrow> bool" where
  "invalidates_copies i =
     (case i of
        LoadConstant _ _ \<Rightarrow> False
      | Move _ _ \<Rightarrow> False
      | Unary _ _ _ \<Rightarrow> False
      | Binary _ _ _ _ \<Rightarrow> False
      | Jump _ \<Rightarrow> False
      | JumpIfFalse _ _ \<Rightarrow> False
      | Return _ \<Rightarrow> False
      | Assert _ _ \<Rightarrow> False
      | _ \<Rightarrow> True)"

section \<open>Laws\<close>

lemma set_prefix_slots: "set (prefix_slots prefix) = {r. r < prefix}"
proof -
  have "r \<in> set (prefix_slots prefix)" if "r < prefix" for r
    using that by (auto simp: prefix_slots_def word_less_nat_alt intro!: image_eqI [of _ _ "unat r"])
  moreover have "word_of_nat n < prefix" if "n < unat prefix" for n
  proof -
    have "n < 2 ^ 16" using that unsigned_less [of prefix, where 'a = nat] by simp
    then show ?thesis using that by (simp add: word_less_nat_alt unat_of_nat)
  qed
  then have "r < prefix" if "r \<in> set (prefix_slots prefix)" for r
    using that by (auto simp: prefix_slots_def)
  ultimately show ?thesis by auto
qed

lemma pin_closure_increases: "P \<subseteq> pin_closure is P"
proof (induction "is" P rule: pin_closure.induct)
  case (1 "is" P)
  then show ?case
    using pin_moves_increases [of P "is"] by (subst pin_closure.simps) (auto simp: Let_def)
qed

lemma pin_moves_fixed:
  "pin_moves is P = P \<Longrightarrow> Move d s \<in> set is \<Longrightarrow> d \<in> P \<longleftrightarrow> s \<in> P"
  unfolding pin_moves_def
proof (induction "is")
  case (Cons i "is")
  have "P \<subseteq> pin_move i P" "pin_move i P \<subseteq> fold pin_move is (pin_move i P)"
    using pin_move_increases pin_moves_increases [of "pin_move i P" "is"] by (auto simp: pin_moves_def)
  then have "pin_move i P = P" "fold pin_move is P = P" using Cons.prems(1) by auto
  then show ?case using Cons by (auto simp: pin_move_def split: if_splits)
qed simp

lemma pin_closure_moves:
  "Move d s \<in> set is \<Longrightarrow> d \<in> pin_closure is P \<longleftrightarrow> s \<in> pin_closure is P"
proof (induction "is" P rule: pin_closure.induct)
  case (1 "is" P)
  show ?case
  proof (cases "card (pin_moves is P) = card P")
    case True
    then have "pin_moves is P = P"
      using pin_moves_increases [of P "is"] card_subset_eq [of "pin_moves is P" P] by simp
    moreover then have "pin_closure is P = P" by (subst pin_closure.simps) simp
    ultimately show ?thesis using pin_moves_fixed 1(2) by metis
  next
    case False
    then show ?thesis using 1 by (subst (1 2) pin_closure.simps) (simp add: Let_def)
  qed
qed

lemma pin_moves_least:
  "P \<subseteq> Q \<Longrightarrow> \<forall>d s. Move d s \<in> set is \<longrightarrow> (d \<in> Q \<longleftrightarrow> s \<in> Q) \<Longrightarrow> pin_moves is P \<subseteq> Q"
  unfolding pin_moves_def
proof (induction "is" arbitrary: P)
  case (Cons i "is")
  then have "pin_move i P \<subseteq> Q" by (auto simp: pin_move_def split: instruction.splits)
  then show ?case using Cons by simp
qed simp

lemma pin_closure_least:
  "P \<subseteq> Q \<Longrightarrow> \<forall>d s. Move d s \<in> set is \<longrightarrow> (d \<in> Q \<longleftrightarrow> s \<in> Q) \<Longrightarrow> pin_closure is P \<subseteq> Q"
proof (induction "is" P rule: pin_closure.induct)
  case (1 "is" P)
  then show ?case using pin_moves_least [of P Q "is"] by (subst pin_closure.simps) (auto simp: Let_def)
qed

lemma pinned_instruction: "i \<in> set is \<Longrightarrow> set (pin_instruction i) \<subseteq> pinned_slots prefix is"
  using pin_closure_increases by (fastforce simp: pinned_slots_def)

lemma pinned_prefix: "r < prefix \<Longrightarrow> r \<in> pinned_slots prefix is"
  using pin_closure_increases by (fastforce simp: pinned_slots_def set_prefix_slots)

lemma pinned_moves:
  "Move d s \<in> set is \<Longrightarrow> d \<in> pinned_slots prefix is \<longleftrightarrow> s \<in> pinned_slots prefix is"
  by (simp add: pinned_slots_def pin_closure_moves)

lemma pinned_definitions:
  "i \<in> set is \<Longrightarrow> \<not> plain i \<Longrightarrow> set (slot_definitions i) \<subseteq> pinned_slots prefix is"
  using pinned_instruction [of i "is" prefix] by (cases i) (auto simp: pin_instruction_def)

end
