(* ===== verification/Control_Flow.thy ===== *)
theory Control_Flow
  imports Pinned_Slots
begin

text \<open>
  \<open>compiler/src/vm/optimizer/control_flow.rs\<close>: jump chains are shortened, unreachable code, moves
  of a slot to itself and jumps to the next instruction are removed. \<open>None\<close> is a panic.
\<close>

section \<open>Jump chains\<close>

definition jump_targets :: "instruction list \<Rightarrow> nat option list" where
  "jump_targets is = map (\<lambda>i. case i of Jump target \<Rightarrow> Some target | _ \<Rightarrow> None) is"

function follow :: "nat option list \<Rightarrow> nat set \<Rightarrow> nat \<Rightarrow> nat" where
  "follow targets seen target =
     (case get targets target of
        Some (Some following) \<Rightarrow>
          if target \<in> seen then target else follow targets (insert target seen) following
      | _ \<Rightarrow> target)"
  by pat_completeness auto
termination
proof (relation "measure (\<lambda>(targets, seen, _). card ({..<length targets} - seen))", goal_cases)
  case (2 targets seen target x following)
  then have "target \<in> {..<length targets} - seen" by (auto simp: get_def split: if_splits)
  then have "{..<length targets} - insert target seen \<subset> {..<length targets} - seen" by auto
  then show ?case by (auto intro: psubset_card_mono)
qed simp

declare follow.simps [simp del]

definition jump_of :: "instruction \<Rightarrow> nat option" where
  "jump_of i = (case i of Jump target \<Rightarrow> Some target | JumpIfFalse _ target \<Rightarrow> Some target | _ \<Rightarrow> None)"

definition redirect :: "(nat \<Rightarrow> nat) \<Rightarrow> instruction \<Rightarrow> instruction" where
  "redirect g i =
     (case i of
        Jump target \<Rightarrow> Jump (g target)
      | JumpIfFalse condition target \<Rightarrow> JumpIfFalse condition (g target)
      | _ \<Rightarrow> i)"

definition shorten_jumps :: "instruction list \<Rightarrow> instruction list" where
  "shorten_jumps is = map (redirect (follow (jump_targets is) {})) is"

definition redirect_jump_chains :: "bytecode_function \<Rightarrow> bool \<times> bytecode_function" where
  "redirect_jump_chains f =
     (let is = instructions (f_body f); is' = shorten_jumps is
      in (map jump_of is \<noteq> map jump_of is', f\<lparr>f_body := (f_body f)\<lparr>instructions := is'\<rparr>\<rparr>))"

section \<open>Reachable instructions\<close>

text \<open>The stack of pending indices, top first.\<close>

definition pushed :: "nat \<Rightarrow> instruction \<Rightarrow> nat list" where
  "pushed index i =
     (case i of
        Jump target \<Rightarrow> [target]
      | JumpIfFalse _ target \<Rightarrow> [index + 1, target]
      | Return _ \<Rightarrow> []
      | _ \<Rightarrow> [index + 1])"

function reach :: "instruction list \<Rightarrow> bool list \<Rightarrow> nat list \<Rightarrow> bool list" where
  "reach is marks [] = marks"
| "reach is marks (index # pending) =
     (if index \<ge> length is \<or> get marks index \<noteq> Some False then reach is marks pending
      else reach is (marks[index := True]) (pushed index (is ! index) @ pending))"
  by pat_completeness auto
termination
proof (relation "measures [\<lambda>(is, marks, pending). count_list marks False, \<lambda>(is, marks, pending). length pending]",
    goal_cases)
  case (3 "is" marks index pending)
  then have i: "index < length marks" "\<not> marks ! index" by (auto simp: get_def split: if_splits)
  then have "marks = take index marks @ False # drop (Suc index) marks"
    using id_take_nth_drop [of index marks] by simp
  then have "count_list marks False =
      count_list (take index marks) False + 1 + count_list (drop (Suc index) marks) False"
    by (metis add.assoc add.commute count_list.simps(2) count_list_append)
  then show ?case using i by (simp add: upd_conv_take_nth_drop)
qed auto

definition reachable :: "instruction list \<Rightarrow> bool list" where
  "reachable is = reach is (replicate (length is) False) [0]"

section \<open>Removal\<close>

text \<open>The table of the first kept index from every position on, and of the new indices.\<close>

fun next_kept :: "nat \<Rightarrow> bool list \<Rightarrow> nat option list" where
  "next_kept index [] = [None]"
| "next_kept index (k # keep) =
     (let rest = next_kept (index + 1) keep in (if k then Some index else hd rest) # rest)"

fun new_indices :: "nat \<Rightarrow> bool list \<Rightarrow> nat option list" where
  "new_indices n [] = []"
| "new_indices n (k # keep) = (if k then Some n # new_indices (n + 1) keep else None # new_indices n keep)"

definition kept_target :: "bool list \<Rightarrow> nat \<Rightarrow> nat option" where
  "kept_target keep target =
     (case get (next_kept 0 keep) target of
        Some (Some retained) \<Rightarrow> (case get (new_indices 0 keep) retained of Some n \<Rightarrow> n | None \<Rightarrow> None)
      | _ \<Rightarrow> None)"

definition relink :: "(nat \<Rightarrow> nat option) \<Rightarrow> instruction \<Rightarrow> instruction option" where
  "relink g i =
     (case jump_of i of None \<Rightarrow> Some i | Some target \<Rightarrow> map_option (\<lambda>t. redirect (\<lambda>_. t) i) (g target))"

definition kept :: "bool list \<Rightarrow> 'a list \<Rightarrow> 'a list" where
  "kept keep xs = map fst [(x, k) \<leftarrow> zip xs keep. k]"

text \<open>
  \<open>retain\<close>. The new indices count the entries of the zipped tables, which are as many as the
  instructions in every body.
\<close>

definition retain :: "bytecode_function \<Rightarrow> bool list \<Rightarrow> (bool \<times> bytecode_function) option" where
  "retain f keep =
     (if list_all (\<lambda>k. k) keep then Some (False, f)
      else
        let (is, spans) = into_parts (f_body f);
            entries = kept keep (zip is spans);
            indices = take (length (zip is spans)) keep
        in case map_option_list (relink (kept_target indices)) (map fst entries) of
             None \<Rightarrow> None
           | Some is \<Rightarrow> Some (True, f\<lparr>f_body := \<lparr>instructions = is, instruction_spans = map snd entries\<rparr>\<rparr>))"

definition useful :: "slot set \<Rightarrow> nat \<times> instruction \<Rightarrow> bool" where
  "useful P item =
     (case item of (index, i) \<Rightarrow>
        case i of
          Move destination source \<Rightarrow> \<not> (destination = source \<and> destination \<notin> P)
        | Jump target \<Rightarrow> target \<noteq> index + 1
        | _ \<Rightarrow> True)"

definition simplify_function :: "bytecode_function \<Rightarrow> (bool \<times> bytecode_function) option" where
  "simplify_function f =
     (case pinned f of
        None \<Rightarrow> None
      | Some P \<Rightarrow>
          let (changed1, f) = redirect_jump_chains f
          in case retain f (reachable (instructions (f_body f))) of
               None \<Rightarrow> None
             | Some (changed2, f) \<Rightarrow>
                 (case retain f (map (useful P) (enumerate 0 (instructions (f_body f)))) of
                    None \<Rightarrow> None
                  | Some (changed3, f) \<Rightarrow>
                      let (changed4, f) = redirect_jump_chains f
                      in Some (changed1 \<or> changed2 \<or> changed3 \<or> changed4, f)))"

text \<open>A pass over \<open>functions.values_mut()\<close>; the flags of the functions are joined.\<close>

definition pass_functions ::
  "(bytecode_function \<Rightarrow> (bool \<times> bytecode_function) option) \<Rightarrow> program \<Rightarrow> (bool \<times> program) option" where
  "pass_functions pass p =
     map_option
       (\<lambda>fs. (list_ex (\<lambda>(_, changed, _). changed) fs, p\<lparr>pg_functions := map (\<lambda>(fid, _, f). (fid, f)) fs\<rparr>))
       (map_option_list (\<lambda>(fid, f). map_option (\<lambda>r. (fid, r)) (pass f)) (pg_functions p))"

definition simplify :: "program \<Rightarrow> (bool \<times> program) option" where
  "simplify = pass_functions simplify_function"

end
