(* ===== verification/Copy_Propagation.thy ===== *)
theory Copy_Propagation
  imports Control_Flow
begin

text \<open>
  \<open>compiler/src/vm/optimizer/copies.rs\<close>: the copies available before every instruction and the
  rewriting of operands to the original of a copy. A \<open>HashMap\<close> of copies is the list of its
  entries sorted by key, so that equality of maps is equality of lists. \<open>None\<close> is a loop that does
  not end, or the panic of a jump outside the body.
\<close>

section \<open>Maps of copies\<close>

type_synonym copies = "(slot \<times> slot) list"

definition kill :: "slot \<Rightarrow> copies \<Rightarrow> copies" where
  "kill r copies = [c \<leftarrow> copies. fst c \<noteq> r \<and> snd c \<noteq> r]"

definition insert_copy :: "slot \<Rightarrow> slot \<Rightarrow> copies \<Rightarrow> copies" where
  "insert_copy destination source copies =
     insort_key fst (destination, source) [c \<leftarrow> copies. fst c \<noteq> destination]"

partial_function (option) resolve_copy :: "copies \<Rightarrow> slot \<Rightarrow> slot option" where
  "resolve_copy copies r =
     (case map_of copies r of None \<Rightarrow> Some r | Some source \<Rightarrow> resolve_copy copies source)"

definition intersect :: "copies list \<Rightarrow> copies" where
  "intersect maps =
     (case maps of
        [] \<Rightarrow> []
      | first # rest \<Rightarrow> fold (\<lambda>m acc. [c \<leftarrow> acc. map_of m (fst c) = Some (snd c)]) rest first)"

section \<open>The analysis\<close>

definition copy_transfer :: "slot set \<Rightarrow> instruction \<Rightarrow> copies \<Rightarrow> copies option" where
  "copy_transfer P i copies =
     (let copies = (if invalidates_copies i then [] else copies);
          copies = fold kill (slot_definitions i) copies;
          copies = fold kill (moved_captures i) copies
      in case i of
           Move destination source \<Rightarrow>
             map_option (\<lambda>source.
               if destination \<noteq> source \<and> destination \<notin> P \<and> source \<notin> P
               then insert_copy destination source copies else copies)
             (resolve_copy copies source)
         | _ \<Rightarrow> Some copies)"

definition incoming_copies :: "nat list list \<Rightarrow> copies list \<Rightarrow> nat \<Rightarrow> copies" where
  "incoming_copies preds outgoing index =
     (if index = 0 \<or> preds ! index = [] then []
      else intersect (map (\<lambda>previous. outgoing ! previous) (preds ! index)))"

definition copy_visit ::
  "instruction list \<Rightarrow> nat list list \<Rightarrow> slot set \<Rightarrow> nat \<Rightarrow>
   copies list \<times> copies list \<times> bool \<Rightarrow> (copies list \<times> copies list \<times> bool) option" where
  "copy_visit is preds P index st =
     (case st of (incoming, outgoing, changed) \<Rightarrow>
        let next_in = incoming_copies preds outgoing index
        in map_option (\<lambda>next_out.
             (incoming[index := next_in], outgoing[index := next_out],
              changed \<or> next_in \<noteq> incoming ! index \<or> next_out \<noteq> outgoing ! index))
             (copy_transfer P (is ! index) next_in))"

partial_function (option) copy_rounds ::
  "instruction list \<Rightarrow> nat list list \<Rightarrow> slot set \<Rightarrow> copies list \<times> copies list \<Rightarrow> copies list option" where
  "copy_rounds is preds pins st =
     (case fold_option (copy_visit is preds pins) [0..<length is] (fst st, snd st, False) of
        None \<Rightarrow> None
      | Some (incoming, outgoing, changed) \<Rightarrow>
          if changed then copy_rounds is preds pins (incoming, outgoing) else Some incoming)"

definition available_copies :: "bytecode_function \<Rightarrow> copies list option" where
  "available_copies f =
     (let is = instructions (f_body f);
          succs = map (successors is) [0..<length is]
      in case pinned f of
           None \<Rightarrow> None
         | Some P \<Rightarrow>
             if \<not> list_all (list_all (\<lambda>s. s < length is)) succs then None
             else copy_rounds is (predecessors succs) P (replicate (length is) [], replicate (length is) []))"

section \<open>The rewriting\<close>

definition rename_captures ::
  "(slot \<Rightarrow> slot) \<Rightarrow> (capture_mode \<times> slot) list \<Rightarrow> (capture_mode \<times> slot) list" where
  "rename_captures g = map (\<lambda>(mode, r). (mode, if mode = Copy_capture then g r else r))"

fun rename_uses :: "(slot \<Rightarrow> slot) \<Rightarrow> instruction \<Rightarrow> instruction" where
  "rename_uses g (Move d s) = Move d (g s)"
| "rename_uses g (Unary d operator operand) = Unary d operator (g operand)"
| "rename_uses g (Binary d operator left right) = Binary d operator (g left) (g right)"
| "rename_uses g (MakeList d t elements) = MakeList d t (map g elements)"
| "rename_uses g (Index d obj index) = Index d (g obj) (g index)"
| "rename_uses g (MakeRecord d r ts fs) = MakeRecord d r ts (map (\<lambda>(n, r). (n, g r)) fs)"
| "rename_uses g (MakeVariant d v ts payload) = MakeVariant d v ts (map g payload)"
| "rename_uses g (LoadField d obj field by_reference) = LoadField d (g obj) field by_reference"
| "rename_uses g (MatchPattern d subject p bindings) = MatchPattern d (g subject) p bindings"
| "rename_uses g (JumpIfFalse condition target) = JumpIfFalse (g condition) target"
| "rename_uses g (Call d f sp arguments) = Call d f sp (map g arguments)"
| "rename_uses g (MakeClosure d f sp captures) = MakeClosure d f sp (rename_captures g captures)"
| "rename_uses g (CallValue d callee arguments) = CallValue d (g callee) (map g arguments)"
| "rename_uses g (CallClosure d f sp captures arguments) =
     CallClosure d f sp (rename_captures g captures) (map g arguments)"
| "rename_uses g (Return source) = Return (g source)"
| "rename_uses g (Assert condition message) = Assert (g condition) (map_option g message)"
| "rename_uses g i = i"

text \<open>The operands the closure \<open>rewrite\<close> is called on.\<close>

definition copied_captures :: "(capture_mode \<times> slot) list \<Rightarrow> slot list" where
  "copied_captures captures = map snd [c \<leftarrow> captures. fst c = Copy_capture]"

definition renamed_uses :: "instruction \<Rightarrow> slot list" where
  "renamed_uses i =
     (case i of
        MakeClosure _ _ _ captures \<Rightarrow> copied_captures captures
      | CallClosure _ _ _ captures arguments \<Rightarrow> copied_captures captures @ arguments
      | Move _ _ \<Rightarrow> slot_uses i
      | Unary _ _ _ \<Rightarrow> slot_uses i
      | Binary _ _ _ _ \<Rightarrow> slot_uses i
      | MakeList _ _ _ \<Rightarrow> slot_uses i
      | Index _ _ _ \<Rightarrow> slot_uses i
      | MakeRecord _ _ _ _ \<Rightarrow> slot_uses i
      | MakeVariant _ _ _ _ \<Rightarrow> slot_uses i
      | LoadField _ _ _ _ \<Rightarrow> slot_uses i
      | MatchPattern _ _ _ _ \<Rightarrow> slot_uses i
      | JumpIfFalse _ _ \<Rightarrow> slot_uses i
      | Call _ _ _ _ \<Rightarrow> slot_uses i
      | CallValue _ _ _ \<Rightarrow> slot_uses i
      | Return _ \<Rightarrow> slot_uses i
      | Assert _ _ \<Rightarrow> slot_uses i
      | _ \<Rightarrow> [])"

definition rewrite_uses :: "copies \<Rightarrow> instruction \<Rightarrow> (bool \<times> instruction) option" where
  "rewrite_uses copies i =
     (case map_option_list (resolve_copy copies) (renamed_uses i) of
        None \<Rightarrow> None
      | Some resolved \<Rightarrow>
          Some (resolved \<noteq> renamed_uses i, rename_uses (\<lambda>r. the (resolve_copy copies r)) i))"

definition propagate_function :: "bytecode_function \<Rightarrow> (bool \<times> bytecode_function) option" where
  "propagate_function f =
     (case available_copies f of
        None \<Rightarrow> None
      | Some incoming \<Rightarrow>
          map_option
            (\<lambda>rs. (list_ex fst rs, f\<lparr>f_body := (f_body f)\<lparr>instructions := map snd rs\<rparr>\<rparr>))
            (map_option_list (\<lambda>(i, copies). rewrite_uses copies i) (zip (instructions (f_body f)) incoming)))"

definition propagate :: "program \<Rightarrow> (bool \<times> program) option" where
  "propagate = pass_functions propagate_function"

end
