(* ===== verification/Removal.thy ===== *)
theory Removal
  imports Control_Flow
begin

text \<open>
  Removing instructions, as the passes of the optimiser do it: the position of a kept instruction
  is the number of kept instructions before it, and a jump goes to the first kept instruction
  from its target on.
\<close>

section \<open>Positions\<close>

definition kept_before :: "bool list \<Rightarrow> nat \<Rightarrow> nat" where
  "kept_before keep i = length [k \<leftarrow> take i keep. k]"

lemma kept_before_simps [simp]:
  "kept_before keep 0 = 0"
  "kept_before (k # keep) (Suc i) = (if k then Suc (kept_before keep i) else kept_before keep i)"
  by (simp_all add: kept_before_def)

lemma kept_before_Suc:
  "i < length keep \<Longrightarrow> kept_before keep (Suc i) = kept_before keep i + (if keep ! i then 1 else 0)"
  by (simp add: kept_before_def take_Suc_conv_app_nth)

lemma kept_before_mono: "i \<le> j \<Longrightarrow> kept_before keep i \<le> kept_before keep j"
proof -
  assume "i \<le> j"
  then have "take j keep = take i keep @ take (j - i) (drop i keep)"
    by (metis le_add_diff_inverse take_add)
  then show ?thesis by (simp add: kept_before_def)
qed

lemma kept_before_strict:
  "i < j \<Longrightarrow> j \<le> length keep \<Longrightarrow> keep ! i \<Longrightarrow> kept_before keep i < kept_before keep j"
  using kept_before_mono [of "Suc i" j keep] by (simp add: kept_before_Suc)

lemma kept_before_none:
  "i \<le> j \<Longrightarrow> j \<le> length keep \<Longrightarrow> (\<forall>k. i \<le> k \<and> k < j \<longrightarrow> \<not> keep ! k) \<Longrightarrow> kept_before keep i = kept_before keep j"
proof (induction "j - i" arbitrary: j)
  case (Suc n)
  then obtain j' where j: "j = Suc j'" "i \<le> j'" by (cases j) auto
  then have "kept_before keep i = kept_before keep j'" using Suc.hyps(1) [of j'] Suc.hyps(2) Suc.prems by auto
  then show ?case using j Suc.prems by (simp add: kept_before_Suc)
qed simp

lemma kept_Nil [simp]: "kept [] xs = []" "kept keep [] = []"
  by (simp_all add: kept_def)

lemma kept_Cons [simp]: "kept (k # keep) (x # xs) = (if k then x # kept keep xs else kept keep xs)"
  by (simp add: kept_def)

lemma length_kept: "length xs = length keep \<Longrightarrow> length (kept keep xs) = kept_before keep (length keep)"
  by (induction keep xs rule: list_induct2') auto

lemma kept_nth:
  "length xs = length keep \<Longrightarrow> i < length keep \<Longrightarrow> keep ! i \<Longrightarrow> kept keep xs ! kept_before keep i = xs ! i"
  by (induction keep xs arbitrary: i rule: list_induct2') (auto simp: nth_Cons split: nat.split)

lemma kept_positions:
  "length xs = length keep \<Longrightarrow> n < length (kept keep xs) \<Longrightarrow>
   \<exists>i < length keep. keep ! i \<and> kept_before keep i = n"
proof (induction keep xs arbitrary: n rule: list_induct2')
  case (4 k keep x xs)
  show ?case
  proof (cases "k \<and> n = 0")
    case True
    then show ?thesis by (intro exI [of _ 0]) simp
  next
    case False
    define m where "m = (if k then n - 1 else n)"
    have "m < length (kept keep xs)" using 4 False by (auto simp: m_def split: if_splits)
    then obtain i where "i < length keep" "keep ! i" "kept_before keep i = m" using 4 by auto
    then show ?thesis using False by (intro exI [of _ "Suc i"]) (auto simp: m_def)
  qed
qed auto

lemma kept_zip: "length xs = length ys \<Longrightarrow> map fst (kept keep (zip xs ys)) = kept keep xs"
  "length xs = length ys \<Longrightarrow> map snd (kept keep (zip xs ys)) = kept keep ys"
proof -
  show "length xs = length ys \<Longrightarrow> map fst (kept keep (zip xs ys)) = kept keep xs"
    by (induction xs ys arbitrary: keep rule: list_induct2) (simp, case_tac keep, auto)
  show "length xs = length ys \<Longrightarrow> map snd (kept keep (zip xs ys)) = kept keep ys"
    by (induction xs ys arbitrary: keep rule: list_induct2) (simp, case_tac keep, auto)
qed

section \<open>The tables\<close>

lemma length_next_kept [simp]: "length (next_kept k keep) = Suc (length keep)"
  by (induction keep arbitrary: k) (auto simp: Let_def)

lemma length_new_indices [simp]: "length (new_indices n keep) = length keep"
  by (induction keep arbitrary: n) auto

lemma new_indices_nth:
  "j < length keep \<Longrightarrow> new_indices n keep ! j = (if keep ! j then Some (n + kept_before keep j) else None)"
  by (induction keep arbitrary: n j) (auto simp: nth_Cons split: nat.split)

lemma next_kept_first:
  "t \<le> j \<Longrightarrow> j < length keep \<Longrightarrow> keep ! j \<Longrightarrow> (\<And>m. t \<le> m \<Longrightarrow> m < j \<Longrightarrow> \<not> keep ! m) \<Longrightarrow>
   next_kept k keep ! t = Some (k + j)"
proof (induction keep arbitrary: k t j)
  case (Cons b keep)
  have hd: "hd (next_kept (Suc k) keep) = next_kept (Suc k) keep ! 0"
    by (rule hd_conv_nth) (metis length_next_kept list.size(3) nat.simps(3))
  show ?case
  proof (cases j)
    case 0
    then show ?thesis using Cons.prems by (simp add: Let_def)
  next
    case (Suc j')
    have "\<not> keep ! m" if "t - 1 \<le> m" "m < j'" for m using Cons.prems(4) [of "Suc m"] that Suc by simp
    then have IH: "next_kept (Suc k) keep ! (t - 1) = Some (Suc k + j')"
      using Cons.prems(1-3) Suc by (intro Cons.IH) simp_all
    have "\<not> b" if "t = 0" using Cons.prems(4) [of 0] Suc that by simp
    then show ?thesis using IH Suc hd by (cases t) (simp_all add: Let_def)
  qed
qed simp

lemma kept_target_Some:
  assumes "t \<le> i" "i < length keep" "keep ! i"
  shows "kept_target keep t = Some (kept_before keep t)"
proof -
  define j where "j = (LEAST j. t \<le> j \<and> keep ! j)"
  have j: "t \<le> j \<and> keep ! j"
    using LeastI [of "\<lambda>j. t \<le> j \<and> keep ! j" i] assms unfolding j_def by blast
  have least: "\<not> keep ! m" if "t \<le> m" "m < j" for m
    using that not_less_Least [of m "\<lambda>j. t \<le> j \<and> keep ! j"] unfolding j_def by blast
  have "j \<le> i" using assms unfolding j_def by (blast intro: Least_le)
  then have len: "j < length keep" using assms by simp
  have "next_kept 0 keep ! t = Some j"
    using next_kept_first [of t j keep 0] j least len by simp
  moreover have "kept_before keep t = kept_before keep j"
    using kept_before_none [of t j keep] j least len by auto
  ultimately show ?thesis
    using j len by (simp add: kept_target_def get_def new_indices_nth)
qed


section \<open>Removable instructions\<close>

text \<open>Within a closed set of indices, an instruction that goes only continues with the next one.\<close>

definition removal_shape :: "instruction list \<Rightarrow> bool list \<Rightarrow> nat set \<Rightarrow> bool" where
  "removal_shape is keep R \<longleftrightarrow> length keep = length is \<and> flow_within is R \<and>
     (\<forall>i \<in> R. \<not> keep ! i \<longrightarrow> (\<forall>r. is ! i \<noteq> Return r) \<and> (\<forall>b. next_index (is ! i) i b = Suc i))"

lemma kept_ahead:
  "removal_shape is keep R \<Longrightarrow> i \<in> R \<Longrightarrow> \<exists>j. i \<le> j \<and> j < length keep \<and> keep ! j"
proof (induction "length is - i" arbitrary: i rule: less_induct)
  case less
  then have i: "i < length is" "length keep = length is" by (auto simp: removal_shape_def flow_within_def)
  show ?case
  proof (cases "keep ! i")
    case False
    then have "Suc i \<in> R" using less.prems i unfolding removal_shape_def flow_within_def by metis
    then obtain j where "Suc i \<le> j" "j < length keep" "keep ! j" using less i by (meson diff_less_mono2 lessI)
    then show ?thesis by (intro exI [of _ j]) simp
  qed (use i in auto)
qed

lemma kept_target_within:
  "removal_shape is keep R \<Longrightarrow> t \<in> R \<Longrightarrow> kept_target keep t = Some (kept_before keep t)"
  using kept_ahead kept_target_Some by metis

lemma next_index_redirect:
  assumes "i < length keep" "keep ! i" "g (next_index x i b) = kept_before keep (next_index x i b)"
  shows "next_index (redirect g x) (kept_before keep i) b = kept_before keep (next_index x i b)"
  using assms by (cases x) (auto simp: next_index_def redirect_def kept_before_Suc)

lemma kept_get:
  assumes "length keep = length is" "i < length is" "keep ! i"
  shows "get (map (redirect g) (kept keep is)) (kept_before keep i) = Some (redirect g (is ! i))"
  using assms kept_nth [of "is" keep i] length_kept [of "is" keep] kept_before_strict [of i "length keep" keep]
  by (simp add: get_def)

lemma relink_within:
  assumes "removal_shape is keep R" "i \<in> R"
  shows "relink (kept_target keep) (is ! i) = Some (redirect (kept_before keep) (is ! i))"
proof (cases "jump_of (is ! i)")
  case None
  then show ?thesis by (cases "is ! i") (auto simp: relink_def redirect_def jump_of_def)
next
  case (Some t)
  then have "\<forall>r. is ! i \<noteq> Return r" "t = next_index (is ! i) i False"
    by (cases "is ! i"; simp add: jump_of_def next_index_def)+
  then have "t \<in> R" using assms by (auto simp: removal_shape_def flow_within_def)
  then have "kept_target keep t = Some (kept_before keep t)" using kept_target_within [OF assms(1)] by blast
  then show ?thesis using Some by (cases "is ! i") (auto simp: relink_def redirect_def jump_of_def)
qed

lemma removal_closed:
  assumes "removal_shape is keep R" "\<forall>i < length is. keep ! i \<longrightarrow> i \<in> R"
  defines "ks \<equiv> map (redirect (kept_before keep)) (kept keep is)"
  shows "flow_within ks {..<length ks}"
proof -
  have len: "length keep = length is" "length ks = kept_before keep (length keep)" "flow_within is R"
    using assms(1) by (auto simp: removal_shape_def ks_def length_kept)
  have "next_index (ks ! j) j b < length ks" if j: "j < length ks" "\<forall>r. ks ! j \<noteq> Return r" for j b
  proof -
    obtain i where i: "i < length is" "keep ! i" "kept_before keep i = j"
      using kept_positions [of "is" keep j] len j by (auto simp: ks_def)
    have there: "ks ! j = redirect (kept_before keep) (is ! i)"
      using kept_get [of keep "is" i "kept_before keep"] i len by (simp add: ks_def get_def split: if_splits)
    have "i \<in> R" using assms(2) i by blast
    moreover have "\<forall>r. is ! i \<noteq> Return r" using j(2) there by (auto simp: redirect_def)
    ultimately have n: "next_index (is ! i) i b \<in> R" using len(3) by (auto simp: flow_within_def)
    then obtain k where "next_index (is ! i) i b \<le> k" "k < length keep" "keep ! k"
      using kept_ahead [OF assms(1)] by blast
    then have "kept_before keep (next_index (is ! i) i b) < length ks"
      using kept_before_strict [of k "length keep" keep] kept_before_mono [of _ k keep] len(2)
      by (metis le_less_trans order_refl)
    then show ?thesis using there i len next_index_redirect [of i keep "kept_before keep" "is ! i" b] by simp
  qed
  then show ?thesis by (auto simp: flow_within_def)
qed


end
