(* ===== verification/Control_Flow_Laws.thy ===== *)
theory Control_Flow_Laws
  imports Removal
begin

text \<open>Simplifying the control flow of a function keeps its finished runs.\<close>

section \<open>Jump chains\<close>

lemma redirect_simps [simp]:
  "visit_registers (redirect g i) = visit_registers i"
  "slot_definitions (redirect g i) = slot_definitions i"
  "slot_uses (redirect g i) = slot_uses i"
  "plain (redirect g i) = plain i"
  "shape (redirect g i) = shape i"
  "slot_writes (redirect g i) = slot_writes i"
  "touches P (redirect g i) = touches P i"
  "operands konst pool \<rho> (redirect g i) = operands konst pool \<rho> i"
  by (cases i; simp add: redirect_def shape_def erase_slots_def visit1_def slot_writes_def moved_captures_def
      touches_def operands_def)+

lemma execute_redirect [simp]: "execute I P (redirect g i) = execute I P i"
  unfolding execute_def redirect_simps ..

lemma effect_redirect [simp]:
  "instruction_effect I P pool (redirect g i) = instruction_effect I P pool i"
proof (intro ext)
  fix \<rho> h
  have "execute I P (redirect g i) = execute I P i" by simp
  then show "instruction_effect I P pool (redirect g i) \<rho> h = instruction_effect I P pool i \<rho> h"
    by (cases i) (auto simp: redirect_def instruction_effect_def operands_def touches_def split: option.splits)
qed

text \<open>\<open>hops\<close>: a number of jumps leads from one index to another.\<close>

fun hops :: "instruction list \<Rightarrow> nat \<Rightarrow> nat \<Rightarrow> nat \<Rightarrow> bool" where
  "hops is 0 i j \<longleftrightarrow> i = j"
| "hops is (Suc n) i j \<longleftrightarrow> (\<exists>t. get is i = Some (Jump t) \<and> hops is n t j)"

lemma get_jump_targets:
  "get (jump_targets is) t = Some (Some u) \<longleftrightarrow> get is t = Some (Jump u)"
  by (auto simp: get_def jump_targets_def split: instruction.splits)

lemma follow_hops: "\<exists>n. hops is n t (follow (jump_targets is) seen t)"
proof (induction "jump_targets is" seen t rule: follow.induct)
  case (1 seen t)
  show ?case
  proof (cases "\<exists>u. get (jump_targets is) t = Some (Some u) \<and> t \<notin> seen")
    case True
    then obtain u where u: "get (jump_targets is) t = Some (Some u)" "t \<notin> seen" by blast
    then obtain n where "hops is n u (follow (jump_targets is) (insert t seen) u)" using 1 by blast
    moreover have "follow (jump_targets is) seen t = follow (jump_targets is) (insert t seen) u"
      using u by (subst follow.simps) simp
    ultimately have "hops is (Suc n) t (follow (jump_targets is) seen t)"
      using u(1) by (auto simp: get_jump_targets)
    then show ?thesis ..
  next
    case False
    then have "follow (jump_targets is) seen t = t"
      by (subst follow.simps) (auto split: option.splits)
    then have "hops is 0 t (follow (jump_targets is) seen t)" by simp
    then show ?thesis ..
  qed
qed

lemma hops_within: "hops is n t u \<Longrightarrow> flow_within is R \<Longrightarrow> t \<in> R \<Longrightarrow> u \<in> R"
proof (induction n arbitrary: t)
  case (Suc n)
  then obtain v where v: "get is t = Some (Jump v)" "hops is n v u" by auto
  then have "is ! t = Jump v" by (simp add: get_def split: if_splits)
  then have "v \<in> R" using Suc.prems unfolding flow_within_def by (fastforce simp: next_index_def)
  then show ?case using Suc.IH [OF v(2)] Suc.prems by blast
qed simp

lemma follow_within: "flow_within is R \<Longrightarrow> t \<in> R \<Longrightarrow> follow (jump_targets is) {} t \<in> R"
  using follow_hops [of "is" t "{}"] hops_within by blast

lemma length_shorten_jumps [simp]: "length (shorten_jumps is) = length is"
  by (simp add: shorten_jumps_def)

lemma shorten_jumps_nth [simp]:
  "i < length is \<Longrightarrow> shorten_jumps is ! i = redirect (follow (jump_targets is) {}) (is ! i)"
  by (simp add: shorten_jumps_def)

lemma shorten_jumps_within: "flow_within is R \<Longrightarrow> flow_within (shorten_jumps is) R"
proof -
  assume R: "flow_within is R"
  have "next_index (shorten_jumps is ! i) i b \<in> R" if i: "i \<in> R" "\<forall>r. shorten_jumps is ! i \<noteq> Return r" for i b
  proof -
    have len: "i < length is" using R i(1) by (auto simp: flow_within_def)
    have "\<forall>r. is ! i \<noteq> Return r" using i(2) len by (auto simp: redirect_def)
    then have "next_index (is ! i) i c \<in> R" for c using R i(1) by (auto simp: flow_within_def)
    from this [of b] this [of False] show ?thesis
      using follow_within [OF R] len
      by (cases "is ! i") (auto simp: redirect_def next_index_def)
  qed
  then show ?thesis using R by (auto simp: flow_within_def)
qed

definition hopped ::
  "instruction list \<Rightarrow> nat \<Rightarrow> ('v, 'h) machine_state \<Rightarrow> ('v, 'h) machine_state \<Rightarrow> bool" where
  "hopped is n s t \<longleftrightarrow> snd s = snd t \<and> hops is n (fst s) (fst t)"

interpretation shortening: stuttering "machine_step I P pool is" "machine_step I P pool (shorten_jumps is)"
  "hopped is" for I P pool "is"
proof
  fix n :: nat and s t :: "('a, 'b) machine_state"
  assume st: "hopped is n s t"
  obtain i \<rho> h where s: "s = (i, \<rho>, h)" by (cases s)
  show "(\<exists>r. machine_step I P pool is s = Stop r \<and> machine_step I P pool (shorten_jumps is) t = Stop r) \<or>
    (\<exists>s' t' k. machine_step I P pool is s = Continue s' \<and>
      machine_step I P pool (shorten_jumps is) t = Continue t' \<and> hopped is k s' t') \<or>
    (\<exists>s' k. machine_step I P pool is s = Continue s' \<and> k < n \<and> hopped is k s' t)"
  proof (cases n)
    case 0
    then have t: "t = (i, \<rho>, h)" using st s by (auto simp: hopped_def prod_eq_iff)
    have target: "\<exists>k. hops is k (next_index (is ! i) i b) (next_index (shorten_jumps is ! i) i b)"
      if "i < length is" for b
    proof (cases "is ! i")
      case (Jump u)
      then show ?thesis using follow_hops [of "is" u "{}"] that by (simp add: redirect_def next_index_def)
    next
      case (JumpIfFalse c u)
      have "\<exists>k. hops is k (Suc i) (Suc i)" using hops.simps(1) by blast
      then show ?thesis using JumpIfFalse follow_hops [of "is" u "{}"] that
        by (simp add: redirect_def next_index_def)
    qed (use that in \<open>auto simp: redirect_def next_index_def intro: exI [of _ 0]\<close>)
    show ?thesis
    proof (cases "i < length is")
      case True
      then show ?thesis
        using target
        by (cases "instruction_effect I P pool (is ! i) \<rho> h")
          (auto simp: s t machine_step_def get_def hopped_def)
    qed (simp add: s t machine_step_def get_def)
  next
    case (Suc m)
    then obtain u where u: "get is i = Some (Jump u)" "hops is m u (fst t)"
      using st s by (auto simp: hopped_def)
    then have "machine_step I P pool is s = Continue (u, \<rho>, h)"
      by (simp add: s machine_step_def instruction_effect_def operands_def next_index_def)
    moreover have "hopped is m (u, \<rho>, h) t" using st s u by (simp add: hopped_def)
    ultimately show ?thesis using Suc by blast
  qed
qed

lemma shorten_jumps_yields:
  "body_yields I P pool (shorten_jumps is) \<rho> h r \<longleftrightarrow> body_yields I P pool is \<rho> h r"
  unfolding body_yields_def by (rule shortening.yields_iff [symmetric, of _ 0]) (simp add: hopped_def)


section \<open>Removal\<close>

text \<open>What a removal needs: only jumps to the next instruction and moves of a slot to itself go.\<close>

definition removal_ok :: "slot set \<Rightarrow> instruction list \<Rightarrow> bool list \<Rightarrow> nat set \<Rightarrow> bool" where
  "removal_ok P is keep R \<longleftrightarrow> length keep = length is \<and> flow_within is R \<and>
     (\<forall>i \<in> R. \<not> keep ! i \<longrightarrow> is ! i = Jump (i + 1) \<or> (\<exists>r. r \<notin> P \<and> is ! i = Move r r))"

lemma removal_ok_shape: "removal_ok P is keep R \<Longrightarrow> removal_shape is keep R"
  by (auto simp: removal_ok_def removal_shape_def next_index_def)

lemma removal_next:
  assumes "removal_ok P is keep R" "i \<in> R" "\<not> keep ! i"
  shows "Suc i \<in> R" "machine_step I P pool is (i, \<rho>, h) = Continue (Suc i, \<rho>, h)"
proof -
  have i: "i < length is" "flow_within is R" using assms(1,2) by (auto simp: removal_ok_def flow_within_def)
  consider "is ! i = Jump (Suc i)" | r where "r \<notin> P" "is ! i = Move r r"
    using assms by (auto simp: removal_ok_def)
  note cases = this
  show "Suc i \<in> R"
    using cases i assms(2) unfolding flow_within_def by cases (fastforce simp: next_index_def)+
  show "machine_step I P pool is (i, \<rho>, h) = Continue (Suc i, \<rho>, h)"
    using cases i
    by cases (simp_all add: machine_step_def get_def instruction_effect_def operands_def next_index_def touches_def)
qed

definition removed_state ::
  "slot set \<Rightarrow> instruction list \<Rightarrow> bool list \<Rightarrow> (nat \<Rightarrow> nat) \<Rightarrow> nat set \<Rightarrow> nat \<Rightarrow>
   ('v, 'h) machine_state \<Rightarrow> ('v, 'h) machine_state \<Rightarrow> bool" where
  "removed_state P is keep g R n s t \<longleftrightarrow>
     removal_ok P is keep R \<and> (\<forall>i \<in> R. g i = kept_before keep i) \<and>
     fst s \<in> R \<and> fst t = kept_before keep (fst s) \<and> snd t = snd s \<and> n = length is - fst s"

interpretation removal: stuttering "machine_step I P pool is"
  "machine_step I P pool (map (redirect g) (kept keep is))" "removed_state P is keep g R"
  for I P pool "is" keep g R
proof
  fix n and s t :: "('a, 'b) machine_state"
  assume st: "removed_state P is keep g R n s t"
  obtain i \<rho> h where s: "s = (i, \<rho>, h)" by (cases s)
  have ok: "removal_ok P is keep R" "i \<in> R" "\<forall>i \<in> R. g i = kept_before keep i" and
    t: "t = (kept_before keep i, \<rho>, h)" and n: "n = length is - i"
    using st s by (auto simp: removed_state_def prod_eq_iff)
  have i: "i < length is" "length keep = length is" "flow_within is R"
    using ok by (auto simp: removal_ok_def flow_within_def)
  show "(\<exists>r. machine_step I P pool is s = Stop r \<and> machine_step I P pool (map (redirect g) (kept keep is)) t = Stop r) \<or>
    (\<exists>s' t' k. machine_step I P pool is s = Continue s' \<and>
      machine_step I P pool (map (redirect g) (kept keep is)) t = Continue t' \<and> removed_state P is keep g R k s' t') \<or>
    (\<exists>s' k. machine_step I P pool is s = Continue s' \<and> k < n \<and> removed_state P is keep g R k s' t)"
  proof (cases "keep ! i")
    case False
    then have after: "Suc i \<in> R" "machine_step I P pool is s = Continue (Suc i, \<rho>, h)"
      using removal_next [OF ok(1,2)] s by simp_all
    have "removed_state P is keep g R (length is - Suc i) (Suc i, \<rho>, h) t"
      using ok after False i by (simp add: removed_state_def t kept_before_Suc)
    then show ?thesis using after(2) n i(1) by (meson diff_less_mono2 lessI)
  next
    case True
    note there = kept_get [OF i(2,1) True, of g]
    show ?thesis
    proof (cases "instruction_effect I P pool (is ! i) \<rho> h")
      case (Stop r)
      then show ?thesis using i there by (simp add: s t machine_step_def get_def)
    next
      case (Continue c)
      obtain \<rho>' b h' where c: "c = (\<rho>', b, h')" by (cases c)
      have "\<forall>r. is ! i \<noteq> Return r"
        using Continue by (auto simp: instruction_effect_def operands_def)
      then have "next_index (is ! i) i b \<in> R" using i ok(2) by (auto simp: flow_within_def)
      then have "removed_state P is keep g R (length is - next_index (is ! i) i b)
          (next_index (is ! i) i b, \<rho>', h') (next_index (redirect g (is ! i)) (kept_before keep i) b, \<rho>', h')"
        using ok i True next_index_redirect [of i keep g "is ! i" b] by (simp add: removed_state_def)
      then show ?thesis using Continue c there i
        by (auto simp: s t machine_step_def get_def)
    qed
  qed
qed

lemma removal_yields:
  assumes "removal_ok P is keep R" "0 \<in> R" "\<forall>i \<in> R. g i = kept_before keep i"
  shows "body_yields I P pool (map (redirect g) (kept keep is)) \<rho> h r \<longleftrightarrow> body_yields I P pool is \<rho> h r"
  unfolding body_yields_def
  by (rule removal.yields_iff [symmetric, of P "is" keep g R "length is"]) (use assms in \<open>simp add: removed_state_def\<close>)


section \<open>Reachable instructions\<close>

definition marked :: "bool list \<Rightarrow> nat set" where
  "marked marks = {i. i < length marks \<and> marks ! i}"

lemma marked_update: "i < length marks \<Longrightarrow> marked (marks[i := True]) = insert i (marked marks)"
  by (auto simp: marked_def nth_list_update)

lemma pushed_iff: "j \<in> set (pushed i x) \<longleftrightarrow> (\<forall>r. x \<noteq> Return r) \<and> (\<exists>b. j = next_index x i b)"
  by (cases x) (auto simp: pushed_def next_index_def intro: exI [of _ True] exI [of _ False])

lemma pushed_within: "flow_within is R \<Longrightarrow> i \<in> R \<Longrightarrow> set (pushed i (is ! i)) \<subseteq> R"
  by (auto simp: flow_within_def pushed_iff)

lemma reach_marks:
  assumes "flow_within is R" "length marks = length is" "set pending \<subseteq> R" "marked marks \<subseteq> R"
    and "\<forall>i \<in> marked marks. set (pushed i (is ! i)) \<subseteq> marked marks \<union> set pending"
  shows "length (reach is marks pending) = length is \<and>
    marked marks \<union> set pending \<subseteq> marked (reach is marks pending) \<and>
    marked (reach is marks pending) \<subseteq> R \<and>
    (\<forall>i \<in> marked (reach is marks pending). set (pushed i (is ! i)) \<subseteq> marked (reach is marks pending))"
  using assms
proof (induction "is" marks pending rule: reach.induct)
  case (2 "is" marks index pending)
  have i: "index \<in> R" "index < length is" using 2(3,5) by (auto simp: flow_within_def)
  show ?case
  proof (cases "marks ! index")
    case True
    then have "index \<in> marked marks" using i 2(4) by (simp add: marked_def)
    then have "insert index (set pending) \<union> marked marks = set pending \<union> marked marks" by auto
    then have inv: "\<forall>i \<in> marked marks. set (pushed i (is ! i)) \<subseteq> marked marks \<union> set pending"
      using 2(7) by (simp add: Un_commute)
    have seen: "index \<ge> length is \<or> get marks index \<noteq> Some False" using True i 2(4) by (simp add: get_def)
    have "set pending \<subseteq> R" using 2(5) by simp
    then show ?thesis using 2(1) [OF seen 2(3,4) _ 2(6) inv] seen \<open>index \<in> marked marks\<close> by auto
  next
    case False
    let ?marks = "marks[index := True]" and ?pending = "pushed index (is ! index) @ pending"
    have m: "marked ?marks = insert index (marked marks)" using i 2(4) by (simp add: marked_update)
    have "length ?marks = length is" "set ?pending \<subseteq> R" "marked ?marks \<subseteq> R"
      "\<forall>i \<in> marked ?marks. set (pushed i (is ! i)) \<subseteq> marked ?marks \<union> set ?pending"
      using 2(4-7) i pushed_within [OF 2(3) i(1)] unfolding m by auto
    then show ?thesis using 2(2) 2(3,4) False i unfolding m by (auto simp: get_def)
  qed
qed auto

lemma reachable_within:
  assumes "flow_within is R" "0 \<in> R"
  shows "length (reachable is) = length is" "0 \<in> marked (reachable is)" "flow_within is (marked (reachable is))"
proof -
  have "marked (replicate (length is) False) = {}" by (auto simp: marked_def)
  then have *: "length (reachable is) = length is \<and> {0} \<subseteq> marked (reachable is) \<and> marked (reachable is) \<subseteq> R \<and>
      (\<forall>i \<in> marked (reachable is). set (pushed i (is ! i)) \<subseteq> marked (reachable is))"
    using reach_marks [OF assms(1), of "replicate (length is) False" "[0]"] assms(2) by (simp add: reachable_def)
  then show "length (reachable is) = length is" "0 \<in> marked (reachable is)" by auto
  show "flow_within is (marked (reachable is))"
    unfolding flow_within_def
  proof (intro conjI ballI impI allI)
    show "marked (reachable is) \<subseteq> {..<length is}" using * by (auto simp: marked_def)
    fix i b
    assume "i \<in> marked (reachable is)" "\<forall>r. is ! i \<noteq> Return r"
    then show "next_index (is ! i) i b \<in> marked (reachable is)"
      using * pushed_iff [of "next_index (is ! i) i b" i "is ! i"] by blast
  qed
qed

section \<open>The pass\<close>

lemma map_option_list_all: "(\<And>x. x \<in> set xs \<Longrightarrow> f x = Some (g x)) \<Longrightarrow> map_option_list f xs = Some (map g xs)"
  by (induction xs) auto

definition same_runs ::
  "('v, 'h) vm_meaning \<Rightarrow> slot set \<Rightarrow> program_constant list \<Rightarrow> bytecode_function \<Rightarrow> bytecode_function \<Rightarrow> bool" where
  "same_runs I P pool f g \<longleftrightarrow>
     (\<forall>\<rho> h r. body_yields I P pool (instructions (f_body g)) \<rho> h r \<longleftrightarrow>
        body_yields I P pool (instructions (f_body f)) \<rho> h r)"

lemma retain_keeps_runs:
  assumes "body_ok (f_body f)" "removal_ok P (instructions (f_body f)) keep R" "0 \<in> R"
    and "\<forall>i < length keep. keep ! i \<longrightarrow> i \<in> R"
  shows "\<exists>c f'. retain f keep = Some (c, f') \<and> f' = f\<lparr>f_body := f_body f'\<rparr> \<and> body_ok (f_body f') \<and>
    flow_within (instructions (f_body f')) {..<length (instructions (f_body f'))} \<and>
    instructions (f_body f') \<noteq> [] \<and> same_runs I P pool f f'"
proof -
  let ?is = "instructions (f_body f)"
  note shape = removal_ok_shape [OF assms(2)]
  have len: "length keep = length ?is" "flow_within ?is R" "?is \<noteq> []"
    using assms(2,3) by (auto simp: removal_ok_def flow_within_def)
  show ?thesis
  proof (cases "list_all (\<lambda>k. k) keep")
    case True
    then have "R = {..<length ?is}"
      using len assms(4) by (auto simp: list_all_length flow_within_def)
    then show ?thesis using True len assms(1)
      by (intro exI [of _ False] exI [of _ f]) (auto simp: retain_def same_runs_def)
  next
    case False
    let ?ks = "map (redirect (kept_before keep)) (kept keep ?is)"
    have spans: "length (instruction_spans (f_body f)) = length ?is" using assms(1) by (simp add: body_ok_def)
    have "relink (kept_target keep) x = Some (redirect (kept_before keep) x)" if x: "x \<in> set (kept keep ?is)" for x
    proof -
      obtain j where "j < length (kept keep ?is)" "kept keep ?is ! j = x" using x by (auto simp: in_set_conv_nth)
      then obtain i where "i < length keep" "keep ! i" "?is ! i = x"
        using kept_positions [of ?is keep j] kept_nth [of ?is keep] len(1) by metis
      then show ?thesis using relink_within [OF shape] assms(4) by blast
    qed
    then have "map_option_list (relink (kept_target keep)) (kept keep ?is) = Some ?ks"
      by (rule map_option_list_all)
    then have run: "retain f keep = Some (True, f\<lparr>f_body :=
        \<lparr>instructions = ?ks, instruction_spans = kept keep (instruction_spans (f_body f))\<rparr>\<rparr>)"
      using False spans len(1) by (simp add: retain_def into_parts_def kept_zip)
    obtain k where "k < length keep" "keep ! k" using kept_ahead [OF shape assms(3)] by blast
    then have "?ks \<noteq> []" using kept_get [of keep ?is k] len(1) by (auto simp: get_def split: if_splits)
    then show ?thesis
      unfolding run using removal_closed [OF shape] assms len spans removal_yields [OF assms(2,3), where I = I and pool = pool and g = "kept_before keep"]
      by (auto simp: body_ok_def length_kept same_runs_def)
  qed
qed


lemma useful_removal:
  assumes "flow_within is {..<length is}"
  shows "removal_ok P is (map (useful P) (enumerate 0 is)) {..<length is}"
  using assms by (auto simp: removal_ok_def useful_def nth_enumerate_eq split: instruction.splits)

lemma shortened_function:
  "redirect_jump_chains f = (c, g) \<Longrightarrow>
   instructions (f_body g) = shorten_jumps (instructions (f_body f)) \<and> g = f\<lparr>f_body := f_body g\<rparr> \<and>
   (body_ok (f_body g) \<longleftrightarrow> body_ok (f_body f)) \<and> same_runs I P pool f g"
  by (auto simp: redirect_jump_chains_def Let_def body_ok_def same_runs_def shorten_jumps_yields)

text \<open>
  C9. Simplifying the control flow never panics on a body whose reachable instructions stay inside
  it, keeps code and locations paired and the rest of the function unchanged, and keeps what the
  function computes: under every interpretation of the operations, values and world, every start
  has the same finished runs, with the same result, final world and pinned slots.
\<close>

theorem simplify_keeps_runs:
  assumes "body_ok (f_body f)" "pinned f = Some P"
    and "flow_within (instructions (f_body f)) R" "0 \<in> R"
  shows "\<exists>changed f'. simplify_function f = Some (changed, f') \<and> body_ok (f_body f') \<and>
    f' = f\<lparr>f_body := f_body f'\<rparr> \<and> same_runs I P pool f f'"
proof -
  obtain c1 f1 where 1: "redirect_jump_chains f = (c1, f1)" by fastforce
  note f1 = shortened_function [OF 1, of I P pool]
  let ?is = "instructions (f_body f1)"
  have "flow_within ?is R" using f1 shorten_jumps_within [OF assms(3)] by simp
  note reach = reachable_within [OF this assms(4)]
  have "removal_ok P ?is (reachable ?is) (marked (reachable ?is))"
    using reach by (auto simp: removal_ok_def marked_def flow_within_def)
  from retain_keeps_runs [OF _ this reach(2), of I pool] obtain c2 f2 where
    2: "retain f1 (reachable ?is) = Some (c2, f2)" "f2 = f1\<lparr>f_body := f_body f2\<rparr>" "body_ok (f_body f2)"
      "flow_within (instructions (f_body f2)) {..<length (instructions (f_body f2))}"
      "instructions (f_body f2) \<noteq> []" "same_runs I P pool f1 f2"
    using f1 assms(1) by (auto simp: marked_def)
  from retain_keeps_runs [OF 2(3) useful_removal [OF 2(4)], of P I pool] 2(5) obtain c3 f3 where
    3: "retain f2 (map (useful P) (enumerate 0 (instructions (f_body f2)))) = Some (c3, f3)"
      "f3 = f2\<lparr>f_body := f_body f3\<rparr>" "body_ok (f_body f3)" "same_runs I P pool f2 f3"
    by auto
  obtain c4 f4 where 4: "redirect_jump_chains f3 = (c4, f4)" by fastforce
  note f4 = shortened_function [OF 4, of I P pool]
  have "simplify_function f = Some (c1 \<or> c2 \<or> c3 \<or> c4, f4)"
    by (simp add: simplify_function_def assms(2) 1 2(1) 3(1) 4)
  moreover have "f4 = f\<lparr>f_body := f_body f4\<rparr>"
    using f1 2(2) 3(2) f4 by (metis bytecode_function.update_convs(9) bytecode_function.surjective)
  ultimately show ?thesis
    using f1 f4 2(6) 3 by (intro exI conjI) (auto simp: same_runs_def)
qed


text \<open>A function with a jump chain, dead code and a move to itself, over constants as values.\<close>

definition slot_function :: "u16 \<Rightarrow> instruction list \<Rightarrow> bytecode_function" where
  "slot_function n is =
     \<lparr>f_name = ''f'', f_intrinsic_stub = False, f_parameters = [], f_returns_reference = False, f_captures = 0,
      f_capture_types = [], f_result_type = Integer, f_registers = n,
      f_body = \<lparr>instructions = is, instruction_spans = map (\<lambda>_. (0, 0)) is\<rparr>\<rparr>"

definition tangled :: bytecode_function where
  "tangled = slot_function 1 [LoadConstant 0 0, Jump 3, Return 0, Jump 4, Move 0 0, Return 0]"

definition constant_meaning :: "(program_constant, unit) vm_meaning" where
  "constant_meaning = \<lparr>constant_of = (\<lambda>k. k), operate = (\<lambda>_ _ _ _ _. None)\<rparr>"

lemma slot_function_simps [simp]:
  "instructions (f_body (slot_function n is)) = is" "body_ok (f_body (slot_function n is))"
  "frame_prefix (slot_function n is) = Some 0" "f_registers (slot_function n is) = n"
  by (simp_all add: slot_function_def body_ok_def frame_prefix_def parameter_count_def saturating_add_def)

lemma slot_function_pinned:
  assumes "\<forall>i \<in> set is. pin_instruction i = []"
  shows "pinned (slot_function n is) = Some {}"
proof -
  have none: "concat (map pin_instruction is) = []" using assms by simp
  have "fold pin_move is {} = {}"
    by (induction "is") (auto simp: pin_move_def split: instruction.splits)
  then have "pin_closure is {} = {}" by (subst pin_closure.simps) (simp add: pin_moves_def)
  then show ?thesis by (simp add: pinned_def pinned_slots_def prefix_slots_def none del: concat_eq_Nil_conv)
qed

theorem simplify_keeps_runs_witness:
  "\<exists>changed f'. simplify_function tangled = Some (changed, f') \<and> body_ok (f_body f') \<and>
     same_runs constant_meaning {} [Integer_const 7] tangled f'"
proof -
  have "pinned tangled = Some {}"
    unfolding tangled_def by (rule slot_function_pinned) (simp add: pin_instruction_def)
  moreover have "flow_within (instructions (f_body tangled)) {0, 1, 3, 4, 5}"
    by (simp add: tangled_def flow_within_def next_index_def)
  ultimately show ?thesis
    using simplify_keeps_runs [of tangled "{}" "{0, 1, 3, 4, 5}" constant_meaning "[Integer_const 7]"]
    by (auto simp: tangled_def)
qed

end
