(* ===== verification/Copy_Laws.thy ===== *)
theory Copy_Laws
  imports Copy_Propagation Control_Flow_Laws
begin

text \<open>Copy propagation keeps what a function computes, whenever its analysis returns.\<close>

section \<open>Maps of copies\<close>

text \<open>
  The invariant of the maps: one entry per slot, no pinned slots, and no source that is itself a
  copy, so that a chain has one step.
\<close>

definition copies_ok :: "slot set \<Rightarrow> copies \<Rightarrow> bool" where
  "copies_ok P copies \<longleftrightarrow> distinct (map fst copies) \<and>
     (\<forall>(d, s) \<in> set copies. d \<notin> P \<and> s \<notin> P \<and> s \<notin> fst ` set copies)"

definition facts_hold :: "copies \<Rightarrow> (slot \<Rightarrow> 'v) \<Rightarrow> bool" where
  "facts_hold copies \<rho> \<longleftrightarrow> (\<forall>(d, s) \<in> set copies. \<rho> d = \<rho> s)"

lemma copies_ok_Nil [simp]: "copies_ok P []" "facts_hold [] \<rho>"
  by (simp_all add: copies_ok_def facts_hold_def)

lemma copies_ok_filter: "copies_ok P copies \<Longrightarrow> copies_ok P (filter Q copies)"
  by (auto simp: copies_ok_def distinct_map_filter)

lemma facts_hold_subset: "set c \<subseteq> set c' \<Longrightarrow> facts_hold c' \<rho> \<Longrightarrow> facts_hold c \<rho>"
  by (auto simp: facts_hold_def)

lemma copies_ok_kill [simp]: "copies_ok P copies \<Longrightarrow> copies_ok P (kill r copies)"
  by (simp add: kill_def copies_ok_filter)

lemma set_kill [simp]: "set (kill r copies) = {c \<in> set copies. fst c \<noteq> r \<and> snd c \<noteq> r}"
  by (auto simp: kill_def)

lemma kills: "set (fold kill rs copies) = {c \<in> set copies. fst c \<notin> set rs \<and> snd c \<notin> set rs}"
  by (induction rs arbitrary: copies) auto

lemma copies_ok_kills: "copies_ok P copies \<Longrightarrow> copies_ok P (fold kill rs copies)"
  by (induction rs arbitrary: copies) simp_all

lemma resolve_ok:
  assumes "copies_ok P copies"
  shows "resolve_copy copies r = Some (case map_of copies r of None \<Rightarrow> r | Some s \<Rightarrow> s)"
proof (cases "map_of copies r")
  case None
  then show ?thesis by (subst resolve_copy.simps) simp
next
  case (Some s)
  then have "(r, s) \<in> set copies" by (rule map_of_SomeD)
  then have "map_of copies s = None" using assms by (auto simp: copies_ok_def map_of_eq_None_iff)
  then have "resolve_copy copies s = Some s" by (subst resolve_copy.simps) simp
  then show ?thesis using Some by (subst resolve_copy.simps) simp
qed

lemma resolve_unpinned:
  "copies_ok P copies \<Longrightarrow> resolve_copy copies r = Some s \<Longrightarrow> s \<noteq> r \<Longrightarrow> r \<notin> P \<and> s \<notin> P"
  by (auto simp: resolve_ok copies_ok_def dest!: map_of_SomeD split: option.splits)

lemma resolve_fact: "copies_ok P copies \<Longrightarrow> facts_hold copies \<rho> \<Longrightarrow> resolve_copy copies r = Some s \<Longrightarrow> \<rho> s = \<rho> r"
  by (auto simp: resolve_ok facts_hold_def dest!: map_of_SomeD split: option.splits)

lemma resolve_original: "copies_ok P copies \<Longrightarrow> resolve_copy copies r = Some s \<Longrightarrow> s \<notin> fst ` set copies"
  by (auto simp: resolve_ok copies_ok_def map_of_eq_None_iff dest!: map_of_SomeD split: option.splits) force

lemma set_insert_copy:
  "set (insert_copy d s copies) = insert (d, s) {c \<in> set copies. fst c \<noteq> d}"
  by (auto simp: insert_copy_def set_insort_key)

lemma copies_ok_insert:
  assumes "copies_ok P copies" "d \<noteq> s" "d \<notin> P" "s \<notin> P" "s \<notin> fst ` set copies" "\<forall>c \<in> set copies. snd c \<noteq> d"
  shows "copies_ok P (insert_copy d s copies)"
proof -
  have "distinct (map fst (filter (\<lambda>c. fst c \<noteq> d) copies))"
    using assms(1) by (simp add: copies_ok_def distinct_map_filter)
  then have "distinct (map fst (insert_copy d s copies))"
    by (auto simp: insert_copy_def distinct_insort_key distinct_map set_insort_key inj_on_def distinct_insort)
  then show ?thesis using assms by (auto simp: copies_ok_def set_insert_copy)
qed

lemma set_intersect: "c \<in> set (intersect ms) \<Longrightarrow> m \<in> set ms \<Longrightarrow> distinct (map fst m) \<Longrightarrow> c \<in> set m"
proof -
  have fold: "set (fold (\<lambda>m acc. [c \<leftarrow> acc. map_of m (fst c) = Some (snd c)]) rest first) =
      {c \<in> set first. \<forall>m \<in> set rest. map_of m (fst c) = Some (snd c)}" for rest and first :: copies
    by (induction rest arbitrary: first) auto
  show "c \<in> set (intersect ms) \<Longrightarrow> m \<in> set ms \<Longrightarrow> distinct (map fst m) \<Longrightarrow> c \<in> set m"
    by (cases ms) (auto simp: intersect_def fold dest: map_of_SomeD)
qed

lemma copies_ok_intersect: "\<forall>m \<in> set ms. copies_ok P m \<Longrightarrow> copies_ok P (intersect ms)"
proof -
  have "copies_ok P (fold (\<lambda>m acc. [c \<leftarrow> acc. map_of m (fst c) = Some (snd c)]) rest first)"
    if "copies_ok P first" for rest first
    using that by (induction rest arbitrary: first) (auto intro: copies_ok_filter)
  then show "\<forall>m \<in> set ms. copies_ok P m \<Longrightarrow> copies_ok P (intersect ms)"
    by (cases ms) (simp_all add: intersect_def)
qed

section \<open>One instruction\<close>

lemma copy_transfer_ok:
  assumes "copies_ok P copies"
  shows "\<exists>copies'. copy_transfer P i copies = Some copies' \<and> copies_ok P copies'"
proof -
  define c where "c = fold kill (moved_captures i) (fold kill (slot_definitions i)
    (if invalidates_copies i then [] else copies))"
  have c: "copies_ok P c" using assms unfolding c_def by (simp add: copies_ok_kills)
  show ?thesis
  proof (cases "\<exists>d s. i = Move d s")
    case True
    then obtain d s where i: "i = Move d s" by blast
    obtain s' where s': "resolve_copy c s = Some s'" using resolve_ok [OF c] by blast
    have killed: "\<forall>e \<in> set c. fst e \<noteq> d \<and> snd e \<noteq> d" by (auto simp: c_def i kills moved_captures_def)
    have "s' \<notin> fst ` set c" using resolve_original [OF c s'] .
    then have "copies_ok P (insert_copy d s' c)" if "d \<noteq> s'" "d \<notin> P" "s' \<notin> P"
      using copies_ok_insert [OF c] that killed by blast
    moreover have "copy_transfer P i copies =
        Some (if d \<noteq> s' \<and> d \<notin> P \<and> s' \<notin> P then insert_copy d s' c else c)"
      using s' unfolding copy_transfer_def Let_def c_def [symmetric] by (simp add: i)
    ultimately show ?thesis using c by auto
  next
    case False
    then have "copy_transfer P i copies = Some c"
      unfolding copy_transfer_def Let_def c_def [symmetric] by (cases i) auto
    then show ?thesis using c by blast
  qed
qed

text \<open>An instruction that keeps the facts changes only what it defines, or pinned slots.\<close>

lemma assign_other: "r \<notin> set rs \<Longrightarrow> assign rs vs \<rho> r = \<rho> r"
  unfolding assign_def
proof (induction rs arbitrary: vs \<rho>)
  case (Cons x rs)
  then show ?case by (cases vs) auto
qed simp

lemma execute_other:
  assumes "execute I P i vs \<rho> h = Continue (\<rho>', b, h')" "r \<notin> P" "r \<notin> set (slot_writes i)"
  shows "\<rho>' r = \<rho> r"
  using assms
  by (auto simp: execute_def Let_def assign_other split: option.splits prod.splits if_splits)

lemma effect_other:
  assumes "instruction_effect I P pool i \<rho> h = Continue (\<rho>', b, h')" "r \<notin> P" "r \<notin> set (slot_writes i)"
  shows "\<rho>' r = \<rho> r"
proof -
  have "execute I P i vs \<rho> h = Continue (\<rho>', b, h') \<Longrightarrow> \<rho>' r = \<rho> r" for vs
    by (rule execute_other [OF _ assms(2,3)])
  then show ?thesis using assms
    by (cases i) (auto simp: instruction_effect_def slot_writes_def split: option.splits if_splits)
qed

lemma copy_transfer_facts:
  assumes effect: "instruction_effect I P pool i \<rho> h = Continue (\<rho>', b, h')"
    and facts: "facts_hold copies \<rho>" and ok: "copies_ok P copies"
    and moves: "\<And>d s. i = Move d s \<Longrightarrow> d \<in> P \<longleftrightarrow> s \<in> P"
    and transfer: "copy_transfer P i copies = Some copies'"
  shows "facts_hold copies' \<rho>'"
proof -
  define c where "c = fold kill (moved_captures i) (fold kill (slot_definitions i)
    (if invalidates_copies i then [] else copies))"
  have c: "copies_ok P c" using ok unfolding c_def by (simp add: copies_ok_kills)
  have sub: "set c \<subseteq> set copies" by (auto simp: c_def kills)
  then have held: "facts_hold c \<rho>" using facts by (rule facts_hold_subset)
  have "\<rho>' r = \<rho> r" if "e \<in> set c" "r = fst e \<or> r = snd e" for e r
  proof -
    have "r \<notin> set (slot_writes i)" using that by (auto simp: c_def kills slot_writes_def)
    moreover have "r \<notin> P" using that c by (auto simp: copies_ok_def)
    ultimately show ?thesis using effect_other [OF effect] by blast
  qed
  then have after: "facts_hold c \<rho>'" using held by (fastforce simp: facts_hold_def)
  show ?thesis
  proof (cases "\<exists>d s. i = Move d s")
    case True
    then obtain d s where i: "i = Move d s" by blast
    obtain s' where s': "resolve_copy c s = Some s'" using resolve_ok [OF c] by blast
    have copies': "copies' = (if d \<noteq> s' \<and> d \<notin> P \<and> s' \<notin> P then insert_copy d s' c else c)"
      using s' transfer unfolding copy_transfer_def Let_def c_def [symmetric] by (simp add: i)
    have "\<rho>' d = \<rho>' s'" if new: "d \<noteq> s'" "d \<notin> P" "s' \<notin> P"
    proof -
      have "s \<notin> P" using moves [OF i] new by blast
      then have "\<rho>' = \<rho>(d := \<rho> s)"
        using effect new by (simp add: i instruction_effect_def operands_def touches_def)
      then show ?thesis using resolve_fact [OF c held s'] new by simp
    qed
    then show ?thesis using after by (auto simp: copies' facts_hold_def set_insert_copy)
  next
    case False
    then have "copies' = c"
      using transfer unfolding copy_transfer_def Let_def c_def [symmetric] by (cases i) auto
    then show ?thesis using after by simp
  qed
qed


section \<open>The rewriting of one instruction\<close>

lemma rename_captures_simps:
  "map snd [c \<leftarrow> rename_captures g cs. fst c = Move_capture] = map snd [c \<leftarrow> cs. fst c = Move_capture]"
  by (induction cs) (auto simp: rename_captures_def)

lemma rename_uses_parts [simp]:
  "slot_definitions (rename_uses g i) = slot_definitions i"
  "moved_captures (rename_uses g i) = moved_captures i"
  "slot_writes (rename_uses g i) = slot_writes i"
  "plain (rename_uses g i) = plain i"
  "next_index (rename_uses g i) index b = next_index i index b"
  "jump_of (rename_uses g i) = jump_of i"
  by (cases i; simp add: moved_captures_def slot_writes_def rename_captures_simps next_index_def jump_of_def)+

lemma map_captures:
  "\<forall>r. k (g r) = k r \<Longrightarrow> map (\<lambda>c. k (snd c)) (rename_captures g cs) = map (\<lambda>c. k (snd c)) cs"
  by (induction cs) (auto simp: rename_captures_def)

lemma map_registers_rename:
  assumes "\<forall>r. k (g r) = k r"
  shows "map k (visit_registers (rename_uses g i)) = map k (visit_registers i)"
    and "map k (slot_uses (rename_uses g i)) = map k (slot_uses i)"
  using assms map_captures [of k g]
  by (cases i; auto simp: comp_def case_prod_beta split: option.splits)+

lemma visit_list_const: "visit_list (\<lambda>_ s. (c, s)) xs s = (map (\<lambda>_. c) xs, s)"
  by (induction xs) auto

lemma visit_list_snd_const: "visit_list (visit_snd (\<lambda>_ s. (c, s))) xs s = (map (\<lambda>p. (fst p, c)) xs, s)"
  by (induction xs) (auto simp: visit_snd_def)

lemma shape_rename: "shape (rename_uses g i) = shape i"
proof -
  have "map (\<lambda>p. (fst p, 0)) (rename_captures g cs) = map (\<lambda>p. (fst p, 0 :: slot)) cs" for cs
    by (induction cs) (auto simp: rename_captures_def)
  then have "erase_slots (rename_uses g i) = erase_slots i"
    by (cases i) (auto simp: erase_slots_def visit1_def visit2_def visit3_def visit_list_const
        visit_list_snd_const comp_def case_prod_beta split: option.splits)
  then show ?thesis by (simp add: shape_def)
qed

lemma effect_rename:
  assumes same: "\<forall>r. \<rho> (g r) = \<rho> r" and unpinned: "\<forall>r. g r \<noteq> r \<longrightarrow> r \<notin> P \<and> g r \<notin> P"
  shows "instruction_effect I P pool (rename_uses g i) \<rho> h = instruction_effect I P pool i \<rho> h"
proof -
  have "rank P (g r) = rank P r" for r
    using unpinned by (cases "g r = r") (auto simp: rank_def)
  then have ranks: "\<forall>r. rank P (g r) = rank P r" ..
  have touch: "touches P (rename_uses g i) = touches P i"
    unfolding touches_ranks map_registers_rename(1) [OF ranks] by simp
  have run: "execute I P (rename_uses g i) vs \<rho> h = execute I P i vs \<rho> h" for vs
    unfolding execute_def shape_rename map_registers_rename(1) [OF ranks] touch rename_uses_parts ..
  have args: "operands konst pool \<rho> (rename_uses g i) = operands konst pool \<rho> i" for konst
    using map_registers_rename(2) [OF same, of i] by (cases i) (auto simp: operands_def)
  show ?thesis
    unfolding instruction_effect_def args
    using run touch same by (cases i) (auto split: option.splits)
qed

section \<open>The analysis\<close>

definition visit_settled ::
  "instruction list \<Rightarrow> nat list list \<Rightarrow> slot set \<Rightarrow> copies list \<Rightarrow> copies list \<Rightarrow> nat \<Rightarrow> bool" where
  "visit_settled is preds P ins outs i \<longleftrightarrow>
     ins ! i = incoming_copies preds outs i \<and> copy_transfer P (is ! i) (ins ! i) = Some (outs ! i)"

lemma copy_visit_settled:
  "copy_visit is preds P i (ins, outs, c) = Some (ins', outs', False) \<Longrightarrow>
   \<not> c \<and> ins' = ins \<and> outs' = outs \<and> visit_settled is preds P ins outs i"
  by (auto simp: copy_visit_def Let_def visit_settled_def)

lemma copy_round_settled:
  "fold_option (copy_visit is preds P) xs (ins, outs, c) = Some (ins', outs', False) \<Longrightarrow>
   \<not> c \<and> ins' = ins \<and> outs' = outs \<and> (\<forall>i \<in> set xs. visit_settled is preds P ins outs i)"
proof (induction xs arbitrary: ins outs c)
  case (Cons i xs)
  obtain st where st: "copy_visit is preds P i (ins, outs, c) = Some st"
    using Cons.prems by (auto split: option.splits)
  obtain ins1 outs1 c1 where "st = (ins1, outs1, c1)" by (cases st)
  then show ?case using st Cons.prems Cons.IH [of ins1 outs1 c1] copy_visit_settled [of "is" preds P i ins outs c] by auto
qed simp

definition maps_ok :: "slot set \<Rightarrow> nat \<Rightarrow> copies list \<Rightarrow> bool" where
  "maps_ok P n ms \<longleftrightarrow> length ms = n \<and> (\<forall>m \<in> set ms. copies_ok P m)"

lemma maps_ok_update: "maps_ok P n ms \<Longrightarrow> copies_ok P m \<Longrightarrow> maps_ok P n (ms[i := m])"
  by (auto simp: maps_ok_def dest: set_update_subset_insert [THEN subsetD])

lemma incoming_ok:
  assumes "maps_ok P n outs" "\<forall>j \<in> set (preds ! i). j < n"
  shows "copies_ok P (incoming_copies preds outs i)"
  using assms by (auto simp: incoming_copies_def maps_ok_def intro!: copies_ok_intersect)

lemma copy_visit_ok:
  assumes "maps_ok P n ins" "maps_ok P n outs" "\<forall>j \<in> set (preds ! i). j < n"
  shows "\<exists>ins' outs' c'. copy_visit is preds P i (ins, outs, c) = Some (ins', outs', c') \<and>
    maps_ok P n ins' \<and> maps_ok P n outs'"
proof -
  obtain m where "copy_transfer P (is ! i) (incoming_copies preds outs i) = Some m" "copies_ok P m"
    using copy_transfer_ok [OF incoming_ok [OF assms(2,3)]] by blast
  then show ?thesis using assms incoming_ok [OF assms(2,3)]
    by (auto simp: copy_visit_def Let_def intro!: maps_ok_update)
qed

lemma copy_round_ok:
  assumes "maps_ok P n ins" "maps_ok P n outs" "\<forall>i \<in> set xs. \<forall>j \<in> set (preds ! i). j < n"
  shows "\<exists>ins' outs' c'. fold_option (copy_visit is preds P) xs (ins, outs, c) = Some (ins', outs', c') \<and>
    maps_ok P n ins' \<and> maps_ok P n outs'"
  using assms
proof (induction xs arbitrary: ins outs c)
  case (Cons i xs)
  then obtain ins1 outs1 c1 where "copy_visit is preds P i (ins, outs, c) = Some (ins1, outs1, c1)"
      "maps_ok P n ins1" "maps_ok P n outs1"
    using copy_visit_ok [of P n ins outs preds i "is" c] by auto
  then show ?case using Cons by simp
qed simp

definition settled_result ::
  "instruction list \<Rightarrow> nat list list \<Rightarrow> slot set \<Rightarrow> copies list \<Rightarrow> bool" where
  "settled_result is preds P ins \<longleftrightarrow>
     (\<exists>outs. maps_ok P (length is) ins \<and> maps_ok P (length is) outs \<and>
        (\<forall>i < length is. visit_settled is preds P ins outs i))"

lemma copy_rounds_settled:
  assumes "copy_rounds is preds P st = Some ins" "maps_ok P (length is) (fst st)" "maps_ok P (length is) (snd st)"
    and closed: "\<forall>i < length is. \<forall>j \<in> set (preds ! i). j < length is"
  shows "settled_result is preds P ins"
proof -
  have "xs = is \<and> ps = preds \<and> Q = P \<and> maps_ok P (length is) (fst st) \<and> maps_ok P (length is) (snd st) \<longrightarrow>
      settled_result is preds P ins" if "copy_rounds xs ps Q st = Some ins" for xs ps Q st ins
  proof (rule copy_rounds.raw_induct [where P = "\<lambda>xs ps Q st ins. xs = is \<and> ps = preds \<and> Q = P \<and>
      maps_ok P (length is) (fst st) \<and> maps_ok P (length is) (snd st) \<longrightarrow> settled_result is preds P ins", OF _ that],
      intro impI, elim conjE)
    fix rounds xs ps Q st ins
    assume IH: "\<And>xs ps Q st ins. rounds xs ps Q st = Some ins \<Longrightarrow> xs = is \<and> ps = preds \<and> Q = P \<and>
        maps_ok P (length is) (fst st) \<and> maps_ok P (length is) (snd st) \<longrightarrow> settled_result is preds P ins"
      and body: "(case fold_option (copy_visit xs ps Q) [0..<length xs] (fst st, snd st, False) of
          None \<Rightarrow> None
        | Some (incoming, outgoing, changed) \<Rightarrow>
            if changed then rounds xs ps Q (incoming, outgoing) else Some incoming) = Some ins"
      and here: "xs = is" "ps = preds" "Q = P" and ok: "maps_ok P (length is) (fst st)" "maps_ok P (length is) (snd st)"
    obtain ins1 outs1 c1 where round:
        "fold_option (copy_visit is preds P) [0..<length is] (fst st, snd st, False) = Some (ins1, outs1, c1)"
        "maps_ok P (length is) ins1" "maps_ok P (length is) outs1"
      using copy_round_ok [OF ok, of "[0..<length is]" preds "is" False] closed by auto
    show "settled_result is preds P ins"
    proof (cases c1)
      case True
      then show ?thesis using IH [of "is" preds P "(ins1, outs1)" ins] body here round by simp
    next
      case False
      then have "\<forall>i < length is. visit_settled is preds P ins1 outs1 i"
        using round copy_round_settled [of "is" preds P "[0..<length is]" "fst st" "snd st" False ins1 outs1] by auto
      then show ?thesis using False body here round unfolding settled_result_def by auto
    qed
  qed
  then show ?thesis using assms by blast
qed


section \<open>The pass\<close>

lemma next_index_successor:
  assumes "i < length is" "\<forall>r. is ! i \<noteq> Return r" "next_index (is ! i) i b < length is"
  shows "next_index (is ! i) i b \<in> set (successors is i)"
  using assms by (cases "is ! i") (auto simp: next_index_def successors_def)

lemma incoming_facts:
  assumes "j \<noteq> 0" "i \<in> set (preds ! j)" "maps_ok P n outs" "i < n" "facts_hold (outs ! i) \<rho>"
  shows "facts_hold (incoming_copies preds outs j) \<rho>"
proof (rule facts_hold_subset [OF _ assms(5)])
  have "distinct (map fst (outs ! i))" using assms(3,4) by (simp add: maps_ok_def copies_ok_def)
  then show "set (incoming_copies preds outs j) \<subseteq> set (outs ! i)"
    using assms(1,2) by (auto simp: incoming_copies_def dest!: set_intersect [where m = "outs ! i"])
qed

definition copy_name :: "copies \<Rightarrow> slot \<Rightarrow> slot" where
  "copy_name c r = the (resolve_copy c r)"

definition copied_body :: "copies list \<Rightarrow> instruction list \<Rightarrow> instruction list" where
  "copied_body ins is = map2 (\<lambda>i c. rename_uses (copy_name c) i) is ins"

definition copied_state ::
  "slot set \<Rightarrow> nat list list \<Rightarrow> copies list \<Rightarrow> instruction list \<Rightarrow>
   ('v, 'h) machine_state \<Rightarrow> ('v, 'h) machine_state \<Rightarrow> bool" where
  "copied_state P preds ins is s t \<longleftrightarrow>
     s = t \<and> settled_result is preds P ins \<and>
     (\<forall>i < length is. \<forall>j \<in> set (successors is i). i \<in> set (preds ! j)) \<and>
     (\<forall>d s. Move d s \<in> set is \<longrightarrow> (d \<in> P \<longleftrightarrow> s \<in> P)) \<and>
     (fst s < length is \<longrightarrow> facts_hold (ins ! fst s) (fst (snd s)))"

interpretation copying: lockstep "machine_step I P pool is" "machine_step I P pool (copied_body ins is)"
  "copied_state P preds ins is" for I P pool "is" preds ins
proof
  fix s t :: "('a, 'b) machine_state"
  assume st: "copied_state P preds ins is s t"
  obtain i \<rho> h where s: "s = (i, \<rho>, h)" by (cases s)
  have t: "t = (i, \<rho>, h)" using st s by (simp add: copied_state_def)
  obtain outs where maps: "maps_ok P (length is) ins" "maps_ok P (length is) outs"
    and settled: "\<forall>i < length is. visit_settled is preds P ins outs i"
    using st by (auto simp: copied_state_def settled_result_def)
  have len: "length (copied_body ins is) = length is" using maps by (simp add: copied_body_def maps_ok_def)
  show "(\<exists>r. machine_step I P pool is s = Stop r \<and> machine_step I P pool (copied_body ins is) t = Stop r) \<or>
    (\<exists>s' t'. machine_step I P pool is s = Continue s' \<and>
      machine_step I P pool (copied_body ins is) t = Continue t' \<and> copied_state P preds ins is s' t')"
  proof (cases "i < length is")
    case False
    then show ?thesis using len by (simp add: s t machine_step_def get_def)
  next
    case True
    have ok: "copies_ok P (ins ! i)" and facts: "facts_hold (ins ! i) \<rho>"
      using True maps st s by (auto simp: maps_ok_def copied_state_def)
    have there: "copied_body ins is ! i = rename_uses (copy_name (ins ! i)) (is ! i)"
      using True maps by (simp add: copied_body_def maps_ok_def)
    have resolved: "resolve_copy (ins ! i) r = Some (copy_name (ins ! i) r)" for r
      by (simp add: copy_name_def resolve_ok [OF ok])
    have same: "instruction_effect I P pool (copied_body ins is ! i) \<rho> h = instruction_effect I P pool (is ! i) \<rho> h"
      unfolding there
      using resolve_fact [OF ok facts resolved] resolve_unpinned [OF ok resolved] by (intro effect_rename) auto
    show ?thesis
    proof (cases "instruction_effect I P pool (is ! i) \<rho> h")
      case (Stop r)
      then show ?thesis using True same len by (simp add: s t machine_step_def get_def)
    next
      case (Continue c)
      obtain \<rho>' b h' where c: "c = (\<rho>', b, h')" by (cases c)
      define j where "j = next_index (is ! i) i b"
      have "\<forall>r. is ! i \<noteq> Return r"
        using Continue by (auto simp: instruction_effect_def operands_def)
      then have edge: "i \<in> set (preds ! j)" if "j < length is"
        using that next_index_successor [OF True] True st unfolding j_def copied_state_def by blast
      have moves: "d \<in> P \<longleftrightarrow> s \<in> P" if "is ! i = Move d s" for d s
        using that True st nth_mem [of i "is"] unfolding copied_state_def by metis
      have "copy_transfer P (is ! i) (ins ! i) = Some (outs ! i)"
        using settled True unfolding visit_settled_def by blast
      then have out: "facts_hold (outs ! i) \<rho>'"
        using copy_transfer_facts [OF Continue [unfolded c] facts ok] moves by blast
      have "facts_hold (ins ! j) \<rho>'" if j: "j < length is"
      proof (cases "j = 0")
        case True
        then show ?thesis using settled j by (auto simp: visit_settled_def incoming_copies_def)
      next
        case False
        then show ?thesis
          using incoming_facts [OF False edge [OF j] maps(2) True out] settled j by (simp add: visit_settled_def)
      qed
      then have "copied_state P preds ins is (j, \<rho>', h') (j, \<rho>', h')"
        using st by (simp add: copied_state_def)
      moreover have "machine_step I P pool is s = Continue (j, \<rho>', h')"
        "machine_step I P pool (copied_body ins is) t = Continue (j, \<rho>', h')"
        using True Continue same len by (simp_all add: s t c j_def machine_step_def get_def there)
      ultimately show ?thesis by blast
    qed
  qed
qed

lemma rewrite_uses_ok:
  assumes "copies_ok P c"
  shows "\<exists>b. rewrite_uses c i = Some (b, rename_uses (copy_name c) i)"
proof -
  have "map_option_list (resolve_copy c) xs = Some (map (copy_name c) xs)" for xs
    by (rule map_option_list_all) (simp add: copy_name_def resolve_ok [OF assms])
  moreover have "(\<lambda>r. the (resolve_copy c r)) = copy_name c" by (simp add: fun_eq_iff copy_name_def)
  ultimately show ?thesis by (simp add: rewrite_uses_def)
qed

lemma rewritten_body:
  assumes "maps_ok P (length is) ins"
  shows "\<exists>rs. map_option_list (\<lambda>(i, c). rewrite_uses c i) (zip is ins) = Some rs \<and> map snd rs = copied_body ins is"
proof -
  have "\<exists>r. (\<lambda>(i, c). rewrite_uses c i) x = Some r \<and> snd r = rename_uses (copy_name (snd x)) (fst x)"
    if "x \<in> set (zip is ins)" for x
  proof -
    obtain i c where x: "x = (i, c)" by (cases x)
    then have "copies_ok P c" using that assms by (auto simp: maps_ok_def dest: set_zip_rightD)
    then show ?thesis using rewrite_uses_ok [of P c i] x by auto
  qed
  then have "\<exists>rs. map_option_list (\<lambda>(i, c). rewrite_uses c i) xs = Some rs \<and>
      map snd rs = map (\<lambda>x. rename_uses (copy_name (snd x)) (fst x)) xs" if "set xs \<subseteq> set (zip is ins)" for xs
    using that by (induction xs) fastforce+
  from this [of "zip is ins"] show ?thesis unfolding copied_body_def by (simp only: case_prod_unfold)
qed


lemma available_settled:
  assumes "available_copies f = Some ins" "pinned f = Some P"
  defines "is \<equiv> instructions (f_body f)"
  defines "preds \<equiv> predecessors (map (successors is) [0..<length is])"
  shows "settled_result is preds P ins"
    and "\<forall>i < length is. \<forall>j \<in> set (successors is i). i \<in> set (preds ! j)"
proof -
  let ?succs = "map (successors is) [0..<length is]"
  have run: "list_all (list_all (\<lambda>s. s < length ?succs)) ?succs"
    "copy_rounds is preds P (replicate (length is) [], replicate (length is) []) = Some ins"
    using assms(1,2) by (auto simp: available_copies_def Let_def is_def preds_def split: if_splits)
  have flow: "flow_ok ?succs preds" unfolding preds_def by (rule predecessors_flow [OF run(1)])
  then show "\<forall>i < length is. \<forall>j \<in> set (successors is i). i \<in> set (preds ! j)"
    by (auto simp: flow_ok_def)
  have "maps_ok P (length is) (replicate (length is) [])" by (simp add: maps_ok_def)
  then show "settled_result is preds P ins"
    using flow by (intro copy_rounds_settled [OF run(2)]) (auto simp: flow_ok_def)
qed

lemma pinned_function_moves:
  "pinned f = Some P \<Longrightarrow> Move d s \<in> set (instructions (f_body f)) \<Longrightarrow> d \<in> P \<longleftrightarrow> s \<in> P"
  by (auto simp: pinned_def pinned_moves)

text \<open>
  C8. Copy propagation, when its analysis returns, never fails and keeps what the function
  computes: under every interpretation of the operations, values and world, every start has the
  same finished runs, with the same result, final world and pinned slots. Only operands change.
\<close>

theorem copy_propagation_keeps_runs:
  assumes "available_copies f = Some ins" "pinned f = Some P"
  shows "\<exists>changed f'. propagate_function f = Some (changed, f') \<and> f' = f\<lparr>f_body := f_body f'\<rparr> \<and>
    instruction_spans (f_body f') = instruction_spans (f_body f) \<and>
    map slot_definitions (instructions (f_body f')) = map slot_definitions (instructions (f_body f)) \<and>
    same_runs I P pool f f'"
proof -
  let ?is = "instructions (f_body f)"
  note settled = available_settled [OF assms]
  then have maps: "maps_ok P (length ?is) ins" by (auto simp: settled_result_def)
  then obtain rs where rs: "map_option_list (\<lambda>(i, c). rewrite_uses c i) (zip ?is ins) = Some rs"
      "map snd rs = copied_body ins ?is"
    using rewritten_body by blast
  have "ins ! 0 = []" if "?is \<noteq> []"
    using settled(1) that by (auto simp: settled_result_def visit_settled_def incoming_copies_def)
  then have "copied_state P (predecessors (map (successors ?is) [0..<length ?is])) ins ?is (0, \<rho>, h) (0, \<rho>, h)"
    for \<rho> :: "slot \<Rightarrow> 'a" and h :: 'b
    using settled pinned_function_moves [OF assms(2)] by (simp add: copied_state_def)
  then have "body_yields I P pool (copied_body ins ?is) \<rho> h r \<longleftrightarrow> body_yields I P pool ?is \<rho> h r" for \<rho> h r
    unfolding body_yields_def by (intro copying.yields_iff [symmetric])
  moreover have "map slot_definitions (copied_body ins ?is) = map slot_definitions ?is"
    using maps by (intro nth_equalityI) (simp_all add: copied_body_def maps_ok_def)
  ultimately show ?thesis
    using assms(1) rs
    by (intro exI [of _ "list_ex fst rs"] exI [of _ "f\<lparr>f_body := (f_body f)\<lparr>instructions := copied_body ins ?is\<rparr>\<rparr>"])
      (simp add: propagate_function_def same_runs_def)
qed

section \<open>Termination\<close>

lemma fold_option_append:
  "fold_option f (xs @ ys) s = (case fold_option f xs s of None \<Rightarrow> None | Some t \<Rightarrow> fold_option f ys t)"
  by (induction xs arbitrary: s) (auto split: option.splits)

lemma copy_visit_once:
  assumes "copy_visit is preds P i (ins, outs, c) = Some (ins', outs', c')" "i < length ins" "i < length outs"
    and "i \<notin> set (preds ! i)"
  shows "visit_settled is preds P ins' outs' i" "length ins' = length ins" "length outs' = length outs"
    "\<And>j. j \<noteq> i \<Longrightarrow> ins' ! j = ins ! j \<and> outs' ! j = outs ! j"
  using assms by (auto simp: copy_visit_def Let_def visit_settled_def incoming_copies_def
      intro!: arg_cong [where f = intersect] map_cong [OF refl] nth_list_update_neq [symmetric])

lemma settled_cong:
  assumes "visit_settled is preds P ins outs i" "\<forall>j \<in> insert i (set (preds ! i)). ins' ! j = ins ! j \<and> outs' ! j = outs ! j"
  shows "visit_settled is preds P ins' outs' i"
proof -
  have same: "map (\<lambda>j. outs' ! j) (preds ! i) = map (\<lambda>j. outs ! j) (preds ! i)" using assms(2) by simp
  have "incoming_copies preds outs' i = incoming_copies preds outs i"
    unfolding incoming_copies_def same ..
  then show ?thesis using assms unfolding visit_settled_def by (metis insertI1)
qed

lemma forward_round:
  assumes "n \<le> length is" "maps_ok P (length is) ins" "maps_ok P (length is) outs"
    and forward: "\<forall>j < length is. \<forall>i \<in> set (preds ! j). i < j"
  shows "\<exists>ins' outs' c'. fold_option (copy_visit is preds P) [0..<n] (ins, outs, c) = Some (ins', outs', c') \<and>
    maps_ok P (length is) ins' \<and> maps_ok P (length is) outs' \<and>
    (\<forall>i < n. visit_settled is preds P ins' outs' i)"
  using assms(1)
proof (induction n)
  case 0
  then show ?case using assms by simp
next
  case (Suc n)
  then obtain ins1 outs1 c1 where 1: "fold_option (copy_visit is preds P) [0..<n] (ins, outs, c) = Some (ins1, outs1, c1)"
      "maps_ok P (length is) ins1" "maps_ok P (length is) outs1" "\<forall>i < n. visit_settled is preds P ins1 outs1 i"
    by auto
  have n: "n < length is" "\<forall>j \<in> set (preds ! n). j < n" using Suc.prems forward by auto
  then have "\<forall>j \<in> set (preds ! n). j < length is" by auto
  then obtain ins2 outs2 c2 where 2: "copy_visit is preds P n (ins1, outs1, c1) = Some (ins2, outs2, c2)"
      "maps_ok P (length is) ins2" "maps_ok P (length is) outs2"
    using copy_visit_ok [OF 1(2,3)] by metis
  have "n < length ins1" "n < length outs1" "n \<notin> set (preds ! n)" using 1 n by (auto simp: maps_ok_def)
  note once = copy_visit_once [OF 2(1) this]
  have "visit_settled is preds P ins2 outs2 i" if "i < Suc n" for i
  proof (cases "i = n")
    case False
    then have "i < n" using that by simp
    have "j < n" if "j \<in> set (preds ! i)" for j
      using forward n(1) that \<open>i < n\<close> by (meson less_trans)
    then have "\<forall>j \<in> insert i (set (preds ! i)). j < n" using \<open>i < n\<close> by blast
    then have "\<forall>j \<in> insert i (set (preds ! i)). j \<noteq> n" by auto
    then have "\<forall>j \<in> insert i (set (preds ! i)). ins2 ! j = ins1 ! j \<and> outs2 ! j = outs1 ! j"
      using once(4) by metis
    then show ?thesis using settled_cong [of "is" preds P ins1 outs1 i ins2 outs2] 1(4) \<open>i < n\<close> by blast
  qed (use once(1) in simp)
  moreover have "fold_option (copy_visit is preds P) [0..<Suc n] (ins, outs, c) = Some (ins2, outs2, c2)"
    using 1(1) 2(1) by (simp add: fold_option_append)
  ultimately show ?case using 2(2,3) by blast
qed

lemma copy_visit_same:
  assumes "visit_settled is preds P ins outs i"
  shows "copy_visit is preds P i (ins, outs, c) = Some (ins, outs, c)"
proof -
  have "incoming_copies preds outs i = ins ! i" "copy_transfer P (is ! i) (ins ! i) = Some (outs ! i)"
    using assms unfolding visit_settled_def by metis+
  then show ?thesis by (simp add: copy_visit_def)
qed

lemma settled_round:
  "\<forall>i \<in> set xs. visit_settled is preds P ins outs i \<Longrightarrow>
   fold_option (copy_visit is preds P) xs (ins, outs, c) = Some (ins, outs, c)"
  by (induction xs) (auto simp: copy_visit_same)


lemma forward_available:
  assumes "pinned f \<noteq> None"
    and "\<forall>i < length (instructions (f_body f)). \<forall>j \<in> set (successors (instructions (f_body f)) i).
      i < j \<and> j < length (instructions (f_body f))"
  shows "\<exists>ins. available_copies f = Some ins \<and> length ins = length (instructions (f_body f))"
proof -
  let ?is = "instructions (f_body f)"
  let ?n = "length ?is"
  define succs where "succs = map (successors ?is) [0..<?n]"
  define preds where "preds = predecessors succs"
  obtain P where P: "pinned f = Some P" using assms(1) by blast
  have len: "length succs = ?n" by (simp add: succs_def)
  have "\<forall>j \<in> set (successors ?is i). j < ?n" if "i < ?n" for i using assms(2) that by blast
  then have closed: "list_all (list_all (\<lambda>s. s < length succs)) succs"
    by (simp add: list_all_iff succs_def)
  then have "flow_ok succs preds" unfolding preds_def by (rule predecessors_flow)
  then have preds: "\<forall>j < ?n. set (preds ! j) = {i. i < ?n \<and> j \<in> set (succs ! i)}"
    unfolding flow_ok_def len by blast
  have forward: "\<forall>j < ?n. \<forall>i \<in> set (preds ! j). i < j"
  proof (intro allI impI ballI)
    fix j i
    assume "j < ?n" "i \<in> set (preds ! j)"
    then have "i < ?n" "j \<in> set (succs ! i)" using preds by blast+
    then have "j \<in> set (successors ?is i)" by (simp add: succs_def)
    then show "i < j" using assms(2) \<open>i < ?n\<close> by blast
  qed
  have empty: "maps_ok P ?n (replicate ?n [])" by (simp add: maps_ok_def)
  obtain ins outs c where 1: "fold_option (copy_visit ?is preds P) [0..<?n] (replicate ?n [], replicate ?n [], False) =
        Some (ins, outs, c)" "maps_ok P ?n ins" "\<forall>i < ?n. visit_settled ?is preds P ins outs i"
    using forward_round [OF order_refl empty empty forward, of False] by blast
  have "copy_rounds ?is preds P (ins, outs) = Some ins"
    using settled_round [of "[0..<?n]" ?is preds P ins outs False] 1(3)
    by (subst copy_rounds.simps) simp
  then have "copy_rounds ?is preds P (replicate ?n [], replicate ?n []) = Some ins"
    using 1(1) by (subst copy_rounds.simps) simp
  then show ?thesis using 1(2) P closed
    by (simp add: available_copies_def maps_ok_def Let_def preds_def succs_def)
qed

text \<open>
  The analysis of copies returns on every function whose jumps all go forward: its second
  round changes nothing.
\<close>

theorem forward_copies_return:
  assumes "pinned f \<noteq> None"
    and "\<forall>i < length (instructions (f_body f)). \<forall>j \<in> set (successors (instructions (f_body f)) i).
      i < j \<and> j < length (instructions (f_body f))"
  shows "\<exists>ins. available_copies f = Some ins \<and> length ins = length (instructions (f_body f))"
  using assms by (rule forward_available)

end
