(* ===== verification/Copy_Divergence.thy ===== *)
theory Copy_Divergence
  imports Copy_Laws
begin

text \<open>
  The analysis of copies is not monotone: a copy gained at a join can change the original a later
  copy resolves to. A short loop makes its rounds alternate between two states for ever.
\<close>

definition churning :: bytecode_function where
  "churning = slot_function 4
     [LoadConstant 2 0, LoadConstant 3 1, Move 1 2, Move 0 1, Move 2 0, Move 1 2, JumpIfFalse 3 8, Jump 3, Return 1]"

abbreviation churning_body :: "instruction list" where
  "churning_body \<equiv> instructions (f_body churning)"

definition churning_preds :: "nat list list" where
  "churning_preds = [[], [0], [1], [2, 7], [3], [4], [5], [6], [6]]"

definition churning_low :: "copies list \<times> copies list" where
  "churning_low =
     ([[], [], [], [], [(0, 1)], [(0, 1), (2, 1)], [(1, 2)], [(1, 2)], [(1, 2)]],
      [[], [], [(1, 2)], [(0, 1)], [(0, 1), (2, 1)], [(1, 2)], [(1, 2)], [(1, 2)], [(1, 2)]])"

definition churning_high :: "copies list \<times> copies list" where
  "churning_high =
     ([[], [], [], [(1, 2)], [(0, 2), (1, 2)], [(2, 0)], [(1, 0), (2, 0)], [(1, 0), (2, 0)], [(1, 0), (2, 0)]],
      [[], [], [(1, 2)], [(0, 2), (1, 2)], [(2, 0)], [(1, 0), (2, 0)], [(1, 0), (2, 0)], [(1, 0), (2, 0)],
       [(1, 0), (2, 0)]])"

lemma copy_rounds_cycle:
  assumes "fold_option (copy_visit is preds P) [0..<length is] (fst s, snd s, False) = Some (fst t, snd t, True)"
    and "fold_option (copy_visit is preds P) [0..<length is] (fst t, snd t, False) = Some (fst s, snd s, True)"
  shows "copy_rounds is preds P s = None"
proof -
  have "xs = is \<and> ps = preds \<and> Q = P \<longrightarrow> u \<noteq> s \<and> u \<noteq> t" if "copy_rounds xs ps Q u = Some ins" for xs ps Q u ins
  proof (rule copy_rounds.raw_induct [where P = "\<lambda>xs ps Q u ins. xs = is \<and> ps = preds \<and> Q = P \<longrightarrow> u \<noteq> s \<and> u \<noteq> t",
      OF _ that], intro impI, elim conjE)
    fix rounds xs ps Q u ins
    assume IH: "\<And>xs ps Q u ins. rounds xs ps Q u = Some ins \<Longrightarrow> xs = is \<and> ps = preds \<and> Q = P \<longrightarrow> u \<noteq> s \<and> u \<noteq> t"
      and body: "(case fold_option (copy_visit xs ps Q) [0..<length xs] (fst u, snd u, False) of
          None \<Rightarrow> None
        | Some (incoming, outgoing, changed) \<Rightarrow>
            if changed then rounds xs ps Q (incoming, outgoing) else Some incoming) = Some ins"
      and here: "xs = is" "ps = preds" "Q = P"
    show "u \<noteq> s \<and> u \<noteq> t"
      using IH [of "is" preds P s ins] IH [of "is" preds P t ins] body here assms by auto
  qed
  from this [of "is" preds P s] show ?thesis by (cases "copy_rounds is preds P s") blast+
qed

lemma nine: "[0..<9] = [0, 1, 2, 3, 4, 5, 6, 7, 8]" "replicate 9 x = [x, x, x, x, x, x, x, x, x]"
  by (simp_all add: upt_rec numeral_eq_Suc)

lemmas copy_visit_eval = churning_def churning_preds_def churning_low_def churning_high_def copy_visit_def
  incoming_copies_def intersect_def copy_transfer_def invalidates_copies_def moved_captures_def kill_def
  insert_copy_def slot_function_simps resolve_copy.simps nine Let_def

lemma churning_start:
  "fold_option (copy_visit churning_body churning_preds {}) [0..<9] (replicate 9 [], replicate 9 [], False) =
     Some (fst churning_low, snd churning_low, True)"
  by (simp add: copy_visit_eval)


lemma churning_rises:
  "fold_option (copy_visit churning_body churning_preds {}) [0..<9] (fst churning_low, snd churning_low, False) =
     Some (fst churning_high, snd churning_high, True)"
  by (simp add: copy_visit_eval)

lemma churning_falls:
  "fold_option (copy_visit churning_body churning_preds {}) [0..<9] (fst churning_high, snd churning_high, False) =
     Some (fst churning_low, snd churning_low, True)"
  by (simp add: copy_visit_eval)

lemma churning_pinned: "pinned churning = Some {}"
  unfolding churning_def by (rule slot_function_pinned) (simp add: pin_instruction_def)

lemma churning_predecessors:
  "predecessors (map (successors churning_body) [0..<9]) = churning_preds"
  by (simp add: churning_def churning_preds_def predecessors_def successors_def nine)

text \<open>
  C39. The analysis of copies does not always return: on a body whose jumps stay inside it and
  whose slots are all plain values, its rounds alternate between two states.
\<close>

theorem copies_can_diverge:
  "pinned churning = Some {} \<and> flow_within churning_body {..<length churning_body} \<and>
   available_copies churning = None"
proof -
  have len: "length churning_body = 9" by (simp add: churning_def)
  have "copy_rounds churning_body churning_preds {} churning_low = None"
    by (rule copy_rounds_cycle [where t = churning_high]) (simp_all add: len churning_rises churning_falls)
  then have "copy_rounds churning_body churning_preds {} (replicate 9 [], replicate 9 []) = None"
    using churning_start by (subst copy_rounds.simps) (simp add: len)
  then have "available_copies churning = None"
    using churning_predecessors by (simp add: available_copies_def churning_pinned len Let_def)
  moreover have "{..<9} = {0, 1, 2, 3, 4, 5, 6, 7, 8 :: nat}"
    using set_upt [of 0 9] unfolding nine by (simp add: lessThan_atLeast0)
  then have "flow_within churning_body {..<length churning_body}"
    unfolding len by (simp add: flow_within_def churning_def next_index_def)
  ultimately show ?thesis using churning_pinned by blast
qed


text \<open>A body on which the pass rewrites an operand, for the two theorems about the returning pass.\<close>

definition copied :: bytecode_function where
  "copied = slot_function 2 [LoadConstant 0 0, Move 1 0, Return 1]"

lemma copied_pinned: "pinned copied = Some {}"
  unfolding copied_def by (rule slot_function_pinned) (simp add: pin_instruction_def)

lemma copied_forward:
  "\<forall>i < length (instructions (f_body copied)). \<forall>j \<in> set (successors (instructions (f_body copied)) i).
     i < j \<and> j < length (instructions (f_body copied))"
  by (auto simp: copied_def successors_def less_Suc_eq numeral_eq_Suc)

theorem forward_copies_return_witness: "\<exists>ins. available_copies copied = Some ins \<and> length ins = 3"
  using forward_copies_return [OF _ copied_forward] copied_pinned by (simp add: copied_def eval_nat_numeral)

theorem copy_propagation_keeps_runs_witness:
  "\<exists>changed f'. propagate_function copied = Some (changed, f') \<and>
     same_runs constant_meaning {} [Integer_const 7] copied f'"
proof -
  obtain ins where "available_copies copied = Some ins"
    using forward_available [OF _ copied_forward] copied_pinned by auto
  from copy_propagation_keeps_runs [OF this copied_pinned, of constant_meaning "[Integer_const 7]"]
  show ?thesis by blast
qed

end
