(* ===== verification/Register_Passes.thy ===== *)
theory Register_Passes
  imports Control_Flow_Laws
begin

text \<open>
  \<open>compiler/src/vm/optimizer/registers.rs\<close>: writes that no later instruction reads are removed,
  and the slots of a function are packed by colouring their interference graph. \<open>None\<close> is a panic.
\<close>

section \<open>Dead writes\<close>

definition live_write :: "liveness_sets \<Rightarrow> slot set \<Rightarrow> nat \<times> instruction \<Rightarrow> bool" where
  "live_write l P item =
     (case item of (index, i) \<Rightarrow>
        case i of
          LoadConstant destination _ \<Rightarrow> destination \<in> live_out l ! index \<or> destination \<in> P
        | Move destination _ \<Rightarrow> destination \<in> live_out l ! index \<or> destination \<in> P
        | _ \<Rightarrow> True)"

fun shifted_positions :: "nat \<Rightarrow> nat \<Rightarrow> bool list \<Rightarrow> nat list" where
  "shifted_positions index removed [] = [index - removed]"
| "shifted_positions index removed (k # keep) =
     (index - removed) # shifted_positions (index + 1) (if k then removed else removed + 1) keep"

definition retain_without_jumps :: "bytecode_function \<Rightarrow> bool list \<Rightarrow> bytecode_function option" where
  "retain_without_jumps f keep =
     (if list_all (\<lambda>k. k) keep then Some f
      else
        case map_option_list (relink (get (shifted_positions 0 0 keep))) (instructions (f_body f)) of
          None \<Rightarrow> None
        | Some is \<Rightarrow>
            let entries = kept keep (zip is (instruction_spans (f_body f)))
            in Some (f\<lparr>f_body := body_new entries\<rparr>))"

lemma length_kept_less:
  assumes "\<not> list_all (\<lambda>k. k) keep" "length keep = length xs"
  shows "length (kept keep (zip xs ys)) < length xs"
proof -
  have "length (kept keep zs) \<le> length [k \<leftarrow> keep. k]" for zs :: "('a \<times> 'b) list"
  proof (induction keep arbitrary: zs)
    case (Cons k keep)
    show ?case using Cons.IH [of "tl zs"] by (cases zs) auto
  qed simp
  moreover have "length [k \<leftarrow> keep. k] < length keep"
    using assms(1) by (auto simp: list_all_iff intro!: length_filter_less)
  ultimately show ?thesis using assms(2) by (metis le_less_trans)
qed

lemma map_option_list_length: "map_option_list g xs = Some ys \<Longrightarrow> length ys = length xs"
  by (induction xs arbitrary: ys) (auto split: option.splits)

lemma retain_without_jumps_shrinks:
  assumes "retain_without_jumps f keep = Some f'" "\<not> list_all (\<lambda>k. k) keep"
    and "length keep = length (instructions (f_body f))"
  shows "length (instructions (f_body f')) < length (instructions (f_body f))"
proof -
  obtain "is" where "is": "map_option_list (relink (get (shifted_positions 0 0 keep))) (instructions (f_body f)) = Some is"
    "f' = f\<lparr>f_body := body_new (kept keep (zip is (instruction_spans (f_body f))))\<rparr>"
    using assms(1,2) by (auto simp: retain_without_jumps_def Let_def split: option.splits)
  then have "length is = length (instructions (f_body f))" by (simp add: map_option_list_length)
  then show ?thesis
    using "is"(2) length_kept_less [OF assms(2), of "is" "instruction_spans (f_body f)"] assms(3)
    by (simp add: body_new_def)
qed

function eliminate_function :: "bytecode_function \<Rightarrow> (bool \<times> bytecode_function) option" where
  "eliminate_function f =
     (case liveness f of
        None \<Rightarrow> None
      | Some l \<Rightarrow>
          (case pinned f of
             None \<Rightarrow> None
           | Some P \<Rightarrow>
               let keep = map (live_write l P) (enumerate 0 (instructions (f_body f)))
               in if list_all (\<lambda>k. k) keep then Some (False, f)
                  else (case retain_without_jumps f keep of
                          None \<Rightarrow> None
                        | Some f \<Rightarrow> map_option (\<lambda>(_, f). (True, f)) (eliminate_function f))))"
  by pat_completeness auto
termination
  by (relation "measure (\<lambda>f. length (instructions (f_body f)))")
    (auto dest!: retain_without_jumps_shrinks)

declare eliminate_function.simps [simp del]

definition eliminate_dead_writes :: "program \<Rightarrow> (bool \<times> program) option" where
  "eliminate_dead_writes = pass_functions eliminate_function"

section \<open>Interference\<close>

type_synonym graph = "slot \<Rightarrow> slot set"

definition add_edge :: "slot \<Rightarrow> slot \<Rightarrow> graph \<Rightarrow> graph" where
  "add_edge l r g = (if l = r then g else g(l := insert r (g l), r := insert l ((g(l := insert r (g l))) r)))"

fun add_clique :: "slot list \<Rightarrow> graph \<Rightarrow> graph" where
  "add_clique [] g = g"
| "add_clique (l # rs) g = add_clique rs (fold (add_edge l) rs g)"

text \<open>A set is iterated in increasing order; the edges do not depend on it.\<close>

definition add_instruction :: "liveness_sets \<Rightarrow> nat \<times> instruction \<Rightarrow> graph \<Rightarrow> graph" where
  "add_instruction l item g =
     (case item of (index, i) \<Rightarrow>
        let g = add_clique (sorted_list_of_set (live_in l ! index)) g;
            g = add_clique (slot_definitions i) g;
            g = add_clique (slot_uses i) g;
            g = (case i of LoadField destination obj _ _ \<Rightarrow> add_edge destination obj g | _ \<Rightarrow> g)
        in fold (\<lambda>d. fold (add_edge d) (sorted_list_of_set (live_out l ! index))) (slot_definitions i) g)"

definition used_registers :: "u16 \<Rightarrow> instruction list \<Rightarrow> slot set" where
  "used_registers prefix is = set (prefix_slots prefix) \<union> set (concat (map visit_registers is))"

definition interference :: "u16 \<Rightarrow> liveness_sets \<Rightarrow> slot set \<Rightarrow> instruction list \<Rightarrow> graph" where
  "interference prefix l P is =
     (let g = add_clique (prefix_slots prefix) (\<lambda>_. {});
          g = fold (add_instruction l) (enumerate 0 is) g
      in fold (\<lambda>pin. fold (add_edge pin) (sorted_list_of_set (used_registers prefix is))) (sorted_list_of_set P) g)"

section \<open>Colouring\<close>

type_synonym colouring = "(slot, slot) hash_map \<times> u16"

text \<open>The next colour; the increment overflows after the last one.\<close>

definition fresh_colour :: "slot \<Rightarrow> colouring \<Rightarrow> colouring option" where
  "fresh_colour r st =
     (case st of (m, next_colour) \<Rightarrow>
        if next_colour = 65535 then None else Some ((r, next_colour) # m, next_colour + 1))"

definition colour_register :: "graph \<Rightarrow> slot \<Rightarrow> colouring \<Rightarrow> colouring option" where
  "colour_register g r st =
     (case st of (m, next_colour) \<Rightarrow>
        case find (\<lambda>c. Some c \<notin> map_of m ` g r) (prefix_slots next_colour) of
          Some c \<Rightarrow> Some ((r, c) # m, next_colour)
        | None \<Rightarrow> fresh_colour r st)"

definition pinned_tail :: "u16 \<Rightarrow> slot set \<Rightarrow> slot list" where
  "pinned_tail prefix P = [r \<leftarrow> sorted_list_of_set P. r \<ge> prefix]"

text \<open>By decreasing degree, then by register: a stable sort of the increasing registers.\<close>

definition colouring_order :: "graph \<Rightarrow> slot set \<Rightarrow> slot list" where
  "colouring_order g rs = sort_key (\<lambda>r. - int (card (g r))) (sorted_list_of_set rs)"

definition colour :: "u16 \<Rightarrow> slot set \<Rightarrow> slot set \<Rightarrow> graph \<Rightarrow> colouring option" where
  "colour prefix P registers g =
     (case fold_option fresh_colour (pinned_tail prefix P) (map (\<lambda>r. (r, r)) (prefix_slots prefix), prefix) of
        None \<Rightarrow> None
      | Some (m, next_colour) \<Rightarrow>
          fold_option (colour_register g) (colouring_order g {r \<in> registers. map_of m r = None}) (m, next_colour))"

definition rename_registers :: "(slot \<Rightarrow> slot) \<Rightarrow> instruction \<Rightarrow> instruction" where
  "rename_registers m i = fst (visit_registers_mut (\<lambda>r s. (m r, s)) i ())"

text \<open>\<open>mapping[register]\<close> panics for a register without a colour.\<close>

definition rewrite_registers :: "(slot, slot) hash_map \<Rightarrow> instruction \<Rightarrow> instruction option" where
  "rewrite_registers m i =
     (if list_all (\<lambda>r. map_of m r \<noteq> None) (visit_registers i)
      then Some (rename_registers (\<lambda>r. the (map_of m r)) i) else None)"

definition compact_function :: "bytecode_function \<Rightarrow> (bool \<times> bytecode_function) option" where
  "compact_function f =
     (let is = instructions (f_body f) in
      case (frame_prefix f, liveness f, pinned f) of
        (Some prefix, Some l, Some P) \<Rightarrow>
          let registers = used_registers prefix is;
              g = interference prefix l P is
          in (case colour prefix P registers g of
                None \<Rightarrow> None
              | Some (m, next_colour) \<Rightarrow>
                  map_option
                    (\<lambda>is. (f_registers f \<noteq> next_colour \<or> list_ex (\<lambda>(before, after). before \<noteq> after) m,
                           f\<lparr>f_registers := next_colour, f_body := (f_body f)\<lparr>instructions := is\<rparr>\<rparr>))
                    (map_option_list (rewrite_registers m) is))
      | _ \<Rightarrow> None)"

definition compact :: "program \<Rightarrow> (bool \<times> program) option" where
  "compact = pass_functions compact_function"

end
