(* ===== verification/Renaming.thy ===== *)
theory Renaming
  imports Register_Passes
begin

text \<open>
  An instruction whose slots are renamed acts on the renamed slots as the original does on the
  slots, when the renaming keeps apart what the instruction writes from what is needed afterwards.
\<close>

section \<open>The parts of a renamed instruction\<close>

lemma visit_list_rename: "visit_list (\<lambda>r s. (m r, s)) xs s = (map m xs, s)"
  by (induction xs) auto

lemma visit_list_rename_snd: "visit_list (visit_snd (\<lambda>r s. (m r, s))) xs s = (map (\<lambda>p. (fst p, m (snd p))) xs, s)"
  by (induction xs) (auto simp: visit_snd_def)

lemmas rename_simps = rename_registers_def visit1_def visit2_def visit3_def visit_list_rename visit_list_rename_snd

lemma rename_parts [simp]:
  "visit_registers (rename_registers m i) = map m (visit_registers i)"
  "slot_uses (rename_registers m i) = map m (slot_uses i)"
  "slot_definitions (rename_registers m i) = map m (slot_definitions i)"
  "plain (rename_registers m i) = plain i"
  "next_index (rename_registers m i) index b = next_index i index b"
  by (cases i; auto simp: rename_simps next_index_def comp_def split: option.splits)+

lemma moved_rename [simp]: "moved_captures (rename_registers m i) = map m (moved_captures i)"
  by (cases i) (auto simp: moved_captures_def rename_simps filter_map comp_def split: option.splits)

lemma writes_rename [simp]: "slot_writes (rename_registers m i) = map m (slot_writes i)"
  by (simp add: slot_writes_def)

lemma shape_rename_registers [simp]: "shape (rename_registers m i) = shape i"
proof -
  have "erase_slots (rename_registers m i) = erase_slots i"
    by (cases i) (auto simp: erase_slots_def rename_simps comp_def split: option.splits)
  then show ?thesis by (simp add: shape_def)
qed

lemma rename_id [simp]: "rename_registers (\<lambda>r. r) i = i"
  by (cases i) (auto simp: rename_simps split: option.splits)

section \<open>Assignments and frames\<close>

lemma assign_Nil [simp]: "assign [] vs \<rho> = \<rho>"
  by (simp add: assign_def)

lemma assign_Cons [simp]: "assign (r # rs) (v # vs) \<rho> = assign rs vs (\<rho>(r := v))"
  by (simp add: assign_def)

lemma assign_append:
  "length us = length rs \<Longrightarrow> assign (rs @ qs) (us @ vs) \<rho> = assign qs vs (assign rs us \<rho>)"
  by (simp add: assign_def)

lemma assign_renamed:
  assumes "length vs = length rs" "\<forall>w \<in> set rs. m w = m r \<longrightarrow> w = r" "r \<in> set rs \<or> \<rho>' (m r) = \<rho> r"
  shows "assign (map m rs) vs \<rho>' (m r) = assign rs vs \<rho> r"
  using assms
proof (induction vs rs arbitrary: \<rho> \<rho>' rule: list_induct2)
  case (Cons v vs w rs)
  show ?case
    unfolding list.map assign_Cons by (rule Cons.IH) (use Cons.prems in auto)
qed simp

lemma rank_renamed:
  fixes m :: "slot \<Rightarrow> slot"
  assumes "\<forall>p \<in> P. m r = m p \<longrightarrow> r = p" "\<forall>p \<in> P. \<forall>q \<in> P. p < q \<longrightarrow> m p < m q"
  shows "rank (m ` P) (m r) = rank P r"
proof (cases "r \<in> P")
  case True
  have "m q < m r \<longleftrightarrow> q < r" if "q \<in> P" for q
    using assms(2) True that by (metis less_asym' linorder_neqE)
  then have "{q \<in> m ` P. q < m r} = m ` {p \<in> P. p < r}" by auto
  moreover have "inj_on m P" using assms(2) by (metis inj_onI less_irrefl linorder_neqE)
  then have "card (m ` {p \<in> P. p < r}) = card {p \<in> P. p < r}" by (auto intro!: card_image elim: inj_on_subset)
  ultimately show ?thesis using True by (simp add: rank_def)
next
  case False
  then show ?thesis using assms(1) by (auto simp: rank_def)
qed

lemma sorted_renamed:
  fixes m :: "slot \<Rightarrow> slot"
  assumes "\<forall>p \<in> P. \<forall>q \<in> P. p < q \<longrightarrow> m p < m q"
  shows "sorted_list_of_set (m ` P) = map m (sorted_list_of_set P)"
proof -
  have "sorted_wrt (<) (sorted_list_of_set P)" by (rule strict_sorted_list_of_set)
  then have "sorted_wrt (<) (map m (sorted_list_of_set P))"
    unfolding sorted_wrt_map by (rule sorted_wrt_mono_rel [rotated]) (use assms in simp)
  then show ?thesis
    by (intro strict_sorted_set_unique) (auto simp: strict_sorted_list_of_set)
qed

section \<open>The effect\<close>

text \<open>
  \<open>T\<close> are the slots needed after the instruction, \<open>P\<close> the pinned slots.
\<close>

definition renames ::
  "(slot \<Rightarrow> slot) \<Rightarrow> slot set \<Rightarrow> slot set \<Rightarrow> instruction \<Rightarrow> bool" where
  "renames m P T i \<longleftrightarrow> P \<subseteq> T \<and>
     (\<forall>p \<in> P. \<forall>r \<in> set (visit_registers i) \<union> T. m r = m p \<longrightarrow> r = p) \<and>
     (\<forall>p \<in> P. \<forall>q \<in> P. p < q \<longrightarrow> m p < m q) \<and>
     (\<forall>d \<in> set (slot_definitions i). \<forall>r \<in> T. m d = m r \<longrightarrow> d = r) \<and>
     (\<forall>u \<in> set (moved_captures i). \<forall>r \<in> T - set (slot_definitions i). m u = m r \<longrightarrow> u = r)"

definition matches :: "(slot \<Rightarrow> slot) \<Rightarrow> slot set \<Rightarrow> (slot \<Rightarrow> 'v) \<Rightarrow> (slot \<Rightarrow> 'v) \<Rightarrow> bool" where
  "matches m rs \<rho> \<rho>' \<longleftrightarrow> (\<forall>r \<in> rs. \<rho>' (m r) = \<rho> r)"

definition same_progress ::
  "(slot \<Rightarrow> slot) \<Rightarrow> slot set \<Rightarrow> ('v, 'h) effect_progress \<Rightarrow> ('v, 'h) effect_progress \<Rightarrow> bool" where
  "same_progress m T p q \<longleftrightarrow>
     (\<exists>r. p = Stop r \<and> q = Stop r) \<or>
     (\<exists>\<rho> \<rho>' b h. p = Continue (\<rho>, b, h) \<and> q = Continue (\<rho>', b, h) \<and> matches m T \<rho> \<rho>')"

lemma same_progress_simps [simp]:
  "same_progress m T (Stop r) (Stop q) \<longleftrightarrow> r = q"
  "same_progress m T (Continue (\<rho>, b, h)) (Continue (\<rho>', b', h')) \<longleftrightarrow> b = b' \<and> h = h' \<and> matches m T \<rho> \<rho>'"
  by (auto simp: same_progress_def)

lemma writes_renamed:
  assumes "renames m P T i" "matches m (T - set (slot_definitions i)) \<rho> \<rho>'"
    and "length vs = length (slot_writes i)"
  shows "matches m T (assign (slot_writes i) vs \<rho>) (assign (map m (slot_writes i)) vs \<rho>')"
proof -
  let ?ms = "moved_captures i" and ?ds = "slot_definitions i"
  define us ws where "us = take (length ?ms) vs" and "ws = drop (length ?ms) vs"
  have vs: "vs = us @ ws" "length us = length ?ms" "length ws = length ?ds"
    using assms(3) by (simp_all add: us_def ws_def slot_writes_def)
  show ?thesis
    unfolding matches_def
  proof
    fix r
    assume r: "r \<in> T"
    have "r \<in> set ?ds \<or> assign (map m ?ms) us \<rho>' (m r) = assign ?ms us \<rho> r"
      using assms(1,2) r vs(2)
      by (cases "r \<in> set ?ds") (auto simp: renames_def matches_def intro!: assign_renamed)
    then have "assign (map m ?ds) ws (assign (map m ?ms) us \<rho>') (m r) = assign ?ds ws (assign ?ms us \<rho>) r"
      using assms(1) r vs(3) by (intro assign_renamed) (auto simp: renames_def)
    then show "assign (map m (slot_writes i)) vs \<rho>' (m r) = assign (slot_writes i) vs \<rho> r"
      by (simp add: slot_writes_def vs assign_append)
  qed
qed

lemma execute_renamed:
  assumes "renames m P T i" "matches m (T - set (slot_definitions i)) \<rho> \<rho>'" "matches m P \<rho> \<rho>'"
  shows "same_progress m T (execute I P i vs \<rho> h) (execute I (m ` P) (rename_registers m i) vs \<rho>' h)"
proof -
  have mono: "\<forall>p \<in> P. \<forall>q \<in> P. p < q \<longrightarrow> m p < m q" and pins: "\<forall>p \<in> P. \<forall>r \<in> T. m p = m r \<longrightarrow> p = r"
    using assms(1) by (auto simp: renames_def) (metis UnI2)
  have "inj_on m P" using mono by (metis inj_onI less_irrefl linorder_neqE)
  then have card: "card (m ` P) = card P" by (rule card_image)
  have ranks: "map (rank (m ` P)) (map m (visit_registers i)) = map (rank P) (visit_registers i)"
    using assms(1) by (auto simp: renames_def intro!: rank_renamed)
  have touch: "touches (m ` P) (rename_registers m i) = touches P i"
    unfolding touches_ranks rename_parts ranks ..
  have frames: "frame (m ` P) \<rho>' = frame P \<rho>"
    using assms(3) by (simp add: frame_def sorted_renamed [OF mono] matches_def)
  have pinned: "matches m T (assign (sorted_list_of_set P) ps \<mu>) (assign (sorted_list_of_set (m ` P)) ps \<mu>')"
    if "matches m T \<mu> \<mu>'" "length ps = card P" for ps \<mu> \<mu>'
    unfolding matches_def sorted_renamed [OF mono]
    using that pins by (auto simp: matches_def intro!: assign_renamed)
  show ?thesis
  proof (cases "operate I (shape i) (map (rank P) (visit_registers i)) vs (if touches P i then frame P \<rho> else []) h")
    case None
    then show ?thesis
      unfolding execute_def rename_parts ranks touch frames shape_rename_registers by (simp add: same_progress_def)
  next
    case (Some out)
    obtain ws ps b h' where out: "out = (ws, ps, b, h')" by (cases out)
    show ?thesis
      using Some pinned writes_renamed [OF assms(1,2), of ws]
      unfolding execute_def rename_parts writes_rename ranks touch frames shape_rename_registers out card
      by (auto simp: same_progress_def Let_def)
  qed
qed

lemma touches_renamed:
  assumes "renames m P T i"
  shows "touches (m ` P) (rename_registers m i) = touches P i"
proof -
  have "map (rank (m ` P)) (map m (visit_registers i)) = map (rank P) (visit_registers i)"
    using assms by (auto simp: renames_def intro!: rank_renamed)
  then show ?thesis unfolding touches_ranks rename_parts by simp
qed

lemma effect_renamed:
  assumes "renames m P T i"
    and "matches m (set (slot_uses i) \<union> (T - set (slot_definitions i)) \<union> P) \<rho> \<rho>'"
  shows "same_progress m T (instruction_effect I P pool i \<rho> h)
    (instruction_effect I (m ` P) pool (rename_registers m i) \<rho>' h)"
proof -
  have run: "same_progress m T (execute I P i vs \<rho> h) (execute I (m ` P) (rename_registers m i) vs \<rho>' h)" for vs
    using execute_renamed [OF assms(1), of \<rho> \<rho>' I vs h] assms(2) by (auto simp: matches_def)
  have uses: "map \<rho>' (map m (slot_uses i)) = map \<rho> (slot_uses i)"
    using assms(2) by (auto simp: matches_def)
  have mono: "\<forall>p \<in> P. \<forall>q \<in> P. p < q \<longrightarrow> m p < m q" using assms(1) by (auto simp: renames_def)
  have frames: "frame (m ` P) \<rho>' = frame P \<rho>"
    using assms(2) by (simp add: frame_def sorted_renamed [OF mono] matches_def)
  have args: "operands konst pool \<rho>' (rename_registers m i) = operands konst pool \<rho> i" for konst
    using uses by (cases i) (auto simp: operands_def rename_simps split: option.splits)
  have written: "matches m T (\<rho>(d := v)) (\<rho>'(m d := v))" if "slot_definitions i = [d]" for d v
    using assms that by (auto simp: renames_def matches_def)
  have idle: "\<forall>r \<in> T. \<rho>' (m r) = \<rho> r" if "slot_definitions i = []"
    using assms(2) that by (simp add: matches_def)
  have same: "\<rho>' (m r) = \<rho> r" if "r \<in> set (slot_uses i)" for r
    using that assms(2) by (simp add: matches_def)
  show ?thesis
  proof (cases "operands (constant_of I) pool \<rho> i")
    case None
    then show ?thesis unfolding instruction_effect_def args by simp
  next
    case (Some vs)
    show ?thesis
      unfolding instruction_effect_def args touches_renamed [OF assms(1), symmetric] Some option.case
      using run [of vs] frames written same idle unfolding touches_renamed [OF assms(1), symmetric]
      by (cases i) (simp_all add: rename_simps comp_def matches_def split: option.splits)
  qed
qed

end
