(* ===== verification/Dead_Writes.thy ===== *)
theory Dead_Writes
  imports Renaming
begin

text \<open>Eliminating dead writes ends, keeps what a function computes and leaves no dead write.\<close>

section \<open>Liveness of a function\<close>

text \<open>The equations of a liveness result the passes rely on.\<close>

definition liveness_ok :: "instruction list \<Rightarrow> liveness_sets \<Rightarrow> bool" where
  "liveness_ok is l \<longleftrightarrow> length (live_in l) = length is \<and> length (live_out l) = length is \<and>
     (\<forall>i < length is. live_in l ! i \<union> live_out l ! i \<subseteq> set (concat (map slot_uses is)) \<and>
        set (slot_uses (is ! i)) \<subseteq> live_in l ! i \<and>
        live_out l ! i - set (slot_definitions (is ! i)) \<subseteq> live_in l ! i \<and>
        (\<forall>j \<in> set (successors is i). live_in l ! j \<subseteq> live_out l ! i))"

lemma liveness_okD:
  assumes "liveness_ok is l" "i < length is"
  shows "set (slot_uses (is ! i)) \<subseteq> live_in l ! i"
    and "live_out l ! i - set (slot_definitions (is ! i)) \<subseteq> live_in l ! i"
    and "j \<in> set (successors is i) \<Longrightarrow> live_in l ! j \<subseteq> live_out l ! i"
    and "live_in l ! i \<union> live_out l ! i \<subseteq> set (concat (map slot_uses is))"
  using assms unfolding liveness_ok_def by blast+

lemma live_at_used:
  assumes "live_at is [] {} i r" "jumps_closed is" "i < length is"
  shows "r \<in> set (concat (map slot_uses is))"
  using assms
proof (induction rule: live_at.induct)
  case (reads r i)
  have "set (instruction_reads [] {} x) = set (slot_uses x)" for x
    by (cases x) (simp_all add: instruction_reads_def)
  then show ?case using reads nth_mem [of i "is"] by auto
next
  case (flows j i r)
  then show ?case by (auto simp: jumps_closed_def list_all_iff)
qed

lemma liveness_total:
  assumes "jumps_closed (instructions (f_body f))"
  shows "\<exists>l. liveness f = Some l \<and> liveness_ok (instructions (f_body f)) l"
proof -
  let ?is = "instructions (f_body f)"
  obtain l where l: "liveness f = Some l"
    and ins: "live_in l = map (\<lambda>i. {r. live_at ?is [] {} i r}) [0..<length ?is]"
    and outs: "live_out l = map (\<lambda>i. {r. \<exists>j \<in> set (successors ?is i). live_at ?is [] {} j r}) [0..<length ?is]"
    using liveness_path_sets [OF assms, of "[]" "{}"]
    by (auto simp: liveness_def liveness_with_exit_uses_def)
  have closed: "j < length ?is" if "i < length ?is" "j \<in> set (successors ?is i)" for i j
    using assms that by (auto simp: jumps_closed_def list_all_iff)
  have "liveness_ok ?is l"
    unfolding liveness_ok_def
  proof (intro conjI allI impI ballI)
    fix i
    assume i: "i < length ?is"
    show "live_in l ! i \<union> live_out l ! i \<subseteq> set (concat (map slot_uses ?is))"
      using i live_at_used [OF _ assms] closed [OF i] by (auto simp: ins outs)
    show "set (slot_uses (?is ! i)) \<subseteq> live_in l ! i"
      using i by (auto simp: ins instruction_reads_def intro: reads)
    show "live_out l ! i - set (slot_definitions (?is ! i)) \<subseteq> live_in l ! i"
      using i by (auto simp: ins outs intro: flows)
    show "live_in l ! j \<subseteq> live_out l ! i" if "j \<in> set (successors ?is i)" for j
      using i that closed [OF i that] by (auto simp: ins outs)
  qed (simp_all add: ins outs)
  with l show ?thesis by blast
qed

lemma next_successor:
  assumes "flow_within is R" "i \<in> R" "\<forall>r. is ! i \<noteq> Return r"
  shows "next_index (is ! i) i b \<in> set (successors is i)"
proof -
  have "next_index (is ! i) i b < length is" using assms by (auto simp: flow_within_def)
  then show ?thesis using assms(3) by (cases "is ! i") (auto simp: next_index_def successors_def)
qed

lemma flow_jumps_closed: "flow_within is {..<length is} \<Longrightarrow> jumps_closed is"
  unfolding jumps_closed_def list_all_iff
proof (intro ballI)
  fix i j
  assume flow: "flow_within is {..<length is}" and i: "i \<in> set [0..<length is]" and j: "j \<in> set (successors is i)"
  have "\<exists>b. j = next_index (is ! i) i b" "\<forall>r. is ! i \<noteq> Return r"
    using i j by (cases "is ! i"; auto simp: successors_def next_index_def split: if_splits intro: exI [of _ False] exI [of _ True])+
  then show "j < length is" using flow i by (auto simp: flow_within_def)
qed

section \<open>Positions\<close>

lemma shifted_positions_nth:
  "removed \<le> index \<Longrightarrow> t \<le> length keep \<Longrightarrow>
   get (shifted_positions index removed keep) t = Some (index - removed + kept_before keep t)"
proof (induction keep arbitrary: index removed t)
  case (Cons k keep)
  show ?case
  proof (cases t)
    case (Suc u)
    then have "get (shifted_positions index removed (k # keep)) t =
        get (shifted_positions (index + 1) (if k then removed else removed + 1) keep) u"
      by (simp add: get_def)
    then show ?thesis using Cons Suc by (auto simp: Suc_diff_le)
  qed (simp add: get_def)
qed (simp add: get_def)

lemma length_shifted_positions [simp]: "length (shifted_positions index removed keep) = Suc (length keep)"
  by (induction keep arbitrary: index removed) auto

lemma kept_map: "kept keep (map f xs) = map f (kept keep xs)"
  by (induction xs arbitrary: keep) (simp, case_tac keep, auto)

lemma retain_without_jumps_body:
  assumes "body_ok (f_body f)" "length keep = length (instructions (f_body f))" "\<not> list_all (\<lambda>k. k) keep"
    and "flow_within (instructions (f_body f)) {..<length keep}"
  shows "\<exists>f'. retain_without_jumps f keep = Some f' \<and> f' = f\<lparr>f_body := f_body f'\<rparr> \<and> body_ok (f_body f') \<and>
    instructions (f_body f') = map (redirect (kept_before keep)) (kept keep (instructions (f_body f)))"
proof -
  let ?is = "instructions (f_body f)"
  have "relink (get (shifted_positions 0 0 keep)) x = Some (redirect (kept_before keep) x)" if x: "x \<in> set ?is" for x
  proof (cases "jump_of x")
    case None
    then show ?thesis by (cases x) (auto simp: relink_def redirect_def jump_of_def)
  next
    case (Some t)
    obtain i where i: "i < length ?is" "?is ! i = x" using x by (auto simp: in_set_conv_nth)
    have "\<forall>r. x \<noteq> Return r" "t = next_index x i False"
      using Some by (cases x; simp add: jump_of_def next_index_def)+
    then have "t < length keep" using assms(4) i assms(2) by (auto simp: flow_within_def)
    then show ?thesis using Some shifted_positions_nth [of 0 0 t keep]
      by (cases x) (auto simp: relink_def redirect_def jump_of_def)
  qed
  then have "map_option_list (relink (get (shifted_positions 0 0 keep))) ?is = Some (map (redirect (kept_before keep)) ?is)"
    by (rule map_option_list_all)
  then show ?thesis
    using assms by (simp add: retain_without_jumps_def body_new_def body_ok_def kept_zip kept_map length_kept)
qed

section \<open>One removal\<close>

text \<open>What a removal of dead writes needs of the body.\<close>

definition dead_removal_ok ::
  "slot set \<Rightarrow> liveness_sets \<Rightarrow> program_constant list \<Rightarrow> instruction list \<Rightarrow> bool" where
  "dead_removal_ok P l pool is \<longleftrightarrow>
     flow_within is {..<length is} \<and> liveness_ok is l \<and>
     (\<forall>d s. Move d s \<in> set is \<longrightarrow> (d \<in> P \<longleftrightarrow> s \<in> P)) \<and>
     (\<forall>d c. LoadConstant d c \<in> set is \<longrightarrow> unat c < length pool)"

definition live_marks :: "liveness_sets \<Rightarrow> slot set \<Rightarrow> instruction list \<Rightarrow> bool list" where
  "live_marks l P is = map (live_write l P) (enumerate 0 is)"

lemma live_marks_nth [simp]:
  "length (live_marks l P is) = length is"
  "i < length is \<Longrightarrow> live_marks l P is ! i = live_write l P (i, is ! i)"
  by (simp_all add: live_marks_def nth_enumerate_eq)

lemma dead_write_cases:
  assumes "\<not> live_write l P (i, x)"
  obtains d c where "x = LoadConstant d c" "d \<notin> live_out l ! i" "d \<notin> P"
  | d s where "x = Move d s" "d \<notin> live_out l ! i" "d \<notin> P"
  using assms by (cases x) (auto simp: live_write_def)

lemma dead_shape: "flow_within is {..<length is} \<Longrightarrow> removal_shape is (live_marks l P is) {..<length is}"
  by (auto simp: removal_shape_def next_index_def elim!: dead_write_cases)

lemma dead_write_step:
  assumes ok: "dead_removal_ok P l pool is" and i: "i < length is" "\<not> live_marks l P is ! i"
    and agree: "matches (\<lambda>r. r) (live_in l ! i \<union> P) \<rho> \<rho>'"
  shows "\<exists>\<rho>1. machine_step I P pool is (i, \<rho>, h) = Continue (Suc i, \<rho>1, h) \<and>
    Suc i < length is \<and> matches (\<lambda>r. r) (live_in l ! Suc i \<union> P) \<rho>1 \<rho>'"
proof -
  have flow: "flow_within is {..<length is}" and live: "liveness_ok is l"
    using ok by (auto simp: dead_removal_ok_def)
  have dead: "\<not> live_write l P (i, is ! i)" using i by simp
  then have gone: "\<forall>r. is ! i \<noteq> Return r" "\<And>b. next_index (is ! i) i b = Suc i"
    by (auto elim!: dead_write_cases simp: next_index_def)
  then have after: "Suc i < length is" "Suc i \<in> set (successors is i)"
    using flow i(1) next_successor [OF flow, of i True] by (auto simp: flow_within_def)
  obtain d where d: "set (slot_definitions (is ! i)) = {d}" "d \<notin> live_out l ! i" "d \<notin> P"
    using dead by (auto elim!: dead_write_cases)
  have sub: "live_in l ! Suc i \<subseteq> live_out l ! i" "live_out l ! i - {d} \<subseteq> live_in l ! i"
    using liveness_okD(3) [OF live i(1) after(2)] liveness_okD(2) [OF live i(1)] d(1) by auto
  have "\<exists>v. instruction_effect I P pool (is ! i) \<rho> h = Continue (\<rho>(d := v), True, h)"
    using dead
  proof (cases rule: dead_write_cases)
    case (1 d' c)
    then have "unat c < length pool" using ok nth_mem [OF i(1)] by (auto simp: dead_removal_ok_def)
    then show ?thesis using 1 d
      by (intro exI [of _ "constant_of I (pool ! unat c)"]) (simp add: instruction_effect_def operands_def get_def touches_def)
  next
    case (2 d' s)
    then have "s \<notin> P" using ok nth_mem [OF i(1)] by (auto simp: dead_removal_ok_def)
    then show ?thesis using 2 d
      by (intro exI [of _ "\<rho> s"]) (simp add: instruction_effect_def operands_def touches_def)
  qed
  then obtain v where v: "instruction_effect I P pool (is ! i) \<rho> h = Continue (\<rho>(d := v), True, h)" by blast
  have "matches (\<lambda>r. r) (live_in l ! Suc i \<union> P) (\<rho>(d := v)) \<rho>'"
    using agree d(2,3) sub by (auto simp: matches_def)
  then show ?thesis using v after i(1) gone(2) by (auto simp: machine_step_def get_def)
qed


text \<open>The states of the two machines agree on the slots that are live, and on the pinned ones.\<close>

definition trimmed_state ::
  "slot set \<Rightarrow> liveness_sets \<Rightarrow> program_constant list \<Rightarrow> instruction list \<Rightarrow> nat \<Rightarrow>
   ('v, 'h) machine_state \<Rightarrow> ('v, 'h) machine_state \<Rightarrow> bool" where
  "trimmed_state P l pool is n s t \<longleftrightarrow>
     dead_removal_ok P l pool is \<and> fst s < length is \<and> fst t = kept_before (live_marks l P is) (fst s) \<and>
     matches (\<lambda>r. r) (live_in l ! fst s \<union> P) (fst (snd s)) (fst (snd t)) \<and> snd (snd t) = snd (snd s) \<and>
     n = length is - fst s"

lemma renames_same: "P \<subseteq> T \<Longrightarrow> renames (\<lambda>r. r) P T i"
  by (auto simp: renames_def)

lemma effect_same:
  assumes "matches (\<lambda>r. r) (set (slot_uses i) \<union> (T - set (slot_definitions i)) \<union> P) \<rho> \<rho>'" "P \<subseteq> T"
  shows "same_progress (\<lambda>r. r) T (instruction_effect I P pool i \<rho> h) (instruction_effect I P pool i \<rho>' h)"
  using effect_renamed [OF renames_same [OF assms(2)] assms(1)] by simp

interpretation trimming: stuttering "machine_step I P pool is"
  "machine_step I P pool (map (redirect (kept_before (live_marks l P is))) (kept (live_marks l P is) is))"
  "trimmed_state P l pool is" for I P pool "is" l
proof
  fix n and s t :: "('a, 'b) machine_state"
  let ?keep = "live_marks l P is" and ?step = "machine_step I P pool is"
  let ?step' = "machine_step I P pool (map (redirect (kept_before ?keep)) (kept ?keep is))"
  assume st: "trimmed_state P l pool is n s t"
  obtain i \<rho> h where s: "s = (i, \<rho>, h)" by (cases s)
  obtain \<rho>' where t: "t = (kept_before ?keep i, \<rho>', h)" using st s by (cases t) (auto simp: trimmed_state_def)
  have ok: "dead_removal_ok P l pool is" "i < length is" "n = length is - i"
    and same: "matches (\<lambda>r. r) (live_in l ! i \<union> P) \<rho> \<rho>'"
    using st s t by (auto simp: trimmed_state_def)
  have flow: "flow_within is {..<length is}" and live: "liveness_ok is l"
    using ok(1) by (auto simp: dead_removal_ok_def)
  show "(\<exists>r. ?step s = Stop r \<and> ?step' t = Stop r) \<or>
    (\<exists>s' t' k. ?step s = Continue s' \<and> ?step' t = Continue t' \<and> trimmed_state P l pool is k s' t') \<or>
    (\<exists>s' k. ?step s = Continue s' \<and> k < n \<and> trimmed_state P l pool is k s' t)"
  proof (cases "?keep ! i")
    case False
    obtain \<rho>1 where 1: "?step s = Continue (Suc i, \<rho>1, h)" "Suc i < length is"
        "matches (\<lambda>r. r) (live_in l ! Suc i \<union> P) \<rho>1 \<rho>'"
      using dead_write_step [OF ok(1,2) False same] s by metis
    then have "trimmed_state P l pool is (length is - Suc i) (Suc i, \<rho>1, h) t"
      using ok False by (simp add: trimmed_state_def t kept_before_Suc)
    then show ?thesis using 1(1) ok(2,3) by (meson diff_less_mono2 lessI)
  next
    case True
    let ?T = "live_out l ! i \<union> P"
    have "matches (\<lambda>r. r) (set (slot_uses (is ! i)) \<union> (?T - set (slot_definitions (is ! i))) \<union> P) \<rho> \<rho>'"
      using same liveness_okD [OF live ok(2)] by (auto simp: matches_def)
    then have effect: "same_progress (\<lambda>r. r) ?T (instruction_effect I P pool (is ! i) \<rho> h)
        (instruction_effect I P pool (is ! i) \<rho>' h)"
      by (rule effect_same) simp
    have there: "get (map (redirect (kept_before ?keep)) (kept ?keep is)) (kept_before ?keep i) =
        Some (redirect (kept_before ?keep) (is ! i))"
      using kept_get [of ?keep "is" i] ok(2) True by simp
    show ?thesis
      using effect unfolding same_progress_def
    proof (elim disjE exE conjE)
      fix r
      assume "instruction_effect I P pool (is ! i) \<rho> h = Stop r" "instruction_effect I P pool (is ! i) \<rho>' h = Stop r"
      then show ?thesis using ok(2) there by (simp add: s t machine_step_def get_def)
    next
      fix \<rho>1 \<rho>1' b h'
      assume 1: "instruction_effect I P pool (is ! i) \<rho> h = Continue (\<rho>1, b, h')"
        "instruction_effect I P pool (is ! i) \<rho>' h = Continue (\<rho>1', b, h')" "matches (\<lambda>r. r) ?T \<rho>1 \<rho>1'"
      let ?j = "next_index (is ! i) i b"
      have "\<forall>r. is ! i \<noteq> Return r" using 1(1) by (auto simp: instruction_effect_def operands_def)
      then have j: "?j < length is" "?j \<in> set (successors is i)"
        using flow ok(2) next_successor [OF flow, of i b] by (auto simp: flow_within_def)
      have "next_index (redirect (kept_before ?keep) (is ! i)) (kept_before ?keep i) b = kept_before ?keep ?j"
        using ok(2) True by (intro next_index_redirect) simp_all
      moreover have "matches (\<lambda>r. r) (live_in l ! ?j \<union> P) \<rho>1 \<rho>1'"
        using 1(3) liveness_okD(3) [OF live ok(2) j(2)] by (auto simp: matches_def)
      ultimately have "trimmed_state P l pool is (length is - ?j) (?j, \<rho>1, h') (kept_before ?keep ?j, \<rho>1', h')"
        using ok(1) j(1) by (simp add: trimmed_state_def)
      then show ?thesis
        using 1 ok(2) there \<open>next_index (redirect (kept_before ?keep) (is ! i)) (kept_before ?keep i) b = kept_before ?keep ?j\<close>
        by (auto simp: s t machine_step_def get_def)
    qed
  qed
qed


section \<open>The pass\<close>

lemma kept_cases: "x \<in> set xs \<Longrightarrow> length keep = length xs \<Longrightarrow> x \<in> set (kept keep xs) \<or> (\<exists>i < length xs. xs ! i = x \<and> \<not> keep ! i)"
proof -
  assume "x \<in> set xs" "length keep = length xs"
  then obtain i where i: "i < length xs" "xs ! i = x" by (auto simp: in_set_conv_nth)
  show ?thesis
  proof (cases "keep ! i")
    case True
    then have "kept keep xs ! kept_before keep i = x" "kept_before keep i < length (kept keep xs)"
      using i \<open>length keep = length xs\<close> kept_nth [of xs keep i] length_kept [of xs keep]
        kept_before_strict [of i "length keep" keep] by auto
    then show ?thesis by (metis nth_mem)
  qed (use i in blast)
qed

lemma pin_redirect [simp]: "pin_instruction (redirect g i) = pin_instruction i"
  by (cases i) (auto simp: pin_instruction_def redirect_def)

lemma pin_closure_same:
  assumes "\<And>d s. Move d s \<in> set js \<Longrightarrow> Move d s \<in> set is"
    and "\<And>d s. Move d s \<in> set is \<Longrightarrow> Move d s \<in> set js \<or> d \<notin> pin_closure is X \<and> s \<notin> pin_closure is X"
  shows "pin_closure js X = pin_closure is X"
proof
  show sub: "pin_closure js X \<subseteq> pin_closure is X"
    by (rule pin_closure_least) (use assms(1) pin_closure_increases pin_closure_moves in blast)+
  show "pin_closure is X \<subseteq> pin_closure js X"
    by (rule pin_closure_least) (use sub assms(2) pin_closure_increases pin_closure_moves in blast)+
qed

lemma trimmed_pinned:
  fixes l :: liveness_sets and prefix :: u16 and "is" :: "instruction list"
  defines "P \<equiv> pinned_slots prefix is"
  defines "keep \<equiv> live_marks l P is"
  shows "pinned_slots prefix (map (redirect g) (kept keep is)) = P"
proof -
  let ?js = "map (redirect g) (kept keep is)"
  have gone: "\<not> live_write l P (i, is ! i)" if "i < length is" "\<not> keep ! i" for i
    using that by (simp add: keep_def)
  have pins: "set (concat (map pin_instruction ?js)) = set (concat (map pin_instruction is))"
  proof -
    have "set (kept keep is) \<subseteq> set is" by (auto simp: kept_def dest: set_zip_leftD)
    moreover have "pin_instruction x = []" if "x \<in> set is" "x \<notin> set (kept keep is)" for x
      using kept_cases [of x "is" keep] that gone
      by (auto simp: keep_def pin_instruction_def elim!: dead_write_cases)
    ultimately show ?thesis by (auto simp: comp_def) (metis empty_iff empty_set)
  qed
  have "pin_closure ?js X = pin_closure is X" if X: "pin_closure is X = P" for X
  proof (rule pin_closure_same)
    fix d s
    show "Move d s \<in> set ?js \<Longrightarrow> Move d s \<in> set is"
      by (auto simp: kept_def redirect_def dest: set_zip_leftD split: instruction.splits)
    assume move: "Move d s \<in> set is"
    have "Move d s \<in> set ?js" if "Move d s \<in> set (kept keep is)"
      using that by (auto simp: redirect_def intro!: image_eqI [of _ _ "Move d s"])
    moreover have "d \<notin> P \<and> s \<notin> P" if "i < length is" "is ! i = Move d s" "\<not> keep ! i" for i
      using gone [OF that(1,3)] that(2) pinned_moves [OF move, of prefix]
      by (auto simp: P_def elim!: dead_write_cases)
    ultimately show "Move d s \<in> set ?js \<or> d \<notin> pin_closure is X \<and> s \<notin> pin_closure is X"
      using kept_cases [OF move, of keep] X by (auto simp: keep_def)
  qed
  then show ?thesis using pins by (simp add: P_def pinned_slots_def)
qed

lemma same_runs_trans: "same_runs I P pool f g \<Longrightarrow> same_runs I P pool g k \<Longrightarrow> same_runs I P pool f k"
  by (simp add: same_runs_def)

lemma loads_kept:
  "LoadConstant d c \<in> set (map (redirect g) (kept keep is)) \<Longrightarrow> LoadConstant d c \<in> set is"
  by (auto simp: kept_def redirect_def dest: set_zip_leftD split: instruction.splits)

lemma eliminate_correct:
  assumes "body_ok (f_body f)" "pinned f = Some P" "instructions (f_body f) \<noteq> []"
    and "flow_within (instructions (f_body f)) {..<length (instructions (f_body f))}"
    and "\<forall>d c. LoadConstant d c \<in> set (instructions (f_body f)) \<longrightarrow> unat c < length pool"
  shows "\<exists>changed f' l. eliminate_function f = Some (changed, f') \<and> body_ok (f_body f') \<and>
    f' = f\<lparr>f_body := f_body f'\<rparr> \<and> same_runs I P pool f f' \<and> pinned f' = Some P \<and>
    liveness f' = Some l \<and> list_all (\<lambda>k. k) (live_marks l P (instructions (f_body f')))"
  using assms
proof (induction f rule: eliminate_function.induct)
  case (1 f)
  let ?is = "instructions (f_body f)"
  obtain l where l: "liveness f = Some l" "liveness_ok ?is l"
    using liveness_total [OF flow_jumps_closed] 1(5) by blast
  let ?keep = "live_marks l P ?is"
  have marks: "map (live_write l P) (enumerate 0 ?is) = ?keep" by (simp add: live_marks_def)
  show ?case
  proof (cases "list_all (\<lambda>k. k) ?keep")
    case True
    then have "eliminate_function f = Some (False, f)"
      using l(1) 1(3) marks by (subst eliminate_function.simps) simp
    then show ?thesis using 1 l True by (intro exI conjI) (auto simp: same_runs_def)
  next
    case False
    obtain f1 where f1: "retain_without_jumps f ?keep = Some f1" "f1 = f\<lparr>f_body := f_body f1\<rparr>" "body_ok (f_body f1)"
        "instructions (f_body f1) = map (redirect (kept_before ?keep)) (kept ?keep ?is)"
      using retain_without_jumps_body [OF 1(2) _ False] 1(5) by auto
    have shape: "removal_shape ?is ?keep {..<length ?is}" by (rule dead_shape [OF 1(5)])
    have flow: "flow_within (instructions (f_body f1)) {..<length (instructions (f_body f1))}"
      unfolding f1(4) by (rule removal_closed [OF shape]) simp
    obtain k where "k < length ?keep" "?keep ! k" using kept_ahead [OF shape, of 0] 1(4) by auto
    then have nonempty: "instructions (f_body f1) \<noteq> []"
      unfolding f1(4) using kept_get [of ?keep ?is k] by (auto simp: get_def split: if_splits)
    have P: "P = pinned_slots (the (frame_prefix f)) ?is" "frame_prefix f1 = frame_prefix f" "frame_prefix f \<noteq> None"
      using 1(3) f1(2) by (auto simp: pinned_def) (metis bytecode_function.select_convs(3,5) bytecode_function.surjective
          bytecode_function.update_convs(9) frame_prefix_def parameter_count_def)
    then have pinned: "pinned f1 = Some P"
      using trimmed_pinned [of "the (frame_prefix f)" _ l ?is] f1(4)
      by (auto simp: pinned_def)
    have loads: "\<forall>d c. LoadConstant d c \<in> set (instructions (f_body f1)) \<longrightarrow> unat c < length pool"
      using 1(6) loads_kept unfolding f1(4) by blast
    have ok: "dead_removal_ok P l pool ?is"
      using 1(3,5,6) l(2) by (auto simp: dead_removal_ok_def pinned_def pinned_moves)
    have "trimmed_state P l pool ?is (length ?is) (0, \<rho>, h) (0, \<rho>, h)" for \<rho> :: "slot \<Rightarrow> 'a" and h :: 'b
      using ok 1(4) by (simp add: trimmed_state_def matches_def)
    then have runs: "same_runs I P pool f f1"
      unfolding same_runs_def body_yields_def f1(4) by (intro allI trimming.yields_iff [symmetric])
    have step: "eliminate_function f = map_option (\<lambda>(_, f). (True, f)) (eliminate_function f1)"
      using l(1) 1(3) marks False f1(1) by (subst eliminate_function.simps) simp
    obtain changed f' l' where "eliminate_function f1 = Some (changed, f')" "body_ok (f_body f')"
        "f' = f1\<lparr>f_body := f_body f'\<rparr>" "same_runs I P pool f1 f'" "pinned f' = Some P"
        "liveness f' = Some l'" "list_all (\<lambda>k. k) (live_marks l' P (instructions (f_body f')))"
      using 1(1) [OF l(1) 1(3) marks [symmetric] False f1(1) f1(3) pinned nonempty flow loads] by blast
    moreover then have "f' = f\<lparr>f_body := f_body f'\<rparr>"
      using f1(2) by (metis bytecode_function.update_convs(9) bytecode_function.surjective)
    ultimately show ?thesis using step same_runs_trans [OF runs] by auto
  qed
qed

text \<open>
  C5. The elimination of dead writes ends on every function whose control flow stays inside its
  body and whose loads name constants of the table. It changes only the body, keeps the pinned
  slots and every finished run, with its result, and in the result no load or move writes a slot
  that is neither live afterwards nor pinned.
\<close>

theorem dead_writes_eliminated:
  assumes "body_ok (f_body f)" "pinned f = Some P" "instructions (f_body f) \<noteq> []"
    and "flow_within (instructions (f_body f)) {..<length (instructions (f_body f))}"
    and "\<forall>d c. LoadConstant d c \<in> set (instructions (f_body f)) \<longrightarrow> unat c < length pool"
  shows "\<exists>changed f' l. eliminate_function f = Some (changed, f') \<and> body_ok (f_body f') \<and>
    f' = f\<lparr>f_body := f_body f'\<rparr> \<and> same_runs I P pool f f' \<and> pinned f' = Some P \<and>
    liveness f' = Some l \<and> list_all (live_write l P) (enumerate 0 (instructions (f_body f')))"
  using eliminate_correct [OF assms, of I] by (simp add: live_marks_def list_all_length)

definition overwritten :: bytecode_function where
  "overwritten = slot_function 3 [LoadConstant 0 0, Move 1 0, LoadConstant 2 0, Return 2]"

theorem dead_writes_eliminated_witness:
  "\<exists>changed f'. eliminate_function overwritten = Some (changed, f') \<and> body_ok (f_body f') \<and>
     same_runs constant_meaning {} [Integer_const 7] overwritten f'"
proof -
  let ?is = "[LoadConstant 0 0, Move 1 0, LoadConstant 2 0, Return 2]"
  have "pinned overwritten = Some {}"
    unfolding overwritten_def by (rule slot_function_pinned) (simp add: pin_instruction_def)
  moreover have "flow_within ?is {..<length ?is}"
    by (auto simp: flow_within_def next_index_def less_Suc_eq numeral_eq_Suc)
  ultimately show ?thesis
    using dead_writes_eliminated [of overwritten "{}" "[Integer_const 7]" constant_meaning]
    by (auto simp: overwritten_def)
qed

end
