(* ===== verification/Compaction.thy ===== *)
theory Compaction
  imports Dead_Writes
begin

text \<open>
  Compaction gives slots that are needed at the same time different colours: the edges of the
  interference graph and the invariant of the greedy colouring.
\<close>

section \<open>Edges\<close>

lemma mem_add_edge:
  "x \<in> add_edge l r g y \<longleftrightarrow> x \<in> g y \<or> l \<noteq> r \<and> (x = l \<and> y = r \<or> x = r \<and> y = l)"
  by (auto simp: add_edge_def)

text \<open>What a fold adds, from what each of its steps adds.\<close>

lemma mem_fold_edges:
  assumes "\<And>a g. a \<in> set as \<Longrightarrow> x \<in> F a g y \<longleftrightarrow> x \<in> g y \<or> E a"
  shows "x \<in> fold F as g y \<longleftrightarrow> x \<in> g y \<or> (\<exists>a \<in> set as. E a)"
  using assms by (induction as arbitrary: g) auto

lemma mem_fold_edge:
  "x \<in> fold (add_edge l) rs g y \<longleftrightarrow> x \<in> g y \<or> x \<noteq> y \<and> (x = l \<and> y \<in> set rs \<or> y = l \<and> x \<in> set rs)"
  by (subst mem_fold_edges [where E = "\<lambda>r. l \<noteq> r \<and> (x = l \<and> y = r \<or> x = r \<and> y = l)"])
    (auto simp: mem_add_edge)

lemma mem_add_clique:
  "x \<in> add_clique rs g y \<longleftrightarrow> x \<in> g y \<or> x \<noteq> y \<and> x \<in> set rs \<and> y \<in> set rs"
  by (induction rs g rule: add_clique.induct) (auto simp: mem_fold_edge)

definition instruction_edge :: "liveness_sets \<Rightarrow> nat \<times> instruction \<Rightarrow> slot \<Rightarrow> slot \<Rightarrow> bool" where
  "instruction_edge l item x y \<longleftrightarrow> x \<noteq> y \<and>
     (x \<in> live_in l ! fst item \<and> y \<in> live_in l ! fst item \<or>
      x \<in> set (slot_definitions (snd item)) \<and> y \<in> set (slot_definitions (snd item)) \<or>
      x \<in> set (slot_uses (snd item)) \<and> y \<in> set (slot_uses (snd item)) \<or>
      (\<exists>d obj n t. snd item = LoadField d obj n t \<and> (x = d \<and> y = obj \<or> x = obj \<and> y = d)) \<or>
      x \<in> set (slot_definitions (snd item)) \<and> y \<in> live_out l ! fst item \<or>
      y \<in> set (slot_definitions (snd item)) \<and> x \<in> live_out l ! fst item)"

lemma mem_fold_product:
  assumes "finite B"
  shows "x \<in> fold (\<lambda>d. fold (add_edge d) (sorted_list_of_set B)) as g y \<longleftrightarrow>
    x \<in> g y \<or> x \<noteq> y \<and> (x \<in> set as \<and> y \<in> B \<or> y \<in> set as \<and> x \<in> B)"
  by (subst mem_fold_edges [where E = "\<lambda>d. x \<noteq> y \<and> (x = d \<and> y \<in> B \<or> y = d \<and> x \<in> B)"])
    (auto simp: mem_fold_edge assms)

lemma mem_load_field:
  "x \<in> (case i of LoadField d obj _ _ \<Rightarrow> add_edge d obj g | _ \<Rightarrow> g) y \<longleftrightarrow>
   x \<in> g y \<or> x \<noteq> y \<and> (\<exists>d obj n t. i = LoadField d obj n t \<and> (x = d \<and> y = obj \<or> x = obj \<and> y = d))"
  by (cases i) (auto simp: mem_add_edge)

lemma mem_add_instruction:
  "x \<in> add_instruction l item g y \<longleftrightarrow> x \<in> g y \<or> instruction_edge l item x y"
  by (cases item)
    (auto simp: add_instruction_def Let_def mem_fold_product mem_load_field mem_add_clique instruction_edge_def)

definition interferes :: "u16 \<Rightarrow> liveness_sets \<Rightarrow> slot set \<Rightarrow> instruction list \<Rightarrow> slot \<Rightarrow> slot \<Rightarrow> bool" where
  "interferes prefix l P is x y \<longleftrightarrow>
     x \<noteq> y \<and> x < prefix \<and> y < prefix \<or>
     (\<exists>i < length is. instruction_edge l (i, is ! i) x y) \<or>
     x \<noteq> y \<and> (x \<in> P \<and> y \<in> used_registers prefix is \<or> y \<in> P \<and> x \<in> used_registers prefix is)"

lemma mem_interference: "x \<in> interference prefix l P is y \<longleftrightarrow> interferes prefix l P is x y"
proof -
  have "(\<exists>item \<in> set (enumerate 0 is). E item) \<longleftrightarrow> (\<exists>i < length is. E (i, is ! i))" for E
    by (force simp: in_set_enumerate_eq)
  then show ?thesis
    by (simp add: interference_def Let_def mem_fold_product mem_add_clique set_prefix_slots interferes_def
        mem_fold_edges [where E = "\<lambda>item. instruction_edge l item x y"] mem_add_instruction)
qed

lemma interferes_sym: "interferes prefix l P is x y \<Longrightarrow> interferes prefix l P is y x"
  unfolding interferes_def instruction_edge_def by blast

lemma interferes_irrefl [simp]: "\<not> interferes prefix l P is x x"
  by (simp add: interferes_def instruction_edge_def)

section \<open>Colouring\<close>

lemma map_le_get: "f \<subseteq>\<^sub>m g \<Longrightarrow> f x = Some y \<Longrightarrow> g x = Some y"
  by (metis domI map_le_def)

text \<open>No two neighbours share a colour, and there are no more colours than coloured slots.\<close>

definition well_coloured :: "graph \<Rightarrow> slot set \<Rightarrow> colouring \<Rightarrow> bool" where
  "well_coloured g R st \<longleftrightarrow>
     (case st of (m, n) \<Rightarrow>
        distinct (map fst m) \<and> fst ` set m \<subseteq> R \<and> unat n \<le> length m \<and> (\<forall>p \<in> set m. snd p < n) \<and>
        (\<forall>p \<in> set m. \<forall>q \<in> set m. fst p \<in> g (fst q) \<longrightarrow> snd p \<noteq> snd q))"

definition ordered_colours :: "(slot, slot) hash_map \<Rightarrow> bool" where
  "ordered_colours m \<longleftrightarrow> (\<forall>p \<in> set m. \<forall>q \<in> set m. fst p < fst q \<longrightarrow> snd p < snd q)"

definition proper_graph :: "graph \<Rightarrow> bool" where
  "proper_graph g \<longleftrightarrow> (\<forall>x y. x \<in> g y \<longrightarrow> y \<in> g x) \<and> (\<forall>x. x \<notin> g x)"

lemma coloured_room:
  assumes "well_coloured g R (m, n)" "r \<in> R" "r \<notin> fst ` set m" "card R \<le> 65535"
  shows "n \<noteq> 65535" "unat (n + 1) = unat n + 1" "c \<le> n \<Longrightarrow> c < n + 1"
proof -
  have "length m = card (fst ` set m)"
    using assms(1) distinct_card [of "map fst m"] by (simp add: well_coloured_def)
  also have "\<dots> < card R"
    using assms by (intro psubset_card_mono) (auto simp: well_coloured_def)
  finally have "unat n < 65535" using assms(1,4) by (simp add: well_coloured_def)
  then show "n \<noteq> 65535" by auto
  show 1: "unat (n + 1) = unat n + 1"
    using \<open>unat n < 65535\<close> by (simp add: unat_word_ariths)
  show "c < n + 1" if "c \<le> n" using that 1 by (simp add: word_less_nat_alt word_le_nat_alt)
qed

lemma well_coloured_Cons:
  assumes "well_coloured g R (m, n)" "r \<in> R" "r \<notin> fst ` set m" "proper_graph g"
    and "\<And>p. p \<in> set m \<Longrightarrow> fst p \<in> g r \<Longrightarrow> snd p \<noteq> c"
    and "\<And>p. p \<in> set m \<Longrightarrow> snd p < k" "c < k" "unat k \<le> Suc (length m)"
  shows "well_coloured g R ((r, c) # m, k)"
proof -
  have "snd p \<noteq> snd q" if pq: "p \<in> set ((r, c) # m)" "q \<in> set ((r, c) # m)" "fst p \<in> g (fst q)" for p q
  proof -
    have "fst q \<in> g (fst p)" "fst p \<noteq> fst q" using assms(4) pq(3) by (auto simp: proper_graph_def)
    then consider "p = (r, c)" "q \<in> set m" | "q = (r, c)" "p \<in> set m" | "p \<in> set m" "q \<in> set m"
      using pq(1,2) by auto
    then show ?thesis
    proof cases
      case 1
      then show ?thesis using assms(5) [of q] \<open>fst q \<in> g (fst p)\<close> by auto
    next
      case 2
      then show ?thesis using assms(5) [of p] pq(3) by auto
    next
      case 3
      then show ?thesis using assms(1) pq(3) by (simp add: well_coloured_def)
    qed
  qed
  moreover have "distinct (map fst ((r, c) # m))" "fst ` set ((r, c) # m) \<subseteq> R"
    using assms(1-3) by (simp_all add: well_coloured_def)
  ultimately show ?thesis
    using assms(6-8) unfolding well_coloured_def by simp
qed

lemma fresh_colour_ok:
  assumes "well_coloured g R (m, n)" "r \<in> R" "r \<notin> fst ` set m" "card R \<le> 65535" "proper_graph g"
  shows "fresh_colour r (m, n) = Some ((r, n) # m, n + 1)" "well_coloured g R ((r, n) # m, n + 1)"
proof -
  note room = coloured_room [OF assms(1-4)]
  show "fresh_colour r (m, n) = Some ((r, n) # m, n + 1)" using room(1) by (simp add: fresh_colour_def)
  have below: "snd p < n" if "p \<in> set m" for p
    using assms(1) that by (simp add: well_coloured_def)
  show "well_coloured g R ((r, n) # m, n + 1)"
  proof (rule well_coloured_Cons [OF assms(1-3,5)])
    show "unat (n + 1) \<le> Suc (length m)" using assms(1) room(2) by (simp add: well_coloured_def)
  qed (use below room(3) in force)+
qed

lemma colour_register_ok:
  assumes "well_coloured g R (m, n)" "r \<in> R" "r \<notin> fst ` set m" "card R \<le> 65535" "proper_graph g"
  shows "\<exists>c k. colour_register g r (m, n) = Some ((r, c) # m, k) \<and> well_coloured g R ((r, c) # m, k)"
proof (cases "find (\<lambda>c. Some c \<notin> map_of m ` g r) (prefix_slots n)")
  case None
  then show ?thesis using fresh_colour_ok [OF assms] by (simp add: colour_register_def)
next
  case (Some c)
  then obtain j where "j < length (prefix_slots n)" "Some c \<notin> map_of m ` g r" "c = prefix_slots n ! j"
    by (auto simp: find_Some_iff)
  moreover from this have "c \<in> set (prefix_slots n)" by simp
  ultimately have c: "c < n" "Some c \<notin> map_of m ` g r" by (auto simp: set_prefix_slots)
  have "snd p \<noteq> c" if "p \<in> set m" "fst p \<in> g r" for p
  proof -
    have "map_of m (fst p) = Some (snd p)"
      using assms(1) that by (simp add: well_coloured_def)
    then show ?thesis using c(2) that(2) by (metis imageI)
  qed
  then have "well_coloured g R ((r, c) # m, n)"
    using assms(1) c(1) by (intro well_coloured_Cons [OF assms(1-3,5)]) (auto simp: well_coloured_def)
  then show ?thesis using Some by (simp add: colour_register_def)
qed

lemma colour_fold:
  assumes "well_coloured g R (m, n)" "set rs \<subseteq> R" "set rs \<inter> fst ` set m = {}" "distinct rs"
    and "card R \<le> 65535" "proper_graph g"
  shows "\<exists>m' n'. fold_option (colour_register g) rs (m, n) = Some (m', n') \<and> well_coloured g R (m', n') \<and>
    fst ` set m' = set rs \<union> fst ` set m \<and> map_of m \<subseteq>\<^sub>m map_of m'"
  using assms
proof (induction rs arbitrary: m n)
  case (Cons r rs)
  obtain c k where r: "colour_register g r (m, n) = Some ((r, c) # m, k)" "well_coloured g R ((r, c) # m, k)"
    using colour_register_ok [OF Cons.prems(1) _ _ Cons.prems(5,6), of r] Cons.prems by auto
  obtain m' n' where "fold_option (colour_register g) rs ((r, c) # m, k) = Some (m', n')" "well_coloured g R (m', n')"
      "fst ` set m' = set rs \<union> fst ` set ((r, c) # m)" "map_of ((r, c) # m) \<subseteq>\<^sub>m map_of m'"
    using Cons.IH [OF r(2) _ _ _ Cons.prems(5,6)] Cons.prems(2-4) by (simp del: map_of.simps) blast
  moreover have "map_of m \<subseteq>\<^sub>m map_of ((r, c) # m)"
    using Cons.prems(3) by (auto simp: map_le_def dom_map_of_conv_image_fst)
  ultimately show ?case using r(1) map_le_trans by (intro exI [of _ m'] exI [of _ n']) auto
qed simp

lemma fresh_fold:
  assumes "well_coloured g R (m, n)" "set rs \<subseteq> R" "sorted_wrt (<) rs" "\<forall>p \<in> set m. \<forall>r \<in> set rs. fst p < r"
    and "ordered_colours m" "card R \<le> 65535" "proper_graph g"
  shows "\<exists>m' n'. fold_option fresh_colour rs (m, n) = Some (m', n') \<and> well_coloured g R (m', n') \<and>
    fst ` set m' = set rs \<union> fst ` set m \<and> map_of m \<subseteq>\<^sub>m map_of m' \<and> ordered_colours m'"
  using assms
proof (induction rs arbitrary: m n)
  case (Cons r rs)
  have new: "r \<in> R" "r \<notin> fst ` set m" using Cons.prems(2,4) by auto
  note r = fresh_colour_ok [OF Cons.prems(1) new Cons.prems(6,7)]
  have ordered: "ordered_colours ((r, n) # m)"
    using Cons.prems(1,4,5) by (fastforce simp: ordered_colours_def well_coloured_def)
  obtain m' n' where "fold_option fresh_colour rs ((r, n) # m, n + 1) = Some (m', n')" "well_coloured g R (m', n')"
      "fst ` set m' = set rs \<union> fst ` set ((r, n) # m)" "map_of ((r, n) # m) \<subseteq>\<^sub>m map_of m'" "ordered_colours m'"
    using Cons.IH [OF r(2) _ _ _ ordered Cons.prems(6,7)] Cons.prems(2-4) by (simp del: map_of.simps) blast
  moreover have "map_of m \<subseteq>\<^sub>m map_of ((r, n) # m)"
    using new(2) by (auto simp: map_le_def dom_map_of_conv_image_fst)
  ultimately show ?case using r(1) map_le_trans by (intro exI [of _ m'] exI [of _ n']) auto
qed simp

lemma distinct_prefix_slots: "distinct (prefix_slots n)"
proof -
  have "card (set (prefix_slots n)) = unat n"
  proof -
    have "k \<in> unat ` {r. r < n}" if "k < unat n" for k
    proof -
      have "unat (word_of_nat k :: slot) = k"
        using that unsigned_less [of n, where 'a = nat] by (simp add: unat_of_nat)
      then show ?thesis using that by (auto simp: word_less_nat_alt intro!: image_eqI [of _ _ "word_of_nat k"])
    qed
    then have "unat ` {r. r < n} = {..<unat n}" by (auto simp: word_less_nat_alt)
    then have "card (unat ` {r. r < n}) = unat n" by simp
    moreover have "inj_on unat {r. r < n}" by (simp add: inj_on_def word_unat_eq_iff)
    ultimately show ?thesis by (simp add: card_image set_prefix_slots)
  qed
  then show ?thesis by (intro card_distinct) (simp add: prefix_slots_def)
qed

lemma prefix_coloured:
  assumes "proper_graph g" "{r. r < n} \<subseteq> R"
  shows "well_coloured g R (map (\<lambda>r. (r, r)) (prefix_slots n), n)"
    and "ordered_colours (map (\<lambda>r. (r, r)) (prefix_slots n))"
    and "r < n \<Longrightarrow> map_of (map (\<lambda>r. (r, r)) (prefix_slots n)) r = Some r"
proof -
  have "length (prefix_slots n) = unat n" by (simp add: prefix_slots_def)
  then show "well_coloured g R (map (\<lambda>r. (r, r)) (prefix_slots n), n)"
    using assms distinct_prefix_slots [of n]
    by (auto simp: well_coloured_def set_prefix_slots proper_graph_def comp_def)
  show "ordered_colours (map (\<lambda>r. (r, r)) (prefix_slots n))" by (auto simp: ordered_colours_def)
  show "map_of (map (\<lambda>r. (r, r)) (prefix_slots n)) r = Some r" if "r < n"
    using that distinct_prefix_slots [of n] by (simp add: set_prefix_slots comp_def image_iff)
qed

lemma colour_ok:
  assumes g: "proper_graph g" and R: "card R \<le> 65535" "{r. r < n} \<subseteq> P" "P \<subseteq> R"
  shows "\<exists>m k. colour n P R g = Some (m, k) \<and> well_coloured g R (m, k) \<and> fst ` set m = R \<and>
    (\<forall>r < n. map_of m r = Some r) \<and>
    (\<forall>p \<in> P. \<forall>q \<in> P. p < q \<longrightarrow> the (map_of m p) < the (map_of m q))"
proof -
  let ?m0 = "map (\<lambda>r. (r, r)) (prefix_slots n)" and ?tail = "pinned_tail n P"
  have sub: "{r. r < n} \<subseteq> R" using R by auto
  note m0 = prefix_coloured [OF g sub]
  have tail: "sorted_wrt (<) ?tail" "set ?tail = {r \<in> P. r \<ge> n}"
    by (auto simp: pinned_tail_def intro!: sorted_wrt_filter strict_sorted_list_of_set)
  obtain m1 k1 where 1: "fold_option fresh_colour ?tail (?m0, n) = Some (m1, k1)" "well_coloured g R (m1, k1)"
      "fst ` set m1 = set ?tail \<union> fst ` set ?m0" "map_of ?m0 \<subseteq>\<^sub>m map_of m1" "ordered_colours m1"
    using fresh_fold [OF m0(1) _ tail(1) _ m0(2) R(1) g] R tail(2) by (fastforce simp: set_prefix_slots)
  have dom1: "dom (map_of m1) = P"
    using 1(3) tail(2) R(2) by (auto simp: dom_map_of_conv_image_fst set_prefix_slots image_image)
  let ?rest = "colouring_order g {r \<in> R. map_of m1 r = None}"
  have rest: "distinct ?rest" "set ?rest = R - P"
    using dom1 by (auto simp: colouring_order_def)
  obtain m k where 2: "fold_option (colour_register g) ?rest (m1, k1) = Some (m, k)" "well_coloured g R (m, k)"
      "fst ` set m = set ?rest \<union> fst ` set m1" "map_of m1 \<subseteq>\<^sub>m map_of m"
    using colour_fold [OF 1(2) _ _ rest(1) R(1) g] rest(2) dom1 by (metis Diff_disjoint Diff_subset Int_commute dom_map_of_conv_image_fst)
  have same: "map_of m p = map_of m1 p" if "p \<in> P" for p
    using 2(4) that dom1 by (simp add: map_le_def)
  have "map_of m r = Some r" if "r < n" for r
    using map_le_trans [OF 1(4) 2(4)] m0(3) [OF that] by (rule map_le_get)
  moreover have "the (map_of m p) < the (map_of m q)" if pq: "p \<in> P" "q \<in> P" "p < q" for p q
  proof -
    obtain c d where "map_of m1 p = Some c" "map_of m1 q = Some d" using pq dom1 by blast
    moreover from this have "c < d"
      using 1(5) pq(3) unfolding ordered_colours_def by (metis fst_conv snd_conv map_of_SomeD)
    ultimately show ?thesis using same pq by simp
  qed
  moreover have "fst ` set m = R"
    using 2(3) rest(2) dom1 R(3) by (auto simp: dom_map_of_conv_image_fst)
  moreover have "colour n P R g = Some (m, k)" unfolding colour_def 1(1) option.case prod.case 2(1) ..
  ultimately show ?thesis using 2(2) by blast
qed

end
