(* ===== verification/Compacted_Runs.thy ===== *)
theory Compacted_Runs
  imports Compaction
begin

text \<open>Compaction keeps every finished run up to the renaming of the slots.\<close>

section \<open>The renaming\<close>

lemma uses_visited: "set (slot_uses i) \<subseteq> set (visit_registers i)"
  by (cases i) auto

lemma definitions_visited: "set (slot_definitions i) \<subseteq> set (visit_registers i)"
  by (cases i) auto

lemma pins_visited: "set (pin_instruction i) \<subseteq> set (visit_registers i)"
  using uses_visited [of i] definitions_visited [of i] by (cases i) (auto simp: pin_instruction_def)

lemma moved_used: "set (moved_captures i) \<subseteq> set (slot_uses i)"
  by (cases i) (auto simp: moved_captures_def)

lemma pinned_used: "pinned_slots prefix is \<subseteq> used_registers prefix is"
  unfolding pinned_slots_def
proof (rule pin_closure_least)
  show "set (prefix_slots prefix) \<union> set (concat (map pin_instruction is)) \<subseteq> used_registers prefix is"
    using pins_visited by (fastforce simp: used_registers_def)
  show "\<forall>d s. Move d s \<in> set is \<longrightarrow> d \<in> used_registers prefix is \<longleftrightarrow> s \<in> used_registers prefix is"
    by (force simp: used_registers_def)
qed

text \<open>What the renaming found by the colouring satisfies.\<close>

definition separates ::
  "u16 \<Rightarrow> liveness_sets \<Rightarrow> instruction list \<Rightarrow> (slot \<Rightarrow> slot) \<Rightarrow> bool" where
  "separates prefix l is m \<longleftrightarrow>
     (\<forall>x \<in> used_registers prefix is. \<forall>y \<in> used_registers prefix is.
        interferes prefix l (pinned_slots prefix is) is x y \<longrightarrow> m x \<noteq> m y) \<and>
     (\<forall>p \<in> pinned_slots prefix is. \<forall>q \<in> pinned_slots prefix is. p < q \<longrightarrow> m p < m q)"

lemma separates_pin:
  assumes "separates prefix l is m" "p \<in> pinned_slots prefix is" "r \<in> used_registers prefix is" "m r = m p"
  shows "r = p"
  using assms pinned_used [of prefix "is"] unfolding separates_def interferes_def by (metis subsetD)

lemma separates_edge:
  assumes "separates prefix l is m" "i < length is" "instruction_edge l (i, is ! i) x y"
    and "x \<in> used_registers prefix is" "y \<in> used_registers prefix is"
  shows "m x \<noteq> m y"
  using assms unfolding separates_def interferes_def by blast

lemma live_used:
  assumes "liveness_ok is l" "i < length is"
  shows "live_in l ! i \<union> live_out l ! i \<subseteq> used_registers prefix is"
  using liveness_okD(4) [OF assms] uses_visited by (fastforce simp: used_registers_def)

lemma visited_used: "i < length is \<Longrightarrow> set (visit_registers (is ! i)) \<subseteq> used_registers prefix is"
  by (auto simp: used_registers_def)

lemma separates_renames:
  assumes sep: "separates prefix l is m" and live: "liveness_ok is l" and i: "i < length is"
  defines "P \<equiv> pinned_slots prefix is"
  shows "renames m P (live_out l ! i \<union> P) (is ! i)"
proof -
  let ?R = "used_registers prefix is" and ?T = "live_out l ! i \<union> P"
  have within: "?T \<subseteq> ?R" "set (visit_registers (is ! i)) \<subseteq> ?R" "P \<subseteq> ?R"
    using live_used [OF live i] visited_used [OF i] pinned_used by (auto simp: P_def)
  have pin: "r = p" if "p \<in> P" "r \<in> ?R" "m r = m p" for p r
    using separates_pin [OF sep] that by (simp add: P_def)
  have edge: "x = y" if "x \<in> ?R" "y \<in> ?R" "m x = m y" "x \<noteq> y \<Longrightarrow> instruction_edge l (i, is ! i) x y" for x y
    using separates_edge [OF sep i] that by blast
  have "d = r" if d: "d \<in> set (slot_definitions (is ! i))" "r \<in> ?T" "m d = m r" for d r
  proof -
    have "d \<in> ?R" "r \<in> ?R" using d definitions_visited within by blast+
    then show ?thesis
      using d(2) edge [of d r] pin [of r d] d(1,3) by (auto simp: instruction_edge_def)
  qed
  moreover have "u = r" if u: "u \<in> set (moved_captures (is ! i))" "r \<in> ?T - set (slot_definitions (is ! i))" "m u = m r" for u r
  proof -
    have "u \<in> set (slot_uses (is ! i))" using u(1) moved_used by blast
    then have "u \<in> live_in l ! i" "u \<in> ?R" "r \<in> ?R"
      using liveness_okD(1) [OF live i] uses_visited within u(2) by blast+
    moreover have "r \<in> live_in l ! i" if "r \<notin> P"
      using u(2) that liveness_okD(2) [OF live i] by blast
    ultimately show ?thesis
      using edge [of u r] pin [of r u] u(3) by (auto simp: instruction_edge_def)
  qed
  moreover have "\<forall>p \<in> P. \<forall>q \<in> P. p < q \<longrightarrow> m p < m q" using sep by (simp add: separates_def P_def)
  moreover have "r = p" if "p \<in> P" "r \<in> set (visit_registers (is ! i)) \<union> ?T" "m r = m p" for p r
  proof (rule pin [OF that(1) _ that(3)])
    show "r \<in> ?R" using that(2) within by blast
  qed
  ultimately show ?thesis unfolding renames_def by (intro conjI ballI impI) simp_all
qed

section \<open>The simulation\<close>

definition compacted_state ::
  "u16 \<Rightarrow> liveness_sets \<Rightarrow> instruction list \<Rightarrow> (slot \<Rightarrow> slot) \<Rightarrow>
   ('v, 'h) machine_state \<Rightarrow> ('v, 'h) machine_state \<Rightarrow> bool" where
  "compacted_state prefix l is m s t \<longleftrightarrow>
     separates prefix l is m \<and> liveness_ok is l \<and> flow_within is {..<length is} \<and>
     fst s < length is \<and> fst t = fst s \<and> snd (snd t) = snd (snd s) \<and>
     matches m (live_in l ! fst s \<union> pinned_slots prefix is) (fst (snd s)) (fst (snd t))"

interpretation compacting: lockstep "machine_step I (pinned_slots prefix is) pool is"
  "machine_step I (m ` pinned_slots prefix is) pool (map (rename_registers m) is)"
  "compacted_state prefix l is m" for I prefix pool "is" l m
proof
  fix s t :: "('a, 'b) machine_state"
  let ?P = "pinned_slots prefix is"
  let ?step = "machine_step I ?P pool is" and ?step' = "machine_step I (m ` ?P) pool (map (rename_registers m) is)"
  assume st: "compacted_state prefix l is m s t"
  obtain i \<rho> h where s: "s = (i, \<rho>, h)" by (cases s)
  obtain \<rho>' where t: "t = (i, \<rho>', h)" using st s by (cases t) (auto simp: compacted_state_def)
  have sep: "separates prefix l is m" and live: "liveness_ok is l" and flow: "flow_within is {..<length is}"
    and i: "i < length is" and same: "matches m (live_in l ! i \<union> ?P) \<rho> \<rho>'"
    using st by (auto simp: compacted_state_def s t)
  let ?T = "live_out l ! i \<union> ?P"
  have "matches m (set (slot_uses (is ! i)) \<union> (?T - set (slot_definitions (is ! i))) \<union> ?P) \<rho> \<rho>'"
    using same liveness_okD [OF live i] by (auto simp: matches_def)
  from effect_renamed [OF separates_renames [OF sep live i] this]
  have effect: "same_progress m ?T (instruction_effect I ?P pool (is ! i) \<rho> h)
      (instruction_effect I (m ` ?P) pool (rename_registers m (is ! i)) \<rho>' h)" .
  show "(\<exists>r. ?step s = Stop r \<and> ?step' t = Stop r) \<or>
    (\<exists>s' t'. ?step s = Continue s' \<and> ?step' t = Continue t' \<and> compacted_state prefix l is m s' t')"
    using effect unfolding same_progress_def
  proof (elim disjE exE conjE)
    fix r
    assume "instruction_effect I ?P pool (is ! i) \<rho> h = Stop r"
      "instruction_effect I (m ` ?P) pool (rename_registers m (is ! i)) \<rho>' h = Stop r"
    then show ?thesis using i by (simp add: s t machine_step_def get_def)
  next
    fix \<rho>1 \<rho>1' b h'
    assume 1: "instruction_effect I ?P pool (is ! i) \<rho> h = Continue (\<rho>1, b, h')"
      "instruction_effect I (m ` ?P) pool (rename_registers m (is ! i)) \<rho>' h = Continue (\<rho>1', b, h')"
      "matches m ?T \<rho>1 \<rho>1'"
    let ?j = "next_index (is ! i) i b"
    have "\<forall>r. is ! i \<noteq> Return r" using 1(1) by (auto simp: instruction_effect_def operands_def)
    then have j: "?j < length is" "?j \<in> set (successors is i)"
      using flow i next_successor [OF flow, of i b] by (auto simp: flow_within_def)
    have "matches m (live_in l ! ?j \<union> ?P) \<rho>1 \<rho>1'"
      using 1(3) liveness_okD(3) [OF live i j(2)] by (auto simp: matches_def)
    then show ?thesis
      using 1(1,2) i j(1) sep live flow by (simp add: s t machine_step_def get_def compacted_state_def)
  qed
qed

section \<open>The pass\<close>

lemma pinned_renamed:
  assumes sep: "separates prefix l is m" and fixed: "\<forall>r < prefix. m r = r"
  shows "pinned_slots prefix (map (rename_registers m) is) = m ` pinned_slots prefix is"
proof
  let ?js = "map (rename_registers m) is" and ?P = "pinned_slots prefix is"
  have pins: "set (pin_instruction (rename_registers m i)) = m ` set (pin_instruction i)" for i
    using rename_parts(2,3) [of m i]
    by (cases i) (auto simp: pin_instruction_def rename_simps comp_def filter_map image_Un split: option.splits)
  have base: "set (prefix_slots prefix) \<union> set (concat (map pin_instruction ?js)) =
      m ` (set (prefix_slots prefix) \<union> set (concat (map pin_instruction is)))"
  proof -
    have "m ` set (prefix_slots prefix) = set (prefix_slots prefix)"
      using fixed by (auto simp: set_prefix_slots)
    then show ?thesis by (simp add: image_Un image_UN pins)
  qed
  have moves: "\<exists>x y. Move x y \<in> set is \<and> d = m x \<and> s = m y" if move: "Move d s \<in> set ?js" for d s
  proof -
    from move have "Move d s \<in> rename_registers m ` set is" by simp
    then obtain i where i: "i \<in> set is" "rename_registers m i = Move d s" by (metis imageE)
    have "\<exists>x y. i = Move x y \<and> d = m x \<and> s = m y"
      using i(2) by (cases i) (auto simp: rename_simps split: option.splits)
    then show ?thesis using i(1) by blast
  qed
  show "pinned_slots prefix ?js \<subseteq> m ` ?P"
    unfolding pinned_slots_def [of prefix ?js] base
  proof (rule pin_closure_least)
    show "m ` (set (prefix_slots prefix) \<union> set (concat (map pin_instruction is))) \<subseteq> m ` ?P"
      unfolding pinned_slots_def by (intro image_mono pin_closure_increases)
    have "m x \<in> m ` ?P \<longleftrightarrow> x \<in> ?P" if "x \<in> used_registers prefix is" for x
      using separates_pin [OF sep _ that] by auto
    then have "m x \<in> m ` ?P \<longleftrightarrow> m y \<in> m ` ?P" if "Move x y \<in> set is" for x y
      using pinned_moves [OF that, of prefix] that by (force simp: used_registers_def)
    then show "\<forall>d s. Move d s \<in> set ?js \<longrightarrow> d \<in> m ` ?P \<longleftrightarrow> s \<in> m ` ?P" using moves by metis
  qed
  have "?P \<subseteq> {x. m x \<in> pinned_slots prefix ?js}"
    unfolding pinned_slots_def [of prefix "is"]
  proof (rule pin_closure_least)
    show "set (prefix_slots prefix) \<union> set (concat (map pin_instruction is)) \<subseteq> {x. m x \<in> pinned_slots prefix ?js}"
      using base pin_closure_increases unfolding pinned_slots_def by blast
    have "Move (m d) (m s) \<in> set ?js" if "Move d s \<in> set is" for d s
      using that by (force simp: rename_simps)
    then show "\<forall>d s. Move d s \<in> set is \<longrightarrow>
        d \<in> {x. m x \<in> pinned_slots prefix ?js} \<longleftrightarrow> s \<in> {x. m x \<in> pinned_slots prefix ?js}"
      using pinned_moves by blast
  qed
  then show "m ` ?P \<subseteq> pinned_slots prefix ?js" by blast
qed

lemma frame_room:
  assumes "\<forall>i \<in> set is. \<forall>r \<in> set (visit_registers i). r < registers" "prefix \<le> registers"
  shows "card (used_registers prefix is) \<le> unat registers"
proof -
  have "used_registers prefix is \<subseteq> set (prefix_slots registers)"
    using assms by (auto simp: used_registers_def set_prefix_slots)
  then have "card (used_registers prefix is) \<le> card (set (prefix_slots registers))"
    by (intro card_mono) simp_all
  then show ?thesis
    using distinct_card [OF distinct_prefix_slots, of registers] by (simp add: prefix_slots_def)
qed

lemma compaction_correct:
  fixes f :: bytecode_function
  defines "is \<equiv> instructions (f_body f)"
  assumes prefix: "frame_prefix f = Some prefix" and flow: "flow_within is {..<length is}"
    and room: "\<forall>i \<in> set is. \<forall>r \<in> set (visit_registers i). r < f_registers f" "prefix \<le> f_registers f"
  shows "\<exists>changed l m k.
    compact_function f = Some (changed,
      f\<lparr>f_registers := k, f_body := (f_body f)\<lparr>instructions := map (rename_registers m) is\<rparr>\<rparr>) \<and>
    liveness f = Some l \<and> liveness_ok is l \<and> separates prefix l is m \<and> (\<forall>r < prefix. m r = r) \<and>
    unat k \<le> card (used_registers prefix is) \<and> m ` used_registers prefix is \<subseteq> {r. r < k}"
proof -
  let ?P = "pinned_slots prefix is" and ?R = "used_registers prefix is"
  obtain l where l: "liveness f = Some l" "liveness_ok is l"
    using liveness_total [of f] flow_jumps_closed flow unfolding is_def by blast
  let ?g = "interference prefix l ?P is"
  have g: "proper_graph ?g"
    using interferes_sym by (simp add: proper_graph_def mem_interference)
  have "card ?R \<le> 65535"
    using frame_room [OF room] unsigned_less [of "f_registers f", where 'a = nat] by simp
  moreover have "{r. r < prefix} \<subseteq> ?P" using pinned_prefix by blast
  ultimately obtain pairs k where c: "colour prefix ?P ?R ?g = Some (pairs, k)" "well_coloured ?g ?R (pairs, k)"
      "fst ` set pairs = ?R" "\<forall>r < prefix. map_of pairs r = Some r"
      "\<forall>p \<in> ?P. \<forall>q \<in> ?P. p < q \<longrightarrow> the (map_of pairs p) < the (map_of pairs q)"
    using colour_ok [OF g _ _ pinned_used] by metis
  define m where "m r = the (map_of pairs r)" for r
  have m: "(r, m r) \<in> set pairs" if "r \<in> ?R" for r
    using c(3) that by (metis dom_map_of_conv_image_fst domD m_def map_of_SomeD option.sel)
  have "separates prefix l is m"
    unfolding separates_def
  proof (intro conjI ballI impI)
    fix x y
    assume xy: "x \<in> ?R" "y \<in> ?R" "interferes prefix l ?P is x y"
    have "\<forall>p \<in> set pairs. \<forall>q \<in> set pairs. fst p \<in> ?g (fst q) \<longrightarrow> snd p \<noteq> snd q"
      using c(2) by (simp add: well_coloured_def)
    from bspec [OF bspec [OF this m [OF xy(1)]] m [OF xy(2)]] show "m x \<noteq> m y"
      using xy(3) by (simp add: mem_interference)
  qed (use c(5) in \<open>simp add: m_def\<close>)
  moreover have "map_option_list (rewrite_registers pairs) is = Some (map (rename_registers m) is)"
  proof (rule map_option_list_all)
    fix i
    assume "i \<in> set is"
    then have "set (visit_registers i) \<subseteq> dom (map_of pairs)"
      using c(3) by (auto simp: used_registers_def dom_map_of_conv_image_fst)
    then have "list_all (\<lambda>r. map_of pairs r \<noteq> None) (visit_registers i)"
      unfolding list_all_iff by blast
    then show "rewrite_registers pairs i = Some (rename_registers m i)"
      unfolding rewrite_registers_def m_def by simp
  qed
  moreover have "unat k \<le> card ?R" "m ` ?R \<subseteq> {r. r < k}"
    using c(2) m c(3) distinct_card [of "map fst pairs"] by (fastforce simp: well_coloured_def)+
  moreover have "\<forall>r < prefix. m r = r" using c(4) by (simp add: m_def)
  moreover have "pinned f = Some ?P" using prefix by (simp add: pinned_def is_def)
  ultimately show ?thesis
    using prefix l c(1) by (intro exI conjI) (simp_all add: compact_function_def Let_def is_def [symmetric])
qed

text \<open>
  C40. Compaction never fails on a function whose control flow stays inside its body and whose slots
  lie in its frame: the colours do not overflow, the frame does not grow, every slot of the result
  lies in the new frame, the captures and parameters keep their slots, and nothing else changes.
\<close>

theorem compact_in_frame:
  assumes "frame_prefix f = Some prefix" "prefix \<le> f_registers f"
    and "flow_within (instructions (f_body f)) {..<length (instructions (f_body f))}"
    and "\<forall>i \<in> set (instructions (f_body f)). \<forall>r \<in> set (visit_registers i). r < f_registers f"
  shows "\<exists>changed f' m. compact_function f = Some (changed, f') \<and> f_registers f' \<le> f_registers f \<and>
    f' = f\<lparr>f_registers := f_registers f', f_body := (f_body f)\<lparr>instructions := map (rename_registers m) (instructions (f_body f))\<rparr>\<rparr> \<and>
    (\<forall>i \<in> set (instructions (f_body f')). \<forall>r \<in> set (visit_registers i). r < f_registers f') \<and>
    (\<forall>r < prefix. m r = r)"
proof -
  let ?is = "instructions (f_body f)"
  obtain changed l m k where c: "compact_function f = Some (changed,
      f\<lparr>f_registers := k, f_body := (f_body f)\<lparr>instructions := map (rename_registers m) ?is\<rparr>\<rparr>)"
    "\<forall>r < prefix. m r = r" "unat k \<le> card (used_registers prefix ?is)" "m ` used_registers prefix ?is \<subseteq> {r. r < k}"
    using compaction_correct [OF assms(1,3,4,2)] by blast
  have "k \<le> f_registers f"
    using c(3) frame_room [OF assms(4,2)] by (simp add: word_le_nat_alt)
  moreover have "m r < k" if "i \<in> set ?is" "r \<in> set (visit_registers i)" for i r
    using c(4) that by (auto simp: used_registers_def)
  ultimately show ?thesis using c(1,2) by (intro exI conjI) auto
qed

text \<open>
  C2. Compaction keeps what the function computes. The renaming is injective on the slots that are
  live at the entry or pinned, the pinned slots of the result are the renamed pinned slots, and a
  run of the result from a renamed frame yields exactly what the run of the original yields.
\<close>

theorem compact_keeps_runs:
  assumes "frame_prefix f = Some prefix" "prefix \<le> f_registers f" "instructions (f_body f) \<noteq> []"
    and "flow_within (instructions (f_body f)) {..<length (instructions (f_body f))}"
    and "\<forall>i \<in> set (instructions (f_body f)). \<forall>r \<in> set (visit_registers i). r < f_registers f"
  shows "\<exists>changed f' m l P. compact_function f = Some (changed, f') \<and> liveness f = Some l \<and>
    pinned f = Some P \<and> pinned f' = Some (m ` P) \<and> inj_on m (live_in l ! 0 \<union> P) \<and>
    (\<forall>\<rho> \<rho>' h r. matches m (live_in l ! 0 \<union> P) \<rho> \<rho>' \<longrightarrow>
       body_yields I P pool (instructions (f_body f)) \<rho> h r =
       body_yields I (m ` P) pool (instructions (f_body f')) \<rho>' h r)"
proof -
  let ?is = "instructions (f_body f)" and ?P = "pinned_slots prefix (instructions (f_body f))"
  obtain changed l m k where c: "compact_function f = Some (changed,
      f\<lparr>f_registers := k, f_body := (f_body f)\<lparr>instructions := map (rename_registers m) ?is\<rparr>\<rparr>)"
    "liveness f = Some l" "liveness_ok ?is l" "separates prefix l ?is m" "\<forall>r < prefix. m r = r"
    using compaction_correct [OF assms(1,4,5,2)] by blast
  let ?f = "f\<lparr>f_registers := k, f_body := (f_body f)\<lparr>instructions := map (rename_registers m) ?is\<rparr>\<rparr>"
  have "pinned f = Some ?P" using assms(1) by (simp add: pinned_def)
  moreover have "frame_prefix ?f = frame_prefix f" by (simp add: frame_prefix_def parameter_count_def)
  then have "pinned ?f = Some (m ` ?P)" using assms(1) pinned_renamed [OF c(4,5)] by (simp add: pinned_def)
  moreover have "x = y" if "x \<in> live_in l ! 0 \<union> ?P" "y \<in> live_in l ! 0 \<union> ?P" "m x = m y" for x y
  proof -
    have used: "x \<in> used_registers prefix ?is" "y \<in> used_registers prefix ?is"
      using that(1,2) live_used [OF c(3), of 0] assms(3) pinned_used by blast+
    have "instruction_edge l (0, ?is ! 0) x y" if "x \<in> live_in l ! 0" "y \<in> live_in l ! 0" "x \<noteq> y"
      using that by (simp add: instruction_edge_def)
    then show ?thesis
      using that used separates_pin [OF c(4)] separates_edge [OF c(4), of 0 x y] assms(3) by (metis Un_iff length_greater_0_conv)
  qed
  moreover have "body_yields I ?P pool ?is \<rho> h r = body_yields I (m ` ?P) pool (instructions (f_body ?f)) \<rho>' h r"
    if "matches m (live_in l ! 0 \<union> ?P) \<rho> \<rho>'" for \<rho> \<rho>' h r
    unfolding body_yields_def
    using compacting.yields_iff [of prefix l ?is m "(0, \<rho>, h)" "(0, \<rho>', h)"] that c(3,4) assms(3,4)
    by (simp add: compacted_state_def)
  ultimately show ?thesis using c(1,2) unfolding inj_on_def by blast
qed

definition sparse_slots :: bytecode_function where
  "sparse_slots = slot_function 9 [LoadConstant 7 0, Move 4 7, Return 4]"

lemma sparse_slots_frame:
  "frame_prefix sparse_slots = Some 0" "0 \<le> f_registers sparse_slots" "instructions (f_body sparse_slots) \<noteq> []"
  "flow_within (instructions (f_body sparse_slots)) {..<length (instructions (f_body sparse_slots))}"
  "\<forall>i \<in> set (instructions (f_body sparse_slots)). \<forall>r \<in> set (visit_registers i). r < f_registers sparse_slots"
proof -
  show "flow_within (instructions (f_body sparse_slots)) {..<length (instructions (f_body sparse_slots))}"
    by (auto simp: sparse_slots_def flow_within_def next_index_def less_Suc_eq numeral_eq_Suc)
qed (simp_all add: sparse_slots_def)

theorem compact_in_frame_witness:
  "\<exists>changed f'. compact_function sparse_slots = Some (changed, f') \<and> f_registers f' \<le> 9"
  using compact_in_frame [OF sparse_slots_frame(1,2,4,5)] by (auto simp: sparse_slots_def)

theorem compact_keeps_runs_witness:
  "\<exists>changed f' m l P. compact_function sparse_slots = Some (changed, f') \<and> liveness sparse_slots = Some l \<and>
     pinned sparse_slots = Some P \<and>
     (\<forall>\<rho> \<rho>' h r. matches m (live_in l ! 0 \<union> P) \<rho> \<rho>' \<longrightarrow>
        body_yields constant_meaning P [Integer_const 7] (instructions (f_body sparse_slots)) \<rho> h r =
        body_yields constant_meaning (m ` P) [Integer_const 7] (instructions (f_body f')) \<rho>' h r)"
  using compact_keeps_runs [OF sparse_slots_frame, of constant_meaning "[Integer_const 7]"] by blast

end
