(* ===== verification/Constant_Pool.thy ===== *)
theory Constant_Pool
  imports Compacted_Runs
begin

text \<open>
  \<open>compiler/src/vm/optimizer/constants.rs\<close>: the last pass of the VM backend rebuilds the constant
  table, in the order of the functions' ids, from the constants that are loaded. A panic is
  \<open>None\<close>. Of the file only this pass is built outside the tests.
\<close>

section \<open>The interner\<close>

text \<open>Floats are their bits, so they are compared by bit identity.\<close>

definition same_constant :: "program_constant \<Rightarrow> program_constant \<Rightarrow> bool" where
  "same_constant l r =
     (case (l, r) of
        (Float_const l, Float_const r) \<Rightarrow> l = r
      | _ \<Rightarrow> l = r)"

type_synonym constant_interner = "(program_constant, nat) hash_map"

definition interned :: "constant_interner \<Rightarrow> program_constant \<Rightarrow> nat option" where
  "interned it c = map_option snd (find (\<lambda>(key, _). same_constant key c) it)"

definition interner_new :: "program_constant list \<Rightarrow> constant_interner" where
  "interner_new pool =
     fold (\<lambda>(index, c) it. if interned it c = None then (c, index) # it else it) (enumerate 0 pool) []"

definition u16_index :: "nat \<Rightarrow> u16 option" where
  "u16_index n = (if n < 65536 then Some (word_of_nat n) else None)"

definition intern ::
  "program_constant \<Rightarrow> constant_interner \<times> program_constant list \<Rightarrow>
   u16 option \<times> constant_interner \<times> program_constant list" where
  "intern c st =
     (case st of (it, pool) \<Rightarrow>
        case interned it c of
          Some index \<Rightarrow> (u16_index index, it, pool)
        | None \<Rightarrow>
            (case u16_index (length pool) of
               None \<Rightarrow> (None, it, pool)
             | Some index \<Rightarrow> (Some index, (c, unat index) # it, pool @ [c])))"

section \<open>Deduplication\<close>

record dedup_state =
  remapped :: "u16 option list"
  interner :: constant_interner
  unique :: "program_constant list"

definition remap_constant ::
  "program_constant list \<Rightarrow> u16 \<Rightarrow> dedup_state \<Rightarrow> (u16 \<times> dedup_state) option" where
  "remap_constant old c st =
     (case get (remapped st) (unat c) of
        None \<Rightarrow> None
      | Some (Some index) \<Rightarrow> Some (index, st)
      | Some None \<Rightarrow>
          (case get old (unat c) of
             None \<Rightarrow> None
           | Some value \<Rightarrow>
               (case intern value (interner st, unique st) of
                  (None, _) \<Rightarrow> None
                | (Some index, it, pool) \<Rightarrow>
                    Some (index, \<lparr>remapped = (remapped st)[unat c := Some index], interner = it, unique = pool\<rparr>))))"

definition remap_instruction ::
  "program_constant list \<Rightarrow> instruction \<Rightarrow> dedup_state \<Rightarrow> (instruction \<times> dedup_state) option" where
  "remap_instruction old i st =
     (case i of
        LoadConstant d c \<Rightarrow> map_option (\<lambda>(c, st). (LoadConstant d c, st)) (remap_constant old c st)
      | _ \<Rightarrow> Some (i, st))"

fun remap_body ::
  "program_constant list \<Rightarrow> instruction list \<Rightarrow> dedup_state \<Rightarrow> (instruction list \<times> dedup_state) option" where
  "remap_body old [] st = Some ([], st)"
| "remap_body old (i # is) st =
     (case remap_instruction old i st of
        None \<Rightarrow> None
      | Some (i, st) \<Rightarrow> map_option (\<lambda>(is, st). (i # is, st)) (remap_body old is st))"

definition set_instructions :: "instruction list \<Rightarrow> bytecode_function \<Rightarrow> bytecode_function" where
  "set_instructions is f = f\<lparr>f_body := (f_body f)\<lparr>instructions := is\<rparr>\<rparr>"

definition remap_function ::
  "program_constant list \<Rightarrow> function_id \<Rightarrow> (function_id, bytecode_function) hash_map \<times> dedup_state \<Rightarrow>
   ((function_id, bytecode_function) hash_map \<times> dedup_state) option" where
  "remap_function old fid st =
     (case st of (fs, st) \<Rightarrow>
        case map_of fs fid of
          None \<Rightarrow> None
        | Some f \<Rightarrow>
            map_option
              (\<lambda>(is, st). (map (\<lambda>(k, g). (k, if k = fid then set_instructions is f else g)) fs, st))
              (remap_body old (instructions (f_body f)) st))"

definition deduplicate :: "program \<Rightarrow> program option" where
  "deduplicate p =
     (let old = constants (metadata p);
          start = \<lparr>remapped = replicate (length old) None, interner = interner_new [], unique = []\<rparr>
      in map_option
           (\<lambda>(fs, st). p\<lparr>metadata := (metadata p)\<lparr>constants := unique st\<rparr>, pg_functions := fs\<rparr>)
           (fold_option (remap_function old) (sort (map fst (pg_functions p))) (pg_functions p, start)))"

section \<open>The table being built\<close>

lemma same_constant_eq [simp]: "same_constant l r \<longleftrightarrow> l = r"
  by (auto simp: same_constant_def split: program_constant.splits)

text \<open>The first 65536 constants are those an instruction can name.\<close>

definition dedup_ok :: "program_constant list \<Rightarrow> dedup_state \<Rightarrow> bool" where
  "dedup_ok old st \<longleftrightarrow>
     length (remapped st) = length old \<and> distinct (unique st) \<and>
     set (unique st) \<subseteq> set (take 65536 old) \<and>
     (\<forall>v k. interned (interner st) v = Some k \<longleftrightarrow> get (unique st) k = Some v) \<and>
     (\<forall>j < length old. \<forall>k. remapped st ! j = Some k \<longrightarrow> get (unique st) (unat k) = Some (old ! j))"

lemma dedup_room:
  assumes "dedup_ok old st" "v \<in> set (take 65536 old)"
  shows "length (unique st) \<le> 65536" "v \<notin> set (unique st) \<Longrightarrow> length (unique st) < 65536"
proof -
  have old: "card (set (take 65536 old)) \<le> 65536"
    by (rule order_trans [OF card_length]) simp
  have len: "length (unique st) = card (set (unique st))"
    using assms(1) by (simp add: dedup_ok_def distinct_card)
  have "card (set (unique st)) \<le> card (set (take 65536 old))"
    using assms(1) by (intro card_mono) (simp_all add: dedup_ok_def)
  then show "length (unique st) \<le> 65536" using old len by simp
  show "length (unique st) < 65536" if "v \<notin> set (unique st)"
  proof -
    have "card (set (unique st)) < card (set (take 65536 old))"
      using assms that by (intro psubset_card_mono) (auto simp: dedup_ok_def)
    then show ?thesis using old len by simp
  qed
qed

lemma get_append: "get xs k = Some v \<Longrightarrow> get (xs @ ys) k = Some v"
  by (auto simp: get_def nth_append split: if_splits)

lemma intern_ok:
  assumes ok: "dedup_ok old st" and v: "v \<in> set (take 65536 old)"
  shows "\<exists>k it ys. intern v (interner st, unique st) = (Some k, it, unique st @ ys) \<and>
    get (unique st @ ys) (unat k) = Some v \<and> dedup_ok old (st\<lparr>interner := it, unique := unique st @ ys\<rparr>) \<and>
    set ys \<subseteq> {v}"
proof (cases "interned (interner st) v")
  case (Some k)
  then have k: "get (unique st) k = Some v" using ok by (simp add: dedup_ok_def)
  then have "k < 65536" using dedup_room(1) [OF ok v] by (auto simp: get_def split: if_splits)
  then have "unat (word_of_nat k :: u16) = k" by (simp add: unat_of_nat)
  then show ?thesis using Some k ok \<open>k < 65536\<close>
    by (intro exI [of _ "word_of_nat k"] exI [of _ "interner st"] exI [of _ "[]"]) (simp add: intern_def u16_index_def)
next
  case None
  let ?n = "length (unique st)"
  have new: "v \<notin> set (unique st)"
  proof
    assume "v \<in> set (unique st)"
    then obtain k where "k < ?n" "unique st ! k = v" by (auto simp: in_set_conv_nth)
    then have "get (unique st) k = Some v" by (simp add: get_def)
    then show False using ok None by (simp add: dedup_ok_def) (metis option.distinct(1))
  qed
  then have n: "?n < 65536" using dedup_room(2) [OF ok v] by simp
  then have un: "unat (word_of_nat ?n :: u16) = ?n" by (simp add: unat_of_nat)
  have table: "interned ((v, ?n) # interner st) w = Some k \<longleftrightarrow> get (unique st @ [v]) k = Some w" for w k
  proof (cases "w = v")
    case True
    then show ?thesis using new by (auto simp: interned_def get_def nth_append split: if_splits)
  next
    case False
    then have "interned ((v, ?n) # interner st) w = interned (interner st) w" by (simp add: interned_def)
    then show ?thesis using ok False by (auto simp: dedup_ok_def get_def nth_append split: if_splits)
  qed
  have "dedup_ok old (st\<lparr>interner := (v, ?n) # interner st, unique := unique st @ [v]\<rparr>)"
    using ok new v table unfolding dedup_ok_def by (simp add: get_append)
  then show ?thesis using None n un
    by (intro exI [of _ "word_of_nat ?n"] exI [of _ "(v, ?n) # interner st"] exI [of _ "[v]"])
      (simp add: intern_def u16_index_def get_def)
qed

text \<open>An instruction after the table has changed: a load names the same constant.\<close>

definition same_load :: "program_constant list \<Rightarrow> program_constant list \<Rightarrow> instruction \<Rightarrow> instruction \<Rightarrow> bool" where
  "same_load old new i j \<longleftrightarrow>
     (case i of
        LoadConstant d c \<Rightarrow> \<exists>k. j = LoadConstant d k \<and> unat c < length old \<and> get new (unat k) = Some (old ! unat c)
      | _ \<Rightarrow> j = i)"

definition loaded :: "program_constant list \<Rightarrow> instruction list \<Rightarrow> program_constant set" where
  "loaded old is = {old ! unat c | d c. LoadConstant d c \<in> set is}"

lemma same_load_append: "same_load old new i j \<Longrightarrow> same_load old (new @ ys) i j"
  by (auto simp: same_load_def get_append split: instruction.splits)

lemma remap_constant_ok:
  assumes ok: "dedup_ok old st" and c: "unat c < length old"
  shows "\<exists>k st' ys. remap_constant old c st = Some (k, st') \<and> dedup_ok old st' \<and> unique st' = unique st @ ys \<and>
    get (unique st') (unat k) = Some (old ! unat c) \<and> set ys \<subseteq> {old ! unat c}"
proof (cases "remapped st ! unat c")
  case (Some k)
  then show ?thesis using ok c
    by (intro exI [of _ k] exI [of _ st] exI [of _ "[]"]) (auto simp: remap_constant_def dedup_ok_def get_def)
next
  case None
  have "unat c < 65536" using unsigned_less [of c, where 'a = nat] by simp
  then have "old ! unat c \<in> set (take 65536 old)" using c by (auto simp: in_set_conv_nth intro!: exI [of _ "unat c"])
  from intern_ok [OF ok this] obtain k it ys where
    i: "intern (old ! unat c) (interner st, unique st) = (Some k, it, unique st @ ys)"
      "get (unique st @ ys) (unat k) = Some (old ! unat c)"
      "dedup_ok old (st\<lparr>interner := it, unique := unique st @ ys\<rparr>)" "set ys \<subseteq> {old ! unat c}"
    by blast
  let ?st = "\<lparr>remapped = (remapped st)[unat c := Some k], interner = it, unique = unique st @ ys\<rparr>"
  have "dedup_ok old ?st"
    using i(2,3) c by (auto simp: dedup_ok_def nth_list_update)
  moreover have "remap_constant old c st = Some (k, ?st)"
    using None ok c i(1) by (simp add: remap_constant_def dedup_ok_def get_def)
  ultimately show ?thesis using i(2,4) by auto
qed

lemma remap_instruction_ok:
  assumes "dedup_ok old st" "\<forall>d c. i = LoadConstant d c \<longrightarrow> unat c < length old"
  shows "\<exists>j st' ys. remap_instruction old i st = Some (j, st') \<and> dedup_ok old st' \<and> unique st' = unique st @ ys \<and>
    same_load old (unique st') i j \<and> set ys \<subseteq> loaded old [i]"
proof (cases "\<exists>d c. i = LoadConstant d c")
  case True
  then obtain d c where i: "i = LoadConstant d c" by blast
  then show ?thesis
    using remap_constant_ok [OF assms(1), of c] assms(2)
    by (fastforce simp: remap_instruction_def same_load_def loaded_def)
next
  case False
  then have "remap_instruction old i st = Some (i, st)" "same_load old (unique st) i i"
    by (cases i; simp add: remap_instruction_def same_load_def)+
  then show ?thesis using assms(1) by (intro exI [of _ i] exI [of _ st] exI [of _ "[]"]) simp
qed

lemma loaded_Cons: "loaded old (i # is) = loaded old [i] \<union> loaded old is"
  by (auto simp: loaded_def)

lemma remap_body_ok:
  assumes "dedup_ok old st" "\<forall>d c. LoadConstant d c \<in> set is \<longrightarrow> unat c < length old"
  shows "\<exists>js st' ys. remap_body old is st = Some (js, st') \<and> dedup_ok old st' \<and> unique st' = unique st @ ys \<and>
    list_all2 (same_load old (unique st')) is js \<and> set ys \<subseteq> loaded old is"
  using assms
proof (induction "is" arbitrary: st)
  case (Cons i "is")
  obtain j st1 ys1 where 1: "remap_instruction old i st = Some (j, st1)" "dedup_ok old st1"
      "unique st1 = unique st @ ys1" "same_load old (unique st1) i j" "set ys1 \<subseteq> loaded old [i]"
    using remap_instruction_ok [OF Cons.prems(1), of i] Cons.prems(2) by auto
  obtain js st2 ys2 where 2: "remap_body old is st1 = Some (js, st2)" "dedup_ok old st2"
      "unique st2 = unique st1 @ ys2" "list_all2 (same_load old (unique st2)) is js" "set ys2 \<subseteq> loaded old is"
    using Cons.IH [OF 1(2)] Cons.prems(2) by auto
  have "same_load old (unique st2) i j" using 1(4) 2(3) same_load_append by simp
  then show ?case using 1 2 loaded_Cons [of old i "is"]
    by (intro exI [of _ "j # js"] exI [of _ st2] exI [of _ "ys1 @ ys2"]) auto
qed simp

section \<open>The functions\<close>

definition remapped_function ::
  "program_constant list \<Rightarrow> program_constant list \<Rightarrow> bytecode_function \<Rightarrow> bytecode_function \<Rightarrow> bool" where
  "remapped_function old new f g \<longleftrightarrow>
     (\<exists>is. g = set_instructions is f \<and> list_all2 (same_load old new) (instructions (f_body f)) is)"

lemma remapped_append: "remapped_function old new f g \<Longrightarrow> remapped_function old (new @ ys) f g"
  unfolding remapped_function_def by (metis list_all2_mono same_load_append)

definition loads_inside :: "program_constant list \<Rightarrow> (function_id, bytecode_function) hash_map \<Rightarrow> bool" where
  "loads_inside old fs \<longleftrightarrow>
     (\<forall>k f d c. map_of fs k = Some f \<longrightarrow> LoadConstant d c \<in> set (instructions (f_body f)) \<longrightarrow> unat c < length old)"

definition loaded_by ::
  "program_constant list \<Rightarrow> (function_id, bytecode_function) hash_map \<Rightarrow> function_id set \<Rightarrow> program_constant set" where
  "loaded_by old fs ks =
     (\<Union>k \<in> ks. case map_of fs k of None \<Rightarrow> {} | Some f \<Rightarrow> loaded old (instructions (f_body f)))"

lemma loaded_by_mono: "ks \<subseteq> ls \<Longrightarrow> loaded_by old fs ks \<subseteq> loaded_by old fs ls"
  unfolding loaded_by_def by blast

definition partly_remapped ::
  "program_constant list \<Rightarrow> (function_id, bytecode_function) hash_map \<Rightarrow> function_id set \<Rightarrow>
   (function_id, bytecode_function) hash_map \<times> dedup_state \<Rightarrow> bool" where
  "partly_remapped old fs0 ks st \<longleftrightarrow>
     (case st of (fs, st) \<Rightarrow>
        dedup_ok old st \<and> map fst fs = map fst fs0 \<and> set (unique st) \<subseteq> loaded_by old fs0 ks \<and>
        (\<forall>k f. map_of fs0 k = Some f \<longrightarrow>
           (if k \<in> ks then \<exists>g. map_of fs k = Some g \<and> remapped_function old (unique st) f g
            else map_of fs k = Some f)))"

lemma map_of_update:
  "map_of (map (\<lambda>(k, g). (k, if k = fid then h g else g)) fs) x =
   map_option (\<lambda>g. if x = fid then h g else g) (map_of fs x)"
  by (induction fs) auto

lemma remap_function_ok:
  assumes old: "loads_inside old fs0" and st: "partly_remapped old fs0 ks (fs, st)"
    and fid: "fid \<notin> ks" "map_of fs0 fid = Some f"
  shows "\<exists>fs' st'. remap_function old fid (fs, st) = Some (fs', st') \<and> partly_remapped old fs0 (insert fid ks) (fs', st')"
proof -
  have here: "map_of fs fid = Some f" and ok: "dedup_ok old st"
    using st fid by (auto simp: partly_remapped_def)
  obtain js st' ys where r: "remap_body old (instructions (f_body f)) st = Some (js, st')" "dedup_ok old st'"
      "unique st' = unique st @ ys" "list_all2 (same_load old (unique st')) (instructions (f_body f)) js"
      "set ys \<subseteq> loaded old (instructions (f_body f))"
    using remap_body_ok [OF ok, of "instructions (f_body f)"] old fid(2) unfolding loads_inside_def by blast
  let ?fs = "map (\<lambda>(k, g). (k, if k = fid then set_instructions js f else g)) fs"
  have "remap_function old fid (fs, st) = Some (?fs, st')"
    using here r(1) by (simp add: remap_function_def)
  moreover have "map fst ?fs = map fst fs0"
    using st by (simp add: partly_remapped_def comp_def case_prod_unfold)
  moreover have "set (unique st') \<subseteq> loaded_by old fs0 (insert fid ks)"
  proof -
    have "loaded_by old fs0 ks \<union> loaded old (instructions (f_body f)) \<subseteq> loaded_by old fs0 (insert fid ks)"
      using fid(2) by (auto simp: loaded_by_def)
    moreover have "set (unique st) \<subseteq> loaded_by old fs0 ks" using st by (simp add: partly_remapped_def)
    ultimately show ?thesis using r(3,5) by auto
  qed
  moreover have "if k \<in> insert fid ks then \<exists>g'. map_of ?fs k = Some g' \<and> remapped_function old (unique st') g g'
      else map_of ?fs k = Some g" if g: "map_of fs0 k = Some g" for k g
  proof (cases "k = fid")
    case True
    then show ?thesis
      using g fid(2) here r(4) by (auto simp: map_of_update remapped_function_def)
  next
    case False
    have "if k \<in> ks then \<exists>g'. map_of fs k = Some g' \<and> remapped_function old (unique st) g g' else map_of fs k = Some g"
      using st g by (simp add: partly_remapped_def)
    moreover have "map_of ?fs k = map_of fs k" using False by (simp add: map_of_update option.map_ident)
    ultimately show ?thesis
      using False remapped_append [of old "unique st"] unfolding r(3) by (cases "k \<in> ks") auto
  qed
  ultimately show ?thesis using r(2) by (simp add: partly_remapped_def)
qed

lemma remap_functions_ok:
  assumes "loads_inside old fs0" "partly_remapped old fs0 ks (fs, st)"
    and "distinct ids" "set ids \<inter> ks = {}" "set ids \<subseteq> dom (map_of fs0)"
  shows "\<exists>fs' st'. fold_option (remap_function old) ids (fs, st) = Some (fs', st') \<and>
    partly_remapped old fs0 (set ids \<union> ks) (fs', st')"
  using assms
proof (induction ids arbitrary: ks fs st)
  case (Cons fid ids)
  obtain f where "map_of fs0 fid = Some f" using Cons.prems(5) by auto
  then obtain fs1 st1 where 1: "remap_function old fid (fs, st) = Some (fs1, st1)"
      "partly_remapped old fs0 (insert fid ks) (fs1, st1)"
    using remap_function_ok [OF Cons.prems(1,2), of fid f] Cons.prems(4) by auto
  then show ?case using Cons.IH [OF Cons.prems(1) 1(2)] Cons.prems by auto
qed simp

lemma loads_kept_runs:
  assumes "list_all2 (same_load old new) is js"
  shows "machine_step I P old is = machine_step I P new js"
proof
  fix s :: "('a, 'b) machine_state"
  obtain i \<rho> h where s: "s = (i, \<rho>, h)" by (cases s)
  show "machine_step I P old is s = machine_step I P new js s"
  proof (cases "i < length is")
    case True
    then have same: "same_load old new (is ! i) (js ! i)" "i < length js"
      using assms by (auto simp: list_all2_conv_all_nth)
    have "instruction_effect I P old (is ! i) \<rho> h = instruction_effect I P new (js ! i) \<rho> h"
    proof (cases "\<exists>d c. is ! i = LoadConstant d c")
      case True
      then obtain d c k where load: "is ! i = LoadConstant d c" "js ! i = LoadConstant d k"
          "unat c < length old" "get new (unat k) = Some (old ! unat c)"
        using same(1) by (auto simp: same_load_def)
      have parts: "touches P (LoadConstant d k) = touches P (LoadConstant d c)"
        "slot_writes (LoadConstant d k) = slot_writes (LoadConstant d c)"
        "shape (LoadConstant d k) = shape (LoadConstant d c)"
        "visit_registers (LoadConstant d k) = visit_registers (LoadConstant d c)"
        by (simp_all add: touches_def slot_writes_def moved_captures_def shape_def erase_slots_def visit1_def)
      have "execute I P (LoadConstant d k) = execute I P (LoadConstant d c)"
        by (intro ext) (simp only: execute_def parts)
      then show ?thesis using load parts(1) by (simp add: instruction_effect_def operands_def get_def)
    next
      case False
      then have "js ! i = is ! i" using same(1) by (cases "is ! i") (auto simp: same_load_def)
      then show ?thesis using False by (cases "is ! i") (simp_all add: instruction_effect_def operands_def)
    qed
    moreover have "next_index (js ! i) = next_index (is ! i)"
      using same(1) by (cases "is ! i") (auto simp: same_load_def next_index_def fun_eq_iff)
    ultimately show ?thesis using True same(2) by (simp add: machine_step_def s get_def split: progress.splits)
  next
    case False
    then show ?thesis using assms by (simp add: machine_step_def s get_def list_all2_lengthD)
  qed
qed

text \<open>
  C4. Deduplication of the constants never fails on a program whose loads name constants of its
  table, whatever the size of the table. The new table has no duplicate and holds exactly the
  constants some function loads. Every function is kept but for the numbers of its loads, each of
  which names the constant it named before, and has exactly the runs it had.
\<close>

theorem deduplicate_keeps_runs:
  assumes "distinct (map fst (pg_functions p))" "loads_inside (constants (metadata p)) (pg_functions p)"
  shows "\<exists>p'. deduplicate p = Some p' \<and> map fst (pg_functions p') = map fst (pg_functions p) \<and>
    distinct (constants (metadata p')) \<and>
    set (constants (metadata p')) = loaded_by (constants (metadata p)) (pg_functions p) UNIV \<and>
    (\<forall>k f. map_of (pg_functions p) k = Some f \<longrightarrow>
       (\<exists>g. map_of (pg_functions p') k = Some g \<and>
          remapped_function (constants (metadata p)) (constants (metadata p')) f g \<and>
          (\<forall>\<rho> h r. body_yields I P (constants (metadata p)) (instructions (f_body f)) \<rho> h r =
             body_yields I P (constants (metadata p')) (instructions (f_body g)) \<rho> h r)))"
proof -
  let ?old = "constants (metadata p)" and ?fs = "pg_functions p"
  let ?start = "\<lparr>remapped = replicate (length ?old) None, interner = interner_new [], unique = []\<rparr>"
  have "dedup_ok ?old ?start" by (simp add: dedup_ok_def interner_new_def interned_def get_def)
  then have "partly_remapped ?old ?fs {} (?fs, ?start)" by (simp add: partly_remapped_def)
  then obtain fs st where 1: "fold_option (remap_function ?old) (sort (map fst ?fs)) (?fs, ?start) = Some (fs, st)"
      "partly_remapped ?old ?fs (fst ` set ?fs) (fs, st)"
    using remap_functions_ok [OF assms(2), of "{}" ?fs ?start "sort (map fst ?fs)"] assms(1)
    by (simp add: dom_map_of_conv_image_fst del: fold_option.simps) blast
  let ?p = "p\<lparr>metadata := (metadata p)\<lparr>constants := unique st\<rparr>, pg_functions := fs\<rparr>"
  have "deduplicate p = Some ?p" using 1(1) by (simp add: deduplicate_def Let_def)
  moreover have every: "\<exists>g. map_of fs k = Some g \<and> remapped_function ?old (unique st) f g"
    if "map_of ?fs k = Some f" for k f
  proof -
    have "k \<in> fst ` set ?fs" using map_of_SomeD [OF that] by force
    then show ?thesis using 1(2) that unfolding partly_remapped_def by simp
  qed
  moreover have "set (unique st) = loaded_by ?old ?fs UNIV"
  proof
    show "set (unique st) \<subseteq> loaded_by ?old ?fs UNIV"
      using 1(2) loaded_by_mono [of "fst ` set ?fs" UNIV ?old ?fs] by (auto simp: partly_remapped_def)
    show "loaded_by ?old ?fs UNIV \<subseteq> set (unique st)"
    proof
      fix v
      assume "v \<in> loaded_by ?old ?fs UNIV"
      then obtain k f d c where v: "map_of ?fs k = Some f" "LoadConstant d c \<in> set (instructions (f_body f))" "v = ?old ! unat c"
        by (auto simp: loaded_by_def loaded_def split: option.splits)
      then obtain js where "list_all2 (same_load ?old (unique st)) (instructions (f_body f)) js"
        using every by (auto simp: remapped_function_def)
      then obtain j where "same_load ?old (unique st) (LoadConstant d c) j"
        using v(2) by (auto simp: list_all2_conv_all_nth in_set_conv_nth)
      then obtain k :: u16 where "get (unique st) (unat k) = Some v" using v(3) by (auto simp: same_load_def)
      then show "v \<in> set (unique st)" by (auto simp: get_def split: if_splits)
    qed
  qed
  moreover have "body_yields I P ?old (instructions (f_body f)) \<rho> h r =
      body_yields I P (unique st) (instructions (f_body g)) \<rho> h r"
    if changed: "remapped_function ?old (unique st) f g" for f g \<rho> h r
  proof -
    obtain js where js: "g = set_instructions js f" "list_all2 (same_load ?old (unique st)) (instructions (f_body f)) js"
      using changed by (auto simp: remapped_function_def)
    show ?thesis unfolding body_yields_def loads_kept_runs [OF js(2)] by (simp add: js(1) set_instructions_def)
  qed
  moreover have "distinct (unique st)" "map fst fs = map fst ?fs"
    using 1(2) by (auto simp: partly_remapped_def dedup_ok_def)
  ultimately show ?thesis by (intro exI [of _ ?p]) (simp, blast)
qed

definition repetitive :: program where
  "repetitive =
     \<lparr>metadata = \<lparr>symbols = default_table, constants = [Integer_const 7, Integer_const 7, Integer_const 9],
        main = None, main_arguments = False, string_record = None, symbol_record = None, list_record = None,
        bytes_record = None, byte_buffer_record = None, remote_result = None, remote_error = None,
        records = [], dispatch = [], variants = []\<rparr>,
      drops_inserted = False,
      pg_functions = [(2, slot_function 1 [LoadConstant 0 1, Return 0]), (1, slot_function 1 [LoadConstant 0 0, Return 0])]\<rparr>"

theorem deduplicate_keeps_runs_witness:
  "\<exists>p'. deduplicate repetitive = Some p' \<and> distinct (constants (metadata p')) \<and>
     set (constants (metadata p')) = {Integer_const 7}"
proof -
  let ?old = "[Integer_const 7, Integer_const 7, Integer_const 9]"
  have "loads_inside (constants (metadata repetitive)) (pg_functions repetitive)"
    by (auto simp: loads_inside_def repetitive_def split: if_splits)
  moreover have "loaded ?old [LoadConstant 0 1, Return 0] = {Integer_const 7}"
    "loaded ?old [LoadConstant 0 0, Return 0] = {Integer_const 7}"
    by (auto simp: loaded_def)
  then have "loaded_by (constants (metadata repetitive)) (pg_functions repetitive) {1, 2} = {Integer_const 7}"
    by (simp add: loaded_by_def repetitive_def)
  moreover have "loaded_by old (pg_functions repetitive) UNIV = loaded_by old (pg_functions repetitive) {1, 2}" for old
    by (auto simp: loaded_by_def repetitive_def split: if_splits)
  ultimately have "loads_inside (constants (metadata repetitive)) (pg_functions repetitive)"
    "loaded_by (constants (metadata repetitive)) (pg_functions repetitive) UNIV = {Integer_const 7}"
    by simp_all
  moreover have "distinct (map fst (pg_functions repetitive))" by (simp add: repetitive_def)
  ultimately show ?thesis
    using deduplicate_keeps_runs [of repetitive constant_meaning "{}"] by metis
qed

end
