(* ===== verification/Resource_Types.thy ===== *)
theory Resource_Types
  imports Program
begin

text \<open>
  \<open>contains_c_resource\<close> of \<open>bytecode/src/codegen/metadata.rs\<close>: whether a concrete type holds a C
  resource. The recursion is written with its pending types as a list: a visit goes on with the
  parts of a type before the types that were pending.
\<close>

section \<open>The visit\<close>

definition resource_parts :: "program_metadata \<Rightarrow> executable_type \<Rightarrow> executable_type list" where
  "resource_parts md t =
     (case t of
        Record r args \<Rightarrow>
          args @ (case map_of (records md) r of None \<Rightarrow> [] | Some d \<Rightarrow> map rf_ty (rr_fields d))
      | Variant v args \<Rightarrow>
          args @ concat (map rv_payload [d \<leftarrow> map snd (variants md). rv_parent d = v])
      | Reference t \<Rightarrow> [t]
      | List t \<Rightarrow> [t]
      | Future t \<Rightarrow> [t]
      | Intersection members \<Rightarrow> members
      | _ \<Rightarrow> [])"

definition resource_here :: "program_metadata \<Rightarrow> executable_type \<Rightarrow> bool" where
  "resource_here md t = (case t of Record r _ \<Rightarrow> is_c_resource md r | _ \<Rightarrow> False)"

text \<open>The finitely many types a visit can meet.\<close>

fun written_parts :: "executable_type \<Rightarrow> executable_type list" where
  "written_parts (Record r args) = Record r args # concat (map written_parts args)"
| "written_parts (Variant v args) = Variant v args # concat (map written_parts args)"
| "written_parts (Reference t) = Reference t # written_parts t"
| "written_parts (List t) = List t # written_parts t"
| "written_parts (Future t) = Future t # written_parts t"
| "written_parts (Intersection ts) = Intersection ts # concat (map written_parts ts)"
| "written_parts t = [t]"

definition declared_types :: "program_metadata \<Rightarrow> executable_type list" where
  "declared_types md =
     concat (map (\<lambda>(_, d). map rf_ty (rr_fields d)) (records md)) @
     concat (map (\<lambda>(_, d). rv_payload d) (variants md))"

definition met_types :: "program_metadata \<Rightarrow> executable_type list \<Rightarrow> executable_type set" where
  "met_types md ts = set (concat (map written_parts (ts @ declared_types md)))"

lemma written_parts_self: "t \<in> set (written_parts t)"
  by (cases t) auto

lemma declared_field: "map_of (records md) r = Some d \<Longrightarrow> f \<in> set (rr_fields d) \<Longrightarrow> rf_ty f \<in> set (declared_types md)"
  by (drule map_of_SomeD) (auto simp: declared_types_def intro!: bexI [of _ "(r, d)"])

lemma declared_payload: "(k, d) \<in> set (variants md) \<Longrightarrow> u \<in> set (rv_payload d) \<Longrightarrow> u \<in> set (declared_types md)"
  by (auto simp: declared_types_def intro!: bexI [of _ "(k, d)"])

lemma resource_parts_within:
  "u \<in> set (resource_parts md t) \<Longrightarrow> u \<in> set (declared_types md) \<or> set (written_parts u) \<subseteq> set (written_parts t)"
  by (cases t) (auto simp: resource_parts_def declared_payload split: option.splits dest: declared_field [OF sym])

lemma resource_parts_met: "met_types md (resource_parts md t @ ts) \<subseteq> met_types md (t # ts)"
proof -
  have "set (written_parts u) \<subseteq> met_types md (t # ts)" if "u \<in> set (resource_parts md t)" for u
    using resource_parts_within [OF that] by (auto simp: met_types_def)
  then show ?thesis by (auto simp: met_types_def)
qed

function resource_visit :: "program_metadata \<Rightarrow> executable_type set \<Rightarrow> executable_type list \<Rightarrow> bool" where
  "resource_visit md seen [] = False"
| "resource_visit md seen (t # ts) =
     (if t \<in> seen then resource_visit md seen ts
      else if resource_here md t then True
      else resource_visit md (insert t seen) (resource_parts md t @ ts))"
  by pat_completeness auto
termination
proof (relation "measures [\<lambda>(md, seen, ts). card (met_types md ts - seen), \<lambda>(md, seen, ts). length ts]")
  fix md :: program_metadata and seen :: "executable_type set" and t :: executable_type and ts
  assume "t \<in> seen"
  have "met_types md ts \<subseteq> met_types md (t # ts)" by (auto simp: met_types_def)
  then have "card (met_types md ts - seen) \<le> card (met_types md (t # ts) - seen)"
    by (intro card_mono) (auto simp: met_types_def)
  then show "((md, seen, ts), md, seen, t # ts) \<in>
      measures [\<lambda>(md, seen, ts). card (met_types md ts - seen), \<lambda>(md, seen, ts). length ts]"
    by auto
next
  fix md :: program_metadata and seen :: "executable_type set" and t :: executable_type and ts
  assume t: "t \<notin> seen"
  have "t \<in> met_types md (t # ts)" using written_parts_self by (simp add: met_types_def)
  then have "met_types md (resource_parts md t @ ts) - insert t seen \<subset> met_types md (t # ts) - seen"
    using resource_parts_met [of md t ts] t by auto
  then have "card (met_types md (resource_parts md t @ ts) - insert t seen) < card (met_types md (t # ts) - seen)"
    by (intro psubset_card_mono) (auto simp: met_types_def)
  then show "((md, insert t seen, resource_parts md t @ ts), md, seen, t # ts) \<in>
      measures [\<lambda>(md, seen, ts). card (met_types md ts - seen), \<lambda>(md, seen, ts). length ts]"
    by auto
qed simp

definition contains_c_resource :: "program_metadata \<Rightarrow> executable_type \<Rightarrow> bool" where
  "contains_c_resource md t = resource_visit md {} [t]"

section \<open>Correctness\<close>

lemma reach_unfold:
  "(\<exists>u. R\<^sup>*\<^sup>* t u \<and> Q u) \<longleftrightarrow> Q t \<or> (\<exists>c. R t c \<and> (\<exists>u. R\<^sup>*\<^sup>* c u \<and> Q u))"
  by (blast elim: converse_rtranclpE intro: converse_rtranclp_into_rtranclp)

lemma resource_here_iff: "resource_here md t \<longleftrightarrow> (\<exists>r args. t = Record r args \<and> is_c_resource md r)"
  by (cases t) (simp_all add: resource_here_def)

text \<open>
  The parts of a type, whatever a search does with them: every immediate component, the declared
  fields of a record and the payloads of the cases of a variant.
\<close>

inductive type_part :: "program_metadata \<Rightarrow> executable_type \<Rightarrow> executable_type \<Rightarrow> bool" for md where
  element: "type_part md (List t) t"
| referent: "type_part md (Reference t) t"
| remote: "type_part md (Remote t) t"
| awaited: "type_part md (Future t) t"
| parameter: "p \<in> set ps \<Longrightarrow> type_part md (Function ps t) (parameter.ty p)"
| result: "type_part md (Function ps t) t"
| record_argument: "t \<in> set ts \<Longrightarrow> type_part md (Record r ts) t"
| record_field: "map_of (records md) r = Some d \<Longrightarrow> f \<in> set (rr_fields d) \<Longrightarrow> type_part md (Record r ts) (rf_ty f)"
| variant_argument: "t \<in> set ts \<Longrightarrow> type_part md (Variant v ts) t"
| variant_payload: "(c, d) \<in> set (variants md) \<Longrightarrow> rv_parent d = v \<Longrightarrow> t \<in> set (rv_payload d) \<Longrightarrow>
    type_part md (Variant v ts) t"
| alternative: "t \<in> set ts \<Longrightarrow> type_part md (Alternatives ts) t"
| member: "t \<in> set ts \<Longrightarrow> type_part md (Intersection ts) t"
| alias_argument: "t \<in> set ts \<Longrightarrow> type_part md (AliasArguments v ts) t"

inductive_simps type_part_simps:
  "type_part md (List t) u" "type_part md (Reference t) u" "type_part md (Remote t) u" "type_part md (Future t) u"
  "type_part md (Function ps t) u" "type_part md (Record r ts) u" "type_part md (Variant v ts) u"
  "type_part md (Alternatives ts) u" "type_part md (Intersection ts) u" "type_part md (AliasArguments v ts) u"
  "type_part md Never u" "type_part md Unknown u" "type_part md (Generic n) u" "type_part md Unit u"
  "type_part md Bool u" "type_part md Integer u" "type_part md Float u" "type_part md CodePoint u"
  "type_part md Byte u" "type_part md Bytes u" "type_part md ByteBuffer u"

text \<open>The constructors the search does not look under.\<close>

fun closed_to_search :: "executable_type \<Rightarrow> bool" where
  "closed_to_search (Remote _) = True"
| "closed_to_search (Function _ _) = True"
| "closed_to_search (Alternatives _) = True"
| "closed_to_search (AliasArguments _ _) = True"
| "closed_to_search _ = False"

definition open_part :: "program_metadata \<Rightarrow> executable_type \<Rightarrow> executable_type \<Rightarrow> bool" where
  "open_part md t u \<longleftrightarrow> type_part md t u \<and> \<not> closed_to_search t"

lemma resource_parts_open: "u \<in> set (resource_parts md t) \<longleftrightarrow> open_part md t u"
  by (cases t; auto simp: resource_parts_def open_part_def type_part_simps split: option.splits) force

definition holds_type :: "program_metadata \<Rightarrow> executable_type \<Rightarrow> executable_type \<Rightarrow> bool" where
  "holds_type md = (open_part md)\<^sup>*\<^sup>*"

lemma holds_type_alt: "holds_type md = (\<lambda>t u. u \<in> set (resource_parts md t))\<^sup>*\<^sup>*"
  by (simp add: holds_type_def resource_parts_open)

definition visit_ok :: "program_metadata \<Rightarrow> executable_type set \<Rightarrow> executable_type list \<Rightarrow> bool" where
  "visit_ok md seen ts \<longleftrightarrow>
     (\<forall>t \<in> seen. \<not> resource_here md t \<and> set (resource_parts md t) \<subseteq> seen \<union> set ts)"

lemma visit_leaves:
  assumes "holds_type md t u" "t \<in> seen" "visit_ok md seen ts" "resource_here md u"
  shows "\<exists>t' \<in> set ts. holds_type md t' u"
  using assms unfolding holds_type_alt
proof (induction rule: converse_rtranclp_induct)
  case (step t c)
  then have "c \<in> seen \<or> c \<in> set ts" by (auto simp: visit_ok_def)
  then show ?case using step by blast
qed (auto simp: visit_ok_def)

lemma resource_visit_iff:
  "visit_ok md seen ts \<Longrightarrow>
   resource_visit md seen ts \<longleftrightarrow> (\<exists>t \<in> set ts. \<exists>u. holds_type md t u \<and> resource_here md u)"
proof (induction md seen ts rule: resource_visit.induct)
  case (2 md seen t ts)
  consider "t \<in> seen" | "t \<notin> seen" "resource_here md t" | "t \<notin> seen" "\<not> resource_here md t" by blast
  then show ?case
  proof cases
    case 1
    then have ok: "visit_ok md seen ts" using 2(3) by (auto simp: visit_ok_def)
    show ?thesis using 2(1) [OF 1 ok] 1 visit_leaves [OF _ 1 ok] by auto
  next
    case 2
    then show ?thesis by (auto simp: holds_type_alt)
  next
    case 3
    have ok: "visit_ok md (insert t seen) (resource_parts md t @ ts)"
      using 2(3) 3(2) by (auto simp: visit_ok_def)
    have "(\<exists>u. holds_type md t u \<and> resource_here md u) \<longleftrightarrow>
        (\<exists>c \<in> set (resource_parts md t). \<exists>u. holds_type md c u \<and> resource_here md u)"
      unfolding holds_type_alt by (subst reach_unfold) (use 3(2) in blast)
    then show ?thesis using 2(2) [OF 3 ok] 3 by auto
  qed
qed simp

text \<open>
  C26. The search for C resources ends on every type, recursive records and variants included, and
  answers whether a C resource is held along parts of types that do not lead through a remote
  handle, a function, alternatives or the arguments of an alias. So a resource it finds is a part
  of the type, a type without those four constructors below it is searched completely, and a
  type built by one of them is always cleared.
\<close>

theorem contains_c_resource_iff:
  "(contains_c_resource md t \<longleftrightarrow>
      (\<exists>r args. (\<lambda>t u. type_part md t u \<and> \<not> closed_to_search t)\<^sup>*\<^sup>* t (Record r args) \<and> is_c_resource md r)) \<and>
   (contains_c_resource md t \<longrightarrow> (\<exists>r args. (type_part md)\<^sup>*\<^sup>* t (Record r args) \<and> is_c_resource md r)) \<and>
   ((\<forall>u. (type_part md)\<^sup>*\<^sup>* t u \<longrightarrow> \<not> closed_to_search u) \<longrightarrow>
      (\<exists>r args. (type_part md)\<^sup>*\<^sup>* t (Record r args) \<and> is_c_resource md r) \<longrightarrow> contains_c_resource md t) \<and>
   (closed_to_search t \<longrightarrow> \<not> contains_c_resource md t)"
proof -
  have found: "contains_c_resource md t \<longleftrightarrow> (\<exists>r args. holds_type md t (Record r args) \<and> is_c_resource md r)" for t
  proof -
    have "contains_c_resource md t \<longleftrightarrow> (\<exists>u. holds_type md t u \<and> resource_here md u)"
      using resource_visit_iff [of md "{}" "[t]"] by (simp add: contains_c_resource_def visit_ok_def)
    also have "\<dots> \<longleftrightarrow> (\<exists>r args. holds_type md t (Record r args) \<and> is_c_resource md r)"
      by (auto simp: resource_here_iff)
    finally show ?thesis .
  qed
  have part: "(type_part md)\<^sup>*\<^sup>* t u" if "holds_type md t u" for u
    using that mono_rtranclp [of "open_part md" "type_part md"] by (auto simp: holds_type_def open_part_def)
  have complete: "holds_type md t u"
    if "(type_part md)\<^sup>*\<^sup>* t u" "\<forall>u. (type_part md)\<^sup>*\<^sup>* t u \<longrightarrow> \<not> closed_to_search u" for u
    using that
  proof (induction rule: rtranclp_induct)
    case (step u c)
    then show ?case unfolding holds_type_def by (meson open_part_def rtranclp.rtrancl_into_rtrancl)
  qed (simp add: holds_type_def)
  have cleared: "u = t" if "holds_type md t u" "closed_to_search t" for u
    using that unfolding holds_type_def by (cases rule: converse_rtranclpE) (auto simp: open_part_def)
  have "\<not> closed_to_search (Record r args)" for r args by simp
  then show ?thesis
    using found [of t] part complete cleared unfolding holds_type_def open_part_def [abs_def] by metis
qed

definition resource_metadata :: program_metadata where
  "resource_metadata =
     \<lparr>symbols = \<lparr>st_version = SYMBOLS_FORMAT_VERSION, st_modules =
        [\<lparr>md_name = ModuleName ''foster'' ''std.ffi'',
           md_types = [\<lparr>tb_name = Name (ModuleName ''foster'' ''std.ffi'') ''CResource'', tb_variant = False, tb_id = 4\<rparr>],
           md_definitions = [], md_imports = []\<rparr>]\<rparr>,
      constants = [], main = None, main_arguments = False, string_record = None, symbol_record = None,
      list_record = None, bytes_record = None, byte_buffer_record = None, remote_result = None,
      remote_error = None, records = [], dispatch = [], variants = []\<rparr>"

text \<open>A list of C resources is found, alternatives of one are cleared.\<close>

theorem contains_c_resource_iff_witness:
  "contains_c_resource resource_metadata (List (Record 4 [])) \<and>
   \<not> contains_c_resource resource_metadata (Alternatives [Record 4 []])"
proof
  have "is_c_resource resource_metadata 4" by (simp add: is_c_resource_def resource_metadata_def)
  moreover have "(\<lambda>t u. type_part resource_metadata t u \<and> \<not> closed_to_search t)\<^sup>*\<^sup>* (List (Record 4 [])) (Record 4 [])"
    by (intro r_into_rtranclp) (simp add: type_part.element)
  ultimately show "contains_c_resource resource_metadata (List (Record 4 []))"
    using contains_c_resource_iff [of resource_metadata "List (Record 4 [])"] by blast
  show "\<not> contains_c_resource resource_metadata (Alternatives [Record 4 []])"
    by (meson contains_c_resource_iff closed_to_search.simps)
qed

end
