(* ===== verification/VM_Values.thy ===== *)
theory VM_Values
  imports Program
begin

text \<open>
  The values of the virtual machine and the places borrowed from its slots,
  \<open>vm/src/value.rs\<close>: records over a shared layout, the standard library's wrapper records, and
  handles that name a part of a slot by a path of projections. Storage shared between processes and
  destructors are not modelled. Reading a slot follows references; not to end is \<open>None\<close>.
\<close>

section \<open>Values\<close>

datatype projection_path = Index_path nat | Field_path string | Payload_path nat

datatype place_projection =
    Payload_at string nat
  | Index_at nat u64 "projection_path list" u64
  | Field_at string

text \<open>A weak pointer to a slot is the slot's address.\<close>

record place_handle =
  ph_origin :: nat
  ph_projections :: "place_projection list"

datatype 'v record_fields =
  Fields (fields_layout: record_layout) (fields_values: "'v list") (fields_missing: "nat set")

datatype 'v vm_capture = Value_capture 'v | Place_capture place_handle

datatype vm_value =
    UnitV
  | BoolV bool
  | IntegerV u64
  | FloatV u64
  | CodePointV u32
  | ByteV u8
  | RawBytesV "u8 list"
  | RawByteBufferV "u8 list"
  | RawListV "vm_value list"
  | VmClosureV function_id "vm_value vm_capture list"
  | ReferenceV place_handle
  | RemoteV u64
  | FutureV u64
  | RecordV "record_id option" string "vm_value record_fields"
  | VariantV "variant_type_id option" string string "vm_value list"

definition is_borrowed :: "vm_value \<Rightarrow> bool" where
  "is_borrowed v \<longleftrightarrow> (case v of ReferenceV _ \<Rightarrow> True | _ \<Rightarrow> False)"

lemma is_borrowed_iff: "is_borrowed v \<longleftrightarrow> (\<exists>q. v = ReferenceV q)"
  by (cases v) (simp_all add: is_borrowed_def)

datatype runtime_error =
    BorrowedPlaceExpired
  | FieldRequiresRecord
  | NoField string
  | PayloadRequiresEnum
  | EnumCaseChanged
  | NoPayload
  | ReferenceInvalidated
  | NoIndexedValue
  | IndexOutOfBounds
  | NoListElement
  | NoByte
  | NestedByteProjection
  | ByteRequired
  | NotMutableIndexed
  | UnknownFields
  | LayoutMismatch
  | InvalidUnary
  | InvalidBinary
  | ByteShiftRange
  | BitwiseRequiresByte
  | IntegerOverflow
  | CannotCross

section \<open>Record fields\<close>

definition fields_index :: "'v record_fields \<Rightarrow> string \<Rightarrow> nat option" where
  "fields_index fs name = record_layout_index (fields_layout fs) name"

definition fields_get :: "'v record_fields \<Rightarrow> string \<Rightarrow> 'v option" where
  "fields_get fs name =
     (case fields_index fs name of
        None \<Rightarrow> None
      | Some i \<Rightarrow> if i \<in> fields_missing fs then None else get (fields_values fs) i)"

text \<open>\<open>get_mut\<close> and the write through it: a missing field is there after it.\<close>

definition fields_update ::
  "'v record_fields \<Rightarrow> string \<Rightarrow> ('v \<Rightarrow> runtime_error + 'v) \<Rightarrow> (runtime_error + 'v record_fields) option" where
  "fields_update fs name update =
     (case fields_index fs name of
        None \<Rightarrow> None
      | Some i \<Rightarrow>
          (case get (fields_values fs) i of
             None \<Rightarrow> None
           | Some v \<Rightarrow>
               Some (map_sum (\<lambda>e. e)
                 (\<lambda>v. Fields (fields_layout fs) ((fields_values fs)[i := v]) (fields_missing fs - {i}))
                 (update v))))"

definition contains_key :: "'v record_fields \<Rightarrow> string \<Rightarrow> bool" where
  "contains_key fs name \<longleftrightarrow> fields_index fs name \<noteq> None"

definition fields_new :: "record_layout \<Rightarrow> 'v list \<Rightarrow> runtime_error + 'v record_fields" where
  "fields_new l vs = (if length (rl_names l) \<noteq> length vs then Inl LayoutMismatch else Inr (Fields l vs {}))"

definition fields_partial :: "record_layout \<Rightarrow> (string \<times> vm_value) list \<Rightarrow> runtime_error + vm_value record_fields" where
  "fields_partial l supplied =
     (if map fst supplied = rl_names l then fields_new l (map snd supplied)
      else
        let m = map_of (rev supplied);
            missing = set [i \<leftarrow> [0..<length (rl_names l)].
              m (rl_names l ! i) = None \<or> rl_names l ! i \<in> set (take i (rl_names l))];
            values = map (\<lambda>i. if i \<in> missing then UnitV else the (m (rl_names l ! i))) [0..<length (rl_names l)]
        in if set (map fst supplied) \<subseteq> set (rl_names l)
           then map_sum (\<lambda>e. e) (\<lambda>fs. Fields (fields_layout fs) (fields_values fs) missing) (fields_new l values)
           else Inl UnknownFields)"

definition fields_from_pairs :: "(string \<times> 'v) list \<Rightarrow> 'v record_fields" where
  "fields_from_pairs ps = Fields (record_layout_new (map fst ps)) (map snd ps) {}"

definition fields_pairs :: "'v record_fields \<Rightarrow> (string \<times> 'v) list" where
  "fields_pairs fs = zip (rl_names (fields_layout fs)) (fields_values fs)"

definition value_fields :: "'v \<Rightarrow> 'v record_fields" where
  "value_fields v = Fields (record_layout_new [''value'']) [v] {}"

section \<open>Library records\<close>

definition record_field_named :: "vm_value \<Rightarrow> string \<Rightarrow> string \<Rightarrow> vm_value option" where
  "record_field_named v record_name field =
     (case v of RecordV _ name fs \<Rightarrow> if name \<noteq> record_name then None else fields_get fs field | _ \<Rightarrow> None)"

definition bytes_value :: "vm_value \<Rightarrow> u8 list option" where
  "bytes_value v = (case record_field_named v ''Bytes'' ''value'' of Some (RawBytesV bs) \<Rightarrow> Some bs | _ \<Rightarrow> None)"

definition byte_buffer_value :: "vm_value \<Rightarrow> u8 list option" where
  "byte_buffer_value v =
     (case record_field_named v ''ByteBuffer'' ''value'' of Some (RawByteBufferV bs) \<Rightarrow> Some bs | _ \<Rightarrow> None)"

definition list_value :: "vm_value \<Rightarrow> vm_value list option" where
  "list_value v = (case record_field_named v ''List'' ''value'' of Some (RawListV vs) \<Rightarrow> Some vs | _ \<Rightarrow> None)"

definition byte_buffer_list_value :: "vm_value \<Rightarrow> vm_value list option" where
  "byte_buffer_list_value v = Option.bind (record_field_named v ''ByteBuffer'' ''value'') list_value"

definition string_bytes :: "vm_value \<Rightarrow> u8 list option" where
  "string_bytes v = Option.bind (record_field_named v ''String'' ''value'') bytes_value"

definition symbol_bytes :: "vm_value \<Rightarrow> u8 list option" where
  "symbol_bytes v = Option.bind (record_field_named v ''Symbol'' ''value'') string_bytes"

definition bytes_of :: "u8 list \<Rightarrow> vm_value" where
  "bytes_of bs = RecordV None ''Bytes'' (value_fields (RawBytesV bs))"

definition string_value :: "record_id option \<Rightarrow> u8 list \<Rightarrow> vm_value" where
  "string_value r bs = RecordV r ''String'' (value_fields (bytes_of bs))"

definition symbol_value :: "record_id option \<Rightarrow> record_id option \<Rightarrow> u8 list \<Rightarrow> vm_value" where
  "symbol_value symbol string bs = RecordV symbol ''Symbol'' (value_fields (string_value string bs))"

definition list_record_value :: "vm_value list \<Rightarrow> vm_value" where
  "list_record_value vs = RecordV None ''List'' (value_fields (RawListV vs))"

definition string_shared :: "vm_value \<Rightarrow> vm_value option" where
  "string_shared v =
     (case string_bytes v of
        None \<Rightarrow> None
      | Some bs \<Rightarrow> Some (string_value (case v of RecordV r _ _ \<Rightarrow> r | _ \<Rightarrow> None) bs))"

end
