(* ===== verification/VM_Operations.thy ===== *)
theory VM_Operations
  imports VM_Values Flow_Types "HOL-Library.Signed_Division"
begin

text \<open>
  The operators of the virtual machine, \<open>vm/src/operations.rs\<close>, and equality of values. The
  arithmetic of \<open>f64\<close> is an argument.
\<close>

unbundle bit_operations_syntax

section \<open>Definitions\<close>

record float_ops =
  fl_negate :: "u64 \<Rightarrow> u64"
  fl_add :: "u64 \<Rightarrow> u64 \<Rightarrow> u64"
  fl_subtract :: "u64 \<Rightarrow> u64 \<Rightarrow> u64"
  fl_multiply :: "u64 \<Rightarrow> u64 \<Rightarrow> u64"
  fl_divide :: "u64 \<Rightarrow> u64 \<Rightarrow> u64"
  fl_equal :: "u64 \<Rightarrow> u64 \<Rightarrow> bool"
  fl_less :: "u64 \<Rightarrow> u64 \<Rightarrow> bool"
  fl_less_equal :: "u64 \<Rightarrow> u64 \<Rightarrow> bool"

text \<open>An instance to evaluate with: it tells floats apart by their bits and computes nothing.\<close>

definition bit_floats :: float_ops where
  "bit_floats = \<lparr>fl_negate = (\<lambda>x. x), fl_add = (\<lambda>x y. x), fl_subtract = (\<lambda>x y. x), fl_multiply = (\<lambda>x y. x),
     fl_divide = (\<lambda>x y. x), fl_equal = (=), fl_less = (<), fl_less_equal = (\<le>)\<rparr>"

definition constant_value :: "program_constant \<Rightarrow> record_id option \<Rightarrow> record_id option \<Rightarrow> vm_value" where
  "constant_value c string symbol =
     (case c of
        Unit_const \<Rightarrow> UnitV
      | Bool_const b \<Rightarrow> BoolV b
      | Integer_const i \<Rightarrow> IntegerV i
      | Float_const x \<Rightarrow> FloatV x
      | String_const s \<Rightarrow> string_value string (as_bytes s)
      | CodePoint_const c \<Rightarrow> CodePointV c
      | Symbol_const s \<Rightarrow> symbol_value symbol string (as_bytes s))"

text \<open>The derived equality of values; records compare their layouts and values.\<close>

declare vm_capture.rel_cong [fundef_cong]

lemma captured_smaller [termination_simp]:
  assumes "c \<in> set cs" "v \<in> set_vm_capture c"
  shows "size v < Suc (size_list (size_vm_capture size) cs)"
proof -
  have "size v \<le> size_vm_capture size c" using assms(2) by (cases c) auto
  then show ?thesis using size_list_estimation' [OF assms(1), of "size v" "size_vm_capture size"] by simp
qed

fun value_eq :: "float_ops \<Rightarrow> vm_value \<Rightarrow> vm_value \<Rightarrow> bool" where
  "value_eq fo (FloatV a) (FloatV b) = fl_equal fo a b"
| "value_eq fo (RawListV vs) (RawListV ws) = list_all2 (value_eq fo) vs ws"
| "value_eq fo (VmClosureV f cs) (VmClosureV g ds) =
     (f = g \<and> list_all2 (rel_vm_capture (value_eq fo)) cs ds)"
| "value_eq fo (RecordV r n (Fields l vs _)) (RecordV s m (Fields k ws _)) =
     (r = s \<and> n = m \<and> l = k \<and> list_all2 (value_eq fo) vs ws)"
| "value_eq fo (VariantV v n a vs) (VariantV w m b ws) =
     (v = w \<and> n = m \<and> a = b \<and> list_all2 (value_eq fo) vs ws)"
| "value_eq fo v w = (v = w)"

definition integer_value :: "vm_value \<Rightarrow> u64 option" where
  "integer_value v =
     (case v of
        IntegerV i \<Rightarrow> Some i
      | CodePointV c \<Rightarrow> Some (ucast c)
      | ByteV b \<Rightarrow> Some (ucast b)
      | _ \<Rightarrow> None)"

text \<open>The \<open>checked_\<close> operations of \<open>i64\<close>: the exact result when it has 64 bits.\<close>

definition checked_i64 :: "int \<Rightarrow> u64 option" where
  "checked_i64 z = (if - (2 ^ 63) \<le> z \<and> z < 2 ^ 63 then Some (word_of_int z) else None)"

definition checked_div :: "u64 \<Rightarrow> u64 \<Rightarrow> u64 option" where
  "checked_div a b = (if b = 0 then None else checked_i64 (sint a sdiv sint b))"

definition checked_integer :: "u64 option \<Rightarrow> runtime_error + vm_value" where
  "checked_integer v = (case v of None \<Rightarrow> Inl IntegerOverflow | Some i \<Rightarrow> Inr (IntegerV i))"

definition unary :: "float_ops \<Rightarrow> unary_op \<Rightarrow> vm_value \<Rightarrow> runtime_error + vm_value" where
  "unary fo operator v =
     (case (operator, v) of
        (Negate, IntegerV i) \<Rightarrow> checked_integer (checked_i64 (- sint i))
      | (Negate, CodePointV c) \<Rightarrow> Inr (IntegerV (- ucast c))
      | (Negate, ByteV b) \<Rightarrow> Inr (IntegerV (- ucast b))
      | (Negate, FloatV x) \<Rightarrow> Inr (FloatV (fl_negate fo x))
      | (Not, BoolV b) \<Rightarrow> Inr (BoolV (\<not> b))
      | (BitNot, ByteV b) \<Rightarrow> Inr (ByteV (NOT b))
      | _ \<Rightarrow> Inl InvalidUnary)"

definition byte_bits :: "binary_op \<Rightarrow> u8 \<Rightarrow> u8 \<Rightarrow> vm_value option" where
  "byte_bits operator a b =
     (case operator of
        BitAnd \<Rightarrow> Some (ByteV (a AND b))
      | BitOr \<Rightarrow> Some (ByteV (a OR b))
      | BitXor \<Rightarrow> Some (ByteV (a XOR b))
      | _ \<Rightarrow> None)"

definition byte_shift :: "binary_op \<Rightarrow> u8 \<Rightarrow> u64 \<Rightarrow> runtime_error + vm_value" where
  "byte_shift operator a b =
     (if 0 \<le> sint b \<and> sint b < 8 then
        Inr (ByteV (if operator = ShiftLeft then push_bit (unat b) a else drop_bit (unat b) a))
      else Inl ByteShiftRange)"

definition integer_binary :: "binary_op \<Rightarrow> u64 \<Rightarrow> u64 \<Rightarrow> runtime_error + vm_value" where
  "integer_binary operator a b =
     (case operator of
        Add \<Rightarrow> checked_integer (checked_i64 (sint a + sint b))
      | Subtract \<Rightarrow> checked_integer (checked_i64 (sint a - sint b))
      | Multiply \<Rightarrow> checked_integer (checked_i64 (sint a * sint b))
      | Divide \<Rightarrow> checked_integer (checked_div a b)
      | Equal \<Rightarrow> Inr (BoolV (a = b))
      | NotEqual \<Rightarrow> Inr (BoolV (a \<noteq> b))
      | Less \<Rightarrow> Inr (BoolV (sint a < sint b))
      | LessEqual \<Rightarrow> Inr (BoolV (sint a \<le> sint b))
      | Greater \<Rightarrow> Inr (BoolV (sint b < sint a))
      | GreaterEqual \<Rightarrow> Inr (BoolV (sint b \<le> sint a))
      | _ \<Rightarrow> Inl BitwiseRequiresByte)"

definition float_binary :: "float_ops \<Rightarrow> binary_op \<Rightarrow> u64 \<Rightarrow> u64 \<Rightarrow> vm_value option" where
  "float_binary fo operator a b =
     (case operator of
        Add \<Rightarrow> Some (FloatV (fl_add fo a b))
      | Subtract \<Rightarrow> Some (FloatV (fl_subtract fo a b))
      | Multiply \<Rightarrow> Some (FloatV (fl_multiply fo a b))
      | Divide \<Rightarrow> Some (FloatV (fl_divide fo a b))
      | Less \<Rightarrow> Some (BoolV (fl_less fo a b))
      | LessEqual \<Rightarrow> Some (BoolV (fl_less_equal fo a b))
      | Greater \<Rightarrow> Some (BoolV (fl_less fo b a))
      | GreaterEqual \<Rightarrow> Some (BoolV (fl_less_equal fo b a))
      | _ \<Rightarrow> None)"

text \<open>Concatenation; with an empty operand the other one is rewrapped and keeps its record.\<close>

definition string_add :: "vm_value \<Rightarrow> vm_value \<Rightarrow> (runtime_error + vm_value) option" where
  "string_add a b =
     (case (string_bytes a, string_bytes b) of
        (Some s, Some t) \<Rightarrow>
          if t = [] \<and> string_shared a \<noteq> None then map_option Inr (string_shared a)
          else if t \<noteq> [] \<and> s = [] \<and> string_shared b \<noteq> None then map_option Inr (string_shared b)
          else Some (Inr (string_value (case a of RecordV r _ _ \<Rightarrow> r | _ \<Rightarrow> None) (s @ t)))
      | _ \<Rightarrow> None)"

definition other_binary :: "float_ops \<Rightarrow> binary_op \<Rightarrow> vm_value \<Rightarrow> vm_value \<Rightarrow> runtime_error + vm_value" where
  "other_binary fo operator a b =
     (case (a, b) of
        (FloatV x, FloatV y) \<Rightarrow>
          (case float_binary fo operator x y of
             Some v \<Rightarrow> Inr v
           | None \<Rightarrow>
               if operator = Equal then Inr (BoolV (value_eq fo a b))
               else if operator = NotEqual then Inr (BoolV (\<not> value_eq fo a b))
               else Inl InvalidBinary)
      | _ \<Rightarrow>
          if operator = Add then (case string_add a b of Some v \<Rightarrow> v | None \<Rightarrow> Inl InvalidBinary)
          else if operator = Equal then Inr (BoolV (value_eq fo a b))
          else if operator = NotEqual then Inr (BoolV (\<not> value_eq fo a b))
          else Inl InvalidBinary)"

definition binary :: "float_ops \<Rightarrow> binary_op \<Rightarrow> vm_value \<Rightarrow> vm_value \<Rightarrow> runtime_error + vm_value" where
  "binary fo operator left right =
     (case (case (left, right) of (ByteV a, ByteV b) \<Rightarrow> byte_bits operator a b | _ \<Rightarrow> None) of
        Some v \<Rightarrow> Inr v
      | None \<Rightarrow>
          (case (if operator = ShiftLeft \<or> operator = ShiftRight
                 then (case (left, right) of (ByteV a, IntegerV b) \<Rightarrow> Some (a, b) | _ \<Rightarrow> None) else None) of
             Some (a, b) \<Rightarrow> byte_shift operator a b
           | None \<Rightarrow>
               (case (integer_value left, integer_value right) of
                  (Some a, Some b) \<Rightarrow> integer_binary operator a b
                | _ \<Rightarrow> other_binary fo operator left right)))"

section \<open>Exact integers\<close>

lemma checked_i64_Some: "checked_i64 z = Some w \<longleftrightarrow> sint w = z \<and> - (2 ^ 63) \<le> z \<and> z < 2 ^ 63"
proof -
  have "sint (word_of_int z :: u64) = z" if "- (2 ^ 63) \<le> z" "z < 2 ^ 63"
    using that by (simp add: sint_sbintrunc' signed_take_bit_int_eq_self)
  then show ?thesis by (auto simp: checked_i64_def)
qed

lemma checked_i64_None: "checked_i64 z = None \<longleftrightarrow> z < - (2 ^ 63) \<or> 2 ^ 63 \<le> z"
  by (auto simp: checked_i64_def)

fun exact_result :: "binary_op \<Rightarrow> int \<Rightarrow> int \<Rightarrow> int" where
  "exact_result Add a b = a + b"
| "exact_result Subtract a b = a - b"
| "exact_result Multiply a b = a * b"
| "exact_result _ a b = a sdiv b"

text \<open>
  C21. Integer arithmetic never wraps: on integers, code points and bytes an arithmetic operator
  returns the exact result, or fails, and it fails only on a division by zero or a result that
  does not fit in 64 bits.
\<close>

theorem integer_arithmetic_exact:
  assumes "is_arithmetic operator" "integer_value left = Some a" "integer_value right = Some b"
  shows "case binary fo operator left right of
      Inr v \<Rightarrow> \<exists>w. v = IntegerV w \<and> sint w = exact_result operator (sint a) (sint b) \<and> (operator = Divide \<longrightarrow> b \<noteq> 0)
    | Inl e \<Rightarrow> e = IntegerOverflow \<and>
        (operator = Divide \<and> b = 0 \<or> exact_result operator (sint a) (sint b) \<notin> {- (2 ^ 63)..<2 ^ 63})"
proof -
  have "binary fo operator left right = integer_binary operator a b"
    using assms by (auto simp: binary_def byte_bits_def is_arithmetic_def split: vm_value.splits)
  then show ?thesis
    using assms(1) by (auto simp: integer_binary_def is_arithmetic_def checked_integer_def checked_div_def
        checked_i64_Some checked_i64_None split: option.splits)
qed

theorem integer_arithmetic_exact_witness:
  "\<exists>e. binary bit_floats Divide (IntegerV (- (2 ^ 63))) (IntegerV (-1)) = Inl e \<and> e = IntegerOverflow"
proof -
  have "binary bit_floats Divide (IntegerV (- (2 ^ 63))) (IntegerV (-1)) = Inl IntegerOverflow"
    by (simp add: binary_def integer_value_def integer_binary_def checked_div_def checked_i64_def checked_integer_def
        signed_divide_int_def)
  with integer_arithmetic_exact [of Divide "IntegerV (- (2 ^ 63))" "- (2 ^ 63)" "IntegerV (-1)" "-1" bit_floats]
  show ?thesis by (simp add: is_arithmetic_def integer_value_def)
qed

section \<open>Operators by operand\<close>

lemma binary_integers:
  "integer_value left = Some a \<Longrightarrow> integer_value right = Some b \<Longrightarrow>
   operator \<notin> {BitAnd, BitOr, BitXor, ShiftLeft, ShiftRight} \<Longrightarrow>
   binary fo operator left right = integer_binary operator a b"
  by (auto simp: binary_def byte_bits_def split: vm_value.splits binary_op.splits)

lemma binary_floats:
  "operator \<notin> {ShiftLeft, ShiftRight} \<Longrightarrow>
   binary fo operator (FloatV x) (FloatV y) = other_binary fo operator (FloatV x) (FloatV y)"
  by (simp add: binary_def integer_value_def)

lemma equality_answers:
  assumes "operator \<in> {Equal, NotEqual}"
  shows "\<exists>b. binary fo operator left right = Inr (BoolV b)"
proof -
  have "\<exists>b. integer_binary operator x y = Inr (BoolV b)" for x y
    using assms by (auto simp: integer_binary_def)
  moreover have "\<exists>b. other_binary fo operator left right = Inr (BoolV b)"
    using assms by (auto simp: other_binary_def float_binary_def split: vm_value.splits)
  moreover have "(case (left, right) of (ByteV a, ByteV b) \<Rightarrow> byte_bits operator a b | _ \<Rightarrow> None) = None"
    using assms by (auto simp: byte_bits_def split: vm_value.splits)
  moreover have "\<not> (operator = ShiftLeft \<or> operator = ShiftRight)" using assms by auto
  ultimately show ?thesis unfolding binary_def by (simp split: option.split)
qed

end
