(* ===== verification/VM_Places.thy ===== *)
theory VM_Places
  imports VM_Values
begin

text \<open>
  Slots and the places borrowed from them, the second half of \<open>vm/src/value.rs\<close>. A handle names a
  part of a slot by projections; an index remembers the generations of its slot and of its path, so
  that a structural change invalidates it. Entering a zero generation for a path not seen before
  has no effect that can be read, so reading leaves the store as it is.
\<close>

section \<open>Slots\<close>

record vm_slot =
  sl_value :: vm_value
  sl_generation :: u64
  sl_projected :: "projection_path list \<rightharpoonup> u64"

type_synonym store = "nat \<rightharpoonup> vm_slot"

definition slot_new :: "vm_value \<Rightarrow> vm_slot" where
  "slot_new v = \<lparr>sl_value = v, sl_generation = 0, sl_projected = Map.empty\<rparr>"

definition projected_generation :: "vm_slot \<Rightarrow> projection_path list \<Rightarrow> u64" where
  "projected_generation s path = (case sl_projected s path of None \<Rightarrow> 0 | Some g \<Rightarrow> g)"

definition enter_generation :: "projection_path list \<Rightarrow> vm_slot \<Rightarrow> vm_slot" where
  "enter_generation path s = s\<lparr>sl_projected := (sl_projected s)(path \<mapsto> projected_generation s path)\<rparr>"

definition invalidate_projected :: "projection_path list \<Rightarrow> vm_slot \<Rightarrow> vm_slot" where
  "invalidate_projected path s = s\<lparr>sl_projected := (\<lambda>candidate.
     case sl_projected s candidate of
       None \<Rightarrow> if candidate = path then Some 1 else None
     | Some g \<Rightarrow> if take (length path) candidate = path then Some (g + 1) else Some g)\<rparr>"

definition ensure_generation ::
  "vm_slot \<Rightarrow> u64 \<Rightarrow> projection_path list \<Rightarrow> u64 \<Rightarrow> runtime_error + unit" where
  "ensure_generation s root_generation path generation =
     (if sl_generation s = root_generation \<and> projected_generation s path = generation then Inr ()
      else Inl ReferenceInvalidated)"

fun projection_path_of :: "place_projection \<Rightarrow> projection_path" where
  "projection_path_of (Index_at i _ _ _) = Index_path i"
| "projection_path_of (Field_at name) = Field_path name"
| "projection_path_of (Payload_at _ i) = Payload_path i"

definition projection_paths :: "place_projection list \<Rightarrow> projection_path list" where
  "projection_paths ps = map projection_path_of ps"

section \<open>Reading\<close>

definition indexed_value :: "vm_value \<Rightarrow> nat \<Rightarrow> runtime_error + vm_value" where
  "indexed_value v i =
     (let projected =
        (case v of
           RawByteBufferV bs \<Rightarrow> map_option ByteV (get bs i)
         | _ \<Rightarrow>
             (case list_value v of
                Some vs \<Rightarrow> get vs i
              | None \<Rightarrow>
                  (case byte_buffer_value v of
                     Some bs \<Rightarrow> map_option ByteV (get bs i)
                   | None \<Rightarrow>
                       (case byte_buffer_list_value v of
                          Some vs \<Rightarrow> get vs i
                        | None \<Rightarrow> Option.bind (bytes_value v) (\<lambda>bs. map_option ByteV (get bs i))))))
      in case projected of None \<Rightarrow> Inl NoIndexedValue | Some x \<Rightarrow> Inr x)"

fun project_value :: "vm_slot \<Rightarrow> place_projection \<Rightarrow> vm_value \<Rightarrow> runtime_error + vm_value" where
  "project_value origin (Payload_at alternative i) v =
     (case v of
        VariantV _ _ actual payload \<Rightarrow>
          if actual \<noteq> alternative then Inl EnumCaseChanged
          else (case get payload i of None \<Rightarrow> Inl NoPayload | Some x \<Rightarrow> Inr x)
      | _ \<Rightarrow> Inl PayloadRequiresEnum)"
| "project_value origin (Field_at name) v =
     (case v of
        RecordV _ _ fs \<Rightarrow> (case fields_get fs name of None \<Rightarrow> Inl (NoField name) | Some x \<Rightarrow> Inr x)
      | _ \<Rightarrow> Inl FieldRequiresRecord)"
| "project_value origin (Index_at i root_generation path generation) v =
     try_bind (ensure_generation origin root_generation path generation) (\<lambda>_. indexed_value v i)"

text \<open>A slot that holds a reference is read through it.\<close>

partial_function (option) place_read :: "store \<Rightarrow> place_handle \<Rightarrow> (runtime_error + vm_value) option" where
  "place_read st p =
     (case st (ph_origin p) of
        None \<Rightarrow> Some (Inl BorrowedPlaceExpired)
      | Some origin \<Rightarrow>
          Option.bind (case sl_value origin of ReferenceV q \<Rightarrow> place_read st q | v \<Rightarrow> Some (Inr v)) (\<lambda>r.
            Some (try_bind r (try_fold (project_value origin) (ph_projections p)))))"

definition slot_read :: "store \<Rightarrow> vm_slot \<Rightarrow> (runtime_error + vm_value) option" where
  "slot_read st s = (case sl_value s of ReferenceV q \<Rightarrow> place_read st q | v \<Rightarrow> Some (Inr v))"

section \<open>Handles\<close>

definition place_whole :: "nat \<Rightarrow> place_handle" where
  "place_whole s = \<lparr>ph_origin = s, ph_projections = []\<rparr>"

definition project_place :: "place_handle \<Rightarrow> place_projection \<Rightarrow> place_handle" where
  "project_place p projection = p\<lparr>ph_projections := ph_projections p @ [projection]\<rparr>"

definition place_payload :: "place_handle \<Rightarrow> string \<Rightarrow> nat \<Rightarrow> place_handle" where
  "place_payload p alternative i = project_place p (Payload_at alternative i)"

definition pattern_field :: "place_handle \<Rightarrow> string \<Rightarrow> place_handle" where
  "pattern_field p name = project_place p (Field_at name)"

text \<open>\<open>Slot::place\<close>: the reference a slot holds, or the slot itself.\<close>

definition slot_place :: "nat \<Rightarrow> vm_slot \<Rightarrow> place_handle" where
  "slot_place address s = (case sl_value s of ReferenceV q \<Rightarrow> q | _ \<Rightarrow> place_whole address)"

definition index_exists :: "vm_value \<Rightarrow> nat \<Rightarrow> bool" where
  "index_exists v i =
     (case v of
        RawByteBufferV bs \<Rightarrow> i < length bs
      | _ \<Rightarrow>
          (case list_value v of Some vs \<Rightarrow> i < length vs | None \<Rightarrow> False) \<or>
          (case byte_buffer_value v of Some bs \<Rightarrow> i < length bs | None \<Rightarrow> False) \<or>
          (case byte_buffer_list_value v of Some vs \<Rightarrow> i < length vs | None \<Rightarrow> False) \<or>
          (case bytes_value v of Some bs \<Rightarrow> i < length bs | None \<Rightarrow> False))"

definition place_indexed ::
  "store \<Rightarrow> nat \<Rightarrow> vm_slot \<Rightarrow> nat \<Rightarrow> (runtime_error + place_handle \<times> store) option" where
  "place_indexed st address s i =
     (let place = slot_place address s
      in Option.bind (place_read st place) (\<lambda>r. Some (try_bind r (\<lambda>v.
           if \<not> index_exists v i then Inl IndexOutOfBounds
           else
             case st (ph_origin place) of
               None \<Rightarrow> Inl BorrowedPlaceExpired
             | Some root \<Rightarrow>
                 (let wrapper = byte_buffer_value v \<noteq> None \<or> byte_buffer_list_value v \<noteq> None;
                      path = projection_paths (ph_projections place) @ (if wrapper then [Field_path ''value''] else [])
                  in Inr (project_place place (Index_at i (sl_generation root) path (projected_generation root path)),
                          st(ph_origin place \<mapsto> enter_generation path root)))))))"

definition place_field ::
  "store \<Rightarrow> nat \<Rightarrow> vm_slot \<Rightarrow> string \<Rightarrow> (runtime_error + place_handle) option" where
  "place_field st address s name =
     (let place = slot_place address s
      in Option.bind (place_read st place) (\<lambda>r. Some (try_bind r (\<lambda>v.
           case v of
             RecordV _ _ fs \<Rightarrow>
               (case fields_get fs name of
                  None \<Rightarrow> Inl (NoField name)
                | Some (ReferenceV q) \<Rightarrow> Inr q
                | Some _ \<Rightarrow> Inr (project_place place (Field_at name)))
           | _ \<Rightarrow> Inl FieldRequiresRecord))))"

section \<open>Writing\<close>

text \<open>\<open>record_field_named_mut\<close>, and the record with the field replaced.\<close>

definition record_field_mut :: "vm_value \<Rightarrow> string \<Rightarrow> vm_value option" where
  "record_field_mut v record_name =
     (case v of
        RecordV _ name fs \<Rightarrow>
          if name \<noteq> record_name then None
          else Option.bind (fields_index fs ''value'') (get (fields_values fs))
      | _ \<Rightarrow> None)"

definition replace_wrapped :: "vm_value \<Rightarrow> vm_value \<Rightarrow> vm_value" where
  "replace_wrapped v x =
     (case v of
        RecordV r name fs \<Rightarrow>
          (case fields_update fs ''value'' (\<lambda>_. Inr x) of Some (Inr fs) \<Rightarrow> RecordV r name fs | _ \<Rightarrow> v)
      | _ \<Rightarrow> v)"

definition update_element ::
  "(vm_value \<Rightarrow> runtime_error + vm_value) \<Rightarrow> runtime_error \<Rightarrow> vm_value list \<Rightarrow> nat \<Rightarrow> runtime_error + vm_value list" where
  "update_element update missing vs i =
     (case get vs i of
        None \<Rightarrow> Inl missing
      | Some x \<Rightarrow> map_sum (\<lambda>e. e) (\<lambda>x. vs[i := x]) (update x))"

definition update_byte ::
  "(vm_value \<Rightarrow> runtime_error + vm_value) \<Rightarrow> u8 list \<Rightarrow> nat \<Rightarrow> runtime_error + u8 list" where
  "update_byte update bs i =
     (case get bs i of
        None \<Rightarrow> Inl NoByte
      | Some b \<Rightarrow> try_bind (update (ByteV b)) (\<lambda>x. case x of ByteV u \<Rightarrow> Inr (bs[i := u]) | _ \<Rightarrow> Inl ByteRequired))"

definition update_indexed ::
  "bool \<Rightarrow> (vm_value \<Rightarrow> runtime_error + vm_value) \<Rightarrow> nat \<Rightarrow> vm_value \<Rightarrow> runtime_error + vm_value" where
  "update_indexed final update i v =
     (case record_field_mut v ''List'' of
        Some (RawListV vs) \<Rightarrow>
          map_sum (\<lambda>e. e) (\<lambda>vs. replace_wrapped v (RawListV vs)) (update_element update NoListElement vs i)
      | _ \<Rightarrow>
          (case record_field_mut v ''ByteBuffer'' of
             Some (RawByteBufferV bs) \<Rightarrow>
               if \<not> final then Inl NestedByteProjection
               else map_sum (\<lambda>e. e) (\<lambda>bs. replace_wrapped v (RawByteBufferV bs)) (update_byte update bs i)
           | Some w \<Rightarrow>
               (case record_field_mut w ''List'' of
                  Some (RawListV vs) \<Rightarrow>
                    map_sum (\<lambda>e. e) (\<lambda>vs. replace_wrapped v (replace_wrapped w (RawListV vs)))
                      (update_element update NoByte vs i)
                | _ \<Rightarrow> Inl NotMutableIndexed)
           | None \<Rightarrow> Inl NotMutableIndexed))"

fun update_at ::
  "vm_slot \<Rightarrow> bool \<Rightarrow> (vm_value \<Rightarrow> runtime_error + vm_value) \<Rightarrow> place_projection \<Rightarrow> vm_value \<Rightarrow> runtime_error + vm_value" where
  "update_at origin final update (Payload_at alternative i) v =
     (case v of
        VariantV t n actual payload \<Rightarrow>
          if actual \<noteq> alternative then Inl EnumCaseChanged
          else map_sum (\<lambda>e. e) (VariantV t n actual) (update_element update NoPayload payload i)
      | _ \<Rightarrow> Inl PayloadRequiresEnum)"
| "update_at origin final update (Field_at name) v =
     (case v of
        RecordV r n fs \<Rightarrow>
          (case fields_update fs name update of
             None \<Rightarrow> Inl (NoField name)
           | Some q \<Rightarrow> map_sum (\<lambda>e. e) (RecordV r n) q)
      | _ \<Rightarrow> Inl FieldRequiresRecord)"
| "update_at origin final update (Index_at i root_generation path generation) v =
     try_bind (ensure_generation origin root_generation path generation) (\<lambda>_. update_indexed final update i v)"

primrec update_projected ::
  "place_projection list \<Rightarrow> vm_slot \<Rightarrow> (vm_value \<Rightarrow> runtime_error + vm_value) \<Rightarrow> vm_value \<Rightarrow> runtime_error + vm_value" where
  "update_projected [] origin update v = update v"
| "update_projected (p # ps) origin update v =
     update_at origin (ps = []) (update_projected ps origin update) p v"

partial_function (option) place_write ::
  "store \<Rightarrow> place_handle \<times> vm_value \<Rightarrow> (runtime_error + store) option" where
  "place_write st pv =
     (case st (ph_origin (fst pv)) of
        None \<Rightarrow> Some (Inl BorrowedPlaceExpired)
      | Some origin \<Rightarrow>
          if ph_projections (fst pv) = [] then
            (case sl_value origin of
               ReferenceV q \<Rightarrow> place_write st (q, snd pv)
             | _ \<Rightarrow> Some (Inr (st(ph_origin (fst pv) \<mapsto> origin\<lparr>sl_value := snd pv\<rparr>))))
          else
            Option.bind (slot_read st origin) (\<lambda>r.
              case try_bind r (update_projected (ph_projections (fst pv)) origin (\<lambda>_. Inr (snd pv))) of
                Inl e \<Rightarrow> Some (Inl e)
              | Inr current \<Rightarrow>
                  Option.bind
                    (case sl_value origin of
                       ReferenceV q \<Rightarrow> place_write st (q, current)
                     | _ \<Rightarrow> Some (Inr (st(ph_origin (fst pv) \<mapsto> origin\<lparr>sl_value := current\<rparr>))))
                    (\<lambda>r. Some (map_sum (\<lambda>e. e)
                       (\<lambda>st. st(ph_origin (fst pv) :=
                          map_option (invalidate_projected (projection_paths (ph_projections (fst pv)))) (st (ph_origin (fst pv))))) r))))"

text \<open>
  \<open>reshape\<close>: a structural change of a whole slot starts a new generation of the slot, one behind
  projections invalidates its own path. An update that fails ends the run.
\<close>

partial_function (option) place_reshape ::
  "store \<Rightarrow> place_handle \<times> (vm_value \<Rightarrow> runtime_error + vm_value) \<Rightarrow> (runtime_error + store) option" where
  "place_reshape st pu =
     (case st (ph_origin (fst pu)) of
        None \<Rightarrow> Some (Inl BorrowedPlaceExpired)
      | Some origin \<Rightarrow>
          Option.bind
            (case sl_value origin of
               ReferenceV q \<Rightarrow> place_reshape st (q, update_projected (ph_projections (fst pu)) origin (snd pu))
             | _ \<Rightarrow>
                 Some (map_sum (\<lambda>e. e) (\<lambda>v. st(ph_origin (fst pu) \<mapsto> origin\<lparr>sl_value := v\<rparr>))
                   (update_projected (ph_projections (fst pu)) origin (snd pu) (sl_value origin))))
            (\<lambda>r. Some (map_sum (\<lambda>e. e)
               (\<lambda>st. st(ph_origin (fst pu) :=
                  map_option
                    (if ph_projections (fst pu) = [] then (\<lambda>s. s\<lparr>sl_generation := sl_generation s + 1\<rparr>)
                     else invalidate_projected (projection_paths (ph_projections (fst pu))))
                    (st (ph_origin (fst pu))))) r)))"

end
