(* ===== verification/VM_Patterns.thy ===== *)
theory VM_Patterns
  imports VM_Operations VM_Places
begin

text \<open>
  Pattern matching of the virtual machine, \<open>vm/src/patterns.rs\<close>. A match answers whether the
  pattern fits and extends the bindings; a borrowed subject is matched in place, its parts by the
  handles that name them. \<open>None\<close> is a read that does not end, or the panic of a variant that the
  metadata does not have.
\<close>

section \<open>Definitions\<close>

type_synonym match_result = "(runtime_error + bool \<times> vm_value list) option"

fun match_every :: "('a \<Rightarrow> vm_value list \<Rightarrow> match_result) \<Rightarrow> 'a list \<Rightarrow> vm_value list \<Rightarrow> match_result" where
  "match_every f [] bindings = Some (Inr (True, bindings))"
| "match_every f (x # xs) bindings =
     Option.bind (f x bindings) (\<lambda>r.
       case r of
         Inl e \<Rightarrow> Some (Inl e)
       | Inr m \<Rightarrow> if fst m then match_every f xs (snd m) else Some (Inr m))"

lemma match_every_mono [partial_function_mono]:
  "(\<And>x bs. mono_option (\<lambda>f. B f x bs)) \<Longrightarrow> mono_option (\<lambda>f. match_every (B f) xs bs)"
proof (induction xs arbitrary: bs)
  case (Cons x xs)
  have "mono_option (\<lambda>f. case r of Inl e \<Rightarrow> Some (Inl e) | Inr m \<Rightarrow> if fst m then match_every (B f) xs (snd m) else Some (Inr m))" for r
    using Cons.IH [OF Cons.prems] by (cases r) (auto intro!: partial_function_mono)
  then show ?case using Cons.prems by (auto intro!: partial_function_mono)
qed (auto intro!: partial_function_mono)

text \<open>A failing aggregate takes back the bindings of its parts.\<close>

definition restore :: "vm_value list \<Rightarrow> bool \<times> vm_value list \<Rightarrow> bool \<times> vm_value list" where
  "restore bindings m = (if fst m then m else (False, take (length bindings) (snd m)))"

definition match_parts :: "('a \<Rightarrow> vm_value list \<Rightarrow> match_result) \<Rightarrow> 'a list \<Rightarrow> vm_value list \<Rightarrow> match_result" where
  "match_parts f xs bindings =
     Option.bind (match_every f xs bindings) (\<lambda>r. Some (map_sum (\<lambda>e. e) (restore bindings) r))"

lemma match_parts_mono [partial_function_mono]:
  "(\<And>x bs. mono_option (\<lambda>f. B f x bs)) \<Longrightarrow> mono_option (\<lambda>f. match_parts (B f) xs bs)"
  unfolding match_parts_def by (auto intro!: partial_function_mono)

text \<open>The UTF-8 bytes of a \<open>char\<close>.\<close>

definition utf8_char :: "u32 \<Rightarrow> u8 list" where
  "utf8_char c =
     (let byte = (\<lambda>n. word_of_nat n); n = unat c in
      if n < 0x80 then [byte n]
      else if n < 0x800 then [byte (0xC0 + n div 64), byte (0x80 + n mod 64)]
      else if n < 0x10000 then [byte (0xE0 + n div 4096), byte (0x80 + n div 64 mod 64), byte (0x80 + n mod 64)]
      else [byte (0xF0 + n div 262144), byte (0x80 + n div 4096 mod 64), byte (0x80 + n div 64 mod 64), byte (0x80 + n mod 64)])"

fun type_conforms :: "vm_value \<Rightarrow> executable_type \<Rightarrow> bool" where
  "type_conforms v Unit = (case v of UnitV \<Rightarrow> True | _ \<Rightarrow> False)"
| "type_conforms v Bool = (case v of BoolV _ \<Rightarrow> True | _ \<Rightarrow> False)"
| "type_conforms v Integer = (case v of IntegerV _ \<Rightarrow> True | _ \<Rightarrow> False)"
| "type_conforms v Float = (case v of FloatV _ \<Rightarrow> True | _ \<Rightarrow> False)"
| "type_conforms v Byte = (case v of ByteV _ \<Rightarrow> True | _ \<Rightarrow> False)"
| "type_conforms v CodePoint = (case v of CodePointV _ \<Rightarrow> True | _ \<Rightarrow> False)"
| "type_conforms v (Record expected _) = (case v of RecordV actual _ _ \<Rightarrow> actual = Some expected | _ \<Rightarrow> False)"
| "type_conforms v (Variant expected _) = (case v of VariantV actual _ _ _ \<Rightarrow> actual = Some expected | _ \<Rightarrow> False)"
| "type_conforms v Bytes = (bytes_value v \<noteq> None)"
| "type_conforms v (List _) = (list_value v \<noteq> None)"
| "type_conforms v _ = False"

record match_env =
  me_metadata :: program_metadata
  me_store :: store
  me_floats :: float_ops

fun literal_matches :: "match_env \<Rightarrow> pattern \<Rightarrow> vm_value \<Rightarrow> bool" where
  "literal_matches env (Bool_pat e) v = (v = BoolV e)"
| "literal_matches env (Integer_pat e) v = (v = IntegerV e)"
| "literal_matches env (Float_pat e) v = (case v of FloatV a \<Rightarrow> fl_equal (me_floats env) e a | _ \<Rightarrow> False)"
| "literal_matches env (String_pat e) v = (string_bytes v = Some (as_bytes e))"
| "literal_matches env (CodePoint_pat e) v =
     (case v of CodePointV c \<Rightarrow> take (length (utf8_char c)) (as_bytes e) = utf8_char c | _ \<Rightarrow> False)"
| "literal_matches env (Symbol_pat e) v = (symbol_bytes v = Some (as_bytes e))"
| "literal_matches env _ v = False"

definition variant_fits :: "runtime_variant \<Rightarrow> string \<Rightarrow> string \<Rightarrow> 'a list \<Rightarrow> 'b list \<Rightarrow> bool" where
  "variant_fits expected type_name alternative patterns payload \<longleftrightarrow>
     type_name = rv_type_name expected \<and> alternative = rv_alternative expected \<and> length patterns = length payload"

definition projected :: "store \<Rightarrow> place_handle \<Rightarrow> (runtime_error + vm_value) option" where
  "projected st place =
     Option.bind (place_read st place) (\<lambda>r. Some (map_sum (\<lambda>e. e)
       (\<lambda>v. case v of ReferenceV q \<Rightarrow> ReferenceV q | _ \<Rightarrow> ReferenceV place) r))"

definition the_reference :: "vm_value \<Rightarrow> place_handle" where
  "the_reference v = (case v of ReferenceV r \<Rightarrow> r | _ \<Rightarrow> place_whole 0)"

text \<open>The two halves of \<open>matches\<close>; the match of a part is an argument.\<close>

definition match_field :: "(pattern \<times> vm_value \<times> vm_value list \<Rightarrow> match_result) \<Rightarrow>
    vm_value record_fields \<Rightarrow> string \<times> pattern \<Rightarrow> vm_value list \<Rightarrow> match_result" where
  "match_field M fs x bindings =
     (case fields_get fs (fst x) of
        None \<Rightarrow> Some (Inr (False, bindings))
      | Some v \<Rightarrow> M (snd x, v, bindings))"

definition match_plain :: "(pattern \<times> vm_value \<times> vm_value list \<Rightarrow> match_result) \<Rightarrow> match_env \<Rightarrow>
    pattern \<Rightarrow> vm_value \<Rightarrow> vm_value list \<Rightarrow> match_result" where
  "match_plain M env pattern value bindings =
     (case unspanned pattern of
        IsType _ _ conforming binding \<Rightarrow>
          (let matched = list_ex (type_conforms value) conforming in
           Some (Inr (matched, if matched \<and> binding \<noteq> None then bindings @ [value] else bindings)))
      | Record_pat ps \<Rightarrow>
          (case value of
             RecordV _ _ fs \<Rightarrow> match_parts (match_field M fs) ps bindings
           | _ \<Rightarrow> Some (Inr (False, bindings)))
      | Wildcard \<Rightarrow> Some (Inr (True, bindings))
      | Binding _ \<Rightarrow> Some (Inr (True, bindings @ [value]))
      | Variant_pat v ps \<Rightarrow>
          (case value of
             VariantV _ type_name alternative payload \<Rightarrow>
               (case map_of (variants (me_metadata env)) v of
                  None \<Rightarrow> None
                | Some expected \<Rightarrow>
                    if \<not> variant_fits expected type_name alternative ps payload then Some (Inr (False, bindings))
                    else match_parts (\<lambda>x bindings. M (fst x, snd x, bindings)) (zip ps payload) bindings)
           | _ \<Rightarrow> Some (Inr (False, bindings)))
      | literal \<Rightarrow> Some (Inr (literal_matches env literal value, bindings)))"

definition match_place :: "(pattern \<times> vm_value \<times> vm_value list \<Rightarrow> match_result) \<Rightarrow> store \<Rightarrow>
    place_handle \<Rightarrow> pattern \<Rightarrow> vm_value list \<Rightarrow> match_result" where
  "match_place M st place pattern bindings =
     Option.bind (projected st place) (\<lambda>r. case r of Inl e \<Rightarrow> Some (Inl e) | Inr v \<Rightarrow> M (pattern, v, bindings))"

definition match_borrowed :: "(pattern \<times> vm_value \<times> vm_value list \<Rightarrow> match_result) \<Rightarrow> match_env \<Rightarrow>
    pattern \<Rightarrow> place_handle \<Rightarrow> vm_value \<Rightarrow> vm_value list \<Rightarrow> match_result" where
  "match_borrowed M env pattern reference actual bindings =
     (case unspanned pattern of
        Binding _ \<Rightarrow> Some (Inr (True, bindings @ [ReferenceV reference]))
      | Record_pat ps \<Rightarrow>
          (case actual of
             RecordV _ _ fs \<Rightarrow>
               match_parts (\<lambda>x bindings.
                 if \<not> contains_key fs (fst x) then Some (Inr (False, bindings))
                 else match_place M (me_store env) (pattern_field reference (fst x)) (snd x) bindings) ps bindings
           | _ \<Rightarrow> M (pattern, actual, bindings))
      | Variant_pat v ps \<Rightarrow>
          (case actual of
             VariantV _ type_name alternative payload \<Rightarrow>
               (case map_of (variants (me_metadata env)) v of
                  None \<Rightarrow> None
                | Some expected \<Rightarrow>
                    if \<not> variant_fits expected type_name alternative ps payload then Some (Inr (False, bindings))
                    else
                      match_parts (\<lambda>x bindings.
                        match_place M (me_store env) (place_payload reference alternative (fst x)) (snd x) bindings)
                        (enumerate 0 ps) bindings)
           | _ \<Rightarrow> M (pattern, actual, bindings))
      | _ \<Rightarrow> M (pattern, actual, bindings))"

lemma match_field_mono [partial_function_mono]:
  "(\<And>x. mono_option (\<lambda>f. B f x)) \<Longrightarrow> mono_option (\<lambda>f. match_field (B f) fs x bs)"
  unfolding match_field_def by (cases "fields_get fs (fst x)") (auto intro!: partial_function_mono)

lemma match_place_mono [partial_function_mono]:
  assumes "\<And>x. mono_option (\<lambda>f. B f x)"
  shows "mono_option (\<lambda>f. match_place (B f) st place p bs)"
proof -
  have "mono_option (\<lambda>f. case r of Inl e \<Rightarrow> Some (Inl e) | Inr v \<Rightarrow> B f (p, v, bs))" for r
    using assms by (cases r) (auto intro!: partial_function_mono)
  then show ?thesis unfolding match_place_def by (auto intro!: partial_function_mono)
qed

lemma match_plain_mono [partial_function_mono]:
  assumes "\<And>x. mono_option (\<lambda>f. B f x)"
  shows "mono_option (\<lambda>f. match_plain (B f) env p v bs)"
proof (cases "unspanned p")
  case (Record_pat ps)
  then show ?thesis unfolding match_plain_def
    by (cases v) (simp_all add: assms partial_function_mono)
next
  case (Variant_pat c ps)
  show ?thesis
    using assms unfolding match_plain_def Variant_pat
    by (cases v; cases "map_of (variants (me_metadata env)) c") (auto intro!: partial_function_mono)
qed (auto simp: match_plain_def Let_def intro!: partial_function_mono)

lemma match_borrowed_mono [partial_function_mono]:
  assumes "\<And>x. mono_option (\<lambda>f. B f x)"
  shows "mono_option (\<lambda>f. match_borrowed (B f) env p r v bs)"
proof (cases "unspanned p")
  case (Record_pat ps)
  have "mono_option (\<lambda>f. if c then Some (Inr (False, bs)) else match_place (B f) (me_store env) q p bs)" for c q p bs
    using assms by (auto intro!: partial_function_mono)
  then show ?thesis unfolding match_borrowed_def Record_pat
    by (cases v) (simp_all add: assms partial_function_mono)
next
  case (Variant_pat c ps)
  show ?thesis
    using assms unfolding match_borrowed_def Variant_pat
    by (cases v; cases "map_of (variants (me_metadata env)) c") (auto intro!: partial_function_mono)
qed (use assms in \<open>auto simp: match_borrowed_def intro!: partial_function_mono\<close>)

partial_function (option) vm_matches :: "match_env \<Rightarrow> pattern \<times> vm_value \<times> vm_value list \<Rightarrow> match_result" where
  "vm_matches env x =
     (if is_borrowed (fst (snd x)) then
        (let reference = the_reference (fst (snd x)) in
         Option.bind (place_read (me_store env) reference) (\<lambda>r.
           case r of
             Inl e \<Rightarrow> Some (Inl e)
           | Inr actual \<Rightarrow> match_borrowed (vm_matches env) env (fst x) reference actual (snd (snd x))))
      else match_plain (vm_matches env) env (fst x) (fst (snd x)) (snd (snd x)))"

end
