(* ===== verification/VM_Place_Laws.thy ===== *)
theory VM_Place_Laws
  imports VM_Places
begin

text \<open>
  Places behave like disjoint pieces of storage: a write is read back, leaves the places beside it
  alone, and a structural change makes the index handles below it unreadable.
\<close>

section \<open>One projection\<close>

fun generation_ok :: "vm_slot \<Rightarrow> place_projection \<Rightarrow> bool" where
  "generation_ok s (Index_at _ root path g) \<longleftrightarrow> sl_generation s = root \<and> projected_generation s path = g"
| "generation_ok s _ = True"

fun project_plain :: "place_projection \<Rightarrow> vm_value \<Rightarrow> runtime_error + vm_value" where
  "project_plain (Index_at i _ _ _) v = indexed_value v i"
| "project_plain p v = project_value undefined p v"

lemma project_value_Inr:
  "project_value s p v = Inr x \<longleftrightarrow> generation_ok s p \<and> project_plain p v = Inr x"
  by (cases p) (auto simp: ensure_generation_def)

lemma map_sum_Inr_iff: "map_sum f g x = Inr y \<longleftrightarrow> (\<exists>z. x = Inr z \<and> y = g z)"
  by (cases x) auto

fun layouts_ok :: "vm_value \<Rightarrow> bool" where
  "layouts_ok (RawListV vs) \<longleftrightarrow> (\<forall>v \<in> set vs. layouts_ok v)"
| "layouts_ok (RecordV _ _ (Fields l vs _)) \<longleftrightarrow> l = record_layout_new (rl_names l) \<and> (\<forall>v \<in> set vs. layouts_ok v)"
| "layouts_ok (VariantV _ _ _ vs) \<longleftrightarrow> (\<forall>v \<in> set vs. layouts_ok v)"
| "layouts_ok v = True"

lemma place_get_Some: "get xs i = Some x \<longleftrightarrow> i < length xs \<and> xs ! i = x"
  by (auto simp: get_def)

lemma get_in: "i < length xs \<Longrightarrow> get xs i = Some (xs ! i)"
  by (simp add: get_def)

lemma fields_get_Some:
  "fields_get fs name = Some x \<longleftrightarrow>
   (\<exists>i. fields_index fs name = Some i \<and> i \<notin> fields_missing fs \<and> i < length (fields_values fs) \<and> fields_values fs ! i = x)"
  by (auto simp: fields_get_def place_get_Some split: option.splits)

lemma fields_update_Some:
  "fields_update fs name update = Some (Inr fs') \<longleftrightarrow>
   (\<exists>i y. fields_index fs name = Some i \<and> i < length (fields_values fs) \<and> update (fields_values fs ! i) = Inr y \<and>
      fs' = Fields (fields_layout fs) ((fields_values fs)[i := y]) (fields_missing fs - {i}))"
  by (auto simp: fields_update_def place_get_Some get_in map_sum_Inr_iff split: option.splits)

lemma fields_index_Fields: "fields_index (Fields (fields_layout fs) vs m) name = fields_index fs name"
  by (simp add: fields_index_def)

lemma field_mut_Some:
  "record_field_mut v n = Some w \<longleftrightarrow>
   (\<exists>r fs i. v = RecordV r n fs \<and> fields_index fs ''value'' = Some i \<and> i < length (fields_values fs) \<and> fields_values fs ! i = w)"
  by (cases v) (auto simp: record_field_mut_def place_get_Some bind_eq_Some_conv)

lemma field_named_mut: "record_field_named v n ''value'' = Some w \<Longrightarrow> record_field_mut v n = Some w"
  by (cases v) (auto simp: record_field_named_def record_field_mut_def fields_get_Some place_get_Some bind_eq_Some_conv split: if_splits)

lemma replaced_named:
  assumes "record_field_mut v n = Some w"
  shows "record_field_named (replace_wrapped v x) m ''value'' = (if m = n then Some x else None)"
  using assms by (auto simp: field_mut_Some replace_wrapped_def record_field_named_def fields_update_def get_in
      fields_get_Some fields_index_Fields)

lemma named_other: "record_field_mut v n = Some w \<Longrightarrow> m \<noteq> n \<Longrightarrow> record_field_named v m f = None"
  by (auto simp: field_mut_Some record_field_named_def)

lemma list_value_iff: "list_value v = Some vs \<longleftrightarrow> record_field_named v ''List'' ''value'' = Some (RawListV vs)"
  by (auto simp: list_value_def split: option.splits vm_value.splits)

lemma buffer_value_iff:
  "byte_buffer_value v = Some bs \<longleftrightarrow> record_field_named v ''ByteBuffer'' ''value'' = Some (RawByteBufferV bs)"
  by (auto simp: byte_buffer_value_def split: option.splits vm_value.splits)

lemma buffer_list_iff:
  "byte_buffer_list_value v = Some vs \<longleftrightarrow>
   (\<exists>w. record_field_named v ''ByteBuffer'' ''value'' = Some w \<and> list_value w = Some vs)"
  by (auto simp: byte_buffer_list_value_def bind_eq_Some_conv)

lemma named_None:
  assumes "record_field_mut v n = Some w"
  shows "n \<noteq> ''List'' \<Longrightarrow> list_value v = None" "n \<noteq> ''ByteBuffer'' \<Longrightarrow> byte_buffer_value v = None"
    "n \<noteq> ''ByteBuffer'' \<Longrightarrow> byte_buffer_list_value v = None" "n \<noteq> ''Bytes'' \<Longrightarrow> bytes_value v = None"
  using named_other [OF assms]
  by (simp_all add: list_value_def byte_buffer_value_def byte_buffer_list_value_def bytes_value_def)

lemma replaced_None:
  assumes "record_field_mut v n = Some w"
  shows "n \<noteq> ''List'' \<Longrightarrow> list_value (replace_wrapped v x) = None"
    "n \<noteq> ''ByteBuffer'' \<Longrightarrow> byte_buffer_value (replace_wrapped v x) = None"
    "n \<noteq> ''ByteBuffer'' \<Longrightarrow> byte_buffer_list_value (replace_wrapped v x) = None"
  by (simp_all add: list_value_def byte_buffer_value_def byte_buffer_list_value_def replaced_named [OF assms])

text \<open>How an index is read, by the wrapper that holds the elements.\<close>

definition element :: "vm_value list \<Rightarrow> nat \<Rightarrow> runtime_error + vm_value" where
  "element vs i = (case get vs i of None \<Rightarrow> Inl NoIndexedValue | Some x \<Rightarrow> Inr x)"

lemma record_not_raw: "record_field_mut v n = Some w \<Longrightarrow> v \<noteq> RawByteBufferV bs"
  by (auto simp: field_mut_Some)

lemma raw_no_record: "record_field_mut (RawByteBufferV bs) n = None"
  by (simp add: record_field_mut_def)

lemma indexed_list:
  assumes "record_field_mut v ''List'' = Some w"
  shows "indexed_value v i = (case list_value v of Some vs \<Rightarrow> element vs i | None \<Rightarrow> Inl NoIndexedValue)"
  using assms named_None [OF assms]
  by (cases v) (auto simp: indexed_value_def element_def Let_def raw_no_record split: option.splits)

lemma indexed_buffer:
  assumes "record_field_mut v ''ByteBuffer'' = Some w"
  shows "indexed_value v i =
     (case byte_buffer_value v of
        Some bs \<Rightarrow> element (map ByteV bs) i
      | None \<Rightarrow> (case byte_buffer_list_value v of Some vs \<Rightarrow> element vs i | None \<Rightarrow> Inl NoIndexedValue))"
  using assms named_None [OF assms]
  by (cases v) (auto simp: indexed_value_def element_def Let_def get_def raw_no_record split: option.splits)

lemma update_byte_Inr:
  "update_byte update bs i = Inr bs' \<longleftrightarrow>
   (\<exists>u. i < length bs \<and> update (ByteV (bs ! i)) = Inr (ByteV u) \<and> bs' = bs[i := u])"
proof (cases "i < length bs")
  case True
  then show ?thesis
    by (cases "update (ByteV (bs ! i))"; cases "projr (update (ByteV (bs ! i)))") (auto simp: update_byte_def get_in)
qed (simp add: update_byte_def get_def)

lemma update_element_Inr:
  "update_element update e vs i = Inr vs' \<longleftrightarrow>
   (\<exists>x. i < length vs \<and> update (vs ! i) = Inr x \<and> vs' = vs[i := x])"
  by (auto simp: update_element_def map_sum_Inr_iff get_in get_def)

lemma mut_other: "record_field_mut v n = Some w \<Longrightarrow> m \<noteq> n \<Longrightarrow> record_field_mut v m = None"
  by (cases v) (auto simp: record_field_mut_def split: if_splits)

lemma update_indexed_cases:
  assumes "update_indexed final update i v = Inr v'"
  obtains (list) vs x where "record_field_mut v ''List'' = Some (RawListV vs)" "i < length vs"
      "update (vs ! i) = Inr x" "v' = replace_wrapped v (RawListV (vs[i := x]))"
  | (bytes) bs u where "record_field_mut v ''ByteBuffer'' = Some (RawByteBufferV bs)" "i < length bs"
      "update (ByteV (bs ! i)) = Inr (ByteV u)" "v' = replace_wrapped v (RawByteBufferV (bs[i := u]))"
  | (bytes_list) w vs x where "record_field_mut v ''ByteBuffer'' = Some w" "record_field_mut w ''List'' = Some (RawListV vs)"
      "i < length vs" "update (vs ! i) = Inr x" "v' = replace_wrapped v (replace_wrapped w (RawListV (vs[i := x])))"
proof (cases "\<exists>vs. record_field_mut v ''List'' = Some (RawListV vs)")
  case True
  then obtain vs where vs: "record_field_mut v ''List'' = Some (RawListV vs)" by blast
  with assms show ?thesis by (auto simp: update_indexed_def map_sum_Inr_iff update_element_Inr intro: list)
next
  case no_list: False
  then obtain w where w: "record_field_mut v ''ByteBuffer'' = Some w"
    using assms by (auto simp: update_indexed_def split: option.splits vm_value.splits)
  then have other: "record_field_mut v ''List'' = None" by (rule mut_other) simp
  show ?thesis
  proof (cases "\<exists>bs. w = RawByteBufferV bs")
    case True
    then show ?thesis
      using assms w other by (auto simp: update_indexed_def map_sum_Inr_iff update_byte_Inr split: if_splits intro: bytes)
  next
    case raw: False
    have body: "(case record_field_mut w ''List'' of
          Some (RawListV vs) \<Rightarrow>
            map_sum (\<lambda>e. e) (\<lambda>vs. replace_wrapped v (replace_wrapped w (RawListV vs))) (update_element update NoByte vs i)
        | _ \<Rightarrow> Inl NotMutableIndexed) = Inr v'"
      using assms w other raw by (cases w) (auto simp: update_indexed_def)
    then obtain vs where "record_field_mut w ''List'' = Some (RawListV vs)" by (auto split: option.splits vm_value.splits)
    then show ?thesis using body w by (auto simp: map_sum_Inr_iff update_element_Inr intro: bytes_list)
  qed
qed

text \<open>
  What an update of an index does: there is a list of elements it changes at the index; before, a
  value that can be read at an index is read from this list.
\<close>

lemma update_indexed_elements:
  assumes "update_indexed final update i v = Inr v'"
  shows "\<exists>vs x. i < length vs \<and> update (vs ! i) = Inr x \<and>
    (\<forall>j. indexed_value v' j = element (vs[i := x]) j) \<and>
    (\<forall>j y. indexed_value v j = Inr y \<longrightarrow> element vs j = Inr y)"
  using assms
proof (cases rule: update_indexed_cases)
  case (list vs x)
  have "record_field_named v' ''List'' ''value'' = Some (RawListV (vs[i := x]))"
    using replaced_named [OF list(1)] list(4) by simp
  then have "indexed_value v' j = element (vs[i := x]) j" for j
    using indexed_list [OF field_named_mut] by (simp add: list_value_iff [THEN iffD2])
  moreover have "element vs j = Inr y" if "indexed_value v j = Inr y" for j y
    using that field_named_mut [of v "''List''"] list(1)
    by (auto simp: indexed_list [OF list(1)] list_value_iff split: option.splits)
  ultimately show ?thesis using list by blast
next
  case (bytes bs u)
  have "record_field_named v' ''ByteBuffer'' ''value'' = Some (RawByteBufferV (bs[i := u]))"
    using replaced_named [OF bytes(1)] bytes(4) by simp
  then have "indexed_value v' j = element ((map ByteV bs)[i := ByteV u]) j" for j
    using indexed_buffer [OF field_named_mut] by (simp add: buffer_value_iff [THEN iffD2] map_update)
  moreover have "element (map ByteV bs) j = Inr y" if "indexed_value v j = Inr y" for j y
  proof (cases "record_field_named v ''ByteBuffer'' ''value''")
    case None
    then show ?thesis using that by (simp add: indexed_buffer [OF bytes(1)] byte_buffer_value_def byte_buffer_list_value_def)
  next
    case (Some w)
    then have "w = RawByteBufferV bs" using field_named_mut [OF Some] bytes(1) by simp
    then show ?thesis using that Some by (simp add: indexed_buffer [OF bytes(1)] byte_buffer_value_def)
  qed
  ultimately show ?thesis using bytes(2,3) by (intro exI [of _ "map ByteV bs"] exI [of _ "ByteV u"]) simp
next
  case (bytes_list w vs x)
  have named: "record_field_named v' ''ByteBuffer'' ''value'' = Some (replace_wrapped w (RawListV (vs[i := x])))"
    using replaced_named [OF bytes_list(1)] bytes_list(5) by simp
  have inner: "list_value (replace_wrapped w (RawListV (vs[i := x]))) = Some (vs[i := x])"
    using replaced_named [OF bytes_list(2)] by (simp add: list_value_iff)
  then have "byte_buffer_value v' = None"
    using named by (auto simp: byte_buffer_value_def list_value_iff record_field_named_def split: vm_value.splits)
  then have "indexed_value v' j = element (vs[i := x]) j" for j
    using indexed_buffer [OF field_named_mut [OF named]] named inner by (simp add: byte_buffer_list_value_def)
  moreover have "element vs j = Inr y" if "indexed_value v j = Inr y" for j y
  proof (cases "record_field_named v ''ByteBuffer'' ''value''")
    case None
    then show ?thesis
      using that by (simp add: indexed_buffer [OF bytes_list(1)] byte_buffer_value_def byte_buffer_list_value_def)
  next
    case (Some u)
    then have u: "u = w" using field_named_mut [OF Some] bytes_list(1) by simp
    have no_bytes: "byte_buffer_value v = None"
      using Some bytes_list(2) by (auto simp: byte_buffer_value_def u raw_no_record split: vm_value.splits)
    show ?thesis
    proof (cases "list_value w")
      case None
      then show ?thesis
        using that Some no_bytes by (simp add: indexed_buffer [OF bytes_list(1)] byte_buffer_list_value_def u)
    next
      case (Some us)
      then have "us = vs" using field_named_mut [of w "''List''"] bytes_list(2) by (simp add: list_value_iff)
      then show ?thesis
        using that Some \<open>record_field_named v _ _ = Some u\<close> no_bytes
        by (simp add: indexed_buffer [OF bytes_list(1)] byte_buffer_list_value_def u)
    qed
  qed
  ultimately show ?thesis using bytes_list by blast
qed

section \<open>One step of an update\<close>

definition same_kind :: "projection_path \<Rightarrow> projection_path \<Rightarrow> bool" where
  "same_kind a b = (case (a, b) of
     (Index_path _, Index_path _) \<Rightarrow> True
   | (Field_path _, Field_path _) \<Rightarrow> True
   | (Payload_path _, Payload_path _) \<Rightarrow> True
   | _ \<Rightarrow> False)"

lemma update_at_generation: "update_at s final update p v = Inr v' \<Longrightarrow> generation_ok s p"
  by (cases p) (auto simp: ensure_generation_def split: if_splits)

lemma update_at_read:
  assumes "update_at s final update p v = Inr v'"
  shows "\<exists>x x'. update x = Inr x' \<and> project_plain p v' = Inr x'"
proof (cases p)
  case (Index_at i root path g)
  then have "update_indexed final update i v = Inr v'" using assms by auto
  from update_indexed_elements [OF this] obtain vs x where
    "i < length vs" "update (vs ! i) = Inr x" "indexed_value v' i = element (vs[i := x]) i" by blast
  then show ?thesis using Index_at by (auto simp: element_def get_in)
next
  case (Payload_at a i)
  then show ?thesis using assms
    by (cases v) (auto simp: map_sum_Inr_iff update_element_Inr get_in split: if_splits)
next
  case (Field_at name)
  then show ?thesis using assms
    by (cases v) (fastforce simp: map_sum_Inr_iff fields_update_Some fields_get_Some fields_index_Fields
        split: option.splits sum.splits)+
qed

lemma update_at_same:
  assumes "update_at s final update p v = Inr v'" "project_plain q v = Inr y" "projection_path_of p = projection_path_of q"
  shows "\<exists>x'. update y = Inr x' \<and> project_plain q v' = Inr x'"
proof (cases p)
  case (Index_at i root path g)
  then obtain root' path' g' where q: "q = Index_at i root' path' g'" using assms(3) by (cases q) auto
  have "update_indexed final update i v = Inr v'" using assms(1) Index_at by auto
  from update_indexed_elements [OF this] obtain vs x where
    vs: "i < length vs" "update (vs ! i) = Inr x" "indexed_value v' i = element (vs[i := x]) i"
      "\<forall>j y. indexed_value v j = Inr y \<longrightarrow> element vs j = Inr y" by blast
  have "element vs i = Inr y" using vs(4) assms(2) q by simp
  then show ?thesis using vs q by (auto simp: element_def get_in)
next
  case (Payload_at a i)
  then obtain b where "q = Payload_at b i" using assms(3) by (cases q) auto
  then show ?thesis using assms(1,2) Payload_at
    by (cases v) (auto simp: map_sum_Inr_iff update_element_Inr get_in split: if_splits)
next
  case (Field_at name)
  then have "q = Field_at name" using assms(3) by (cases q) auto
  then show ?thesis using assms(1,2) Field_at
    by (cases v) (auto simp: map_sum_Inr_iff fields_update_Some fields_get_Some fields_index_Fields split: option.splits sum.splits)
qed

lemma layout_index_name:
  "fold (\<lambda>(index, name) m. m(name \<mapsto> index)) (enumerate k names) m x = Some i \<Longrightarrow>
   m x = Some i \<or> k \<le> i \<and> i < k + length names \<and> names ! (i - k) = x"
proof (induction names arbitrary: k m)
  case (Cons n names)
  have "(m(n \<mapsto> k)) x = Some i \<or> Suc k \<le> i \<and> i < Suc k + length names \<and> names ! (i - Suc k) = x"
    using Cons.prems by (intro Cons.IH) simp
  moreover have "(n # names) ! (i - k) = names ! (i - Suc k)" if "Suc k \<le> i"
    using that by (simp add: nth_Cons')
  ultimately show ?case by (auto split: if_splits)
qed simp

lemma fields_index_inj:
  assumes "fields_layout fs = record_layout_new (rl_names (fields_layout fs))"
    and "fields_index fs a = Some i" "fields_index fs b = Some i"
  shows "a = b"
proof -
  have "rl_names (fields_layout fs) ! i = x" if "fields_index fs x = Some i" for x
  proof -
    have "rl_indices (record_layout_new (rl_names (fields_layout fs))) x = Some i"
      using that assms(1) by (simp add: fields_index_def record_layout_index_def)
    from layout_index_name [of 0 _ Map.empty, OF this [unfolded record_layout_new_def record_layout.simps]]
    show ?thesis by simp
  qed
  then show ?thesis using assms(2,3) by blast
qed

lemma update_at_beside:
  assumes "update_at s final update p v = Inr v'" "project_plain q v = Inr y" "layouts_ok v"
    and "projection_path_of p \<noteq> projection_path_of q" "same_kind (projection_path_of p) (projection_path_of q)"
  shows "project_plain q v' = Inr y"
proof (cases p)
  case (Index_at i root path g)
  then obtain j root' path' g' where q: "q = Index_at j root' path' g'" "i \<noteq> j"
    using assms(4,5) by (cases q) (auto simp: same_kind_def)
  have "update_indexed final update i v = Inr v'" using assms(1) Index_at by auto
  from update_indexed_elements [OF this] obtain vs x where
    vs: "indexed_value v' j = element (vs[i := x]) j" "\<forall>j y. indexed_value v j = Inr y \<longrightarrow> element vs j = Inr y" by blast
  have "element vs j = Inr y" using vs(2) assms(2) q by simp
  then show ?thesis using vs(1) q by (auto simp: element_def get_def split: if_splits)
next
  case (Payload_at a i)
  then obtain b j where "q = Payload_at b j" "i \<noteq> j" using assms(4,5) by (cases q) (auto simp: same_kind_def)
  then show ?thesis using assms(1,2) Payload_at
    by (cases v) (auto simp: map_sum_Inr_iff update_element_Inr get_def split: if_splits)
next
  case (Field_at name)
  then obtain other where q: "q = Field_at other" "name \<noteq> other" using assms(4,5) by (cases q) (auto simp: same_kind_def)
  obtain r n fs where v: "v = RecordV r n fs" using assms(1) Field_at by (cases v) auto
  then obtain i z where i: "fields_index fs name = Some i" "i < length (fields_values fs)"
      "v' = RecordV r n (Fields (fields_layout fs) ((fields_values fs)[i := z]) (fields_missing fs - {i}))"
    using assms(1) Field_at by (auto simp: map_sum_Inr_iff fields_update_Some split: option.splits)
  obtain j where j: "fields_index fs other = Some j" "j \<notin> fields_missing fs" "j < length (fields_values fs)" "fields_values fs ! j = y"
    using assms(2) q v by (auto simp: fields_get_Some split: option.splits)
  have "fields_layout fs = record_layout_new (rl_names (fields_layout fs))" using assms(3) v by (cases fs) auto
  then have "i \<noteq> j" using fields_index_inj [of fs name i other] i(1) j(1) q(2) by blast
  then have "fields_get (Fields (fields_layout fs) ((fields_values fs)[i := z]) (fields_missing fs - {i})) other = Some y"
    using j by (auto simp: fields_get_Some fields_index_Fields)
  then show ?thesis using i(3) q(1) by simp
qed

section \<open>Chains of projections\<close>

lemma project_chain:
  "try_fold (project_value s) ps v = Inr x \<longleftrightarrow>
   (\<forall>p \<in> set ps. generation_ok s p) \<and> try_fold project_plain ps v = Inr x"
  by (induction ps arbitrary: v) (auto simp: project_value_Inr)

lemma update_read:
  assumes "update_projected ps s (\<lambda>_. Inr w) v = Inr v'"
  shows "try_fold project_plain ps v' = Inr w"
  using assms
proof (induction ps arbitrary: v v')
  case (Cons p ps)
  then obtain x x' where "update_projected ps s (\<lambda>_. Inr w) x = Inr x'" "project_plain p v' = Inr x'"
    using update_at_read by fastforce
  then show ?case using Cons.IH by simp
qed simp

lemma update_generations:
  assumes "update_projected ps s update v = Inr v'"
  shows "\<forall>p \<in> set ps. generation_ok s p"
  using assms
proof (induction ps arbitrary: v v')
  case (Cons p ps)
  then obtain x x' where "update_projected ps s update x = Inr x'" using update_at_read by fastforce
  then show ?case using Cons.IH Cons.prems update_at_generation by fastforce
qed simp

text \<open>Paths part where they first differ, and there in the same kind of step.\<close>

fun part :: "projection_path list \<Rightarrow> projection_path list \<Rightarrow> bool" where
  "part (a # as) (b # bs) = (if a = b then part as bs else same_kind a b)"
| "part _ _ = False"

lemma part_extended: "\<not> part xs (xs @ ys)" "\<not> part (xs @ ys) xs"
  by (induction xs) (auto elim: part.elims)

lemma part_at: "part (xs @ a # as) (xs @ b # bs) \<Longrightarrow> a \<noteq> b \<Longrightarrow> same_kind a b"
  by (induction xs) auto

lemma indexed_member:
  assumes "indexed_value v i = Inr x"
  shows "(\<exists>b. x = ByteV b) \<or> (\<exists>ws. (list_value v = Some ws \<or> byte_buffer_list_value v = Some ws) \<and> x \<in> set ws)"
proof (cases "\<exists>bs. v = RawByteBufferV bs")
  case True
  then show ?thesis using assms by (auto simp: indexed_value_def split: option.splits)
next
  case False
  then have "indexed_value v i = (case (case list_value v of
        Some vs \<Rightarrow> get vs i
      | None \<Rightarrow> (case byte_buffer_value v of
          Some bs \<Rightarrow> map_option ByteV (get bs i)
        | None \<Rightarrow> (case byte_buffer_list_value v of
            Some vs \<Rightarrow> get vs i
          | None \<Rightarrow> Option.bind (bytes_value v) (\<lambda>bs. map_option ByteV (get bs i)))))
      of None \<Rightarrow> Inl NoIndexedValue | Some x \<Rightarrow> Inr x)"
    unfolding indexed_value_def Let_def by (simp split: vm_value.split)
  then show ?thesis using assms by (auto simp: place_get_Some bind_eq_Some_conv split: option.splits)
qed

lemma projected_layouts_ok:
  assumes "project_plain p v = Inr x" "layouts_ok v"
  shows "layouts_ok x"
proof -
  have stored: "layouts_ok w" if "fields_get fs name = Some w" "\<forall>v \<in> set (fields_values fs). layouts_ok v" for fs name w
    using that by (auto simp: fields_get_Some)
  have fields_ok: "\<forall>v \<in> set (fields_values fs). layouts_ok v" if "layouts_ok (RecordV r n fs)" for r n fs
    using that by (cases fs) auto
  have named: "layouts_ok w" if "record_field_named u n f = Some w" "layouts_ok u" for u n f w
    using that fields_ok stored by (cases u) (auto simp: record_field_named_def split: if_splits)
  have listed: "\<forall>w \<in> set ws. layouts_ok w" if "list_value u = Some ws" "layouts_ok u" for u ws
    using named [of u "''List''" "''value''" "RawListV ws"] that by (auto simp: list_value_iff)
  show ?thesis
  proof (cases p)
    case (Index_at i root path g)
    have buffered: "\<forall>w \<in> set ws. layouts_ok w" if ws: "byte_buffer_list_value v = Some ws" for ws
    proof -
      obtain u where u: "record_field_named v ''ByteBuffer'' ''value'' = Some u" "list_value u = Some ws"
        using iffD1 [OF buffer_list_iff ws] by auto
      show ?thesis by (rule listed [OF u(2) named [OF u(1) assms(2)]])
    qed
    have "indexed_value v i = Inr x" using assms(1) Index_at by simp
    from indexed_member [OF this] show ?thesis using listed [OF _ assms(2)] buffered by (metis layouts_ok.simps(9))
  next
    case (Payload_at a i)
    then show ?thesis using assms by (cases v) (auto simp: place_get_Some split: if_splits option.splits)
  next
    case (Field_at name)
    then show ?thesis using assms fields_ok stored by (cases v) (auto split: option.splits)
  qed
qed

lemma update_beside:
  assumes "update_projected ps s update v = Inr v'" "try_fold project_plain qs v = Inr y" "layouts_ok v"
    and "part (projection_paths ps) (projection_paths qs)"
  shows "try_fold project_plain qs v' = Inr y"
  using assms
proof (induction ps arbitrary: qs v v')
  case (Cons p ps)
  obtain q qs' where qs: "qs = q # qs'"
    using Cons.prems(4) by (cases qs) (auto simp: projection_paths_def)
  obtain x where x: "project_plain q v = Inr x" "try_fold project_plain qs' x = Inr y" using Cons.prems(2) qs by auto
  have step: "update_at s (ps = []) (update_projected ps s update) p v = Inr v'" using Cons.prems(1) by simp
  show ?case
  proof (cases "projection_path_of p = projection_path_of q")
    case True
    obtain x' where x': "update_projected ps s update x = Inr x'" "project_plain q v' = Inr x'"
      using update_at_same [OF step x(1) True] by blast
    have "part (projection_paths ps) (projection_paths qs')" using Cons.prems(4) qs True by (simp add: projection_paths_def)
    from Cons.IH [OF x'(1) x(2) projected_layouts_ok [OF x(1) Cons.prems(3)] this] show ?thesis using x'(2) qs by simp
  next
    case False
    then have "same_kind (projection_path_of p) (projection_path_of q)"
      using Cons.prems(4) qs by (simp add: projection_paths_def)
    from update_at_beside [OF step x(1) Cons.prems(3) False this] show ?thesis using x(2) qs by simp
  qed
qed (simp add: projection_paths_def)

section \<open>Generations\<close>

text \<open>An index handle remembers the path to the storage of its elements.\<close>

definition indices_formed :: "place_projection list \<Rightarrow> bool" where
  "indices_formed ps \<longleftrightarrow> (\<forall>k < length ps. \<forall>i root path g. ps ! k = Index_at i root path g \<longrightarrow>
     path = projection_paths (take k ps) \<or> path = projection_paths (take k ps) @ [Field_path ''value''])"

lemma projected_invalidated:
  "take (length path) other \<noteq> path \<Longrightarrow> projected_generation (invalidate_projected path s) other = projected_generation s other"
  by (auto simp: projected_generation_def invalidate_projected_def split: option.splits)

lemma generation_invalidated:
  assumes "generation_ok s p" "\<And>i root other g. p = Index_at i root other g \<Longrightarrow> take (length path) other \<noteq> path"
  shows "generation_ok (invalidate_projected path s) p"
proof (cases p)
  case (Index_at i root other g)
  then show ?thesis
    using assms projected_invalidated [of path other s] by (simp add: invalidate_projected_def projected_generation_def)
qed simp_all

lemma recorded_beside:
  assumes "indices_formed qs" "q \<in> set qs" "q = Index_at i root other g" "part path (projection_paths qs)"
  shows "take (length path) other \<noteq> path"
proof
  assume start: "take (length path) other = path"
  obtain k where k: "k < length qs" "qs ! k = Index_at i root other g" using assms(2,3) by (auto simp: in_set_conv_nth)
  have split: "projection_paths qs = projection_paths (take k qs) @ Index_path i # projection_paths (drop (Suc k) qs)"
    using k id_take_nth_drop [OF k(1)] by (simp add: projection_paths_def flip: map_append) (metis list.simps(9) map_append projection_path_of.simps(1))
  have "other = projection_paths (take k qs) \<or> other = projection_paths (take k qs) @ [Field_path ''value'']"
    using assms(1) k by (auto simp: indices_formed_def)
  moreover have "\<not> take n (projection_paths (take k qs)) = path" for n
    using part_extended(1) [of path] assms(4) split by (metis append.assoc append_take_drop_id)
  moreover have "path \<noteq> projection_paths (take k qs) @ [Field_path ''value'']"
    using part_at [of "projection_paths (take k qs)" "Field_path ''value''" "[]" "Index_path i"] assms(4) split
    by (auto simp: same_kind_def)
  moreover have "take (length path) (projection_paths (take k qs) @ [Field_path ''value'']) \<noteq> path"
  proof (cases "length path \<le> length (projection_paths (take k qs))")
    case True
    then show ?thesis using calculation(2) [of "length path"] by simp
  next
    case False
    then show ?thesis using calculation(3) by auto
  qed
  ultimately show False using start by auto
qed

lemma recorded_own:
  assumes "indices_formed ps" "p \<in> set ps" "p = Index_at i root other g"
  shows "take (length (projection_paths ps)) other \<noteq> projection_paths ps"
proof
  assume start: "take (length (projection_paths ps)) other = projection_paths ps"
  obtain k where k: "k < length ps" "ps ! k = Index_at i root other g" using assms(2,3) by (auto simp: in_set_conv_nth)
  have "other = projection_paths (take k ps) \<or> other = projection_paths (take k ps) @ [Field_path ''value'']"
    using assms(1) k by (auto simp: indices_formed_def)
  moreover have "length (projection_paths ps) \<le> length other" using arg_cong [OF start, of length] by simp
  ultimately have "other = projection_paths (take k ps) @ [Field_path ''value'']" "Suc k = length ps"
    using k(1) by (auto simp: projection_paths_def)
  then have whole: "projection_paths ps = projection_paths (take k ps) @ [Field_path ''value'']" "length (projection_paths (take k ps)) = k"
    using start k(1) by (auto simp: projection_paths_def)
  have "projection_paths ps ! k = Field_path ''value''" by (metis whole nth_append_length)
  then show False using k by (simp add: projection_paths_def)
qed

section \<open>Writing through a place\<close>

text \<open>A handle is direct when its slot holds a value and not a reference; the virtual machine flattens handles.\<close>

definition direct :: "store \<Rightarrow> place_handle \<Rightarrow> bool" where
  "direct st p \<longleftrightarrow> (\<exists>s. st (ph_origin p) = Some s \<and> \<not> is_borrowed (sl_value s))"

definition place_formed :: "place_handle \<Rightarrow> bool" where
  "place_formed p \<longleftrightarrow> indices_formed (ph_projections p)"

definition apart :: "place_handle \<Rightarrow> place_handle \<Rightarrow> bool" where
  "apart p q \<longleftrightarrow> ph_origin p \<noteq> ph_origin q \<or>
     part (projection_paths (ph_projections p)) (projection_paths (ph_projections q))"

lemma case_direct: "\<not> is_borrowed v \<Longrightarrow> (case v of ReferenceV q \<Rightarrow> f q | _ \<Rightarrow> c) = c"
  by (cases v) (auto simp: is_borrowed_iff)

lemma read_direct:
  assumes "st (ph_origin p) = Some s" "\<not> is_borrowed (sl_value s)"
  shows "place_read st p = Some (try_fold (project_value s) (ph_projections p) (sl_value s))"
  using assms by (subst place_read.simps) (auto simp: is_borrowed_iff split: vm_value.split)

lemma slot_read_direct: "\<not> is_borrowed (sl_value s) \<Longrightarrow> slot_read st s = Some (Inr (sl_value s))"
  by (auto simp: slot_read_def is_borrowed_iff split: vm_value.split)

lemma write_direct:
  assumes "st (ph_origin p) = Some s" "\<not> is_borrowed (sl_value s)"
  shows "place_write st (p, v) = Some
    (if ph_projections p = [] then Inr (st(ph_origin p \<mapsto> s\<lparr>sl_value := v\<rparr>))
     else map_sum (\<lambda>e. e)
       (\<lambda>v. st(ph_origin p \<mapsto> invalidate_projected (projection_paths (ph_projections p)) (s\<lparr>sl_value := v\<rparr>)))
       (update_projected (ph_projections p) s (\<lambda>_. Inr v) (sl_value s)))"
  by (subst place_write.simps) (simp add: assms case_direct slot_read_direct split: sum.split)

lemma generation_value: "generation_ok (s\<lparr>sl_value := v\<rparr>) p = generation_ok s p"
  by (cases p) (auto simp: projected_generation_def)

lemma invalidated_value: "sl_value (invalidate_projected path s) = sl_value s"
  by (simp add: invalidate_projected_def)

lemma write_projected:
  assumes "st (ph_origin p) = Some s" "\<not> is_borrowed (sl_value s)" "ph_projections p \<noteq> []"
    and "place_write st (p, v) = Some (Inr st')"
  obtains w where "update_projected (ph_projections p) s (\<lambda>_. Inr v) (sl_value s) = Inr w"
    "st' = st(ph_origin p \<mapsto> invalidate_projected (projection_paths (ph_projections p)) (s\<lparr>sl_value := w\<rparr>))"
  using assms(3,4) using that by (auto simp: write_direct [of st p, OF assms(1,2)] map_sum_Inr_iff)

lemma updated_value:
  assumes "update_projected ps s update v = Inr w" "ps \<noteq> []"
  shows "\<not> is_borrowed w"
proof -
  have wrapped: "\<not> is_borrowed (replace_wrapped u x)" if "record_field_mut u n = Some z" for u n z x
    using that by (auto simp: field_mut_Some replace_wrapped_def is_borrowed_iff split: option.splits sum.splits)
  obtain p qs where "update_at s (qs = []) (update_projected qs s update) p v = Inr w"
    using assms by (cases ps) auto
  then show ?thesis
  proof (cases p)
    case (Index_at i root path g)
    then have "update_indexed (qs = []) (update_projected qs s update) i v = Inr w"
      using \<open>update_at _ _ _ p v = Inr w\<close> by auto
    then show ?thesis by (cases rule: update_indexed_cases) (auto simp: wrapped)
  next
    case (Payload_at a i)
    then show ?thesis
      using \<open>update_at _ _ _ p v = Inr w\<close> by (cases v) (auto simp: map_sum_Inr_iff is_borrowed_iff split: if_splits)
  next
    case (Field_at name)
    then show ?thesis
      using \<open>update_at _ _ _ p v = Inr w\<close> by (cases v) (auto simp: map_sum_Inr_iff is_borrowed_iff split: option.splits)
  qed
qed

text \<open>
  C14. Places are disjoint storage. A value written through a place is read back through it, and
  every well-formed place that can be read before and parts from the written one reads the same
  value afterwards, through the same indices: the write invalidates none of them.
\<close>

theorem write_is_local:
  assumes "place_write st (p, v) = Some (Inr st')" "direct st p" "place_formed p" "\<not> is_borrowed v"
  shows "place_read st' p = Some (Inr v) \<and>
    (\<forall>q y. direct st q \<and> place_formed q \<and> apart p q \<and> (\<forall>s. st (ph_origin q) = Some s \<longrightarrow> layouts_ok (sl_value s)) \<and>
       place_read st q = Some (Inr y) \<longrightarrow> place_read st' q = Some (Inr y))"
proof -
  obtain s where s: "st (ph_origin p) = Some s" "\<not> is_borrowed (sl_value s)" using assms(2) by (auto simp: direct_def)
  have elsewhere: "place_read st' q = Some (Inr y)"
    if q: "direct st q" "ph_origin p \<noteq> ph_origin q" "place_read st q = Some (Inr y)" "st' = st(ph_origin p \<mapsto> s')" for q y s'
  proof -
    obtain u where u: "st (ph_origin q) = Some u" "\<not> is_borrowed (sl_value u)" using q(1) by (auto simp: direct_def)
    then have "st' (ph_origin q) = Some u" using q(2,4) by simp
    from read_direct [of st' q u, OF this u(2)] show ?thesis using read_direct [of st q u, OF u] q(3) by simp
  qed
  show ?thesis
  proof (cases "ph_projections p = []")
    case True
    then have st': "st' = st(ph_origin p \<mapsto> s\<lparr>sl_value := v\<rparr>)"
      using assms(1) by (simp add: write_direct [of st p, OF s])
    have "place_read st' p = Some (Inr v)"
      using read_direct [of st' p "s\<lparr>sl_value := v\<rparr>"] assms(4) True by (simp add: st')
    moreover have "ph_origin p \<noteq> ph_origin q" if "apart p q" for q
      using that True by (auto simp: apart_def projection_paths_def)
    ultimately show ?thesis using elsewhere st' by blast
  next
    case False
    let ?P = "projection_paths (ph_projections p)"
    obtain w where w: "update_projected (ph_projections p) s (\<lambda>_. Inr v) (sl_value s) = Inr w"
        "st' = st(ph_origin p \<mapsto> invalidate_projected ?P (s\<lparr>sl_value := w\<rparr>))"
      using write_projected [of st p, OF s False assms(1)] by blast
    let ?s' = "invalidate_projected ?P (s\<lparr>sl_value := w\<rparr>)"
    have s': "\<not> is_borrowed (sl_value ?s')" using updated_value [OF w(1) False] by (simp add: invalidated_value)
    have fresh: "generation_ok ?s' r"
      if "generation_ok s r" "\<And>i root other g. r = Index_at i root other g \<Longrightarrow> take (length ?P) other \<noteq> ?P" for r
      using that by (intro generation_invalidated) (simp_all add: generation_value)
    have "\<forall>r \<in> set (ph_projections p). generation_ok ?s' r"
      using update_generations [OF w(1)] recorded_own [OF assms(3) [unfolded place_formed_def]] fresh by blast
    then have "try_fold (project_value ?s') (ph_projections p) (sl_value ?s') = Inr v"
      using update_read [OF w(1)] by (simp add: project_chain invalidated_value)
    then have own: "place_read st' p = Some (Inr v)"
      using read_direct [of st' p ?s'] s' by (simp add: w(2))
    have beside: "place_read st' q = Some (Inr y)"
      if q: "place_formed q" "ph_origin p = ph_origin q" "part ?P (projection_paths (ph_projections q))"
        "layouts_ok (sl_value s)" "place_read st q = Some (Inr y)" for q y
    proof -
      have before: "(\<forall>r \<in> set (ph_projections q). generation_ok s r) \<and>
          try_fold project_plain (ph_projections q) (sl_value s) = Inr y"
        using iffD1 [OF project_chain] read_direct [of st q s] s q(2,5) by (metis option.inject)
      then have "\<forall>r \<in> set (ph_projections q). generation_ok ?s' r"
        using recorded_beside [OF q(1) [unfolded place_formed_def] _ _ q(3)] fresh by blast
      moreover have "try_fold project_plain (ph_projections q) w = Inr y"
        using update_beside [OF w(1) _ q(4,3)] before by blast
      ultimately have "try_fold (project_value ?s') (ph_projections q) (sl_value ?s') = Inr y"
        by (simp add: project_chain invalidated_value)
      then show ?thesis using read_direct [of st' q ?s'] s' q(2) by (simp add: w(2))
    qed
    show ?thesis using own elsewhere beside w(2) s(1) unfolding apart_def by metis
  qed
qed

text \<open>
  C20. Structural changes invalidate. After a place is reshaped, an index handle that was readable
  before and whose elements lie at or below the reshaped place cannot be read: of a whole slot any
  index handle, of a projected place those whose recorded path extends its path.
\<close>

theorem reshape_invalidates:
  assumes "place_reshape st (p, update) = Some (Inr st')" "direct st p" "ph_origin q = ph_origin p"
    and "Index_at i root path g \<in> set (ph_projections q)" "place_read st q = Some (Inr y)"
    and "ph_projections p = [] \<or>
      take (length (ph_projections p)) path = projection_paths (ph_projections p) \<and>
      (\<exists>s. st (ph_origin p) = Some s \<and> sl_projected s path \<noteq> None)"
  shows "place_read st' q \<noteq> Some (Inr z)"
proof
  assume read: "place_read st' q = Some (Inr z)"
  obtain s where s: "st (ph_origin p) = Some s" "\<not> is_borrowed (sl_value s)" using assms(2) by (auto simp: direct_def)
  let ?bump = "if ph_projections p = [] then (\<lambda>s. s\<lparr>sl_generation := sl_generation s + 1\<rparr>)
    else invalidate_projected (projection_paths (ph_projections p))"
  obtain w where st': "st' = st(ph_origin p \<mapsto> ?bump (s\<lparr>sl_value := w\<rparr>))"
    using assms(1) by (subst (asm) place_reshape.simps) (auto simp: s case_direct map_sum_Inr_iff split: if_splits)
  have "try_fold (project_value s) (ph_projections q) (sl_value s) = Inr y"
    using read_direct [of st q s] s assms(3,5) by simp
  then have "generation_ok s (Index_at i root path g)" using project_chain assms(4) by blast
  moreover have "generation_ok (?bump (s\<lparr>sl_value := w\<rparr>)) (Index_at i root path g)"
  proof -
    have "st' (ph_origin q) = Some (?bump (s\<lparr>sl_value := w\<rparr>))" using assms(3) st' by simp
    then obtain v where "try_fold (project_value (?bump (s\<lparr>sl_value := w\<rparr>))) (ph_projections q) v = Inr z"
      using read by (subst (asm) place_read.simps) (auto simp: bind_eq_Some_conv)
    then show ?thesis using project_chain assms(4) by blast
  qed
  ultimately show False
    using assms(6) s(1) by (auto simp: projected_generation_def invalidate_projected_def projection_paths_def split: if_splits option.splits)
qed

text \<open>A record with a list and a number, and handles to its parts.\<close>

definition sample_store :: store where
  "sample_store = [0 \<mapsto> \<lparr>sl_value = RecordV None ''Outer''
     (fields_from_pairs [(''items'', list_record_value [IntegerV 1]), (''other'', IntegerV 5)]),
     sl_generation = 0, sl_projected = [[Field_path ''items''] \<mapsto> 0]\<rparr>]"

definition items_place :: place_handle where
  "items_place = \<lparr>ph_origin = 0, ph_projections = [Field_at ''items'']\<rparr>"

definition other_place :: place_handle where
  "other_place = \<lparr>ph_origin = 0, ph_projections = [Field_at ''other'']\<rparr>"

definition first_item :: place_handle where
  "first_item = \<lparr>ph_origin = 0, ph_projections = [Field_at ''items'', Index_at 0 0 [Field_path ''items''] 0]\<rparr>"

lemmas sample_defs = sample_store_def items_place_def other_place_def first_item_def

lemma sample_reads: "place_read sample_store first_item = Some (Inr (IntegerV 1))"
  by (subst place_read.simps) (simp add: sample_defs fields_from_pairs_def fields_get_def fields_index_def
      record_layout_index_def record_layout_new_def get_def ensure_generation_def projected_generation_def
      indexed_value_def list_record_value_def value_fields_def list_value_def record_field_named_def)

lemma sample_direct: "direct sample_store items_place" "direct sample_store other_place" "direct sample_store first_item"
  by (simp_all add: direct_def sample_defs is_borrowed_iff)

lemma sample_formed: "place_formed items_place" "place_formed other_place" "place_formed first_item"
  by (auto simp: place_formed_def indices_formed_def sample_defs projection_paths_def less_Suc_eq)

theorem write_is_local_witness:
  "\<exists>st'. place_write sample_store (other_place, IntegerV 7) = Some (Inr st') \<and>
     place_read st' other_place = Some (Inr (IntegerV 7)) \<and> place_read st' first_item = Some (Inr (IntegerV 1))"
proof -
  have "\<exists>st'. place_write sample_store (other_place, IntegerV 7) = Some (Inr st')"
    by (subst place_write.simps) (simp add: sample_defs slot_read_def fields_from_pairs_def fields_update_def fields_index_def
        record_layout_index_def record_layout_new_def get_def)
  then obtain st' where st': "place_write sample_store (other_place, IntegerV 7) = Some (Inr st')" ..
  have "layouts_ok (sl_value s)" if "sample_store (ph_origin first_item) = Some s" for s
    using that by (auto simp: sample_defs fields_from_pairs_def list_record_value_def value_fields_def record_layout_new_def)
  moreover have "apart other_place first_item"
    by (simp add: apart_def sample_defs projection_paths_def same_kind_def)
  ultimately show ?thesis
    using write_is_local [OF st' sample_direct(2) sample_formed(2)] sample_direct(3) sample_formed(3) sample_reads st'
    by (simp add: is_borrowed_iff)
qed

theorem reshape_invalidates_witness:
  "\<exists>st'. place_reshape sample_store (items_place, \<lambda>_. Inr (list_record_value [])) = Some (Inr st') \<and>
     place_read st' first_item \<noteq> Some (Inr (IntegerV 1))"
proof -
  have "\<exists>st'. place_reshape sample_store (items_place, \<lambda>_. Inr (list_record_value [])) = Some (Inr st')"
    by (subst place_reshape.simps) (simp add: sample_defs fields_from_pairs_def fields_update_def fields_index_def
        record_layout_index_def record_layout_new_def get_def)
  then obtain st' where st': "place_reshape sample_store (items_place, \<lambda>_. Inr (list_record_value [])) = Some (Inr st')" ..
  have "place_read st' first_item \<noteq> Some (Inr (IntegerV 1))"
    by (rule reshape_invalidates [OF st' sample_direct(1) _ _ sample_reads, where i = 0 and root = 0 and g = 0
        and path = "[Field_path ''items'']"])
      (simp_all add: sample_defs projection_paths_def)
  then show ?thesis using st' by blast
qed

end
