(* ===== verification/VM_Pattern_Laws.thy ===== *)
theory VM_Pattern_Laws
  imports VM_Patterns VM_Place_Laws Verification
begin

text \<open>
  Matching binds what the verifier counts for a pattern, all or nothing, and what it adds does not
  depend on the bindings made before.
\<close>

section \<open>Unfolding\<close>

lemma vm_matches_plain: "\<not> is_borrowed v \<Longrightarrow> vm_matches env (p, v, bs) = match_plain (vm_matches env) env p v bs"
  by (subst vm_matches.simps) simp

lemma vm_matches_borrowed:
  "place_read (me_store env) r = Some (Inr actual) \<Longrightarrow>
   vm_matches env (p, ReferenceV r, bs) = match_borrowed (vm_matches env) env p r actual bs"
  by (subst vm_matches.simps) (simp add: is_borrowed_iff the_reference_def)

lemma match_every_Some:
  "match_every f (x # xs) bs = Some (Inr (m, bs')) \<longleftrightarrow>
   (\<exists>bs1. f x bs = Some (Inr (True, bs1)) \<and> match_every f xs bs1 = Some (Inr (m, bs'))) \<or>
   f x bs = Some (Inr (False, bs')) \<and> \<not> m"
proof (cases "f x bs")
  case (Some r)
  then show ?thesis by (cases r) (auto split: if_splits)
qed simp

lemma match_parts_Some:
  "match_parts f xs bs = Some (Inr (m, bs')) \<longleftrightarrow>
   (\<exists>bs1. match_every f xs bs = Some (Inr (m, bs1)) \<and> bs' = (if m then bs1 else take (length bs) bs1))"
proof (cases "match_every f xs bs")
  case (Some r)
  show ?thesis
  proof (cases r)
    case (Inr mb)
    then show ?thesis using Some by (cases mb) (simp add: match_parts_def restore_def, blast)
  qed (simp add: match_parts_def Some)
qed (simp add: match_parts_def)

section \<open>Bindings\<close>

text \<open>
  \<open>binds f g x n\<close>: what \<open>f\<close> answers extends the bindings, by \<open>n\<close> of them when it fits, and \<open>g\<close>
  answers the same with the same additions whatever was bound before.
\<close>

definition binds :: "('a \<Rightarrow> vm_value list \<Rightarrow> match_result) \<Rightarrow> ('a \<Rightarrow> vm_value list \<Rightarrow> match_result) \<Rightarrow> 'a \<Rightarrow> nat \<Rightarrow> bool" where
  "binds f g x n \<longleftrightarrow> (\<forall>bs m bs'. f x bs = Some (Inr (m, bs')) \<longrightarrow>
     (\<exists>cs. bs' = bs @ cs \<and> length cs = (if m then n else 0) \<and> (\<forall>bs0. g x bs0 = Some (Inr (m, bs0 @ cs)))))"

lemma bindsD:
  "binds f g x n \<Longrightarrow> f x bs = Some (Inr (m, bs')) \<Longrightarrow>
   \<exists>cs. bs' = bs @ cs \<and> length cs = (if m then n else 0) \<and> (\<forall>bs0. g x bs0 = Some (Inr (m, bs0 @ cs)))"
  unfolding binds_def by blast

lemma match_every_binds:
  assumes "\<forall>x \<in> set xs. binds f g x (n x)" "match_every f xs bs = Some (Inr (m, bs'))"
  shows "\<exists>cs. bs' = bs @ cs \<and> (m \<longrightarrow> length cs = sum_list (map n xs)) \<and>
    (\<forall>bs0. match_every g xs bs0 = Some (Inr (m, bs0 @ cs)))"
  using assms
proof (induction xs arbitrary: bs)
  case (Cons x xs)
  have first: "\<exists>cs. b = bs @ cs \<and> length cs = (if k then n x else 0) \<and> (\<forall>bs0. g x bs0 = Some (Inr (k, bs0 @ cs)))"
    if "f x bs = Some (Inr (k, b))" for k b
    using Cons.prems(1) that unfolding binds_def by (metis list.set_intros(1))
  from Cons.prems(2) consider
      (more) bs1 where "f x bs = Some (Inr (True, bs1))" "match_every f xs bs1 = Some (Inr (m, bs'))"
    | (stop) "f x bs = Some (Inr (False, bs'))" "\<not> m"
    unfolding match_every_Some by blast
  then show ?case
  proof cases
    case more
    obtain cs where cs: "bs1 = bs @ cs" "length cs = n x" "\<forall>bs0. g x bs0 = Some (Inr (True, bs0 @ cs))"
      using first [OF more(1)] by auto
    obtain ds where ds: "bs' = bs1 @ ds" "m \<longrightarrow> length ds = sum_list (map n xs)"
        "\<forall>bs0. match_every g xs bs0 = Some (Inr (m, bs0 @ ds))"
      using Cons.IH [OF _ more(2)] Cons.prems(1) by auto
    then show ?thesis using cs by (intro exI [of _ "cs @ ds"]) auto
  next
    case stop
    then show ?thesis using first [OF stop(1)] by auto
  qed
qed simp

lemma match_parts_binds:
  assumes "\<forall>x \<in> set xs. binds f g x (n x)"
  shows "binds (\<lambda>_. match_parts f xs) (\<lambda>_. match_parts g xs) u (sum_list (map n xs))"
  unfolding binds_def
proof (intro allI impI)
  fix bs m bs'
  assume "match_parts f xs bs = Some (Inr (m, bs'))"
  then obtain bs1 where bs1: "match_every f xs bs = Some (Inr (m, bs1))" "bs' = (if m then bs1 else take (length bs) bs1)"
    by (auto simp: match_parts_Some)
  obtain cs where cs: "bs1 = bs @ cs" "m \<longrightarrow> length cs = sum_list (map n xs)"
      "\<forall>bs0. match_every g xs bs0 = Some (Inr (m, bs0 @ cs))"
    using match_every_binds [OF assms bs1(1)] by blast
  then show "\<exists>cs. bs' = bs @ cs \<and> length cs = (if m then sum_list (map n xs) else 0) \<and>
      (\<forall>bs0. match_parts g xs bs0 = Some (Inr (m, bs0 @ cs)))"
    using bs1(2) by (intro exI [of _ "if m then cs else []"]) (auto simp: match_parts_Some)
qed

lemma count_unspanned: "pattern_binding_count (unspanned p) = pattern_binding_count p"
  by (induction p rule: unspanned.induct) auto

definition binds_match :: "match_env \<Rightarrow> (pattern \<times> vm_value \<times> vm_value list \<Rightarrow> match_result) \<Rightarrow> bool" where
  "binds_match env M \<longleftrightarrow> (\<forall>p v. binds (\<lambda>_ bs. M (p, v, bs)) (\<lambda>_ bs. vm_matches env (p, v, bs)) () (pattern_binding_count p))"

lemma binds_matchD:
  assumes "binds_match env M"
  shows "binds (\<lambda>x bs. M (p x, v x, bs)) (\<lambda>x bs. vm_matches env (p x, v x, bs)) x (pattern_binding_count (p x))"
  using assms unfolding binds_match_def binds_def by blast

lemma plain_binds:
  assumes "binds_match env M"
  shows "binds (\<lambda>_. match_plain M env p v) (\<lambda>_. match_plain (vm_matches env) env p v) () (pattern_binding_count p)"
proof -
  have count: "pattern_binding_count p = pattern_binding_count (unspanned p)" by (simp add: count_unspanned)
  show ?thesis
  proof (cases "unspanned p")
    case (Record_pat ps)
    have "binds (match_field M fs) (match_field (vm_matches env) fs) x (pattern_binding_count (snd x))" for fs x
      using binds_matchD [OF assms, of snd "\<lambda>_. v" x for v]
      by (cases "fields_get fs (fst x)") (auto simp: binds_def match_field_def)
    from match_parts_binds [of ps, OF ballI, OF this] show ?thesis
      unfolding count Record_pat match_plain_def by (cases v) (auto simp: binds_def case_prod_unfold)
  next
    case (Variant_pat c ps)
    have "binds (\<lambda>x bs. M (fst x, snd x, bs)) (\<lambda>x bs. vm_matches env (fst x, snd x, bs)) x (pattern_binding_count (fst x))"
      for x using binds_matchD [OF assms] .
    note each = this
    have "binds (\<lambda>_. match_parts (\<lambda>x bs. M (fst x, snd x, bs)) (zip ps payload))
        (\<lambda>_. match_parts (\<lambda>x bs. vm_matches env (fst x, snd x, bs)) (zip ps payload)) ()
        (sum_list (map pattern_binding_count ps))" if len: "length ps = length payload" for payload
    proof -
      have "map (\<lambda>x. pattern_binding_count (fst x)) (zip ps payload) = map pattern_binding_count (map fst (zip ps payload))"
        by simp
      then have "map (\<lambda>x. pattern_binding_count (fst x)) (zip ps payload) = map pattern_binding_count ps"
        using len by simp
      then show ?thesis using match_parts_binds [of "zip ps payload", OF ballI, OF each] by simp
    qed
    note parts = this
    show ?thesis
    proof (cases v)
      case (VariantV t name alternative payload)
      show ?thesis
      proof (cases "map_of (variants (me_metadata env)) c")
        case None
        then show ?thesis unfolding count Variant_pat match_plain_def VariantV by (simp add: binds_def)
      next
        case (Some expected)
        then show ?thesis
          unfolding count Variant_pat match_plain_def VariantV using parts [of payload]
          by (cases "variant_fits expected name alternative ps payload") (simp_all add: binds_def variant_fits_def)
      qed
    qed (simp_all add: binds_def count Variant_pat match_plain_def)
  next
    case (IsType t u conforming b)
    then show ?thesis
      unfolding count IsType match_plain_def by (cases b) (auto simp: binds_def Let_def)
  qed (auto simp: count match_plain_def binds_def)
qed

lemma place_binds:
  assumes "binds_match env M"
  shows "binds (\<lambda>x bs. match_place M st (place x) (p x) bs) (\<lambda>x bs. match_place (vm_matches env) st (place x) (p x) bs) x
    (pattern_binding_count (p x))"
proof (cases "projected st (place x)")
  case (Some r)
  then show ?thesis
    using binds_matchD [OF assms, of p "\<lambda>_. projr r" x] by (cases r) (simp_all add: binds_def match_place_def)
qed (simp add: binds_def match_place_def)

lemma map_enumerate_snd: "map (\<lambda>x. f (snd x)) (enumerate k xs) = map f xs"
  by (induction xs arbitrary: k) auto

lemma borrowed_binds:
  assumes "binds_match env M"
  shows "binds (\<lambda>_. match_borrowed M env p r v) (\<lambda>_. match_borrowed (vm_matches env) env p r v) () (pattern_binding_count p)"
proof -
  have count: "pattern_binding_count p = pattern_binding_count (unspanned p)" by (simp add: count_unspanned)
  have again: "binds (\<lambda>_ bs. M (p, v, bs)) (\<lambda>_ bs. vm_matches env (p, v, bs)) () (pattern_binding_count (unspanned p))"
    using binds_matchD [OF assms] by (simp add: count_unspanned)
  show ?thesis
  proof (cases "unspanned p")
    case (Record_pat ps)
    have each: "binds
        (\<lambda>x bs. if \<not> contains_key fs (fst x) then Some (Inr (False, bs))
          else match_place M (me_store env) (pattern_field r (fst x)) (snd x) bs)
        (\<lambda>x bs. if \<not> contains_key fs (fst x) then Some (Inr (False, bs))
          else match_place (vm_matches env) (me_store env) (pattern_field r (fst x)) (snd x) bs)
        x (pattern_binding_count (snd x))" for fs x
      using place_binds [OF assms, of "me_store env" "\<lambda>x. pattern_field r (fst x)" snd x]
      by (cases "contains_key fs (fst x)") (simp_all add: binds_def)
    have "binds (\<lambda>_. match_borrowed M env p r v) (\<lambda>_. match_borrowed (vm_matches env) env p r v) ()
        (pattern_binding_count (unspanned p))" if "\<nexists>s n fs. v = RecordV s n fs"
      using again that unfolding Record_pat match_borrowed_def by (cases v) (simp_all add: binds_def)
    moreover have "binds (\<lambda>_. match_borrowed M env p r v) (\<lambda>_. match_borrowed (vm_matches env) env p r v) ()
        (pattern_binding_count (unspanned p))" if "v = RecordV s n fs" for s n fs
      using match_parts_binds [of ps, OF ballI, OF each]
      unfolding Record_pat match_borrowed_def that by (simp add: case_prod_unfold)
    ultimately show ?thesis unfolding count by blast
  next
    case (Variant_pat c ps)
    have parts: "binds
        (\<lambda>_. match_parts (\<lambda>x bs. match_place M (me_store env) (place_payload r a (fst x)) (snd x) bs) (enumerate 0 ps))
        (\<lambda>_. match_parts (\<lambda>x bs. match_place (vm_matches env) (me_store env) (place_payload r a (fst x)) (snd x) bs) (enumerate 0 ps))
        () (sum_list (map pattern_binding_count ps))" for a
    proof -
      have "map (\<lambda>x. pattern_binding_count (snd x)) (enumerate 0 ps) = map pattern_binding_count ps"
        by (rule map_enumerate_snd)
      then show ?thesis
        using match_parts_binds [of "enumerate 0 ps", OF ballI,
            OF place_binds [OF assms, of "me_store env" "\<lambda>x. place_payload r a (fst x)" snd]] by simp
    qed
    have "binds (\<lambda>_. match_borrowed M env p r v) (\<lambda>_. match_borrowed (vm_matches env) env p r v) ()
        (pattern_binding_count (unspanned p))" if "\<nexists>s n a payload. v = VariantV s n a payload"
      using again that unfolding Variant_pat match_borrowed_def by (cases v) (simp_all add: binds_def)
    moreover have "binds (\<lambda>_. match_borrowed M env p r v) (\<lambda>_. match_borrowed (vm_matches env) env p r v) ()
        (pattern_binding_count (unspanned p))" if v: "v = VariantV s n a payload" for s n a payload
    proof (cases "map_of (variants (me_metadata env)) c")
      case None
      then show ?thesis unfolding Variant_pat match_borrowed_def v by (simp add: binds_def)
    next
      case (Some expected)
      then show ?thesis
        unfolding Variant_pat match_borrowed_def v using parts [of a]
        by (cases "variant_fits expected n a ps payload") (simp_all add: binds_def)
    qed
    ultimately show ?thesis unfolding count by blast
  qed (use again in \<open>simp_all add: count match_borrowed_def binds_def\<close>)
qed

lemma vm_matches_bound:
  assumes "vm_matches env (p, v, bs) = Some (Inr (m, bs'))"
  shows "\<exists>cs. bs' = bs @ cs \<and> length cs = (if m then pattern_binding_count p else 0) \<and>
    (\<forall>bs0. vm_matches env (p, v, bs0) = Some (Inr (m, bs0 @ cs)))"
proof -
  let ?P = "\<lambda>(e :: match_env) (x :: pattern \<times> vm_value \<times> vm_value list) (r :: runtime_error + bool \<times> vm_value list).
    e = env \<longrightarrow> (\<forall>m bs'. r = Inr (m, bs') \<longrightarrow>
      (\<exists>cs. bs' = snd (snd x) @ cs \<and> length cs = (if m then pattern_binding_count (fst x) else 0) \<and>
         (\<forall>bs0. vm_matches env (fst x, fst (snd x), bs0) = Some (Inr (m, bs0 @ cs)))))"
  have "?P env (p, v, bs) (Inr (m, bs'))"
  proof (rule vm_matches.raw_induct [where P = ?P and xa = "(env, p, v, bs)" and y = "Inr (m, bs')", unfolded prod.case, OF _ assms],
      intro impI allI)
    fix M e x r m bs'
    assume IH: "\<And>e x r. M e x = Some r \<Longrightarrow> ?P e x r"
      and body: "(if is_borrowed (fst (snd x)) then
          (let reference = the_reference (fst (snd x)) in
           Option.bind (place_read (me_store e) reference) (\<lambda>r.
             case r of
               Inl e \<Rightarrow> Some (Inl e)
             | Inr actual \<Rightarrow> match_borrowed (M e) e (fst x) reference actual (snd (snd x))))
        else match_plain (M e) e (fst x) (fst (snd x)) (snd (snd x))) = Some r"
      and e: "e = env" "r = Inr (m, bs')"
    obtain p v bs where x: "x = (p, v, bs)" by (cases x)
    have M: "binds_match env (M env)"
      unfolding binds_match_def binds_def using IH [of env] by fastforce
    show "\<exists>cs. bs' = snd (snd x) @ cs \<and> length cs = (if m then pattern_binding_count (fst x) else 0) \<and>
         (\<forall>bs0. vm_matches env (fst x, fst (snd x), bs0) = Some (Inr (m, bs0 @ cs)))"
    proof (cases "is_borrowed v")
      case True
      then obtain q where q: "v = ReferenceV q" by (auto simp: is_borrowed_iff)
      then obtain actual where actual: "place_read (me_store env) q = Some (Inr actual)"
          "match_borrowed (M env) env p q actual bs = Some (Inr (m, bs'))"
        using body e x
        by (cases "place_read (me_store env) q") (auto simp: is_borrowed_iff the_reference_def split: sum.splits)
      show ?thesis
        using bindsD [OF borrowed_binds [OF M, of p q actual] actual(2)]
        unfolding x q fst_conv snd_conv vm_matches_borrowed [OF actual(1)] .
    next
      case False
      then have "match_plain (M env) env p v bs = Some (Inr (m, bs'))" using body e x by simp
      from bindsD [OF plain_binds [OF M, of p v] this]
      show ?thesis unfolding x fst_conv snd_conv vm_matches_plain [OF False] .
    qed
  qed
  then show ?thesis unfolding fst_conv snd_conv by blast
qed

section \<open>Reading a projected place\<close>

lemma try_fold_one: "try_fold f [x] = f x"
proof
  fix s show "try_fold f [x] s = f x s" by (cases "f x s") simp_all
qed

lemma read_projected:
  "place_read st (project_place r x) =
   Option.bind (place_read st r) (\<lambda>q. Some (try_bind q
     (case st (ph_origin r) of Some s \<Rightarrow> project_value s x | None \<Rightarrow> (\<lambda>_. Inl BorrowedPlaceExpired))))"
proof (cases "st (ph_origin r)")
  case None
  then show ?thesis by (subst (1 2) place_read.simps) (simp add: project_place_def)
next
  case (Some s)
  have "try_bind u (try_fold (project_value s) (xs @ [x])) =
      try_bind (try_bind u (try_fold (project_value s) xs)) (project_value s x)" for u xs
    by (cases u) (simp_all add: try_fold_append try_fold_one del: try_fold.simps)
  then show ?thesis
    by (subst (1 2) place_read.simps) (simp add: Some project_place_def split: Option.bind_split)
qed

end
