(* ===== verification/Checker_Types.thy ===== *)
theory Checker_Types
  imports Program Lifetimes
begin

text \<open>
  The inference types of the type checker (\<open>compiler/src/typecheck/context.rs\<close>), its substitutions
  (\<open>substitutions.rs\<close>) and, of \<open>unify.rs\<close>, resolution, the occurs check and the binding of a
  variable, the one place of the checker that extends the substitutions. Resolution follows the
  substitutions without a bound; not to end is \<open>None\<close>. Effects are carried along, their type is a
  parameter.
\<close>

section \<open>Types and substitutions\<close>

datatype 'e checked_type =
    TVariable u32
  | TGeneric string
  | TNever
  | TUnit
  | TBool
  | TInt
  | TRawInt
  | TFloat
  | TCodePoint
  | TByte
  | TRawBytes
  | TRawByteBuffer
  | TRawList "'e checked_type"
  | TSequence "'e checked_type"
  | TRemote "'e checked_type"
  | TFuture "'e checked_type"
  | TFunction "'e checked_type list" "'e checked_type"
  | TCallable (tc_parameters: "'e checked_type parameter list") (tc_result: "'e checked_type")
      (tc_erased: bool) (tc_effects: "'e list") (tc_suspends: bool)
  | TReference string "'e checked_type"
  | TRecord record_id "'e checked_type list"
  | TIntersection "'e checked_type list"
  | TVariant variant_type_id "'e checked_type list"
  | TModule string

text \<open>Pages of 64 entries; a page is copied when it is written, so pages are values.\<close>

type_synonym 'e substitutions = "'e checked_type option list list"

definition PAGE_SIZE :: nat where
  "PAGE_SIZE = 64"

definition subst_get :: "'e substitutions \<Rightarrow> u32 \<Rightarrow> 'e checked_type option" where
  "subst_get s v =
     (case get s (unat v div PAGE_SIZE) of None \<Rightarrow> None | Some page \<Rightarrow> page ! (unat v mod PAGE_SIZE))"

definition subst_insert :: "u32 \<Rightarrow> 'e checked_type \<Rightarrow> 'e substitutions \<Rightarrow> 'e substitutions" where
  "subst_insert v t s =
     (let page = unat v div PAGE_SIZE;
          s = s @ replicate (page + 1 - length s) (replicate PAGE_SIZE None)
      in s[page := (s ! page)[unat v mod PAGE_SIZE := Some t]])"

section \<open>Resolution\<close>

fun any_option :: "('a \<Rightarrow> bool option) \<Rightarrow> 'a list \<Rightarrow> bool option" where
  "any_option f [] = Some False"
| "any_option f (x # xs) = Option.bind (f x) (\<lambda>b. if b then Some True else any_option f xs)"

lemma any_option_mono [partial_function_mono]:
  "(\<And>x. mono_option (\<lambda>f. B f x)) \<Longrightarrow> mono_option (\<lambda>f. any_option (B f) xs)"
  by (induction xs) (auto intro!: partial_function_mono)

lemma map_option_list_bind:
  "map_option_list f (x # xs) = Option.bind (f x) (\<lambda>y. Option.bind (map_option_list f xs) (\<lambda>ys. Some (y # ys)))"
  by (auto split: option.splits Option.bind_split)

lemma map_option_list_mono [partial_function_mono]:
  "(\<And>x. mono_option (\<lambda>f. B f x)) \<Longrightarrow> mono_option (\<lambda>f. map_option_list (B f) xs)"
  by (induction xs) (auto simp: map_option_list_bind simp del: map_option_list.simps(2) intro!: partial_function_mono)

definition map_parameter :: "('a \<Rightarrow> 'b option) \<Rightarrow> 'a parameter \<Rightarrow> 'b parameter option" where
  "map_parameter f p = Option.bind (f (ty p)) (\<lambda>t. Some (Parameter t (mode p)))"

lemma map_parameter_mono [partial_function_mono]:
  "(\<And>x. mono_option (\<lambda>f. B f x)) \<Longrightarrow> mono_option (\<lambda>f. map_parameter (B f) p)"
  unfolding map_parameter_def by (auto intro!: partial_function_mono)

text \<open>
  Of the checker, resolution reads the substitutions and which record is \<open>Int\<close> of \<open>core.int\<close>
  (\<open>is_int_record\<close>).
\<close>

record 'e checker =
  int_record :: "record_id \<Rightarrow> bool"
  ck_substitutions :: "'e substitutions"

partial_function (option) resolved ::
  "'e checker \<Rightarrow> 'e checked_type \<Rightarrow> 'e checked_type option" where
  "resolved c t =
     (case t of
        TVariable v \<Rightarrow>
          (case subst_get (ck_substitutions c) v of
             Some replacement \<Rightarrow> resolved c replacement
           | None \<Rightarrow> Some (TVariable v))
      | TRawList e \<Rightarrow> Option.bind (resolved c e) (\<lambda>e. Some (TRawList e))
      | TSequence e \<Rightarrow> Option.bind (resolved c e) (\<lambda>e. Some (TSequence e))
      | TRemote e \<Rightarrow> Option.bind (resolved c e) (\<lambda>e. Some (TRemote e))
      | TFuture e \<Rightarrow> Option.bind (resolved c e) (\<lambda>e. Some (TFuture e))
      | TVariant i args \<Rightarrow>
          Option.bind (map_option_list (resolved c) args) (\<lambda>args. Some (TVariant i args))
      | TFunction ps r \<Rightarrow>
          Option.bind (map_option_list (resolved c) ps) (\<lambda>ps.
          Option.bind (resolved c r) (\<lambda>r. Some (TFunction ps r)))
      | TCallable ps r erased effects suspends \<Rightarrow>
          Option.bind (map_option_list (map_parameter (resolved c)) ps) (\<lambda>ps.
          Option.bind (resolved c r) (\<lambda>r. Some (TCallable ps r erased effects suspends)))
      | TReference g e \<Rightarrow> Option.bind (resolved c e) (\<lambda>e. Some (TReference g e))
      | TRecord r args \<Rightarrow>
          if int_record c r \<and> args = [] then Some TInt
          else Option.bind (map_option_list (resolved c) args) (\<lambda>args. Some (TRecord r args))
      | TIntersection ts \<Rightarrow>
          Option.bind (map_option_list (resolved c) ts) (\<lambda>ts. Some (TIntersection ts))
      | concrete \<Rightarrow> Some concrete)"

text \<open>The types the occurs check goes on with, in the order of its disjunctions.\<close>

fun inner_types :: "'e checked_type \<Rightarrow> 'e checked_type list" where
  "inner_types (TRawList e) = [e]"
| "inner_types (TSequence e) = [e]"
| "inner_types (TRemote e) = [e]"
| "inner_types (TFuture e) = [e]"
| "inner_types (TFunction ps r) = ps @ [r]"
| "inner_types (TCallable ps r _ _ _) = map ty ps @ [r]"
| "inner_types (TReference _ e) = [e]"
| "inner_types (TRecord _ args) = args"
| "inner_types (TVariant _ args) = args"
| "inner_types (TIntersection ts) = ts"
| "inner_types _ = []"

partial_function (option) occurs_in ::
  "'e checker \<times> u32 \<Rightarrow> 'e checked_type \<Rightarrow> bool option" where
  "occurs_in cv t =
     Option.bind (resolved (fst cv) t) (\<lambda>t.
       case t of
         TVariable w \<Rightarrow> Some (w = snd cv)
       | _ \<Rightarrow> any_option (occurs_in cv) (inner_types t))"

definition occurs :: "'e checker \<Rightarrow> u32 \<Rightarrow> 'e checked_type \<Rightarrow> bool option" where
  "occurs c v t = occurs_in (c, v) t"

text \<open>
  The arms of \<open>unify_exact\<close> that bind a variable; \<open>Inr None\<close> leaves the pair to the other arms.
\<close>

datatype unify_error = TypeContainsItself

definition bind_variable ::
  "'e checker \<Rightarrow> u32 \<Rightarrow> 'e checked_type \<Rightarrow> (unify_error + 'e checker) option" where
  "bind_variable c v t =
     Option.bind (occurs c v t) (\<lambda>b.
       if b then Some (Inl TypeContainsItself) else Some (Inr (c\<lparr>ck_substitutions := subst_insert v t (ck_substitutions c)\<rparr>)))"

definition unify_variables ::
  "'e checker \<Rightarrow> 'e checked_type \<Rightarrow> 'e checked_type \<Rightarrow>
   (unify_error + 'e checker option) option" where
  "unify_variables c left right =
     Option.bind (resolved c left) (\<lambda>left.
     Option.bind (resolved c right) (\<lambda>right.
       case (left, right) of
         (TVariable v, t) \<Rightarrow>
           if t = TVariable v then Some (Inr (Some c))
           else map_option (map_sum (\<lambda>e. e) Some) (bind_variable c v t)
       | (t, TVariable v) \<Rightarrow> map_option (map_sum (\<lambda>e. e) Some) (bind_variable c v t)
       | _ \<Rightarrow> Some (Inr None)))"

end
