(* ===== verification/Pattern_Coverage.thy ===== *)
theory Pattern_Coverage
  imports Checker_Types
begin

text \<open>
  Exhaustiveness of branches, \<open>compiler/src/typecheck/coverage.rs\<close>: rows of patterns are
  specialised by the constructors of the first column's type until a row of wildcards covers
  everything or no row is left. The program's declarations, the reading of a type annotation
  and the type of a record field are arguments (\<open>coverage_env\<close>).
\<close>

section \<open>The checker's view of a type\<close>

text \<open>Errors of the checker's services are carried as their message.\<close>

datatype coverage_error =
    TooComplex
  | TypeError string
  | NonExhaustive string "string list"
  | NotExhaustive "string list"

record variant_declaration =
  vt_name :: string
  vt_module :: u32
  vt_parameters :: "string list"
  vt_alternatives :: "variant_id list"

record 'a variant_case =
  vc_name :: string
  vc_payload :: "'a list"

record ('a, 'e) coverage_env =
  ce_checker :: "'e checker"
  ce_variant_types :: "variant_type_id \<Rightarrow> variant_declaration"
  ce_variants :: "variant_id \<Rightarrow> 'a variant_case"
  ce_record_module :: "record_id \<Rightarrow> string"
  ce_annotation :: "u32 \<Rightarrow> 'a \<Rightarrow> (string \<rightharpoonup> 'e checked_type) \<Rightarrow> coverage_error + 'e checked_type"
  ce_field_type :: "function_id \<Rightarrow> record_id \<Rightarrow> 'e checked_type list \<Rightarrow> string \<Rightarrow> coverage_error + 'e checked_type"

definition structural_record :: "('a, 'e) coverage_env \<Rightarrow> record_id \<Rightarrow> bool" where
  "structural_record env r \<longleftrightarrow>
     ce_record_module env r \<notin> {''core.string'', ''core.symbol'', ''core.bytes'', ''core.bytes.buffer''}"

text \<open>The resolved type behind references; \<open>None\<close> when resolution does not end.\<close>

partial_function (option) referent :: "('a, 'e) coverage_env \<Rightarrow> 'e checked_type \<Rightarrow> 'e checked_type option" where
  "referent env t =
     Option.bind (resolved (ce_checker env) t) (\<lambda>t.
       case t of TReference _ inner \<Rightarrow> referent env inner | _ \<Rightarrow> Some t)"

section \<open>Constructors\<close>

fun is_wildcard :: "pattern \<Rightarrow> bool" where
  "is_wildcard p = (case unspanned p of Wildcard \<Rightarrow> True | Binding _ \<Rightarrow> True | _ \<Rightarrow> False)"

datatype pattern_constructor =
    Bool_con bool
  | Variant_con variant_id string
  | Record_con "string list"

definition specialize_pattern :: "pattern_constructor \<Rightarrow> pattern \<Rightarrow> nat \<Rightarrow> pattern list option" where
  "specialize_pattern c p arity =
     (if is_wildcard p then Some (replicate arity Wildcard)
      else
        case (c, unspanned p) of
          (Bool_con a, Bool_pat b) \<Rightarrow> if a = b then Some [] else None
        | (Variant_con a _, Variant_pat v fs) \<Rightarrow> if a = v then Some fs else None
        | (Record_con names, Record_pat fs) \<Rightarrow>
            Some (map (\<lambda>name. case find (\<lambda>(field, _). field = name) fs of
                         Some (_, pattern) \<Rightarrow> pattern
                       | None \<Rightarrow> Wildcard) names)
        | _ \<Rightarrow> None)"

fun join_strings :: "string \<Rightarrow> string list \<Rightarrow> string" where
  "join_strings sep [] = ''''"
| "join_strings sep [x] = x"
| "join_strings sep (x # xs) = x @ sep @ join_strings sep xs"

fun missing_pattern :: "pattern_constructor \<Rightarrow> string list \<Rightarrow> string" where
  "missing_pattern (Bool_con b) _ = (if b then ''true'' else ''false'')"
| "missing_pattern (Variant_con _ name) fs =
     (if fs = [] then name else name @ ''('' @ join_strings '', '' fs @ '')'')"
| "missing_pattern (Record_con names) fs =
     ''{ '' @ join_strings '', '' (map2 (\<lambda>name value. name @ '': '' @ value) names fs) @ '' }''"

definition payload_types ::
  "('a, 'e) coverage_env \<Rightarrow> variant_type_id \<Rightarrow> 'e checked_type list \<Rightarrow> variant_id \<Rightarrow>
   coverage_error + 'e checked_type list" where
  "payload_types env parent args v =
     (let d = ce_variant_types env parent;
          generics = map_of (rev (zip (vt_parameters d) args))
      in traverse (\<lambda>a. ce_annotation env (vt_module d) a generics) (vc_payload (ce_variants env v)))"

definition tested_fields :: "pattern list list \<Rightarrow> string list" where
  "tested_fields matrix =
     sort (remdups (concat (map (\<lambda>row. case unspanned (hd row) of Record_pat fs \<Rightarrow> map fst fs | _ \<Rightarrow> []) matrix)))"

definition type_constructors ::
  "('a, 'e) coverage_env \<Rightarrow> function_id \<Rightarrow> 'e checked_type \<Rightarrow> pattern list list \<Rightarrow>
   coverage_error + (pattern_constructor \<times> 'e checked_type list) list" where
  "type_constructors env f t matrix =
     (case t of
        TBool \<Rightarrow> Inr [(Bool_con False, []), (Bool_con True, [])]
      | TVariant parent args \<Rightarrow>
          (let d = ce_variant_types env parent in
           traverse
             (\<lambda>v. map_sum (\<lambda>e. e) (\<lambda>ts. (Variant_con v (vt_name d @ ''.'' @ vc_name (ce_variants env v)), ts))
                    (payload_types env parent args v))
             (vt_alternatives d))
      | TRecord r args \<Rightarrow>
          if structural_record env r then
            (let names = tested_fields matrix in
             map_sum (\<lambda>e. e) (\<lambda>ts. [(Record_con names, ts)]) (traverse (ce_field_type env f r args) names))
          else Inr []
      | _ \<Rightarrow> Inr [])"

section \<open>The search\<close>

text \<open>
  The result is a witness of what no row covers, the state is the budget of calls. Every call but
  those that answer at once takes one from the budget, so a recursion deeper than the budget
  plus one does not happen; \<open>None\<close> is a resolution that does not end.
\<close>

type_synonym coverage = "((coverage_error + string list option) \<times> nat) option"

definition after_head :: "coverage \<Rightarrow> coverage" where
  "after_head r = map_option (\<lambda>(r, budget). (map_sum (\<lambda>e. e) (map_option ((#) ''_'')) r, budget)) r"

definition specialized_rows :: "pattern_constructor \<Rightarrow> nat \<Rightarrow> pattern list list \<Rightarrow> pattern list list" where
  "specialized_rows c arity matrix =
     List.map_filter (\<lambda>row. map_option (\<lambda>heads. heads @ tl row) (specialize_pattern c (hd row) arity)) matrix"

fun cover_constructors ::
  "('e checked_type list \<Rightarrow> pattern list list \<Rightarrow> nat \<Rightarrow> coverage) \<Rightarrow> 'e checked_type list \<Rightarrow> pattern list list \<Rightarrow>
   (pattern_constructor \<times> 'e checked_type list) list \<Rightarrow> nat \<Rightarrow> coverage" where
  "cover_constructors search rest matrix [] budget = Some (Inr None, budget)"
| "cover_constructors search rest matrix ((c, fs) # cs) budget =
     (case search (fs @ rest) (specialized_rows c (length fs) matrix) budget of
        None \<Rightarrow> None
      | Some (Inl e, budget) \<Rightarrow> Some (Inl e, budget)
      | Some (Inr None, budget) \<Rightarrow> cover_constructors search rest matrix cs budget
      | Some (Inr (Some w), budget) \<Rightarrow>
          Some (Inr (Some (missing_pattern c (take (length fs) w) # drop (length fs) w)), budget))"

fun uncovered ::
  "nat \<Rightarrow> ('a, 'e) coverage_env \<Rightarrow> function_id \<Rightarrow> 'e checked_type list \<Rightarrow> pattern list list \<Rightarrow> nat \<Rightarrow> coverage" where
  "uncovered 0 env f types matrix budget = Some (Inl TooComplex, budget)"
| "uncovered (Suc calls) env f types matrix budget =
     (if list_ex (list_all is_wildcard) matrix then Some (Inr None, budget)
      else if matrix = [] then Some (Inr (Some (replicate (length types) ''_'')), budget)
      else if budget = 0 then Some (Inl TooComplex, budget)
      else if list_all (\<lambda>row. is_wildcard (hd row)) matrix then
        after_head (uncovered calls env f (tl types) (map tl matrix) (budget - 1))
      else
        case types of
          [] \<Rightarrow> None
        | t # rest \<Rightarrow>
            Option.bind (referent env t) (\<lambda>t.
              case type_constructors env f t matrix of
                Inl e \<Rightarrow> Some (Inl e, budget - 1)
              | Inr [] \<Rightarrow>
                  after_head (uncovered calls env f rest (map tl [row \<leftarrow> matrix. is_wildcard (hd row)]) (budget - 1))
              | Inr cs \<Rightarrow> cover_constructors (uncovered calls env f) rest matrix cs (budget - 1)))"

definition uncovered_patterns ::
  "('a, 'e) coverage_env \<Rightarrow> function_id \<Rightarrow> 'e checked_type list \<Rightarrow> pattern list list \<Rightarrow> nat \<Rightarrow> coverage" where
  "uncovered_patterns env f types matrix budget = uncovered (Suc budget) env f types matrix budget"

section \<open>Branches\<close>

datatype 'x branch_test = Condition_test 'x | Wildcard_test | Pattern_test pattern

fun branch_row :: "'x branch_test \<Rightarrow> pattern list option" where
  "branch_row (Pattern_test p) = Some [p]"
| "branch_row Wildcard_test = Some [Wildcard]"
| "branch_row (Condition_test _) = None"

definition check_branch_coverage ::
  "('a, 'e) coverage_env \<Rightarrow> function_id \<Rightarrow> 'e checked_type \<Rightarrow> 'x branch_test list \<Rightarrow> (coverage_error + unit) option" where
  "check_branch_coverage env f subject arms =
     (case uncovered_patterns env f [subject] (List.map_filter branch_row arms) 100000 of
        None \<Rightarrow> None
      | Some (Inl e, _) \<Rightarrow> Some (Inl e)
      | Some (Inr None, _) \<Rightarrow> Some (Inr ())
      | Some (Inr (Some missing), _) \<Rightarrow>
          Option.bind (referent env subject) (\<lambda>t.
            case t of
              TVariant parent _ \<Rightarrow> Some (Inl (NonExhaustive (vt_name (ce_variant_types env parent)) missing))
            | _ \<Rightarrow> Some (Inl (NotExhaustive missing))))"

end
