(* ===== verification/Checker_Laws.thy ===== *)
theory Checker_Laws
  imports Checker_Types
begin

text \<open>
  The substitutions of the type checker behave as a map, and stay acyclic: resolution always ends,
  and binding a variable makes the two types of a unification equal.
\<close>

section \<open>Pages\<close>

definition subst_ok :: "'e substitutions \<Rightarrow> bool" where
  "subst_ok s \<longleftrightarrow> (\<forall>page \<in> set s. length page = PAGE_SIZE)"

lemma subst_store:
  assumes "subst_ok s"
  shows "subst_ok (subst_insert v t s)"
    and "subst_get (subst_insert v t s) w = (if w = v then Some t else subst_get s w)"
proof -
  let ?page = "unat v div PAGE_SIZE"
  let ?s = "s @ replicate (?page + 1 - length s) (replicate PAGE_SIZE None)"
  have page: "?page < length ?s" by simp
  have full: "length (?s ! i) = PAGE_SIZE" if "i < length ?s" for i
    using assms that by (auto simp: subst_ok_def nth_append)
  have old: "subst_get ?s = subst_get s"
    by (auto simp: subst_get_def get_def nth_append fun_eq_iff PAGE_SIZE_def)
  show "subst_ok (subst_insert v t s)"
    using assms full [OF page] unfolding subst_ok_def subst_insert_def Let_def
    by (auto dest!: set_update_subset_insert [THEN subsetD])
  have "subst_get (subst_insert v t s) w = (if w = v then Some t else subst_get ?s w)"
  proof (cases "w = v")
    case True
    then show ?thesis using page full [OF page]
      by (simp add: subst_get_def subst_insert_def Let_def get_def PAGE_SIZE_def)
  next
    case False
    then have "unat w div PAGE_SIZE \<noteq> ?page \<or> unat w mod PAGE_SIZE \<noteq> unat v mod PAGE_SIZE"
      by (metis div_mult_mod_eq word_unat_eq_iff)
    then show ?thesis using False page full [OF page]
      by (auto simp: subst_get_def subst_insert_def Let_def get_def nth_list_update)
  qed
  then show "subst_get (subst_insert v t s) w = (if w = v then Some t else subst_get s w)" by (simp only: old)
qed

text \<open>
  The paged store of substitutions is a map from variables: the empty store has no entry, an
  insertion changes exactly the entry of its variable, whatever pages exist, and keeps every page
  full.
\<close>

theorem substitutions_refine_map:
  fixes s :: "'e substitutions"
  assumes "subst_ok s"
  shows "subst_ok (subst_insert v t s) \<and> subst_get (subst_insert v t s) = (subst_get s)(v \<mapsto> t) \<and>
    subst_get ([] :: 'e substitutions) = Map.empty"
  using subst_store [OF assms] by (auto simp: fun_eq_iff subst_get_def get_def)

section \<open>Types as nodes over their inner types\<close>

lemma parameter_smaller: "p \<in> set ps \<Longrightarrow> size (ty p) < size_list (size_parameter size) ps"
  by (rule size_list_estimation [of p], assumption) (cases p, simp)

lemma inner_smaller: "u \<in> set (inner_types t) \<Longrightarrow> size u < size t"
proof (cases t)
  case (TCallable ps r erased effects suspends)
  assume "u \<in> set (inner_types t)"
  then show ?thesis using TCallable parameter_smaller by fastforce
qed (auto simp: less_Suc_eq_le intro: size_list_estimation' le_SucI trans_le_add1)

lemma inner_induct [case_names node]:
  assumes "\<And>t. (\<And>u. u \<in> set (inner_types t) \<Longrightarrow> Q u) \<Longrightarrow> Q t"
  shows "Q t"
proof (induction "size t" arbitrary: t rule: less_induct)
  case less
  then show ?case using assms inner_smaller by blast
qed

function type_variables :: "'e checked_type \<Rightarrow> u32 set" where
  "type_variables t =
     (case t of TVariable v \<Rightarrow> {v} | _ \<Rightarrow> {}) \<union> \<Union> (type_variables ` set (inner_types t))"
  by pat_completeness auto
termination by (relation "measure size") (simp_all add: inner_smaller)

declare type_variables.simps [simp del]

fun is_variable :: "'e checked_type \<Rightarrow> bool" where
  "is_variable (TVariable _) = True"
| "is_variable _ = False"

lemma type_variables_simps [simp]:
  "type_variables (TVariable v) = {v}"
  "\<not> is_variable t \<Longrightarrow> type_variables t = \<Union> (type_variables ` set (inner_types t))"
  by (subst type_variables.simps; cases t; simp)+

fun is_int :: "'e checker \<Rightarrow> 'e checked_type \<Rightarrow> bool" where
  "is_int c (TRecord r args) = (int_record c r \<and> args = [])"
| "is_int c _ = False"

fun with_inner :: "'e checked_type \<Rightarrow> 'e checked_type list \<Rightarrow> 'e checked_type" where
  "with_inner (TRawList _) us = TRawList (hd us)"
| "with_inner (TSequence _) us = TSequence (hd us)"
| "with_inner (TRemote _) us = TRemote (hd us)"
| "with_inner (TFuture _) us = TFuture (hd us)"
| "with_inner (TFunction _ _) us = TFunction (butlast us) (last us)"
| "with_inner (TCallable ps _ erased effects suspends) us =
     TCallable (map2 Parameter (butlast us) (map mode ps)) (last us) erased effects suspends"
| "with_inner (TReference g _) us = TReference g (hd us)"
| "with_inner (TRecord r _) us = TRecord r us"
| "with_inner (TVariant i _) us = TVariant i us"
| "with_inner (TIntersection _) us = TIntersection us"
| "with_inner t us = t"

lemma parameters_again:
  assumes "length us = length ps"
  shows "map ty (map2 Parameter us (map mode ps)) = us" "map mode (map2 Parameter us (map mode ps)) = map mode ps"
  using assms by (induction us ps rule: list_induct2) auto

lemma with_inner_same:
  assumes "length us = length (inner_types t)"
  shows "inner_types (with_inner t us) = us" "with_inner (with_inner t us) = with_inner t"
    "is_variable (with_inner t us) = is_variable t" "is_int c (with_inner t us) = is_int c t"
proof -
  have one: "us = [hd us]" if "length us = Suc 0" using that by (cases us) auto
  show "inner_types (with_inner t us) = us"
  proof (cases t)
    case (TCallable ps r erased effects suspends)
    then have "length us = Suc (length ps)" using assms by simp
    then have "length (butlast us) = length ps" "us \<noteq> []" by auto
    then show ?thesis using TCallable parameters_again(1) [of "butlast us" ps] by simp
  next
    case (TFunction ps r)
    then have "us \<noteq> []" using assms by auto
    then show ?thesis using TFunction by simp
  qed (use assms one in auto)
  show "with_inner (with_inner t us) = with_inner t"
  proof (cases t)
    case (TCallable ps r erased effects suspends)
    then have "length (butlast us) = length ps" using assms by simp
    then show ?thesis using TCallable parameters_again(2) [of "butlast us" ps] by (simp add: fun_eq_iff)
  qed (auto simp: fun_eq_iff)
  show "is_variable (with_inner t us) = is_variable t" by (cases t) auto
  show "is_int c (with_inner t us) = is_int c t" using assms by (cases t) auto
qed

lemma with_inner_self [simp]: "with_inner t (inner_types t) = t"
proof (cases t)
  case (TCallable ps r erased effects suspends)
  have "map2 Parameter (map ty ps) (map mode ps) = ps" by (induction ps) auto
  then show ?thesis using TCallable by simp
qed auto

section \<open>Resolution ends\<close>

lemma map_option_list_append:
  "map_option_list f (xs @ ys) =
     Option.bind (map_option_list f xs) (\<lambda>us. map_option (\<lambda>vs. us @ vs) (map_option_list f ys))"
  by (induction xs; cases "map_option_list f ys") (auto split: option.splits Option.bind_split)

lemma map_parameters:
  "map_option_list (map_parameter f) ps =
     map_option (\<lambda>us. map2 Parameter us (map mode ps)) (map_option_list f (map ty ps))"
  by (induction ps) (auto simp: map_parameter_def option.map_comp comp_def split: option.splits Option.bind_split)

lemma resolved_node:
  assumes "\<not> is_variable t" "\<not> is_int c t"
  shows "resolved c t = map_option (with_inner t) (map_option_list (resolved c) (inner_types t))"
  by (subst resolved.simps; cases t)
    (use assms in \<open>auto simp: map_option_list_append map_parameters split: option.splits Option.bind_split\<close>)

lemma resolved_variable:
  "resolved c (TVariable v) = (case subst_get (ck_substitutions c) v of None \<Rightarrow> Some (TVariable v) | Some t \<Rightarrow> resolved c t)"
  by (subst resolved.simps) (auto split: option.splits)

lemma resolved_int: "is_int c t \<Longrightarrow> resolved c t = Some TInt"
  by (subst resolved.simps; cases t) auto

definition bound :: "'e checker \<Rightarrow> u32 set" where
  "bound c = {v. subst_get (ck_substitutions c) v \<noteq> None}"

text \<open>Following bindings from a variable comes to an end.\<close>

definition acyclic_checker :: "'e checker \<Rightarrow> bool" where
  "acyclic_checker c \<longleftrightarrow> subst_ok (ck_substitutions c) \<and>
     (\<exists>depth :: u32 \<Rightarrow> nat. \<forall>v t. subst_get (ck_substitutions c) v = Some t \<longrightarrow>
        (\<forall>w \<in> type_variables t. depth w < depth v))"

lemma resolve_induct [consumes 1, case_names step]:
  assumes ranked: "acyclic_checker c"
    and step: "\<And>t. (\<And>v r. t = TVariable v \<Longrightarrow> subst_get (ck_substitutions c) v = Some r \<Longrightarrow> Q r) \<Longrightarrow>
      (\<And>u. u \<in> set (inner_types t) \<Longrightarrow> Q u) \<Longrightarrow> Q t"
  shows "Q t"
proof -
  obtain depth :: "u32 \<Rightarrow> nat" where
    depth: "subst_get (ck_substitutions c) v = Some t \<Longrightarrow> w \<in> type_variables t \<Longrightarrow> depth w < depth v" for v t w
    using ranked unfolding acyclic_checker_def by blast
  have "\<forall>w \<in> type_variables t. depth w < n \<Longrightarrow> Q t" for n t
  proof (induction n arbitrary: t rule: less_induct)
    case (less n)
    note outer = less.IH
    from less.prems show ?case
    proof (induction t rule: inner_induct)
      case (node t)
      show ?case
      proof (rule step)
        fix v r
        assume v: "t = TVariable v" "subst_get (ck_substitutions c) v = Some r"
        then show "Q r" using outer [of "depth v" r] depth [OF v(2)] node.prems by simp
      next
        fix u
        assume u: "u \<in> set (inner_types t)"
        then have "\<not> is_variable t" by (cases t) auto
        then show "Q u" using node.IH [OF u] node.prems u by auto
      qed
    qed
  qed
  moreover have "finite (type_variables t)" for t :: "'a checked_type" by simp
  then have "\<forall>w \<in> type_variables t. depth w < Suc (Max (depth ` type_variables t))"
    by (auto simp: less_Suc_eq_le)
  ultimately show ?thesis by blast
qed

definition normal :: "'e checker \<Rightarrow> 'e checked_type \<Rightarrow> bool" where
  "normal c t \<longleftrightarrow> resolved c t = Some t \<and> type_variables t \<inter> bound c = {}"

lemma map_option_list_cong: "(\<And>x. x \<in> set xs \<Longrightarrow> f x = g x) \<Longrightarrow> map_option_list f xs = map_option_list g xs"
  by (induction xs) (auto split: option.splits)

lemma resolved_ends: "acyclic_checker c \<Longrightarrow> \<exists>r. resolved c t = Some r \<and> normal c r"
proof (induction t rule: resolve_induct)
  case (step t)
  consider v where "t = TVariable v" | "\<not> is_variable t" "is_int c t" | "\<not> is_variable t" "\<not> is_int c t"
    by (cases t) auto
  then show ?case
  proof cases
    case 1
    then show ?thesis using step.IH(1)
      by (cases "subst_get (ck_substitutions c) v") (auto simp: resolved_variable normal_def bound_def)
  next
    case 2
    then show ?thesis using resolved_node [of TInt c] by (simp add: resolved_int normal_def)
  next
    case 3
    have "\<exists>us. list_all2 (\<lambda>u r. resolved c u = Some r \<and> normal c r) xs us"
      if "\<And>u. u \<in> set xs \<Longrightarrow> \<exists>r. resolved c u = Some r \<and> normal c r" for xs
      using that by (induction xs) (auto simp: list_all2_Cons1)
    from this [OF step.IH(2)] obtain us where
      us: "list_all2 (\<lambda>u r. resolved c u = Some r \<and> normal c r) (inner_types t) us" by blast
    then have len: "length us = length (inner_types t)" by (simp add: list_all2_lengthD)
    have "map_option_list (resolved c) (inner_types t) = Some us"
      using us unfolding map_option_list_Some by (rule list_all2_mono) simp
    then have res: "resolved c t = Some (with_inner t us)" using resolved_node [OF 3] by simp
    have own: "normal c u" if "u \<in> set us" for u
      using us that by (auto simp: list_all2_conv_all_nth in_set_conv_nth)
    have "map_option_list (resolved c) us = Some us"
      unfolding map_option_list_Some using own by (auto simp: list_all2_conv_all_nth normal_def)
    then have "resolved c (with_inner t us) = Some (with_inner t us)"
      using resolved_node [of "with_inner t us" c] 3 by (simp add: with_inner_same [OF len])
    moreover have "type_variables (with_inner t us) \<inter> bound c = {}"
      using 3(1) own by (auto simp: with_inner_same [OF len] normal_def)
    ultimately show ?thesis using res by (simp add: normal_def)
  qed
qed

section \<open>Binding a variable\<close>

lemma normal_inner:
  assumes "normal c t" "\<not> is_variable t" "u \<in> set (inner_types t)"
  shows "normal c u"
proof -
  have "\<not> is_int c t"
  proof
    assume int: "is_int c t"
    then have "inner_types t = []" by (cases t) auto
    then show False using assms(3) by simp
  qed
  from resolved_node [OF assms(2) this] obtain us where
    us: "map_option_list (resolved c) (inner_types t) = Some us" "with_inner t us = t"
    using assms(1) by (auto simp: normal_def)
  then have "length us = length (inner_types t)" by (simp add: map_option_list_Some list_all2_lengthD)
  then have "us = inner_types t" using us(2) with_inner_same(1) [of us t] by simp
  then have "resolved c u = Some u"
    using us(1) assms(3) by (auto simp: map_option_list_Some list_all2_conv_all_nth in_set_conv_nth)
  moreover have "type_variables u \<subseteq> type_variables t" using assms(2,3) by auto
  ultimately show ?thesis using assms(1) by (auto simp: normal_def)
qed

lemma occurs_node:
  "occurs c v t = Option.bind (resolved c t) (\<lambda>t. if is_variable t then Some (t = TVariable v)
     else any_option (occurs c v) (inner_types t))"
  unfolding occurs_def
  by (subst occurs_in.simps) (auto simp: occurs_def [symmetric] fun_eq_iff split: Option.bind_split checked_type.splits)

lemma any_option_decided: "(\<And>x. x \<in> set xs \<Longrightarrow> f x = Some (g x)) \<Longrightarrow> any_option f xs = Some (\<exists>x \<in> set xs. g x)"
  by (induction xs) auto

lemma occurs_normal: "normal c t \<Longrightarrow> occurs c v t = Some (v \<in> type_variables t)"
proof (induction t rule: inner_induct)
  case (node t)
  have t: "resolved c t = Some t" using node.prems by (simp add: normal_def)
  show ?case
  proof (cases "is_variable t")
    case True
    then show ?thesis using t by (cases t) (auto simp: occurs_node)
  next
    case False
    then have "any_option (occurs c v) (inner_types t) = Some (\<exists>u \<in> set (inner_types t). v \<in> type_variables u)"
      using node.IH normal_inner [OF node.prems False] by (intro any_option_decided) auto
    then show ?thesis using t False by (simp add: occurs_node)
  qed
qed

text \<open>More bindings do not change what a type resolves to, once it is resolved further.\<close>

lemma resolved_extended:
  assumes "acyclic_checker c" "int_record c' = int_record c"
    and grows: "\<And>w r. subst_get (ck_substitutions c) w = Some r \<Longrightarrow> subst_get (ck_substitutions c') w = Some r"
    and "resolved c t = Some r"
  shows "resolved c' t = resolved c' r"
  using assms(1,4)
proof (induction t arbitrary: r rule: resolve_induct)
  case (step t)
  have same: "is_int c' u = is_int c u" for u using assms(2) by (cases u) auto
  consider v where "t = TVariable v" | "\<not> is_variable t" "is_int c t" | "\<not> is_variable t" "\<not> is_int c t"
    by (cases t) auto
  then show ?case
  proof cases
    case 1
    then show ?thesis
      using step.prems step.IH(1) grows by (auto simp: resolved_variable split: option.splits)
  next
    case 2
    then show ?thesis using step.prems resolved_node [of TInt c'] by (simp add: resolved_int same)
  next
    case 3
    obtain us where us: "map_option_list (resolved c) (inner_types t) = Some us" "r = with_inner t us"
      using step.prems resolved_node [OF 3] by auto
    then have all: "list_all2 (\<lambda>u q. resolved c u = Some q) (inner_types t) us" by (simp add: map_option_list_Some)
    then have len: "length us = length (inner_types t)" by (simp add: list_all2_lengthD)
    have "map_option_list (resolved c') xs = map_option_list (resolved c') ys"
      if "list_all2 (\<lambda>u q. resolved c' u = resolved c' q) xs ys" for xs ys
      using that by (induction rule: list_all2_induct) (auto split: option.splits)
    moreover have "list_all2 (\<lambda>u q. resolved c' u = resolved c' q) (inner_types t) us"
      using all step.IH(2) by (auto simp: list_all2_conv_all_nth)
    ultimately show ?thesis
      using resolved_node [of t c'] resolved_node [of r c'] 3 us(2) by (simp add: same with_inner_same [OF len])
  qed
qed

lemma normal_extended:
  "normal c t \<Longrightarrow> int_record c' = int_record c \<Longrightarrow> type_variables t \<inter> bound c' = {} \<Longrightarrow> resolved c' t = Some t"
proof (induction t rule: inner_induct)
  case (node t)
  have same: "is_int c' u = is_int c u" for u using node.prems(2) by (cases u) auto
  consider v where "t = TVariable v" | "\<not> is_variable t" "is_int c t" | "\<not> is_variable t" "\<not> is_int c t"
    by (cases t) auto
  then show ?case
  proof cases
    case 1
    then show ?thesis using node.prems(3) by (auto simp: resolved_variable bound_def split: option.splits)
  next
    case 2
    then show ?thesis using node.prems(1) by (simp add: resolved_int normal_def same)
  next
    case 3
    have "resolved c' u = Some u" if "u \<in> set (inner_types t)" for u
      using node.IH [OF that normal_inner [OF node.prems(1) 3(1) that] node.prems(2)] node.prems(3) 3(1) that
      by auto
    then have "map_option_list (resolved c') (inner_types t) = Some (inner_types t)"
      by (auto simp: map_option_list_Some list_all2_conv_all_nth)
    then show ?thesis using resolved_node [of t c'] 3 by (simp add: same)
  qed
qed

lemma binding_acyclic:
  assumes ranked: "acyclic_checker c" and free: "v \<notin> bound c" "v \<notin> type_variables t" "type_variables t \<inter> bound c = {}"
  shows "acyclic_checker (c\<lparr>ck_substitutions := subst_insert v t (ck_substitutions c)\<rparr>)"
proof -
  let ?get = "subst_get (ck_substitutions c)"
  obtain depth :: "u32 \<Rightarrow> nat" where
    depth: "?get x = Some u \<Longrightarrow> w \<in> type_variables u \<Longrightarrow> depth w < depth x" for x u w
    using ranked unfolding acyclic_checker_def by blast
  have ok: "subst_ok (ck_substitutions c)" using ranked by (simp add: acyclic_checker_def)
  note store = subst_store [OF ok, of v t]
  define leads where "leads = {(x, w). \<exists>u. ?get x = Some u \<and> w \<in> type_variables u}"
  define A where "A = {x. (x, v) \<in> leads\<^sup>*}"
  define n where "n = Suc (Max (depth ` type_variables t))"
  define deeper where "deeper x = (if x \<in> A then depth x + n else depth x)" for x
  have low: "depth w < n" if "w \<in> type_variables t" for w
    using that by (auto simp: n_def less_Suc_eq_le)
  have out: "w \<notin> A" if "w \<in> type_variables t" for w
  proof
    assume "w \<in> A"
    then have "(w, v) \<in> leads\<^sup>*" by (simp add: A_def)
    then show False
    proof (cases rule: converse_rtranclE)
      case base
      then show False using that free(2) by simp
    next
      case (step y)
      then show False using that free(3) by (auto simp: leads_def bound_def)
    qed
  qed
  have "deeper w < deeper x" if x: "subst_get (subst_insert v t (ck_substitutions c)) x = Some u" "w \<in> type_variables u" for x u w
  proof (cases "x = v")
    case True
    then have "u = t" using x(1) store by simp
    moreover have "v \<in> A" by (simp add: A_def)
    ultimately show ?thesis using out low x(2) True by (simp add: deeper_def trans_less_add2)
  next
    case False
    then have get: "?get x = Some u" using x(1) store by simp
    then have "(x, w) \<in> leads" using x(2) by (auto simp: leads_def)
    then have "x \<in> A" if "w \<in> A" using that by (auto simp: A_def intro: converse_rtrancl_into_rtrancl)
    then show ?thesis using depth [OF get x(2)] by (auto simp: deeper_def)
  qed
  then show ?thesis
    unfolding acyclic_checker_def using store(1) by (intro conjI exI [of _ deeper]) auto
qed

text \<open>
  C7. Unification of a type with an inference variable is sound. On acyclic substitutions it ends;
  it fails only when the variable occurs in the other, different type; when it binds the variable
  the substitutions stay acyclic, so resolution goes on to end for every type, and the two types
  then resolve to the same type.
\<close>

theorem unify_variables_sound:
  assumes "acyclic_checker c"
  shows "\<exists>l r q. resolved c left = Some l \<and> resolved c right = Some r \<and> unify_variables c left right = Some q \<and>
    (case q of
       Inl e \<Rightarrow> \<exists>v. (l = TVariable v \<and> v \<in> type_variables r \<or> r = TVariable v \<and> v \<in> type_variables l) \<and> l \<noteq> r
     | Inr None \<Rightarrow> \<not> is_variable l \<and> \<not> is_variable r
     | Inr (Some c') \<Rightarrow> acyclic_checker c' \<and> (\<forall>t. resolved c' t \<noteq> None) \<and>
         resolved c' left = resolved c' right)"
proof -
  obtain l where l: "resolved c left = Some l" "normal c l" using resolved_ends [OF assms] by blast
  obtain r where r: "resolved c right = Some r" "normal c r" using resolved_ends [OF assms] by blast
  have total: "\<forall>t. resolved c' t \<noteq> None" if "acyclic_checker c'" for c' :: "'a checker"
    using resolved_ends [OF that] by (metis option.distinct(1))
  have bound: "acyclic_checker c' \<and> resolved c' (TVariable v) = resolved c' t \<and>
      resolved c' left = resolved c' l \<and> resolved c' right = resolved c' r"
    if t: "normal c t" "v \<notin> bound c" "v \<notin> type_variables t"
      and c': "c' = c\<lparr>ck_substitutions := subst_insert v t (ck_substitutions c)\<rparr>" for v t c'
  proof -
    have "subst_ok (ck_substitutions c)" using assms by (simp add: acyclic_checker_def)
    note store = subst_store [OF this, of v t]
    have grows: "subst_get (ck_substitutions c') w = Some u" if "subst_get (ck_substitutions c) w = Some u" for w u
      using that t(2) store by (auto simp: c' bound_def)
    have "acyclic_checker c'" unfolding c' using assms t by (intro binding_acyclic) (auto simp: normal_def)
    moreover have "resolved c' (TVariable v) = resolved c' t" using store by (simp add: resolved_variable c')
    moreover have "resolved c' left = resolved c' l" "resolved c' right = resolved c' r"
      using resolved_extended [OF assms _ grows] l(1) r(1) by (auto simp: c')
    ultimately show ?thesis by blast
  qed
  have bind: "bind_variable c v t = Some (if v \<in> type_variables t then Inl TypeContainsItself
      else Inr (c\<lparr>ck_substitutions := subst_insert v t (ck_substitutions c)\<rparr>))" if "normal c t" for v t
    using occurs_normal [OF that] by (simp add: bind_variable_def)
  have unbound: "v \<notin> bound c" if "normal c (TVariable v)" for v using that by (simp add: normal_def)
  consider v where "l = TVariable v" "r = l" | v where "l = TVariable v" "r \<noteq> l"
    | v where "\<not> is_variable l" "r = TVariable v" | "\<not> is_variable l" "\<not> is_variable r"
    by (cases l; cases r) auto
  then show ?thesis
  proof cases
    case 1
    then have "unify_variables c left right = Some (Inr (Some c))" using l(1) r(1) by (simp add: unify_variables_def)
    then show ?thesis using l(1) r(1) 1 assms total [OF assms] by simp
  next
    case 2
    then show ?thesis
      using l r bind [OF r(2), of v] bound [OF r(2) _ _ refl, of v] unbound [of v] total
      by (auto simp: unify_variables_def)
  next
    case 3
    then have "unify_variables c left right = map_option (map_sum (\<lambda>e. e) Some) (bind_variable c v l)"
      using l(1) r(1) by (cases l) (auto simp: unify_variables_def)
    then show ?thesis
      using l r 3 bind [OF l(2), of v] bound [OF l(2) _ _ refl, of v] unbound [of v] total by auto
  next
    case 4
    then have "unify_variables c left right = Some (Inr None)"
      using l(1) r(1) by (cases l; cases r) (auto simp: unify_variables_def)
    then show ?thesis using l(1) r(1) 4 by simp
  qed
qed

definition blank_checker :: "unit checker" where
  "blank_checker = \<lparr>int_record = (\<lambda>_. False), ck_substitutions = []\<rparr>"

theorem substitutions_refine_map_witness:
  "subst_get (subst_insert 70 TUnit ([] :: unit substitutions)) = Map.empty(70 \<mapsto> TUnit)"
  using substitutions_refine_map [of "[] :: unit substitutions" 70 TUnit] by (simp only: subst_ok_def list.set ball_empty simp_thms)

theorem unify_variables_sound_witness:
  "\<exists>q. unify_variables blank_checker (TVariable 3) (TRawList (TVariable 3)) = Some (Inl q)"
proof -
  have "acyclic_checker blank_checker"
    by (auto simp: acyclic_checker_def subst_ok_def blank_checker_def subst_get_def get_def)
  from unify_variables_sound [OF this, of "TVariable 3" "TRawList (TVariable 3)"] show ?thesis
    by (auto simp: unify_variables_def blank_checker_def resolved_variable subst_get_def get_def resolved_node
        bind_variable_def occurs_node)
qed

end
