(* ===== verification/Coverage_Laws.thy ===== *)
theory Coverage_Laws
  imports Pattern_Coverage Checker_Laws
begin

text \<open>
  A branch that passes the exhaustiveness check has an arm for every value of its subject's type.
  Values are trees; what literal and type patterns select is left open.
\<close>

section \<open>Values and selection\<close>

datatype 'x data =
    Bool_data bool
  | Variant_data variant_id "'x data list"
  | Record_data "string \<Rightarrow> 'x data"
  | Opaque_data 'x

fun selects :: "(pattern \<Rightarrow> 'x data \<Rightarrow> bool) \<Rightarrow> pattern \<Rightarrow> 'x data \<Rightarrow> bool" where
  "selects lit (Spanned p _) d = selects lit p d"
| "selects lit Wildcard d = True"
| "selects lit (Binding _) d = True"
| "selects lit (Bool_pat b) d = (d = Bool_data b)"
| "selects lit (Variant_pat v ps) d =
     (case d of Variant_data w ds \<Rightarrow> v = w \<and> list_all2 (selects lit) ps ds | _ \<Rightarrow> False)"
| "selects lit (Record_pat fs) d =
     (case d of Record_data g \<Rightarrow> \<forall>f \<in> set fs. selects lit (snd f) (g (fst f)) | _ \<Rightarrow> False)"
| "selects lit p d = lit p d"

text \<open>The values of a type, as far as its constructors are inspected.\<close>

inductive inhabits ::
  "('a, 'e) coverage_env \<Rightarrow> function_id \<Rightarrow> 'e checked_type \<Rightarrow> 'x data \<Rightarrow> bool" for env f where
  bool: "referent env t = Some TBool \<Longrightarrow> inhabits env f t (Bool_data b)"
| variant: "referent env t = Some (TVariant parent args) \<Longrightarrow>
    v \<in> set (vt_alternatives (ce_variant_types env parent)) \<Longrightarrow> payload_types env parent args v = Inr ts \<Longrightarrow>
    list_all2 (inhabits env f) ts ds \<Longrightarrow> inhabits env f t (Variant_data v ds)"
| fields_of: "referent env t = Some (TRecord r args) \<Longrightarrow> structural_record env r \<Longrightarrow>
    (\<And>name ft. ce_field_type env f r args name = Inr ft \<Longrightarrow> inhabits env f ft (g name)) \<Longrightarrow>
    inhabits env f t (Record_data g)"
| other: "referent env t = Some u \<Longrightarrow> u \<noteq> TBool \<Longrightarrow> \<forall>parent args. u \<noteq> TVariant parent args \<Longrightarrow>
    \<forall>r args. u = TRecord r args \<longrightarrow> \<not> structural_record env r \<Longrightarrow> inhabits env f t (Opaque_data x)"

inductive_cases inhabitsE: "inhabits env f t d"

text \<open>
  What the parser and the checker of patterns ensure: no field twice in a record pattern, and as
  many patterns in a variant pattern as the variant has payloads.
\<close>

fun pattern_formed :: "('a, 'e) coverage_env \<Rightarrow> pattern \<Rightarrow> bool" where
  "pattern_formed env (Spanned p _) = pattern_formed env p"
| "pattern_formed env (Variant_pat v ps) =
     (length ps = length (vc_payload (ce_variants env v)) \<and> (\<forall>p \<in> set ps. pattern_formed env p))"
| "pattern_formed env (Record_pat fs) = (distinct (map fst fs) \<and> (\<forall>f \<in> set fs. pattern_formed env (snd f)))"
| "pattern_formed env _ = True"

lemma selects_unspanned: "selects lit (unspanned p) d = selects lit p d"
  by (induction p rule: unspanned.induct) auto

lemma formed_unspanned: "pattern_formed env (unspanned p) = pattern_formed env p"
  by (induction p rule: unspanned.induct) auto

lemma wildcard_selects: "is_wildcard p \<Longrightarrow> selects lit p d"
  using selects_unspanned [of lit p d] by (auto split: pattern.splits)

lemma wildcards_select: "list_all is_wildcard ps \<Longrightarrow> length ps = length ds \<Longrightarrow> list_all2 (selects lit) ps ds"
  by (auto simp: list_all2_conv_all_nth list_all_length wildcard_selects simp del: is_wildcard.simps)

section \<open>Opening a value\<close>

fun opens :: "pattern_constructor \<Rightarrow> 'x data \<Rightarrow> 'x data list option" where
  "opens (Bool_con a) (Bool_data b) = (if a = b then Some [] else None)"
| "opens (Variant_con v _) (Variant_data w ds) = (if v = w then Some ds else None)"
| "opens (Record_con names) (Record_data g) = Some (map g names)"
| "opens _ _ = None"

definition row_formed :: "('a, 'e) coverage_env \<Rightarrow> 'e checked_type list \<Rightarrow> pattern list \<Rightarrow> bool" where
  "row_formed env types row \<longleftrightarrow> length row = length types \<and> (\<forall>p \<in> set row. pattern_formed env p)"

lemma specialize_formed:
  assumes "specialize_pattern c p arity = Some heads" "pattern_formed env p"
    and "\<And>v name. c = Variant_con v name \<Longrightarrow> length (vc_payload (ce_variants env v)) = arity"
    and "\<And>b. c = Bool_con b \<Longrightarrow> arity = 0" and "\<And>names. c = Record_con names \<Longrightarrow> length names = arity"
  shows "length heads = arity \<and> (\<forall>q \<in> set heads. pattern_formed env q)"
proof (cases "is_wildcard p")
  case True
  then have "heads = replicate arity Wildcard" using assms(1) by (simp add: specialize_pattern_def)
  then show ?thesis by simp
next
  case False
  have formed: "pattern_formed env (unspanned p)" using assms(2) formed_unspanned by blast
  show ?thesis
  proof (cases c)
    case (Bool_con b)
    then show ?thesis using False assms(1,4) by (auto simp: specialize_pattern_def split: pattern.splits if_splits)
  next
    case (Variant_con v name)
    then show ?thesis using False assms(1,3) formed
      by (auto simp: specialize_pattern_def split: pattern.splits if_splits)
  next
    case (Record_con names)
    then obtain fs where fs: "unspanned p = Record_pat fs"
        "heads = map (\<lambda>name. case find (\<lambda>(field, _). field = name) fs of Some (_, q) \<Rightarrow> q | None \<Rightarrow> Wildcard) names"
      using False assms(1) by (auto simp: specialize_pattern_def split: pattern.splits)
    have "pattern_formed env (case find (\<lambda>(field, _). field = name) fs of Some (_, q) \<Rightarrow> q | None \<Rightarrow> Wildcard)" for name
      using formed fs(1) nth_mem by (fastforce simp: find_Some_iff split: option.splits)
    then show ?thesis using fs(2) assms(5) Record_con by auto
  qed
qed

lemma specialize_selects:
  assumes "specialize_pattern c p arity = Some heads" "opens c d = Some parts" "pattern_formed env p"
    and "list_all2 (selects lit) heads parts"
    and "\<And>names fs. c = Record_con names \<Longrightarrow> unspanned p = Record_pat fs \<Longrightarrow> fst ` set fs \<subseteq> set names"
  shows "selects lit p d"
proof (cases "is_wildcard p")
  case False
  have "selects lit (unspanned p) d"
  proof (cases c)
    case (Bool_con b)
    then show ?thesis using False assms(1,2)
      by (cases d) (auto simp: specialize_pattern_def split: pattern.splits if_splits)
  next
    case (Variant_con v name)
    then show ?thesis using False assms(1,2,4)
      by (cases d) (auto simp: specialize_pattern_def split: pattern.splits if_splits)
  next
    case (Record_con names)
    then obtain fs g where fs: "unspanned p = Record_pat fs" "d = Record_data g" "parts = map g names"
        "heads = map (\<lambda>name. case find (\<lambda>(field, _). field = name) fs of Some (_, q) \<Rightarrow> q | None \<Rightarrow> Wildcard) names"
      using False assms(1,2) by (cases d) (auto simp: specialize_pattern_def split: pattern.splits)
    have distinct: "distinct (map fst fs)" using assms(3) fs(1) formed_unspanned [of env p] by simp
    have "selects lit (snd x) (g (fst x))" if x: "x \<in> set fs" for x
    proof -
      have "find (\<lambda>(field, _). field = fst x) fs = Some x"
        using distinct x by (induction fs) (auto simp: image_iff split: prod.splits)
      moreover have "fst x \<in> set names" using assms(5) Record_con fs(1) x by blast
      moreover then obtain i where "i < length names" "names ! i = fst x" by (auto simp: in_set_conv_nth)
      ultimately show ?thesis
        using assms(4) fs(3,4) by (fastforce simp: list_all2_conv_all_nth split: option.splits prod.splits)
    qed
    then show ?thesis using fs(1,2) by simp
  qed
  then show ?thesis by (simp add: selects_unspanned)
qed (rule wildcard_selects)

lemma map_sum_Inr: "map_sum f g x = Inr y \<longleftrightarrow> (\<exists>z. x = Inr z \<and> y = g z)"
  by (cases x) auto

lemma constructors_arity:
  assumes "type_constructors env f t matrix = Inr cs" "(c, fs) \<in> set cs"
  shows "(\<forall>v name. c = Variant_con v name \<longrightarrow> length (vc_payload (ce_variants env v)) = length fs) \<and>
    (\<forall>b. c = Bool_con b \<longrightarrow> length fs = 0) \<and>
    (\<forall>names. c = Record_con names \<longrightarrow> length names = length fs \<and> names = tested_fields matrix)"
proof (cases t)
  case (TVariant parent args)
  let ?case = "\<lambda>v. map_sum (\<lambda>e. e) (\<lambda>ts. (Variant_con v (vt_name (ce_variant_types env parent) @ ''.'' @ vc_name (ce_variants env v)), ts))
      (payload_types env parent args v)"
  have "list_all2 (\<lambda>v k. ?case v = Inr k) (vt_alternatives (ce_variant_types env parent)) cs"
    using assms(1) TVariant by (simp add: type_constructors_def Let_def traverse_Inr_iff)
  then obtain v where "?case v = Inr (c, fs)"
    using assms(2) by (auto simp: list_all2_conv_all_nth in_set_conv_nth)
  then show ?thesis
    by (auto simp: map_sum_Inr payload_types_def Let_def traverse_Inr_iff list_all2_lengthD)
next
  case (TRecord r args)
  then show ?thesis using assms
    by (auto simp: type_constructors_def Let_def map_sum_Inr traverse_Inr_iff list_all2_lengthD split: if_splits)
qed (use assms in \<open>auto simp: type_constructors_def\<close>)

lemma constructors_cover:
  assumes "type_constructors env f u matrix = Inr cs" "cs \<noteq> []" "referent env t = Some u" "inhabits env f t d"
  shows "\<exists>c fs parts. (c, fs) \<in> set cs \<and> opens c d = Some parts \<and> list_all2 (inhabits env f) fs parts"
  using assms(4)
proof cases
  case (bool b)
  then have "u = TBool" using assms(3) by simp
  then have "(Bool_con b, []) \<in> set cs" using assms(1) by (cases b) (auto simp: type_constructors_def)
  then show ?thesis using bool by force
next
  case (variant parent args v ts ds)
  have u: "u = TVariant parent args" using assms(3) variant(2) by simp
  let ?name = "\<lambda>v. vt_name (ce_variant_types env parent) @ ''.'' @ vc_name (ce_variants env v)"
  have "list_all2 (\<lambda>v k. map_sum (\<lambda>e. e) (\<lambda>ts. (Variant_con v (?name v), ts)) (payload_types env parent args v) = Inr k)
      (vt_alternatives (ce_variant_types env parent)) cs"
    using assms(1) u by (simp add: type_constructors_def Let_def traverse_Inr_iff)
  then have "(Variant_con v (?name v), ts) \<in> set cs"
    using variant(3,4) by (fastforce simp: list_all2_conv_all_nth in_set_conv_nth)
  then show ?thesis using variant(1,5) by force
next
  case (fields_of r args g)
  then have u: "u = TRecord r args" using assms(3) by simp
  then obtain ts where ts: "traverse (ce_field_type env f r args) (tested_fields matrix) = Inr ts"
      "cs = [(Record_con (tested_fields matrix), ts)]"
    using assms(1) fields_of(3) by (auto simp: type_constructors_def Let_def map_sum_Inr)
  have "list_all2 (inhabits env f) ts (map g (tested_fields matrix))"
    using ts(1) fields_of(4) by (auto simp: traverse_Inr_iff list_all2_conv_all_nth)
  then show ?thesis using ts(2) fields_of(1) by force
next
  case (other u' x)
  then have "u' = u" using assms(3) by simp
  then have "type_constructors env f u matrix = Inr []"
    using other by (cases u) (auto simp: type_constructors_def)
  then show ?thesis using assms(1,2) by simp
qed

section \<open>Soundness of the search\<close>

lemma after_head_covered: "after_head r = Some (Inr None, budget) \<longleftrightarrow> r = Some (Inr None, budget)"
  by (cases r) (auto simp: after_head_def map_sum_Inr)

lemma cover_constructors_covered:
  assumes "cover_constructors search rest matrix cs budget = Some (Inr None, budget')" "(c, fs) \<in> set cs"
  shows "\<exists>b b'. search (fs @ rest) (specialized_rows c (length fs) matrix) b = Some (Inr None, b')"
  using assms
  by (induction search rest matrix cs budget rule: cover_constructors.induct)
    (auto split: option.splits sum.splits prod.splits)

lemma specialized_member:
  "x \<in> set (specialized_rows c arity matrix) \<longleftrightarrow>
   (\<exists>row \<in> set matrix. \<exists>heads. specialize_pattern c (hd row) arity = Some heads \<and> x = heads @ tl row)"
  unfolding specialized_rows_def List.map_filter_def by (fastforce simp: image_iff)

lemma tested_member:
  "row \<in> set matrix \<Longrightarrow> unspanned (hd row) = Record_pat fs \<Longrightarrow> fst ` set fs \<subseteq> set (tested_fields matrix)"
proof
  fix name
  assume row: "row \<in> set matrix" "unspanned (hd row) = Record_pat fs" "name \<in> fst ` set fs"
  then have "name \<in> set (case unspanned (hd row) of Record_pat fs \<Rightarrow> map fst fs | _ \<Rightarrow> [])" by simp
  with row(1) show "name \<in> set (tested_fields matrix)"
    unfolding tested_fields_def set_sort set_remdups set_concat set_map by blast
qed

lemma row_formed_Cons:
  "row_formed env (t # types) row \<longleftrightarrow>
   (\<exists>p ps. row = p # ps \<and> pattern_formed env p \<and> row_formed env types ps)"
  by (cases row) (auto simp: row_formed_def)

lemma uncovered_sound:
  assumes "uncovered calls env f types matrix budget = Some (Inr None, budget')"
    and "\<forall>row \<in> set matrix. row_formed env types row" "list_all2 (inhabits env f) types ds"
  shows "\<exists>row \<in> set matrix. list_all2 (selects lit) row ds"
  using assms
proof (induction calls arbitrary: types matrix budget budget' ds)
  case (Suc calls)
  note formed = Suc.prems(2)
  show ?case
  proof (cases "list_ex (list_all is_wildcard) matrix")
    case True
    then obtain row where row: "row \<in> set matrix" "list_all is_wildcard row" by (auto simp: list_ex_iff)
    then have "length row = length ds"
      using formed Suc.prems(3) by (auto simp: row_formed_def list_all2_lengthD)
    then show ?thesis using row wildcards_select by blast
  next
    case open_rows: False
    then have some: "matrix \<noteq> []" "budget \<noteq> 0" using Suc.prems(1) by (auto split: if_splits)
    then have "types \<noteq> []"
      using formed open_rows by (cases types) (auto simp: row_formed_def neq_Nil_conv)
    then obtain t rest where types: "types = t # rest" by (cases types) auto
    obtain d ds' where ds: "ds = d # ds'" "inhabits env f t d" "list_all2 (inhabits env f) rest ds'"
      using Suc.prems(3) types by (auto simp: list_all2_Cons1)
    have rows: "\<exists>p ps. row = p # ps \<and> pattern_formed env p \<and> row_formed env rest ps" if "row \<in> set matrix" for row
      using formed that types by (simp add: row_formed_Cons)
    have by_wildcard: ?thesis if "uncovered calls env f rest (map tl [row \<leftarrow> matrix. is_wildcard (hd row)]) b = Some (Inr None, b')" for b b'
    proof -
      have "\<forall>row \<in> set (map tl [row \<leftarrow> matrix. is_wildcard (hd row)]). row_formed env rest row"
        using rows by fastforce
      from Suc.IH [OF that this ds(3)] obtain row where
        row: "row \<in> set matrix" "is_wildcard (hd row)" "list_all2 (selects lit) (tl row) ds'" by auto
      moreover obtain p ps where "row = p # ps" using rows [OF row(1)] by blast
      ultimately have "list_all2 (selects lit) row ds" using ds(1) wildcard_selects [of p lit d] by auto
      then show ?thesis using row(1) by blast
    qed
    show ?thesis
    proof (cases "list_all (\<lambda>row. is_wildcard (hd row)) matrix")
      case True
      then have "[row \<leftarrow> matrix. is_wildcard (hd row)] = matrix" by (simp add: list_all_iff filter_id_conv)
      then show ?thesis
        using by_wildcard Suc.prems(1) open_rows some True types
        by (simp add: after_head_covered del: is_wildcard.simps)
    next
      case False
      obtain u where u: "referent env t = Some u"
        using Suc.prems(1) open_rows some False types
        by (simp del: is_wildcard.simps split: Option.bind_split_asm)
      have body: "(case type_constructors env f u matrix of
            Inl e \<Rightarrow> Some (Inl e, budget - 1)
          | Inr [] \<Rightarrow> after_head (uncovered calls env f rest (map tl [row \<leftarrow> matrix. is_wildcard (hd row)]) (budget - 1))
          | Inr cs \<Rightarrow> cover_constructors (uncovered calls env f) rest matrix cs (budget - 1)) = Some (Inr None, budget')"
        using Suc.prems(1) open_rows some False types u by (simp del: is_wildcard.simps)
      then obtain cs where cs: "type_constructors env f u matrix = Inr cs" by (auto split: sum.splits)
      show ?thesis
      proof (cases "cs = []")
        case True
        then show ?thesis using body cs by_wildcard by (simp add: after_head_covered del: is_wildcard.simps)
      next
        case nonempty: False
        then have all: "cover_constructors (uncovered calls env f) rest matrix cs (budget - 1) = Some (Inr None, budget')"
          using body cs by (cases cs) auto
        obtain c fs parts where c: "(c, fs) \<in> set cs" "opens c d = Some parts" "list_all2 (inhabits env f) fs parts"
          using constructors_cover [OF cs nonempty u ds(2)] by blast
        note arity = constructors_arity [OF cs c(1)]
        have heads: "length heads = length fs \<and> (\<forall>q \<in> set heads. pattern_formed env q)"
          if "specialize_pattern c p (length fs) = Some heads" "pattern_formed env p" for p heads
          using arity by (intro specialize_formed [OF that]) auto
        obtain b b' where sub: "uncovered calls env f (fs @ rest) (specialized_rows c (length fs) matrix) b = Some (Inr None, b')"
          using cover_constructors_covered [OF all c(1)] by blast
        have "\<forall>row \<in> set (specialized_rows c (length fs) matrix). row_formed env (fs @ rest) row"
        proof
          fix x
          assume "x \<in> set (specialized_rows c (length fs) matrix)"
          then obtain row hs where x: "row \<in> set matrix" "specialize_pattern c (hd row) (length fs) = Some hs" "x = hs @ tl row"
            by (auto simp: specialized_member)
          then show "row_formed env (fs @ rest) x" using rows [OF x(1)] heads by (auto simp: row_formed_def)
        qed
        from Suc.IH [OF sub this list_all2_appendI [OF c(3) ds(3)]] obtain row hs where
          row: "row \<in> set matrix" "specialize_pattern c (hd row) (length fs) = Some hs"
            "list_all2 (selects lit) (hs @ tl row) (parts @ ds')"
          by (auto simp: specialized_member)
        obtain p ps where p: "row = p # ps" "pattern_formed env p" using rows [OF row(1)] by blast
        then have hs: "length hs = length fs" using heads row(2) by simp
        moreover have "length fs = length parts" using c(3) by (rule list_all2_lengthD)
        ultimately have "list_all2 (selects lit) hs parts" "list_all2 (selects lit) ps ds'"
          using row(3) p(1) by (simp_all add: list_all2_append)
        moreover from this have "selects lit p d"
          using specialize_selects [OF _ c(2) p(2)] row(2) p(1) arity tested_member [OF row(1)] by force
        ultimately have "list_all2 (selects lit) row ds" using p(1) ds(1) by simp
        then show ?thesis using row(1) by blast
      qed
    qed
  qed
qed simp

section \<open>Branches\<close>

fun arm_selects :: "(pattern \<Rightarrow> 'x data \<Rightarrow> bool) \<Rightarrow> 'y branch_test \<Rightarrow> 'x data \<Rightarrow> bool" where
  "arm_selects lit (Pattern_test p) d = selects lit p d"
| "arm_selects lit Wildcard_test d = True"
| "arm_selects lit (Condition_test _) d = False"

lemma exhaustive_branch:
  assumes "check_branch_coverage env f subject arms = Some (Inr ())"
    and "\<forall>p. Pattern_test p \<in> set arms \<longrightarrow> pattern_formed env p"
    and "inhabits env f subject d"
  shows "\<exists>arm \<in> set arms. arm_selects lit arm d"
proof -
  have rows: "row \<in> set (List.map_filter branch_row arms) \<longleftrightarrow> (\<exists>arm \<in> set arms. branch_row arm = Some row)" for row
    by (induction arms) (auto simp: List.map_filter_simps split: option.splits)
  obtain b where searched: "uncovered (Suc 100000) env f [subject] (List.map_filter branch_row arms) 100000 = Some (Inr None, b)"
    using assms(1) unfolding check_branch_coverage_def uncovered_patterns_def
    by (auto split: option.splits sum.splits Option.bind_splits checked_type.splits)
  have "row_formed env [subject] row" if row: "row \<in> set (List.map_filter branch_row arms)" for row
  proof -
    obtain arm where arm: "arm \<in> set arms" "branch_row arm = Some row" using row rows by blast
    show ?thesis using arm(2) assms(2) arm(1) by (cases arm rule: branch_row.cases) (auto simp: row_formed_def)
  qed
  then obtain row where row: "row \<in> set (List.map_filter branch_row arms)" "list_all2 (selects lit) row [d]"
    using uncovered_sound [OF searched, of "[d]" lit] assms(3) by auto
  then obtain arm where arm: "arm \<in> set arms" "branch_row arm = Some row" using rows by blast
  have "arm_selects lit arm d" using arm(2) row(2) by (cases arm rule: branch_row.cases) auto
  then show ?thesis using arm(1) by blast
qed

text \<open>
  C6. A branch that passes the exhaustiveness check has an arm for every value: whatever value
  inhabits the subject's type, some wildcard arm or some pattern of an arm selects it, whatever
  literal and type patterns select.
\<close>

theorem exhaustive_branches_covered:
  assumes "check_branch_coverage env f subject arms = Some (Inr ())"
    and "\<forall>p. Pattern_test p \<in> set arms \<longrightarrow> pattern_formed env p"
    and "inhabits env f subject d"
  shows "\<exists>arm \<in> set arms. arm_selects lit arm d"
  using assms by (rule exhaustive_branch)

definition option_env :: "(unit, unit) coverage_env" where
  "option_env = \<lparr>ce_checker = \<lparr>int_record = (\<lambda>_. False), ck_substitutions = []\<rparr>,
     ce_variant_types = (\<lambda>_. \<lparr>vt_name = ''Option'', vt_module = 0, vt_parameters = [], vt_alternatives = [0, 1]\<rparr>),
     ce_variants = (\<lambda>v. if v = 0 then \<lparr>vc_name = ''Some'', vc_payload = [()]\<rparr> else \<lparr>vc_name = ''None'', vc_payload = []\<rparr>),
     ce_record_module = (\<lambda>_. ''''), ce_annotation = (\<lambda>_ _ _. Inr TBool), ce_field_type = (\<lambda>_ _ _ _. Inr TBool)\<rparr>"

lemma referent_ground:
  "referent env TBool = Some TBool" "referent env (TVariant i []) = Some (TVariant i [])"
  by (subst referent.simps, subst resolved.simps, simp)+

lemmas uncovered_numeral = uncovered.simps(2) [of "pred_numeral k" for k, folded numeral_eq_Suc]

definition option_arms :: "unit branch_test list" where
  "option_arms = [Pattern_test (Variant_pat 0 [Bool_pat True]), Pattern_test (Spanned (Variant_pat 0 [Bool_pat False]) (0, 0)),
     Pattern_test (Variant_pat 1 [])]"

lemma option_payloads: "payload_types option_env i [] 0 = Inr [TBool]" "payload_types option_env i [] 1 = Inr []"
  by (simp_all add: payload_types_def option_env_def)

lemma option_alternatives: "vt_alternatives (ce_variant_types option_env i) = [0, 1]"
    "vc_payload (ce_variants option_env 0) = [()]" "vc_payload (ce_variants option_env 1) = []"
  by (simp_all add: option_env_def)

lemma option_arms_checked: "check_branch_coverage option_env 0 (TVariant 0 []) option_arms = Some (Inr ())"
  by (simp add: option_arms_def check_branch_coverage_def uncovered_patterns_def List.map_filter_simps uncovered_numeral
      referent_ground type_constructors_def Let_def option_payloads option_alternatives specialized_rows_def specialize_pattern_def)

lemma option_arms_formed: "Pattern_test p \<in> set option_arms \<Longrightarrow> pattern_formed option_env p"
  by (auto simp: option_arms_def option_alternatives)

theorem exhaustive_branches_covered_witness:
  "\<exists>arm \<in> set option_arms. arm_selects (\<lambda>_ _. False) arm (Variant_data 0 [Bool_data True] :: unit data)"
proof (rule exhaustive_branches_covered [OF option_arms_checked])
  show "\<forall>p. Pattern_test p \<in> set option_arms \<longrightarrow> pattern_formed option_env p" using option_arms_formed by blast
  show "inhabits option_env 0 (TVariant 0 []) (Variant_data 0 [Bool_data True])"
    by (rule inhabits.variant [OF referent_ground(2), where ts = "[TBool]"])
      (simp_all add: option_payloads option_alternatives inhabits.bool referent_ground)
qed

end
