(* ===== verification/VM_Coverage.thy ===== *)
theory VM_Coverage
  imports VM_Pattern_Laws Coverage_Laws
begin

text \<open>
  The exhaustiveness check meets the machine: on a value of the subject's type, owned or borrowed,
  every arm of a checked branch answers and some arm matches.
\<close>

section \<open>Values of a type\<close>

text \<open>
  The tree a value of the machine denotes at a type. A reference denotes what is read through it;
  what the check does not look into stands for itself.
\<close>

inductive denotes ::
  "('a, 'e) coverage_env \<Rightarrow> function_id \<Rightarrow> match_env \<Rightarrow> 'e checked_type \<Rightarrow> vm_value \<Rightarrow> vm_value data \<Rightarrow> bool"
  for env f me where
  bool: "referent env t = Some TBool \<Longrightarrow> denotes env f me t (BoolV b) (Bool_data b)"
| variant: "referent env t = Some (TVariant parent args) \<Longrightarrow>
    v \<in> set (vt_alternatives (ce_variant_types env parent)) \<Longrightarrow> payload_types env parent args v = Inr ts \<Longrightarrow>
    map_of (variants (me_metadata me)) v = Some rv \<Longrightarrow> length ps = length ts \<Longrightarrow> length ds = length ts \<Longrightarrow>
    (\<And>i. i < length ts \<Longrightarrow> denotes env f me (ts ! i) (ps ! i) (ds ! i)) \<Longrightarrow>
    denotes env f me t (VariantV vid (rv_type_name rv) (rv_alternative rv) ps) (Variant_data v ds)"
| fields_of: "referent env t = Some (TRecord r args) \<Longrightarrow> structural_record env r \<Longrightarrow>
    (\<And>name ft. ce_field_type env f r args name = Inr ft \<Longrightarrow>
       fields_get fs name = Some (w name) \<and> denotes env f me ft (w name) (g name)) \<Longrightarrow>
    denotes env f me t (RecordV rid n fs) (Record_data g)"
| other: "referent env t = Some u \<Longrightarrow> u \<noteq> TBool \<Longrightarrow> \<forall>parent args. u \<noteq> TVariant parent args \<Longrightarrow>
    \<forall>r args. u = TRecord r args \<longrightarrow> \<not> structural_record env r \<Longrightarrow> \<not> is_borrowed v \<Longrightarrow>
    denotes env f me t v (Opaque_data v)"
| borrowed: "place_read (me_store me) q = Some (Inr v) \<Longrightarrow> denotes env f me t v d \<Longrightarrow>
    denotes env f me t (ReferenceV q) d"

lemma denotes_inhabits: "denotes env f me t v d \<Longrightarrow> inhabits env f t d"
proof (induction rule: denotes.induct)
  case (variant t parent args v ts rv ps ds vid)
  then show ?case by (intro inhabits.variant) (auto simp: list_all2_conv_all_nth)
qed (auto intro: inhabits.intros)

text \<open>What the checker ensures of a pattern at its subject's type.\<close>

fun pattern_typed :: "('a, 'e) coverage_env \<Rightarrow> function_id \<Rightarrow> pattern \<Rightarrow> 'e checked_type \<Rightarrow> bool" where
  "pattern_typed env f (Spanned p _) t = pattern_typed env f p t"
| "pattern_typed env f (Variant_pat v ps) t =
     (case referent env t of
        Some (TVariant parent args) \<Rightarrow>
          v \<in> set (vt_alternatives (ce_variant_types env parent)) \<and>
          (case payload_types env parent args v of
             Inl _ \<Rightarrow> False
           | Inr ts \<Rightarrow> list_all2 (pattern_typed env f) ps ts)
      | _ \<Rightarrow> False)"
| "pattern_typed env f (Record_pat fs) t =
     (case referent env t of
        Some (TRecord r args) \<Rightarrow>
          structural_record env r \<and>
          (\<forall>x \<in> set fs. case ce_field_type env f r args (fst x) of
             Inl _ \<Rightarrow> False
           | Inr ft \<Rightarrow> pattern_typed env f (snd x) ft)
      | _ \<Rightarrow> False)"
| "pattern_typed env f _ t = True"

lemma typed_unspanned: "pattern_typed env f (unspanned p) t = pattern_typed env f p t"
  by (induction p rule: unspanned.induct) auto

text \<open>The metadata lists every declared variant, under a name of its own.\<close>

definition metadata_of :: "('a, 'e) coverage_env \<Rightarrow> match_env \<Rightarrow> bool" where
  "metadata_of env me \<longleftrightarrow>
     (\<forall>parent. \<forall>v \<in> set (vt_alternatives (ce_variant_types env parent)). map_of (variants (me_metadata me)) v \<noteq> None) \<and>
     (\<forall>v w a b. map_of (variants (me_metadata me)) v = Some a \<longrightarrow> map_of (variants (me_metadata me)) w = Some b \<longrightarrow>
        rv_type_name a = rv_type_name b \<longrightarrow> rv_alternative a = rv_alternative b \<longrightarrow> v = w)"

section \<open>Answers\<close>

text \<open>A match answers, and says yes where the pattern selects the value.\<close>

definition answers :: "(vm_value list \<Rightarrow> match_result) \<Rightarrow> bool \<Rightarrow> bool" where
  "answers f selected \<longleftrightarrow> (\<forall>bs. \<exists>m bs'. f bs = Some (Inr (m, bs')) \<and> (selected \<longrightarrow> m))"

lemma answersI: "(\<And>bs. \<exists>m bs'. f bs = Some (Inr (m, bs')) \<and> (selected \<longrightarrow> m)) \<Longrightarrow> answers f selected"
  unfolding answers_def by blast

lemma answersD: "answers f selected \<Longrightarrow> \<exists>m bs'. f bs = Some (Inr (m, bs')) \<and> (selected \<longrightarrow> m)"
  unfolding answers_def by blast

lemma answers_yes [simp]: "answers (\<lambda>bs. Some (Inr (True, h bs))) selected"
  by (auto simp: answers_def)

lemma answers_no: "\<not> selected \<Longrightarrow> answers (\<lambda>bs. Some (Inr (m bs, h bs))) selected"
  by (simp add: answers_def)

lemma match_parts_answers:
  assumes "list_all2 (\<lambda>x. answers (f x)) xs ss" "chosen \<Longrightarrow> list_all (\<lambda>s. s) ss"
  shows "answers (match_parts f xs) chosen"
proof -
  have "answers (match_every f xs) (list_all (\<lambda>s. s) ss)"
    using assms(1)
  proof (induction xs ss rule: list_all2_induct)
    case Nil
    then show ?case by (simp add: answers_def)
  next
    case (Cons x xs s ss)
    show ?case
    proof (rule answersI)
      fix bs
      obtain m bs1 where m: "f x bs = Some (Inr (m, bs1))" "s \<longrightarrow> m"
        using answersD [OF Cons.hyps(1), of bs] by auto
      obtain k bs2 where k: "match_every f xs bs1 = Some (Inr (k, bs2))" "list_all (\<lambda>s. s) ss \<longrightarrow> k"
        using answersD [OF Cons.IH, of bs1] by auto
      show "\<exists>m bs'. match_every f (x # xs) bs = Some (Inr (m, bs')) \<and> (list_all (\<lambda>s. s) (s # ss) \<longrightarrow> m)"
        using m k by (cases m) auto
    qed
  qed
  then have all: "\<exists>m bs'. match_every f xs bs = Some (Inr (m, bs')) \<and> (chosen \<longrightarrow> m)" for bs
    using assms(2) unfolding answers_def by meson
  show ?thesis
  proof (rule answersI)
    fix bs
    show "\<exists>m bs'. match_parts f xs bs = Some (Inr (m, bs')) \<and> (chosen \<longrightarrow> m)"
      using all [of bs] by (auto simp: match_parts_def restore_def)
  qed
qed

abbreviation selected :: "pattern \<Rightarrow> vm_value data \<Rightarrow> bool" where
  "selected \<equiv> selects (\<lambda>_ _. False)"

definition settles :: "('a, 'e) coverage_env \<Rightarrow> function_id \<Rightarrow> match_env \<Rightarrow> pattern \<Rightarrow> bool" where
  "settles env f me p \<longleftrightarrow> (\<forall>t v d. pattern_typed env f p t \<longrightarrow> denotes env f me t v d \<longrightarrow>
     answers (\<lambda>bs. vm_matches me (p, v, bs)) (selected p d))"

lemma settlesD:
  "settles env f me p \<Longrightarrow> pattern_typed env f p t \<Longrightarrow> denotes env f me t v d \<Longrightarrow>
   answers (\<lambda>bs. vm_matches me (p, v, bs)) (selected p d)"
  unfolding settles_def by blast

subsection \<open>Reading a part in place\<close>

lemma read_origin: "place_read st r = Some (Inr v) \<Longrightarrow> \<exists>s. st (ph_origin r) = Some s"
  by (cases "st (ph_origin r)") (simp_all add: place_read.simps [of st r])

lemma field_read:
  assumes "place_read st r = Some (Inr (RecordV rid n fs))" "fields_get fs name = Some w"
  shows "place_read st (pattern_field r name) = Some (Inr w)"
  using assms read_origin [OF assms(1)] by (auto simp: pattern_field_def read_projected)

lemma payload_read:
  assumes "place_read st r = Some (Inr (VariantV vid n alternative ps))" "i < length ps"
  shows "place_read st (place_payload r alternative i) = Some (Inr (ps ! i))"
  using assms read_origin [OF assms(1)] by (auto simp: place_payload_def read_projected get_def)

lemma projected_denotes:
  assumes "place_read (me_store me) place = Some (Inr w)" "denotes env f me t w d"
  shows "\<exists>u. projected (me_store me) place = Some (Inr u) \<and> denotes env f me t u d"
proof (cases "is_borrowed w")
  case True
  then show ?thesis using assms by (auto simp: is_borrowed_iff projected_def)
next
  case False
  then have "projected (me_store me) place = Some (Inr (ReferenceV place))"
    using assms(1) by (auto simp: projected_def is_borrowed_def split: vm_value.splits)
  then show ?thesis using denotes.borrowed [OF assms] by blast
qed

lemma match_place_answers:
  assumes "settles env f me q" "pattern_typed env f q t"
    and "place_read (me_store me) place = Some (Inr w)" "denotes env f me t w d"
  shows "answers (match_place (vm_matches me) (me_store me) place q) (selected q d)"
proof -
  obtain u where "projected (me_store me) place = Some (Inr u)" "denotes env f me t u d"
    using projected_denotes [OF assms(3,4)] by blast
  then show ?thesis using settlesD [OF assms(1,2)] by (simp add: match_place_def [abs_def])
qed

subsection \<open>Records and variants\<close>

definition field_denoted where
  "field_denoted env f me fs g x \<longleftrightarrow> settles env f me (snd x) \<and>
     (\<exists>ft w. fields_get fs (fst x) = Some w \<and> denotes env f me ft w (g (fst x)) \<and> pattern_typed env f (snd x) ft)"

lemma match_fields_answers:
  assumes "\<And>x. x \<in> set ps \<Longrightarrow> answers (f x) (selected (snd x) (g (fst x)))"
  shows "answers (match_parts f ps) (\<forall>x \<in> set ps. selected (snd x) (g (fst x)))"
  by (rule match_parts_answers [where ss = "map (\<lambda>x. selected (snd x) (g (fst x))) ps"])
    (auto simp: list_all2_conv_all_nth list_all_iff intro: assms)

lemma owned_record_answers:
  assumes "\<And>x. x \<in> set ps \<Longrightarrow> field_denoted env f me fs g x"
  shows "answers (match_parts (match_field (vm_matches me) fs) ps) (\<forall>x \<in> set ps. selected (snd x) (g (fst x)))"
proof (rule match_fields_answers)
  fix x assume "x \<in> set ps"
  then obtain ft w where "fields_get fs (fst x) = Some w" "denotes env f me ft w (g (fst x))"
      "pattern_typed env f (snd x) ft" "settles env f me (snd x)"
    using assms unfolding field_denoted_def by blast
  then show "answers (match_field (vm_matches me) fs x) (selected (snd x) (g (fst x)))"
    using settlesD by (fastforce simp: match_field_def [abs_def])
qed

lemma borrowed_record_answers:
  assumes "\<And>x. x \<in> set ps \<Longrightarrow> field_denoted env f me fs g x"
    and "place_read (me_store me) r = Some (Inr (RecordV rid n fs))"
  shows "answers (match_parts (\<lambda>x bindings.
      if \<not> contains_key fs (fst x) then Some (Inr (False, bindings))
      else match_place (vm_matches me) (me_store me) (pattern_field r (fst x)) (snd x) bindings) ps)
    (\<forall>x \<in> set ps. selected (snd x) (g (fst x)))"
proof (rule match_fields_answers)
  fix x assume "x \<in> set ps"
  then obtain ft w where w: "fields_get fs (fst x) = Some w" "denotes env f me ft w (g (fst x))"
      "pattern_typed env f (snd x) ft" "settles env f me (snd x)"
    using assms(1) unfolding field_denoted_def by blast
  have "contains_key fs (fst x)"
    using w(1) by (auto simp: contains_key_def fields_get_def split: option.splits)
  then show "answers (\<lambda>bindings. if \<not> contains_key fs (fst x) then Some (Inr (False, bindings))
      else match_place (vm_matches me) (me_store me) (pattern_field r (fst x)) (snd x) bindings)
    (selected (snd x) (g (fst x)))"
    using match_place_answers [OF w(4,3) field_read [OF assms(2) w(1)] w(2)] by simp
qed

definition payload_denoted where
  "payload_denoted env f me qs ts ps ds \<longleftrightarrow> length qs = length ps \<and> length ts = length ps \<and> length ds = length ps \<and>
     (\<forall>i < length ps. settles env f me (qs ! i) \<and> pattern_typed env f (qs ! i) (ts ! i) \<and>
       denotes env f me (ts ! i) (ps ! i) (ds ! i))"

lemma owned_payload_answers:
  assumes "payload_denoted env f me qs ts ps ds"
  shows "answers (match_parts (\<lambda>x bindings. vm_matches me (fst x, snd x, bindings)) (zip qs ps)) (list_all2 selected qs ds)"
  using assms unfolding payload_denoted_def
  by (intro match_parts_answers [where ss = "map2 selected qs ds"])
    (auto simp: list_all2_conv_all_nth list_all_length settlesD)

lemma borrowed_payload_answers:
  assumes "payload_denoted env f me qs ts ps ds"
    and "place_read (me_store me) r = Some (Inr (VariantV vid n alternative ps))"
  shows "answers (match_parts (\<lambda>x bindings.
      match_place (vm_matches me) (me_store me) (place_payload r alternative (fst x)) (snd x) bindings) (enumerate 0 qs))
    (list_all2 selected qs ds)"
  using assms(1) unfolding payload_denoted_def
  by (intro match_parts_answers [where ss = "map2 selected qs ds"])
    (auto simp: list_all2_conv_all_nth list_all_length nth_enumerate_eq
      intro!: match_place_answers payload_read [OF assms(2)])

section \<open>The induction\<close>

inductive_cases denotesE: "denotes env f me t v d"

definition parts_settle where
  "parts_settle env f me p \<longleftrightarrow> (\<forall>q. size q < size p \<longrightarrow> settles env f me q)"

lemma record_part_settles:
  assumes "parts_settle env f me p" "unspanned p = Record_pat qs" "x \<in> set qs"
  shows "settles env f me (snd x)"
proof -
  have "size (snd x) \<le> size_prod (\<lambda>_. 0) size x" by (cases x) simp
  then have "size (snd x) < size (unspanned p)"
    using assms(2) size_list_estimation' [OF assms(3), of "size (snd x)" "size_prod (\<lambda>_. 0) size"] by simp
  then show ?thesis using assms(1) size_unspanned [of p] unfolding parts_settle_def by simp
qed

lemma variant_part_settles:
  assumes "parts_settle env f me p" "unspanned p = Variant_pat w qs" "q \<in> set qs"
  shows "settles env f me q"
proof -
  have "size q < size (unspanned p)"
    using assms(2) size_list_estimation' [OF assms(3), of "size q" size] by simp
  then show ?thesis using assms(1) size_unspanned [of p] unfolding parts_settle_def by simp
qed

lemma denoted_fields:
  assumes "denotes env f me t v d" "\<not> is_borrowed v" "parts_settle env f me p"
    and "pattern_typed env f p t" "unspanned p = Record_pat qs"
  shows "\<exists>rid n fs g. v = RecordV rid n fs \<and> d = Record_data g \<and> (\<forall>x \<in> set qs. field_denoted env f me fs g x)"
proof -
  obtain r args where r: "referent env t = Some (TRecord r args)" "structural_record env r"
      "\<forall>x \<in> set qs. case ce_field_type env f r args (fst x) of Inl _ \<Rightarrow> False | Inr ft \<Rightarrow> pattern_typed env f (snd x) ft"
    using assms(4,5) typed_unspanned [of env f p t] by (auto split: option.splits checked_type.splits)
  have "\<exists>rid n fs g. v = RecordV rid n fs \<and> d = Record_data g \<and>
      (\<forall>name ft. ce_field_type env f r args name = Inr ft \<longrightarrow>
         (\<exists>w. fields_get fs name = Some w \<and> denotes env f me ft w (g name)))"
    using assms(1) r(1,2) assms(2) by (cases rule: denotesE) (auto simp: is_borrowed_iff)
  then obtain rid n fs g where v: "v = RecordV rid n fs" "d = Record_data g"
      "\<And>name ft. ce_field_type env f r args name = Inr ft \<Longrightarrow>
         \<exists>w. fields_get fs name = Some w \<and> denotes env f me ft w (g name)"
    by blast
  have "field_denoted env f me fs g x" if "x \<in> set qs" for x
    using record_part_settles [OF assms(3,5) that] r(3) that v(3)
    unfolding field_denoted_def by (fastforce split: sum.splits)
  then show ?thesis using v(1,2) by blast
qed

lemma denoted_payload:
  assumes "denotes env f me t v d" "\<not> is_borrowed v" "parts_settle env f me p" "metadata_of env me"
    and "pattern_typed env f p t" "unspanned p = Variant_pat c qs"
  shows "\<exists>vid rv ps w ds expected. v = VariantV vid (rv_type_name rv) (rv_alternative rv) ps \<and> d = Variant_data w ds \<and>
    length ds = length ps \<and> map_of (variants (me_metadata me)) c = Some expected \<and> (c = w \<longrightarrow> expected = rv) \<and>
    (variant_fits expected (rv_type_name rv) (rv_alternative rv) qs ps \<longrightarrow> c = w \<and> (\<exists>ts. payload_denoted env f me qs ts ps ds))"
proof -
  obtain parent args ts where t: "referent env t = Some (TVariant parent args)"
      "c \<in> set (vt_alternatives (ce_variant_types env parent))" "payload_types env parent args c = Inr ts"
      "list_all2 (pattern_typed env f) qs ts"
    using assms(5,6) typed_unspanned [of env f p t]
    by (auto split: option.splits checked_type.splits sum.splits)
  obtain vid w rv us ps ds where v: "v = VariantV vid (rv_type_name rv) (rv_alternative rv) ps" "d = Variant_data w ds"
      "payload_types env parent args w = Inr us" "map_of (variants (me_metadata me)) w = Some rv"
      "length ps = length us" "length ds = length us"
      "\<And>i. i < length us \<Longrightarrow> denotes env f me (us ! i) (ps ! i) (ds ! i)"
    using assms(1) t(1) assms(2) by (cases rule: denotesE) (auto simp: is_borrowed_iff)
  obtain expected where e: "map_of (variants (me_metadata me)) c = Some expected"
    using assms(4) t(2) unfolding metadata_of_def by blast
  have "c = w \<and> payload_denoted env f me qs ts ps ds"
    if fits: "variant_fits expected (rv_type_name rv) (rv_alternative rv) qs ps"
  proof -
    have c: "c = w" using assms(4) e v(4) fits unfolding metadata_of_def variant_fits_def by metis
    then have "us = ts" using t(3) v(3) by simp
    then show ?thesis
      using c v(5-7) fits t(4) variant_part_settles [OF assms(3,6)]
      unfolding payload_denoted_def variant_fits_def by (auto simp: list_all2_conv_all_nth)
  qed
  moreover have "c = w \<longrightarrow> expected = rv" using e v(4) by auto
  ultimately show ?thesis
    using v(1,2,5,6) e
    by (intro exI [of _ vid] exI [of _ rv] exI [of _ ps] exI [of _ w] exI [of _ ds] exI [of _ expected]) auto
qed

lemma unspanned_plain: "unspanned p \<noteq> Spanned q sp"
  by (induction p rule: unspanned.induct) auto

lemma plain_answers:
  assumes "denotes env f me t v d" "\<not> is_borrowed v" "parts_settle env f me p" "metadata_of env me" "pattern_typed env f p t"
  shows "answers (match_plain (vm_matches me) me p v) (selected p d)"
proof -
  have s: "selected p d = selected (unspanned p) d" by (simp add: selects_unspanned)
  show ?thesis
  proof (cases "unspanned p")
    case (Record_pat qs)
    then show ?thesis
      using denoted_fields [OF assms(1-3,5)] owned_record_answers
      by (fastforce simp: s match_plain_def [abs_def])
  next
    case (Variant_pat c qs)
    obtain vid rv ps w ds expected where v: "v = VariantV vid (rv_type_name rv) (rv_alternative rv) ps" "d = Variant_data w ds"
      "length ds = length ps" "map_of (variants (me_metadata me)) c = Some expected" "c = w \<longrightarrow> expected = rv"
      "variant_fits expected (rv_type_name rv) (rv_alternative rv) qs ps \<longrightarrow> c = w \<and> (\<exists>ts. payload_denoted env f me qs ts ps ds)"
      using denoted_payload [OF assms Variant_pat] by blast
    have selects: "selected p d \<longleftrightarrow> c = w \<and> list_all2 selected qs ds"
      unfolding s Variant_pat by (simp add: v(2))
    show ?thesis
    proof (cases "variant_fits expected (rv_type_name rv) (rv_alternative rv) qs ps")
      case True
      then obtain ts where "payload_denoted env f me qs ts ps ds" "selected p d = list_all2 selected qs ds"
        using v(6) selects by blast
      then show ?thesis
        using owned_payload_answers True by (simp add: Variant_pat v(1,4) match_plain_def [abs_def])
    next
      case False
      then have "\<not> selected p d" using v(3,5) by (auto simp: selects variant_fits_def dest: list_all2_lengthD)
      then show ?thesis using False by (simp add: Variant_pat v(1,4) match_plain_def [abs_def] answers_no)
    qed
  next
    case (Bool_pat b)
    have "v = BoolV b" if "d = Bool_data b" using assms(1,2) that by (auto simp: is_borrowed_iff elim: denotesE)
    then show ?thesis by (cases "d = Bool_data b") (simp_all add: s Bool_pat match_plain_def [abs_def] answers_no)
  qed (auto simp: s match_plain_def [abs_def] Let_def unspanned_plain intro: answers_no)
qed

lemma borrowed_answers:
  assumes "place_read (me_store me) r = Some (Inr v)" "denotes env f me t v d"
    and "answers (\<lambda>bs. vm_matches me (p, v, bs)) (selected p d)"
    and "parts_settle env f me p" "metadata_of env me" "pattern_typed env f p t"
  shows "answers (match_borrowed (vm_matches me) me p r v) (selected p d)"
proof (cases "is_borrowed v")
  case True
  then show ?thesis using assms(3) by (cases "unspanned p") (auto simp: is_borrowed_iff match_borrowed_def [abs_def])
next
  case owned: False
  have s: "selected p d = selected (unspanned p) d" by (simp add: selects_unspanned)
  show ?thesis
  proof (cases "unspanned p")
    case (Record_pat qs)
    obtain rid n fs g where v: "v = RecordV rid n fs" "d = Record_data g" "\<forall>x \<in> set qs. field_denoted env f me fs g x"
      using denoted_fields [OF assms(2) owned assms(4,6) Record_pat] by blast
    have "selected p d \<longleftrightarrow> (\<forall>x \<in> set qs. selected (snd x) (g (fst x)))"
      unfolding s Record_pat by (simp add: v(2))
    then show ?thesis
      using borrowed_record_answers [of qs env f me fs g r rid n] assms(1) v(3)
      by (simp add: v(1) Record_pat match_borrowed_def [abs_def])
  next
    case (Variant_pat c qs)
    obtain vid rv ps w ds expected where v: "v = VariantV vid (rv_type_name rv) (rv_alternative rv) ps" "d = Variant_data w ds"
      "length ds = length ps" "map_of (variants (me_metadata me)) c = Some expected" "c = w \<longrightarrow> expected = rv"
      "variant_fits expected (rv_type_name rv) (rv_alternative rv) qs ps \<longrightarrow> c = w \<and> (\<exists>ts. payload_denoted env f me qs ts ps ds)"
      using denoted_payload [OF assms(2) owned assms(4-6) Variant_pat] by blast
    have selects: "selected p d \<longleftrightarrow> c = w \<and> list_all2 selected qs ds"
      unfolding s Variant_pat by (simp add: v(2))
    show ?thesis
    proof (cases "variant_fits expected (rv_type_name rv) (rv_alternative rv) qs ps")
      case True
      then obtain ts where "payload_denoted env f me qs ts ps ds" "selected p d = list_all2 selected qs ds"
        using v(6) selects by blast
      then show ?thesis
        using borrowed_payload_answers assms(1) True by (simp add: Variant_pat v(1,4) match_borrowed_def [abs_def])
    next
      case False
      then have "\<not> selected p d" using v(3,5) by (auto simp: selects variant_fits_def dest: list_all2_lengthD)
      then show ?thesis using False by (simp add: Variant_pat v(1,4) match_borrowed_def [abs_def] answers_no)
    qed
  qed (use assms(3) in \<open>simp_all add: match_borrowed_def [abs_def]\<close>)
qed

lemma every_pattern_settles:
  assumes "metadata_of env me"
  shows "settles env f me p"
proof (induction p rule: measure_induct_rule [of size])
  case (less p)
  have parts: "parts_settle env f me p" using less unfolding parts_settle_def by blast
  have "answers (\<lambda>bs. vm_matches me (p, v, bs)) (selected p d)"
    if "denotes env f me t v d" "pattern_typed env f p t" for t v d
    using that
  proof (induction rule: denotes.induct)
    case (borrowed q v t d)
    then show ?case
      using borrowed_answers [OF borrowed.hyps borrowed.IH [OF borrowed.prems] parts assms borrowed.prems]
      by (simp add: vm_matches_borrowed)
  next
    case (other t u v)
    then show ?case using plain_answers [OF denotes.other [OF other.hyps] _ parts assms other.prems] by (simp add: vm_matches_plain)
  next
    case (bool t b)
    have "denotes env f me t (BoolV b) (Bool_data b)" by (rule denotes.bool [OF bool.hyps])
    then show ?case
      using plain_answers [OF _ _ parts assms bool.prems] by (simp add: vm_matches_plain is_borrowed_iff)
  next
    case (variant t parent args v ts rv ps ds vid)
    have "denotes env f me t (VariantV vid (rv_type_name rv) (rv_alternative rv) ps) (Variant_data v ds)"
      by (rule denotes.variant [OF variant.hyps])
    then show ?case
      using plain_answers [OF _ _ parts assms variant.prems] by (simp add: vm_matches_plain is_borrowed_iff)
  next
    case (fields_of t r args fs w g rid n)
    have "denotes env f me t (RecordV rid n fs) (Record_data g)"
      by (rule denotes.fields_of [OF fields_of(1,2)]) (use fields_of(3) in blast)
    then show ?case
      using plain_answers [OF _ _ parts assms fields_of.prems] by (simp add: vm_matches_plain is_borrowed_iff)
  qed
  then show ?case unfolding settles_def by blast
qed

text \<open>
  C3. An exhaustive branch is decided in the machine. When the check accepts a branch, then on every
  value of the subject's type, owned or behind references, the match of every pattern arm answers
  without an error, and there is a wildcard arm or a pattern arm that fits, which adds to any
  bindings the same values, as many as the verifier counts for the pattern.
\<close>

theorem checked_branch_decided:
  assumes "check_branch_coverage env f subject arms = Some (Inr ())"
    and "\<forall>p. Pattern_test p \<in> set arms \<longrightarrow> pattern_formed env p \<and> pattern_typed env f p subject"
    and "metadata_of env me" "denotes env f me subject v d"
  shows "(\<forall>p bs. Pattern_test p \<in> set arms \<longrightarrow> (\<exists>answer. vm_matches me (p, v, bs) = Some (Inr answer))) \<and>
    (Wildcard_test \<in> set arms \<or>
     (\<exists>p cs. Pattern_test p \<in> set arms \<and> length cs = pattern_binding_count p \<and>
        (\<forall>bs. vm_matches me (p, v, bs) = Some (Inr (True, bs @ cs)))))"
proof (rule conjI)
  have settled: "answers (\<lambda>bs. vm_matches me (p, v, bs)) (selected p d)" if "Pattern_test p \<in> set arms" for p
    using settlesD [OF every_pattern_settles [OF assms(3)] _ assms(4)] assms(2) that by blast
  show "\<forall>p bs. Pattern_test p \<in> set arms \<longrightarrow> (\<exists>answer. vm_matches me (p, v, bs) = Some (Inr answer))"
    using settled unfolding answers_def by blast
  obtain arm where arm: "arm \<in> set arms" "arm_selects (\<lambda>_ _. False) arm d"
    using exhaustive_branch [OF assms(1) _ denotes_inhabits [OF assms(4)]] assms(2) by blast
  show "Wildcard_test \<in> set arms \<or>
     (\<exists>p cs. Pattern_test p \<in> set arms \<and> length cs = pattern_binding_count p \<and>
        (\<forall>bs. vm_matches me (p, v, bs) = Some (Inr (True, bs @ cs))))"
  proof (cases arm)
    case (Pattern_test p)
    then obtain bs' where "vm_matches me (p, v, []) = Some (Inr (True, bs'))"
      using answersD [OF settled, of p "[]"] arm by auto
    then show ?thesis using vm_matches_bound [of me p v "[]" True bs'] arm(1) Pattern_test by auto
  qed (use arm in auto)
qed

text \<open>A branch on a borrowed option: \<open>Some True\<close> behind a reference.\<close>

definition option_metadata :: program_metadata where
  "option_metadata =
     \<lparr>symbols = default_table, constants = [], main = None, main_arguments = False,
      string_record = None, symbol_record = None, list_record = None, bytes_record = None,
      byte_buffer_record = None, remote_result = None, remote_error = None, records = [], dispatch = [],
      variants =
        [(0, \<lparr>rv_parent = 0, rv_type_name = ''Option'', rv_parameters = [], rv_alternative = ''Some'', rv_payload = [Bool]\<rparr>),
         (1, \<lparr>rv_parent = 0, rv_type_name = ''Option'', rv_parameters = [], rv_alternative = ''None'', rv_payload = []\<rparr>)]\<rparr>"

definition some_true :: vm_value where
  "some_true = VariantV (Some 0) ''Option'' ''Some'' [BoolV True]"

definition option_machine :: match_env where
  "option_machine = \<lparr>me_metadata = option_metadata,
     me_store = [0 \<mapsto> \<lparr>sl_value = some_true, sl_generation = 0, sl_projected = Map.empty\<rparr>], me_floats = bit_floats\<rparr>"

lemma option_metadata_of: "metadata_of option_env option_machine"
  by (auto simp: metadata_of_def option_machine_def option_metadata_def option_alternatives split: if_splits)

lemma some_true_denotes:
  "denotes option_env 0 option_machine (TVariant 0 []) (ReferenceV (place_whole 0)) (Variant_data 0 [Bool_data True])"
proof (rule denotes.borrowed)
  show "place_read (me_store option_machine) (place_whole 0) = Some (Inr some_true)"
    by (subst place_read.simps) (simp add: option_machine_def place_whole_def some_true_def)
  obtain rv where rv: "map_of (variants (me_metadata option_machine)) 0 = Some rv"
      "rv_type_name rv = ''Option''" "rv_alternative rv = ''Some''"
    by (simp add: option_machine_def option_metadata_def)
  have "denotes option_env 0 option_machine (TVariant 0 [])
      (VariantV (Some 0) (rv_type_name rv) (rv_alternative rv) [BoolV True]) (Variant_data 0 [Bool_data True])"
    by (rule denotes.variant [OF referent_ground(2) _ option_payloads(1) rv(1)])
      (simp_all add: option_alternatives denotes.bool referent_ground)
  then show "denotes option_env 0 option_machine (TVariant 0 []) some_true (Variant_data 0 [Bool_data True])"
    by (simp add: some_true_def rv(2,3))
qed

theorem checked_branch_decided_witness:
  "\<exists>p cs. Pattern_test p \<in> set option_arms \<and>
     vm_matches option_machine (p, ReferenceV (place_whole 0), [UnitV]) = Some (Inr (True, UnitV # cs))"
proof -
  have "\<forall>p. Pattern_test p \<in> set option_arms \<longrightarrow> pattern_formed option_env p \<and> pattern_typed option_env 0 p (TVariant 0 [])"
    using option_arms_formed by (auto simp: option_arms_def referent_ground option_payloads option_alternatives)
  then have "Wildcard_test \<in> set option_arms \<or>
     (\<exists>p cs. Pattern_test p \<in> set option_arms \<and> length cs = pattern_binding_count p \<and>
        (\<forall>bs. vm_matches option_machine (p, ReferenceV (place_whole 0), bs) = Some (Inr (True, bs @ cs))))"
    using checked_branch_decided [OF option_arms_checked _ option_metadata_of some_true_denotes] by blast
  moreover have "Wildcard_test \<notin> set option_arms" by (simp add: option_arms_def)
  ultimately show ?thesis by fastforce
qed

end
