(* ===== verification/VM_Operator_Laws.thy ===== *)
theory VM_Operator_Laws
  imports VM_Patterns
begin

text \<open>
  The operators of the machine against the types that the flow analysis computes for them. A value
  has a type when it passes the machine's own test of types, \<open>type_conforms\<close>.
\<close>

section \<open>Values of a type\<close>







section \<open>Numbers and sums\<close>






section \<open>The property\<close>



lemma verified_unary_typed:
  assumes "type_conforms v operand" "unary_type index operator operand = Inr t"
  shows "(\<exists>w. unary fo operator v = Inr w \<and> type_conforms w t) \<or>
    unary fo operator v = Inl IntegerOverflow \<and> operator = Negate \<and> t = Integer"
  using assms
  by (cases operand; cases operator)
    (auto simp: unary_def unary_type_def is_integer_like_def checked_integer_def split: option.splits vm_value.splits)

end
