(* ===== verification/Spec2Isabelle.thy ===== *)
theory Spec2Isabelle
  imports Type_Laws Protected_Slots Linking_Laws Flow_Typing Copy_Divergence Constant_Pool
    Resource_Types VM_Coverage VM_Operator_Laws
begin

text \<open>
  Verification of the Foster compiler's executable layer: the bytecode crate (\<open>src/bytecode/src\<close>),
  the optimizer of the VM backend (\<open>src/compiler/src/vm/optimizer\<close>), of the type checker
  unification with variables and exhaustiveness of branches (\<open>src/compiler/src/typecheck\<close>), and of
  the virtual machine its values, places, operators and pattern matching (\<open>src/vm/src\<close>).

  The program. The front end lowers a source program to functions over numbered slots with
  metadata and a symbol table. The optimizer shortens jumps, propagates copies, removes dead
  writes, packs slots and rebuilds the constant table; lifetime lowering then inserts the releases
  of slots. The program is verified (metadata, structure, a flow analysis of every function,
  validation of the symbols) and written as a bytecode file; a file that is read back is linked
  and verified again before the virtual machine or the native backend uses it.

  Theories and sources.

  \<^item> \<open>Prelude\<close>, \<open>Comparison\<close>: integers at their width, \<open>Result\<close> as a sum, lists; derived orders.

  \<^item> \<open>Exec_Types\<close>, \<open>Type_Ops\<close>, \<open>Type_Laws\<close>: \<open>codegen/types.rs\<close>. A type is a datatype with the
  constructors of \<open>ExecutableType\<close>; canonical alternatives, specializations (sorted tables with
  binary search), substitution and inference. Laws: the canonical form is an invariant,
  specializing refines substituting a map, renaming is all or nothing, inference recovers.

  \<^item> \<open>Intrinsics\<close>: \<open>intrinsics/registry.rs\<close>, the tables row by row. Laws: tags and keys identify rows.

  \<^item> \<open>Symbols\<close>, \<open>Symbol_Check\<close>, \<open>Symbol_Laws\<close>, \<open>Linking\<close>, \<open>Linking_Laws\<close>: \<open>symbols.rs\<close> and
  \<open>symbols/linking.rs\<close>. Laws: canonical order, resolution, compatibility as safe substitution, what
  validation establishes for imports and calls between modules, linkage as a transaction.

  \<^item> \<open>Program\<close>, \<open>Resource_Types\<close>: \<open>codegen/storage.rs\<close>, \<open>hir.rs\<close>, \<open>codegen/metadata.rs\<close>. Laws: the
  two register visitors agree, bodies keep instructions and spans paired, record layouts, the
  search for C resources is reachability through the parts of types, remote handles, functions,
  alternatives and alias arguments excepted.

  \<^item> \<open>Wire\<close>, \<open>Wire_Laws\<close>, \<open>Codec\<close>, \<open>Reader_Bounds\<close>, \<open>Codec_Laws\<close>, \<open>Binary\<close>: \<open>binary.rs\<close>,
  \<open>binary/write.rs\<close>, \<open>binary/read.rs\<close>. Laws: round trips of every codec and of the file, unique
  decodability, readers stay inside untrusted input, determinism of the bytes.

  \<^item> \<open>Liveness\<close>, \<open>Liveness_Laws\<close>, \<open>Bit_Rows\<close>, \<open>Liveness_Correct\<close>: \<open>codegen/storage/analysis.rs\<close>.
  Laws: the worklists end, agree, and compute liveness along paths.

  \<^item> \<open>Lifetimes\<close>, \<open>Lowered_Code\<close>, \<open>Lifetimes_Laws\<close>, \<open>Protected_Slots\<close>:
  \<open>codegen/storage/lifetimes.rs\<close>. Laws: lowering never panics on closed bodies, keeps the control
  flow and releases on every edge exactly what dies there, each slot once; of the origin of a
  reference no release is added.

  \<^item> \<open>Flow_Types\<close>, \<open>Flow_State\<close>, \<open>Flow_Transfer\<close>, \<open>Flow_Engine\<close>, \<open>Worklist\<close>, \<open>Flow_Order\<close>,
  \<open>Flow_Laws\<close>, \<open>Flow_Typing\<close>: \<open>codegen/flow.rs\<close> (schemas) and \<open>codegen/flow/engine\<close>. Laws: an
  analysis that returns types the function; it returns on forward jumps.

  \<^item> \<open>Slot_Flow\<close>, \<open>Verification\<close>: \<open>codegen/storage/schema.rs\<close>, \<open>codegen/storage/verification.rs\<close>.

  \<^item> \<open>Simulation\<close>, \<open>Slot_Machine\<close>: the machine over slots that the optimizer theorems speak of. The
  meaning of the operations (\<open>interpretation\<close> of values and world) is arbitrary: a theorem holds
  for every virtual machine that reads and writes the slots an instruction names, reaches further
  slots only when they are pinned, and has no other effect when it overwrites or releases a slot
  that is not pinned.

  \<^item> \<open>Pinned_Slots\<close>, \<open>Control_Flow\<close>, \<open>Removal\<close>, \<open>Control_Flow_Laws\<close>, \<open>Copy_Propagation\<close>,
  \<open>Copy_Laws\<close>, \<open>Copy_Divergence\<close>, \<open>Register_Passes\<close>, \<open>Renaming\<close>, \<open>Dead_Writes\<close>, \<open>Compaction\<close>,
  \<open>Compacted_Runs\<close>, \<open>Constant_Pool\<close>: \<open>vm/optimizer/storage.rs\<close>, \<open>control_flow.rs\<close>, \<open>copies.rs\<close>,
  \<open>registers.rs\<close>, \<open>constants.rs\<close>. Laws: every pass keeps the finished runs of a function; the
  rounds of the copy analysis end on forward jumps and can diverge on a loop.

  \<^item> \<open>Checker_Types\<close>, \<open>Checker_Laws\<close>: \<open>typecheck/context.rs\<close>, \<open>substitutions.rs\<close>, \<open>unify.rs\<close>. Laws:
  the paged store is a map; unification with a variable keeps substitutions acyclic, ends, and
  makes the types equal.

  \<^item> \<open>Pattern_Coverage\<close>, \<open>Coverage_Laws\<close>: \<open>typecheck/coverage.rs\<close>. Law: a branch that passes has an
  arm for every value of its subject's type.

  \<^item> \<open>VM_Values\<close>, \<open>VM_Places\<close>, \<open>VM_Place_Laws\<close>, \<open>VM_Operations\<close>, \<open>VM_Patterns\<close>,
  \<open>VM_Operator_Laws\<close>, \<open>VM_Pattern_Laws\<close>, \<open>VM_Coverage\<close>: \<open>vm/src/value.rs\<close>, \<open>operations.rs\<close>, \<open>patterns.rs\<close>. A slot has an
  address in a store, a handle names a part of it by projections, an expired slot is an
  address without one. Laws: writes are local to their place, structural changes invalidate index
  handles, arithmetic is exact or fails, operators return the type the flow analysis computed except for
  sums of operands that are neither numbers nor strings,
  and an exhaustive branch has an arm that fits in the machine, on owned and borrowed values.

  Interfaces. \<open>comparator\<close> and \<open>derived_ord\<close> (an order from a comparison or a key), \<open>wire_codec\<close> (a
  writer and the reader of its bytes), \<open>dataflow\<close> (what the worklist needs of transfer and merge),
  \<open>stuttering\<close> and \<open>lockstep\<close> (a pass between the machines of its input and its output) are locales,
  interpreted on the definitions of the components that provide them.

  Conventions. A fallible function returns a sum with the error on the left, a panic is \<open>None\<close> or
  the error \<open>Panic\<close>. Ordered maps and hash maps are association lists with distinct keys; where the
  program iterates a hash map the theorems hold for every order or the component's text says
  which order is taken. Error values stand for messages without the names they interpolate.

  Bounds and fuel. Type readers have the code's limit of 64 levels. The pattern reader runs on a
  budget of the bytes left plus one, shown never to be exhausted (\<open>r_pattern_total\<close>). The coverage
  search runs on one call more than its budget of 100000, which it uses up first: every call that
  recurses takes one from the budget. Loops of the code without a bound (the flow worklist, the
  rounds of the copy analysis, resolution in the checker, the closure of pinned slots, reads
  through references) are partial functions, \<open>None\<close> being divergence, with theorems on when they return.

  Not modelled. The front end (lexer, parser, name resolution), inference beyond unification with
  variables, ownership and effect checking: they work on the source language and enter the model
  as the programs they produce. The SSA form, its construction, optimizer and layout, and with
  them the SSA instance of the flow analysis. The native backend, which drives an external code
  generator. The interpreter's dispatch, frames and handlers, processes and storage shared between
  them, builtins and the host: the optimizer theorems quantify over their meaning. The clean-up of
  a value when its slot is overwritten or released (\<open>Drop\<close> of owned fields in \<open>vm/src/value.rs\<close>)
  is not modelled and lies outside the machines those theorems quantify over.
  \<open>vm/optimizer/closures.rs\<close>, the order in which \<open>vm/mod.rs\<close> runs the passes, and what is built for
  tests only. Drivers, language server, debugger, documentation and command line.
\<close>

end
